(* ===== verification/Prelude.thy ===== *)
theory Prelude
  imports Main "HOL-Library.Word" "HOL-Library.Char_ord" "HOL-Library.List_Lexorder"
    "HOL-Library.Product_Lexorder" "HOL-Library.Multiset"
begin

text \<open>
  Shared vocabulary of the development: what the gateway's Python sources use of the language
  and its standard library (exceptions, strings and the two identifier patterns, dictionaries
  built from pairs, UUIDs, calendar dates, UTC instants), and the generic lemmas the component
  theories rely on.

  Conventions.
  \<^item> A Python call that returns or raises is a value of \<open>'e + 'a\<close>, \<open>Inl\<close> the exception.
  \<^item> A method that mutates an object is a function from the object's state to a pair of its
    outcome and the new state, so that a mutation done before a raise stays visible.
  \<^item> A string is a list of code points below 256 (\<^typ>\<open>char\<close>); every identifier the modelled
    code accepts is ASCII.
  \<^item> A check of a value's Python type (\<open>isinstance\<close>, \<open>type(x) is T\<close>) is discharged by
    HOL's types and does not appear in the definitions, except where the source reads values
    of unknown type (the configuration builders), which use an explicit datatype.
\<close>

subsection \<open>Collections of facts\<close>

named_theorems py_def \<open>definitions of the string, dictionary and number vocabulary\<close>
named_theorems post_init \<open>the checks of the dataclass constructors\<close>
named_theorems op_def \<open>definitions of the operations of the modelled adapters\<close>

type_synonym ('e, 'a) result = "'e + 'a"

subsection \<open>Raising code\<close>

text \<open>Sequencing of raising expressions: an exception skips the rest.\<close>

definition ebind :: "'e + 'a \<Rightarrow> ('a \<Rightarrow> 'e + 'b) \<Rightarrow> 'e + 'b" where
  "ebind m f = (case m of Inl e \<Rightarrow> Inl e | Inr x \<Rightarrow> f x)"

text \<open>A guard: the rest runs only when the condition holds.\<close>

definition guarded :: "bool \<Rightarrow> 'e \<Rightarrow> 'e + 'a \<Rightarrow> 'e + 'a" where
  "guarded c e m = (if c then m else Inl e)"

lemma ebind_simps [simp]:
  "ebind (Inl e) f = Inl e"
  "ebind (Inr x) f = f x"
  by (simp_all add: ebind_def)

lemma ebind_Inr_iff [simp]: "ebind m f = Inr y \<longleftrightarrow> (\<exists>x. m = Inr x \<and> f x = Inr y)"
  by (cases m) auto

lemma ebind_Inl_iff: "ebind m f = Inl e \<longleftrightarrow> m = Inl e \<or> (\<exists>x. m = Inr x \<and> f x = Inl e)"
  by (cases m) auto

lemma guarded_Inr_iff [simp]: "guarded c e m = Inr y \<longleftrightarrow> c \<and> m = Inr y"
  by (simp add: guarded_def)

lemma guarded_True [simp]: "guarded True e m = m"
  by (simp add: guarded_def)

lemma guarded_False [simp]: "guarded False e m = Inl e"
  by (simp add: guarded_def)

text \<open>A comprehension whose body may raise: the first exception ends it.\<close>

fun emap :: "('a \<Rightarrow> 'e + 'b) \<Rightarrow> 'a list \<Rightarrow> 'e + 'b list" where
  "emap f [] = Inr []"
| "emap f (x # xs) = ebind (f x) (\<lambda>y. ebind (emap f xs) (\<lambda>ys. Inr (y # ys)))"

lemma emap_Inr_length: "emap f xs = Inr ys \<Longrightarrow> length ys = length xs"
  by (induction xs arbitrary: ys) auto

lemma emap_Inr_all2: "emap f xs = Inr ys \<longleftrightarrow> list_all2 (\<lambda>x y. f x = Inr y) xs ys"
  by (induction xs arbitrary: ys) (auto simp: list_all2_Cons1)

lemma emap_Inr_set: "emap f xs = Inr ys \<Longrightarrow> y \<in> set ys \<Longrightarrow> \<exists>x\<in>set xs. f x = Inr y"
  by (induction xs arbitrary: ys) auto

lemma emap_total: "(\<And>x. x \<in> set xs \<Longrightarrow> f x = Inr (g x)) \<Longrightarrow> emap f xs = Inr (map g xs)"
  by (induction xs) auto

subsection \<open>Methods: state, result and exceptions\<close>

type_synonym ('s, 'e, 'a) pymethod = "'s \<Rightarrow> ('e + 'a) \<times> 's"

definition ret :: "'a \<Rightarrow> ('s, 'e, 'a) pymethod" where
  "ret x s = (Inr x, s)"

definition raise :: "'e \<Rightarrow> ('s, 'e, 'a) pymethod" where
  "raise e s = (Inl e, s)"

definition get_state :: "('s, 'e, 's) pymethod" where
  "get_state s = (Inr s, s)"

definition lift_result :: "'e + 'a \<Rightarrow> ('s, 'e, 'a) pymethod" where
  "lift_result r s = (r, s)"

definition require :: "bool \<Rightarrow> 'e \<Rightarrow> ('s, 'e, unit) pymethod" where
  "require c e s = (if c then Inr () else Inl e, s)"

text \<open>Statement sequencing: the state reached so far is kept when the rest is skipped.\<close>

definition seq :: "('s, 'e, 'a) pymethod \<Rightarrow> ('a \<Rightarrow> ('s, 'e, 'b) pymethod) \<Rightarrow> ('s, 'e, 'b) pymethod" where
  "seq m f s = (case m s of (Inl e, s') \<Rightarrow> (Inl e, s') | (Inr x, s') \<Rightarrow> f x s')"

lemma seq_ret [simp]: "seq (ret x) f s = f x s"
  by (simp add: seq_def ret_def)

lemma seq_raise [simp]: "seq (raise e) f s = (Inl e, s)"
  by (simp add: seq_def raise_def)

lemma seq_get_state [simp]: "seq get_state f s = f s s"
  by (simp add: seq_def get_state_def)

lemma seq_require: "seq (require c e) f s = (if c then f () s else (Inl e, s))"
  by (simp add: seq_def require_def)

lemma seq_lift_Inr [simp]: "seq (lift_result (Inr x)) f s = f x s"
  by (simp add: seq_def lift_result_def)

lemma seq_lift_Inl [simp]: "seq (lift_result (Inl e)) f s = (Inl e, s)"
  by (simp add: seq_def lift_result_def)

lemma method_simps [simp]:
  "ret x s = (Inr x, s)"
  "raise e s = (Inl e, s)"
  "lift_result r s = (r, s)"
  by (simp_all add: ret_def raise_def lift_result_def)

text \<open>Inversion of a sequence that returned, and of one that raised.\<close>

lemma seq_InrE:
  assumes "seq m f s = (Inr y, t)"
  obtains x s' where "m s = (Inr x, s')" "f x s' = (Inr y, t)"
  using assms by (auto simp: seq_def split: prod.splits sum.splits)

lemma seq_Inr_iff:
  "seq m f s = (Inr y, t) \<longleftrightarrow> (\<exists>x s'. m s = (Inr x, s') \<and> f x s' = (Inr y, t))"
  by (auto simp: seq_def split: prod.splits sum.splits)

lemma require_Inr_iff [simp]: "require c e s = (Inr x, t) \<longleftrightarrow> c \<and> t = s"
  by (auto simp: require_def)

lemma get_state_Inr_iff [simp]: "get_state s = (Inr x, t) \<longleftrightarrow> x = s \<and> t = s"
  by (auto simp: get_state_def)

lemma seq_require_Inr_iff [simp]:
  "seq (require c e) f s = (Inr y, t) \<longleftrightarrow> c \<and> f () s = (Inr y, t)"
  by (simp add: seq_require)

lemma seq_lift_Inr_iff [simp]:
  "seq (lift_result r) f s = (Inr y, t) \<longleftrightarrow> (\<exists>x. r = Inr x \<and> f x s = (Inr y, t))"
  by (auto simp: seq_Inr_iff)

lemma seq_cases:
  obtains (raised) e s' where "m s = (Inl e, s')" "seq m f s = (Inl e, s')"
  | (continued) x s' where "m s = (Inr x, s')" "seq m f s = f x s'"
  by (cases "m s"; cases "fst (m s)") (auto simp: seq_def)

lemma seq_Inr: "m s = (Inr x, s') \<Longrightarrow> seq m f s = f x s'"
  by (simp add: seq_def)

lemma seq_Inl: "m s = (Inl e, s') \<Longrightarrow> seq m f s = (Inl e, s')"
  by (simp add: seq_def)

subsection \<open>Strings\<close>

abbreviation code_point :: "char \<Rightarrow> nat" where
  "code_point c \<equiv> of_char c"

text \<open>\<open>str.isspace\<close> on one code point, the characters \<open>str.strip\<close> removes.\<close>

definition py_space :: "char \<Rightarrow> bool" where
  "py_space c \<longleftrightarrow> (let n = code_point c in (9 \<le> n \<and> n \<le> 13) \<or> (28 \<le> n \<and> n \<le> 32) \<or> n = 133 \<or> n = 160)"

definition py_strip :: "string \<Rightarrow> string" where
  "py_strip s = rev (dropWhile py_space (rev (dropWhile py_space s)))"

text \<open>The recurring guard \<open>if not value or value.strip() != value\<close>, negated.\<close>

definition normalized :: "string \<Rightarrow> bool" where
  "normalized s \<longleftrightarrow> s \<noteq> [] \<and> py_strip s = s"

definition is_lower :: "char \<Rightarrow> bool" where
  "is_lower c \<longleftrightarrow> 97 \<le> code_point c \<and> code_point c \<le> 122"

definition is_upper :: "char \<Rightarrow> bool" where
  "is_upper c \<longleftrightarrow> 65 \<le> code_point c \<and> code_point c \<le> 90"

definition is_digit :: "char \<Rightarrow> bool" where
  "is_digit c \<longleftrightarrow> 48 \<le> code_point c \<and> code_point c \<le> 57"

definition is_hex :: "char \<Rightarrow> bool" where
  "is_hex c \<longleftrightarrow> is_digit c \<or> (97 \<le> code_point c \<and> code_point c \<le> 102)"

definition is_alnum :: "char \<Rightarrow> bool" where
  "is_alnum c \<longleftrightarrow> is_lower c \<or> is_upper c \<or> is_digit c"

text \<open>\<open>[A-Za-z0-9][A-Za-z0-9._-]{0,127}\<close>, matched in full.\<close>

definition opaque_id :: "string \<Rightarrow> bool" where
  "opaque_id s \<longleftrightarrow> (case s of [] \<Rightarrow> False
     | c # cs \<Rightarrow> is_alnum c \<and> length cs \<le> 127 \<and>
         list_all (\<lambda>d. is_alnum d \<or> d = CHR ''.'' \<or> d = CHR ''_'' \<or> d = CHR ''-'') cs)"

text \<open>\<open>sha256:[0-9a-f]{64}\<close>, matched in full.\<close>

definition digest_id :: "string \<Rightarrow> bool" where
  "digest_id s \<longleftrightarrow> take 7 s = ''sha256:'' \<and> length s = 71 \<and> list_all is_hex (drop 7 s)"

text \<open>\<open>^[a-z0-9](?:[a-z0-9._-]{0,126}[a-z0-9])?$\<close>, matched in full.\<close>

definition registry_identifier :: "string \<Rightarrow> bool" where
  "registry_identifier s \<longleftrightarrow> s \<noteq> [] \<and> length s \<le> 128 \<and>
     (is_lower (hd s) \<or> is_digit (hd s)) \<and> (is_lower (last s) \<or> is_digit (last s)) \<and>
     list_all (\<lambda>d. is_lower d \<or> is_digit d \<or> d = CHR ''.'' \<or> d = CHR ''_'' \<or> d = CHR ''-'') s"

text \<open>\<open>str.split(sep)\<close> with a one-character separator.\<close>

fun py_split :: "char \<Rightarrow> string \<Rightarrow> string list" where
  "py_split sep [] = [[]]"
| "py_split sep (c # cs) =
     (if c = sep then [] # py_split sep cs
      else (case py_split sep cs of [] \<Rightarrow> [[c]] | w # ws \<Rightarrow> (c # w) # ws))"

fun py_join :: "string \<Rightarrow> string list \<Rightarrow> string" where
  "py_join sep [] = []"
| "py_join sep [w] = w"
| "py_join sep (w # ws) = w @ sep @ py_join sep ws"

lemma py_split_not_Nil [simp]: "py_split sep s \<noteq> []"
  by (cases s) (auto split: list.splits)

lemma py_join_Cons: "py_join sep (w # ws) = w @ (if ws = [] then [] else sep @ py_join sep ws)"
  by (cases ws) auto

lemma py_join_split: "py_join [sep] (py_split sep s) = s"
  by (induction s) (auto simp: py_join_Cons split: list.splits)

lemma opaque_id_not_Nil: "opaque_id s \<Longrightarrow> s \<noteq> []"
  by (auto simp: opaque_id_def)

lemma is_hex_alnum: "is_hex c \<Longrightarrow> is_alnum c"
  by (auto simp: is_hex_def is_alnum_def is_lower_def)

lemma alnum_not_space: "is_alnum c \<Longrightarrow> \<not> py_space c"
  by (auto simp: is_alnum_def is_lower_def is_upper_def is_digit_def py_space_def Let_def)

lemma py_strip_ends:
  assumes "s \<noteq> []" "\<not> py_space (hd s)" "\<not> py_space (last s)"
  shows "py_strip s = s"
proof -
  have "dropWhile py_space s = s" using assms(1,2) by (cases s) auto
  moreover have "dropWhile py_space (rev s) = rev s"
    using assms(1,3) by (cases "rev s") (auto simp flip: hd_rev)
  ultimately show ?thesis by (simp add: py_strip_def)
qed

lemma registry_identifier_normalized: "registry_identifier s \<Longrightarrow> normalized s"
  unfolding normalized_def registry_identifier_def
  by (intro conjI py_strip_ends alnum_not_space) (auto simp: is_alnum_def)

subsection \<open>UUIDs\<close>

text \<open>
  \<open>uuid4()\<close> draws a 128-bit value from the operating system; the value drawn is an input of the
  model. Its \<open>hex\<close> attribute is the 32-digit lower-case rendering.
\<close>

type_synonym uuid = "128 word"

definition hex_digit :: "nat \<Rightarrow> char" where
  "hex_digit n = ''0123456789abcdef'' ! n"

definition hex_digits :: "nat \<Rightarrow> nat \<Rightarrow> string" where
  "hex_digits k n = map (\<lambda>i. hex_digit (n div 16 ^ i mod 16)) (rev [0..<k])"

definition uuid_hex :: "uuid \<Rightarrow> string" where
  "uuid_hex u = hex_digits 32 (unat u)"

lemma less_16_cases:
  "n < 16 \<Longrightarrow> n \<in> {0, 1, 2, 3, 4, 5, 6, 7, 8, 9, 10, 11, 12, 13, 14, 15 :: nat}"
  by (simp add: numeral_eq_Suc less_Suc_eq)

lemma hex_digit_is_hex: "n < 16 \<Longrightarrow> is_hex (hex_digit n)"
  by (drule less_16_cases) (auto simp: hex_digit_def is_hex_def is_digit_def)

lemma hex_digit_inj: "m < 16 \<Longrightarrow> n < 16 \<Longrightarrow> hex_digit m = hex_digit n \<Longrightarrow> m = n"
proof -
  have "distinct ''0123456789abcdef''" by simp
  then show "m < 16 \<Longrightarrow> n < 16 \<Longrightarrow> hex_digit m = hex_digit n \<Longrightarrow> m = n"
    unfolding hex_digit_def by (subst (asm) nth_eq_iff_index_eq) simp_all
qed

lemma hex_digits_Suc: "hex_digits (Suc k) n = hex_digit (n div 16 ^ k mod 16) # hex_digits k n"
  by (simp add: hex_digits_def)

text \<open>Evaluation peels off the last digit of the integer value.\<close>

fun hex_loop :: "nat \<Rightarrow> int \<Rightarrow> string \<Rightarrow> string" where
  "hex_loop 0 n acc = acc"
| "hex_loop (Suc k) n acc = hex_loop k (n div 16) (hex_digit (nat (n mod 16)) # acc)"

lemma hex_digits_snoc: "hex_digits (Suc k) n = hex_digits k (n div 16) @ [hex_digit (n mod 16)]"
proof (induction k)
  case (Suc k)
  have "hex_digits (Suc (Suc k)) n = hex_digit (n div 16 div 16 ^ k mod 16) # hex_digits (Suc k) n"
    by (simp add: hex_digits_Suc[of "Suc k"] div_mult2_eq)
  with Suc show ?case by (simp add: hex_digits_Suc[of k "n div 16"])
qed (simp add: hex_digits_def)

lemma hex_loop_digits: "hex_loop k (int n) acc = hex_digits k n @ acc"
proof (induction k arbitrary: n acc)
  case (Suc k)
  have "hex_loop (Suc k) (int n) acc = hex_loop k (int (n div 16)) (hex_digit (n mod 16) # acc)"
    by (simp add: zdiv_int nat_mod_distrib)
  with Suc show ?case by (simp add: hex_digits_snoc)
qed (simp add: hex_digits_def)

lemma uuid_hex_code [code]: "uuid_hex u = hex_loop 32 (uint u) []"
  using hex_loop_digits[of 32 "unat u" "[]"] by (simp add: uuid_hex_def)

lemma length_hex_digits [simp]: "length (hex_digits k n) = k"
  by (simp add: hex_digits_def)

lemma hex_digits_inj: "hex_digits k m = hex_digits k n \<Longrightarrow> m mod 16 ^ k = n mod 16 ^ k"
proof (induction k)
  case 0
  then show ?case by simp
next
  case (Suc k)
  from Suc.prems have d: "m div 16 ^ k mod 16 = n div 16 ^ k mod 16"
    by (auto simp: hex_digits_Suc intro: hex_digit_inj)
  from Suc have "m mod 16 ^ k = n mod 16 ^ k" by (simp add: hex_digits_Suc)
  with d show ?case
    by (simp add: mult.commute[of 16] mod_mult2_eq)
qed

lemma uuid_hex_inj [simp]: "uuid_hex u = uuid_hex v \<longleftrightarrow> u = v"
proof
  assume "uuid_hex u = uuid_hex v"
  then have "unat u mod 16 ^ 32 = unat v mod 16 ^ 32"
    unfolding uuid_hex_def by (rule hex_digits_inj)
  moreover have "unat w < 16 ^ 32" for w :: uuid
  proof -
    have "unat w < 2 ^ LENGTH(128)" by (rule unsigned_less)
    then show ?thesis by simp
  qed
  ultimately show "u = v" by (simp add: word_unat_eq_iff)
qed simp

lemma uuid_hex_chars: "c \<in> set (uuid_hex u) \<Longrightarrow> is_hex c"
  by (auto simp: uuid_hex_def hex_digits_def hex_digit_is_hex)

lemma uuid_hex_opaque [simp, intro]: "opaque_id (uuid_hex u)"
proof -
  have len: "length (uuid_hex u) = 32" by (simp add: uuid_hex_def)
  then obtain c cs where eq: "uuid_hex u = c # cs" by (cases "uuid_hex u") auto
  have "\<forall>d\<in>set (c # cs). is_alnum d"
    unfolding eq[symmetric] using uuid_hex_chars is_hex_alnum by blast
  with len eq show ?thesis
    by (auto simp: opaque_id_def list_all_iff)
qed

lemma uuid_hex_normalized [simp, intro]: "normalized (uuid_hex u)" and
  uuid_hex_length [simp]: "length (uuid_hex u) = 32"
proof -
  show len: "length (uuid_hex u) = 32" by (simp add: uuid_hex_def)
  then have ne: "uuid_hex u \<noteq> []" by auto
  have "\<not> py_space c" if "c \<in> set (uuid_hex u)" for c
    using that uuid_hex_chars is_hex_alnum alnum_not_space by blast
  with ne show "normalized (uuid_hex u)"
    unfolding normalized_def by (auto intro!: py_strip_ends)
qed

lemma uuid_hex_not_Nil [simp]: "uuid_hex u \<noteq> []"
  using uuid_hex_length[of u] by (metis list.size(3) zero_neq_numeral)

subsection \<open>Dictionaries built from pairs\<close>

text \<open>\<open>{k: v for ...}\<close>: a later pair overwrites an earlier one; \<open>len\<close> counts the keys.\<close>

definition py_dict :: "('k \<times> 'v) list \<Rightarrow> 'k \<rightharpoonup> 'v" where
  "py_dict kvs = map_of (rev kvs)"

definition py_dict_len :: "('k \<times> 'v) list \<Rightarrow> nat" where
  "py_dict_len kvs = length (remdups (map fst kvs))"

text \<open>\<open>len(set(xs)) == len(xs)\<close>: no value is repeated.\<close>

lemma py_dict_len_distinct: "py_dict_len kvs = length kvs \<longleftrightarrow> distinct (map fst kvs)"
proof -
  have "length (remdups (map fst kvs)) = length (map fst kvs) \<longleftrightarrow> distinct (map fst kvs)"
    by (simp only: length_remdups_eq remdups_id_iff_distinct)
  then show ?thesis by (simp add: py_dict_len_def)
qed

lemma py_dict_len_keyed:
  "py_dict_len (map (\<lambda>x. (key x, val x)) xs) = length xs \<longleftrightarrow> distinct (map key xs)"
  using py_dict_len_distinct[of "map (\<lambda>x. (key x, val x)) xs"] by (simp add: comp_def)

lemma py_dict_distinct: "distinct (map fst kvs) \<Longrightarrow> py_dict kvs k = Some v \<longleftrightarrow> (k, v) \<in> set kvs"
proof -
  assume "distinct (map fst kvs)"
  then have "distinct (map fst (rev kvs))" by (simp only: rev_map[symmetric] distinct_rev)
  then show ?thesis by (simp add: py_dict_def map_of_eq_Some_iff)
qed

lemma py_dict_None: "py_dict kvs k = None \<longleftrightarrow> k \<notin> fst ` set kvs"
  unfolding py_dict_def by (simp add: map_of_eq_None_iff)

lemma py_dict_SomeD: "py_dict kvs k = Some v \<Longrightarrow> (k, v) \<in> set kvs"
  unfolding py_dict_def by (auto dest: map_of_SomeD)

lemma distinct_map_fst_snoc:
  "distinct (map fst (kvs @ [(k, v)])) \<longleftrightarrow> distinct (map fst kvs) \<and> k \<notin> fst ` set kvs"
  by auto

text \<open>\<open>next((x for x in xs if p(x)), None)\<close> is \<^const>\<open>List.find\<close>.\<close>

lemma find_SomeD: "find P xs = Some x \<Longrightarrow> P x \<and> x \<in> set xs"
  by (auto simp: find_Some_iff)

lemma find_NoneD: "find P xs = None \<Longrightarrow> x \<in> set xs \<Longrightarrow> \<not> P x"
  by (auto simp: find_None_iff)

lemma find_unique:
  assumes "x \<in> set xs" "P x" "\<And>y. y \<in> set xs \<Longrightarrow> P y \<Longrightarrow> y = x"
  shows "find P xs = Some x"
proof (cases "find P xs")
  case None
  with assms(1,2) show ?thesis by (auto simp: find_None_iff)
next
  case (Some y)
  with assms(3)[of y] show ?thesis by (auto dest: find_SomeD)
qed

text \<open>A list whose groups by some key repeat nothing repeats nothing.\<close>

lemma distinct_by_groups:
  assumes "\<And>k. distinct (filter (\<lambda>x. f x = k) xs)"
  shows "distinct xs"
  using assms
proof (induction xs)
  case Nil
  then show ?case by simp
next
  case (Cons a xs)
  from Cons.prems[of "f a"] have "a \<notin> set xs" by simp
  moreover have "distinct (filter (\<lambda>x. f x = k) xs)" for k
    using Cons.prems[of k] by (cases "f a = k") simp_all
  then have "distinct xs" by (rule Cons.IH)
  ultimately show ?case by simp
qed

subsection \<open>Dates and UTC instants\<close>

datatype date = Date (year: int) (month: int) (day: int)

text \<open>\<open>d.replace(day=1)\<close>.\<close>

definition first_of_month :: "date \<Rightarrow> date" where
  "first_of_month d = Date (year d) (month d) 1"

text \<open>A \<open>datetime\<close>: whether its zone is \<open>UTC\<close>, its date and its microsecond of the day.\<close>

datatype instant = Instant (tz_utc: bool) (instant_date: date) (micro_of_day: int)

definition date_less :: "date \<Rightarrow> date \<Rightarrow> bool" where
  "date_less d e \<longleftrightarrow> year d < year e \<or> (year d = year e \<and>
     (month d < month e \<or> (month d = month e \<and> day d < day e)))"

definition instant_less :: "instant \<Rightarrow> instant \<Rightarrow> bool" where
  "instant_less s t \<longleftrightarrow> date_less (instant_date s) (instant_date t) \<or>
     (instant_date s = instant_date t \<and> micro_of_day s < micro_of_day t)"

lemma first_of_month_day [simp]: "day (first_of_month d) = 1"
  by (simp add: first_of_month_def)

lemma instant_less_irrefl [simp]: "\<not> instant_less t t"
  by (simp add: instant_less_def date_less_def)

subsection \<open>Records stored under a key\<close>

text \<open>
  Replacing the record of one key in a list of records with distinct keys: what the other
  records contribute is the whole contribution less that of the record replaced.
\<close>

definition found :: "('a \<Rightarrow> 'b) \<Rightarrow> 'b \<Rightarrow> 'a option \<Rightarrow> 'b" where
  "found f d x = (case x of None \<Rightarrow> d | Some y \<Rightarrow> f y)"

lemma found_simps [simp]: "found f d None = d" "found f d (Some y) = f y"
  by (simp_all add: found_def)

lemma filter_other_keys: "k \<notin> key ` set es \<Longrightarrow> filter (\<lambda>x. key x \<noteq> k) es = es"
  unfolding filter_id_conv by blast

lemma sum_list_by_key:
  fixes f :: "'a \<Rightarrow> int"
  assumes "distinct (map key es)"
  shows "sum_list (map f (filter (\<lambda>x. key x \<noteq> k) es)) + found f 0 (find (\<lambda>x. key x = k) es) =
         sum_list (map f es)"
  using assms
proof (induction es)
  case (Cons e es)
  show ?case
  proof (cases "key e = k")
    case True
    with Cons.prems have "filter (\<lambda>x. key x \<noteq> k) es = es" by (intro filter_other_keys) auto
    with True show ?thesis by simp
  next
    case False
    with Cons show ?thesis by simp
  qed
qed simp

lemma mset_concat_by_key:
  assumes "distinct (map key es)"
  shows "mset (concat (map F (filter (\<lambda>x. key x \<noteq> k) es))) +
           mset (found F [] (find (\<lambda>x. key x = k) es)) = mset (concat (map F es))"
  using assms
proof (induction es)
  case (Cons e es)
  show ?case
  proof (cases "key e = k")
    case True
    with Cons.prems have "filter (\<lambda>x. key x \<noteq> k) es = es" by (intro filter_other_keys) auto
    with True show ?thesis by simp
  next
    case False
    with Cons show ?thesis by simp
  qed
qed simp

lemma Union_by_key:
  assumes "distinct (map key es)"
  shows "(\<Union>x\<in>set (filter (\<lambda>x. key x \<noteq> k) es). F x) \<union> found F {} (find (\<lambda>x. key x = k) es) =
         (\<Union>x\<in>set es. F x)"
  using assms
proof (induction es)
  case (Cons e es)
  show ?case
  proof (cases "key e = k")
    case True
    with Cons.prems have "filter (\<lambda>x. key x \<noteq> k) es = es" by (intro filter_other_keys) auto
    with True show ?thesis by (simp add: Un_commute)
  next
    case False
    with Cons show ?thesis by (simp add: Un_assoc)
  qed
qed simp

lemma distinct_keys_put:
  "distinct (map key es) \<Longrightarrow> key e = k \<Longrightarrow>
   distinct (map key (filter (\<lambda>x. key x \<noteq> k) es @ [e]))"
  by (auto simp: distinct_map_filter)

lemma keys_put:
  "key e = k \<Longrightarrow> key ` set (filter (\<lambda>x. key x \<noteq> k) es @ [e]) = insert k (key ` set es)"
  by auto

lemma card_distinct_keys:
  "set (map key es) = S \<Longrightarrow> length es = card S \<longleftrightarrow> distinct (map key es)"
  by (metis card_distinct distinct_card length_map)

subsection \<open>Sums over lists of scoped amounts\<close>

lemma sum_list_map_update:
  fixes f g :: "'a \<Rightarrow> int"
  assumes "distinct xs" "x \<in> set xs" "\<And>y. y \<in> set xs \<Longrightarrow> y \<noteq> x \<Longrightarrow> f y = g y"
  shows "sum_list (map f xs) = sum_list (map g xs) + (f x - g x)"
  using assms
proof (induction xs)
  case Nil
  then show ?case by simp
next
  case (Cons z zs)
  show ?case
  proof (cases "z = x")
    case True
    then have "map f zs = map g zs" using Cons.prems by (intro map_cong) auto
    then have "sum_list (map f zs) = sum_list (map g zs)" by (rule arg_cong)
    with True show ?thesis by simp
  next
    case False
    then show ?thesis using Cons by simp
  qed
qed

lemma sum_list_nonneg_int:
  "(\<And>x. x \<in> set xs \<Longrightarrow> (0::int) \<le> f x) \<Longrightarrow> 0 \<le> sum_list (map f xs)"
  by (induction xs) auto

subsection \<open>Objects driven by calls\<close>

text \<open>
  A stateful adapter is driven by a sequence of method calls. The interface below is what its
  clients rely on: every legal call keeps the object's invariant, and the object's history only
  grows. The lemmas lift both to arbitrary call sequences; each adapter interprets the
  interface on its own methods.
\<close>

definition run_calls :: "('c \<Rightarrow> 's \<Rightarrow> 's) \<Rightarrow> 's \<Rightarrow> 'c list \<Rightarrow> 's" where
  "run_calls step s cs = foldl (\<lambda>t c. step c t) s cs"

lemma run_calls_simps [simp]:
  "run_calls step s [] = s"
  "run_calls step s (c # cs) = run_calls step (step c s) cs"
  "run_calls step s (cs @ ds) = run_calls step (run_calls step s cs) ds"
  by (simp_all add: run_calls_def)

locale call_machine =
  fixes step :: "'c \<Rightarrow> 's \<Rightarrow> 's"
    and legal :: "'c \<Rightarrow> bool"
    and inv :: "'s \<Rightarrow> bool"
  assumes inv_step: "inv s \<Longrightarrow> legal c \<Longrightarrow> inv (step c s)"
begin

lemma run_inv: "inv s \<Longrightarrow> list_all legal cs \<Longrightarrow> inv (run_calls step s cs)"
  by (induction cs arbitrary: s) (auto intro: inv_step)

end

locale history_machine = call_machine +
  fixes extends :: "'s \<Rightarrow> 's \<Rightarrow> bool"
  assumes extends_refl: "extends s s"
    and extends_trans: "extends r s \<Longrightarrow> extends s t \<Longrightarrow> extends r t"
    and extends_step: "inv s \<Longrightarrow> legal c \<Longrightarrow> extends s (step c s)"
begin

lemma run_extends: "inv s \<Longrightarrow> list_all legal cs \<Longrightarrow> extends s (run_calls step s cs)"
proof (induction cs arbitrary: s)
  case Nil
  then show ?case by (simp add: extends_refl)
next
  case (Cons c cs)
  then have "extends s (step c s)" "inv (step c s)" by (auto intro: extends_step inv_step)
  moreover from this have "extends (step c s) (run_calls step (step c s) cs)"
    using Cons by simp
  ultimately show ?case by (auto intro: extends_trans)
qed

text \<open>Every earlier state of a run is extended by every later one.\<close>

lemma run_prefix_extends:
  "inv s \<Longrightarrow> list_all legal (cs @ ds) \<Longrightarrow>
   extends (run_calls step s cs) (run_calls step s (cs @ ds))"
  by (simp add: run_extends run_inv)

end

end
