(* ===== verification/PyFloat.thy ===== *)
theory PyFloat
  imports Prelude
begin

text \<open>
  Python's \<open>float\<close> (IEEE-754 binary64) as the gateway uses it: clock readings, leases,
  cooldowns and retry delays. Every finite binary64 value is an integral multiple of the
  smallest subnormal \<open>2 ^ -1074\<close>, so a finite value is that integer. Addition, subtraction
  and multiplication are computed exactly and then rounded to 53 significant bits, ties to
  even, overflowing to an infinity; the sign of zero is not represented (no modelled operation
  can observe it).
\<close>

subsection \<open>Values, rounding and arithmetic\<close>

datatype pyfloat = Fin int | PInf | NInf | NaN

text \<open>The number of base-\<open>b\<close> digits of a natural number.\<close>

fun digit_count :: "nat \<Rightarrow> nat \<Rightarrow> nat" where
  "digit_count b n = (if b < 2 \<or> n = 0 then 0 else Suc (digit_count b (n div b)))"

declare digit_count.simps [simp del]

text \<open>\<open>n / d\<close> rounded to the nearest integer, ties to even.\<close>

definition round_half_even :: "int \<Rightarrow> int \<Rightarrow> int" where
  "round_half_even n d =
     (let q = n div d; r = n mod d in
      if 2 * r < d \<or> (2 * r = d \<and> even q) then q else q + 1)"

text \<open>The float nearest to \<open>n * 2 ^ -(1074 + s)\<close>.\<close>

definition f_round :: "int \<Rightarrow> nat \<Rightarrow> pyfloat" where
  "f_round n s =
     (let k = max (digit_count 2 (nat \<bar>n\<bar>) - 53) s;
          m = round_half_even n (2 ^ k) * 2 ^ (k - s)
      in if 2 ^ 2098 \<le> \<bar>m\<bar> then (if 0 < n then PInf else NInf) else Fin m)"

fun fneg :: "pyfloat \<Rightarrow> pyfloat" where
  "fneg (Fin a) = Fin (- a)"
| "fneg PInf = NInf"
| "fneg NInf = PInf"
| "fneg NaN = NaN"

fun fadd :: "pyfloat \<Rightarrow> pyfloat \<Rightarrow> pyfloat" where
  "fadd (Fin a) (Fin b) = f_round (a + b) 0"
| "fadd NaN _ = NaN"
| "fadd _ NaN = NaN"
| "fadd PInf NInf = NaN"
| "fadd NInf PInf = NaN"
| "fadd PInf _ = PInf"
| "fadd NInf _ = NInf"
| "fadd _ PInf = PInf"
| "fadd _ NInf = NInf"

definition fsub :: "pyfloat \<Rightarrow> pyfloat \<Rightarrow> pyfloat" where
  "fsub a b = fadd a (fneg b)"

fun fsgn :: "pyfloat \<Rightarrow> int" where
  "fsgn (Fin a) = sgn a"
| "fsgn PInf = 1"
| "fsgn NInf = -1"
| "fsgn NaN = 0"

fun fmul :: "pyfloat \<Rightarrow> pyfloat \<Rightarrow> pyfloat" where
  "fmul (Fin a) (Fin b) = f_round (a * b) 1074"
| "fmul NaN _ = NaN"
| "fmul _ NaN = NaN"
| "fmul a b = (if fsgn a * fsgn b = 0 then NaN else if 0 < fsgn a * fsgn b then PInf else NInf)"

subsection \<open>Comparison and conversion\<close>

fun ffinite :: "pyfloat \<Rightarrow> bool" where
  "ffinite (Fin _) = True"
| "ffinite _ = False"

fun flt :: "pyfloat \<Rightarrow> pyfloat \<Rightarrow> bool" where
  "flt (Fin a) (Fin b) = (a < b)"
| "flt NaN _ = False"
| "flt _ NaN = False"
| "flt PInf _ = False"
| "flt _ NInf = False"
| "flt _ _ = True"

fun feq :: "pyfloat \<Rightarrow> pyfloat \<Rightarrow> bool" where
  "feq NaN _ = False"
| "feq a b = (a = b)"

definition fle :: "pyfloat \<Rightarrow> pyfloat \<Rightarrow> bool" where
  "fle a b \<longleftrightarrow> flt a b \<or> feq a b"

text \<open>\<open>float(n)\<close> for an integer that fits; \<open>int(x)\<close> truncates towards zero.\<close>

definition float_of_int :: "int \<Rightarrow> pyfloat" where
  "float_of_int n = f_round (n * 2 ^ 1074) 0"

fun int_of_float :: "pyfloat \<Rightarrow> int option" where
  "int_of_float (Fin a) = Some (sgn a * (\<bar>a\<bar> div 2 ^ 1074))"
| "int_of_float _ = None"

abbreviation fzero :: pyfloat where
  "fzero \<equiv> Fin 0"

text \<open>\<open>isfinite(x) and x > 0\<close>, the guard on every lease and lifetime.\<close>

definition fin_pos :: "pyfloat \<Rightarrow> bool" where
  "fin_pos x \<longleftrightarrow> ffinite x \<and> flt fzero x"

subsection \<open>Laws\<close>

lemma digit_count_0 [simp]: "digit_count b 0 = 0"
  by (simp add: digit_count.simps)

lemma digit_count_lower:
  assumes "2 \<le> b" "0 < n"
  shows "b ^ (digit_count b n - 1) \<le> n"
  using assms
proof (induction b n rule: digit_count.induct)
  case (1 b n)
  show ?case
  proof (cases "n div b = 0")
    case True
    with 1 show ?thesis by (simp add: digit_count.simps[of b n])
  next
    case False
    with 1 have IH: "b ^ (digit_count b (n div b) - 1) \<le> n div b" by simp
    from False 1 have "0 < digit_count b (n div b)" by (subst digit_count.simps) auto
    then have "b ^ digit_count b (n div b) = b ^ (digit_count b (n div b) - 1) * b"
      by (metis Suc_diff_1 power_Suc2)
    also have "\<dots> \<le> n div b * b" using IH by simp
    also have "\<dots> \<le> n" by simp
    finally show ?thesis using 1 by (simp add: digit_count.simps[of b n])
  qed
qed

lemma digit_count_upper: "2 \<le> b \<Longrightarrow> n < b ^ digit_count b n"
proof (induction b n rule: digit_count.induct)
  case (1 b n)
  show ?case
  proof (cases "n = 0")
    case False
    with 1 have "n div b < b ^ digit_count b (n div b)" by simp
    then have "n < b ^ digit_count b (n div b) * b"
      using 1 by (simp add: div_less_iff_less_mult)
    with False 1 show ?thesis by (simp add: digit_count.simps[of b n] mult.commute)
  qed (use 1 in simp)
qed

lemma round_half_even_bounds: "n div d \<le> round_half_even n d" "round_half_even n d \<le> n div d + 1"
  by (simp_all add: round_half_even_def Let_def)

lemma round_half_even_1 [simp]: "round_half_even n 1 = n"
  by (simp add: round_half_even_def)

lemma f_round_0 [simp]: "f_round 0 s = Fin 0"
  by (simp add: f_round_def round_half_even_def Let_def)

text \<open>Rounding keeps the sign of every representable nonzero sum: no underflow to zero.\<close>

lemma f_round_pos:
  assumes "0 < n"
  shows "flt fzero (f_round n 0)"
proof -
  define k where "k = digit_count 2 (nat \<bar>n\<bar>) - 53"
  have "2 ^ k \<le> (2::nat) ^ (digit_count 2 (nat \<bar>n\<bar>) - 1)"
    by (rule power_increasing) (auto simp: k_def)
  also have "\<dots> \<le> nat \<bar>n\<bar>" using assms by (intro digit_count_lower) auto
  finally have "int (2 ^ k) \<le> n" using assms by linarith
  then have "1 \<le> n div 2 ^ k" by (simp add: pos_imp_zdiv_pos_iff zdiv_mono1 less_le_trans int_one_le_iff_zero_less)
  then have "0 < round_half_even n (2 ^ k)"
    using round_half_even_bounds(1)[of n "2 ^ k"] by linarith
  then show ?thesis
    using assms by (auto simp: f_round_def Let_def k_def)
qed

lemma f_round_neg_not_pos:
  assumes "n \<le> 0"
  shows "\<not> flt fzero (f_round n 0)"
proof -
  define k where "k = digit_count 2 (nat \<bar>n\<bar>) - 53"
  have "round_half_even n (2 ^ k) \<le> 0"
  proof (cases "n mod 2 ^ k = 0")
    case True
    with assms show ?thesis
      by (auto simp: round_half_even_def Let_def div_nonpos_pos_le0)
  next
    case False
    then have "n < 0" using assms by (cases "n = 0") auto
    then have "n div 2 ^ k < 0" by (simp add: div_neg_pos_less0)
    then show ?thesis using round_half_even_bounds(2)[of n "2 ^ k"] by linarith
  qed
  then have "round_half_even n (2 ^ k) * 2 ^ k \<le> 0"
    by (simp add: mult_nonpos_nonneg)
  then show ?thesis
    using assms by (auto simp: f_round_def Let_def k_def)
qed

text \<open>The sign of a float subtraction is decided by the comparison of its operands.\<close>

lemma fsub_pos_iff: "flt fzero (fsub (Fin a) (Fin b)) \<longleftrightarrow> flt (Fin b) (Fin a)"
proof (cases "0 < a - b")
  case True
  then show ?thesis using f_round_pos[of "a - b"] by (simp add: fsub_def)
next
  case False
  then show ?thesis using f_round_neg_not_pos[of "a - b"] by (simp add: fsub_def)
qed

lemma f_round_small:
  assumes "\<bar>n\<bar> < 2 ^ 53"
  shows "f_round n 0 = Fin n"
proof -
  have "digit_count 2 (nat \<bar>n\<bar>) \<le> 53"
  proof (rule ccontr)
    assume "\<not> digit_count 2 (nat \<bar>n\<bar>) \<le> 53"
    then have "53 \<le> digit_count 2 (nat \<bar>n\<bar>) - 1" and "0 < nat \<bar>n\<bar>"
      by (auto intro: gr0I)
    then have "(2::nat) ^ 53 \<le> nat \<bar>n\<bar>"
      using digit_count_lower[of 2 "nat \<bar>n\<bar>"]
      by (meson le_trans one_le_numeral order_refl power_increasing)
    then have "int (2 ^ 53) \<le> \<bar>n\<bar>" by linarith
    with assms show False by simp
  qed
  moreover have "\<not> 2 ^ 2098 \<le> \<bar>n\<bar>"
  proof -
    have "(2::int) ^ 53 \<le> 2 ^ 2098" by (rule power_increasing) auto
    with assms show ?thesis by linarith
  qed
  ultimately show ?thesis by (simp add: f_round_def Let_def)
qed

text \<open>Evaluation takes the exact case first.\<close>

lemma f_round_code [code]:
  "f_round n s = (if s = 0 \<and> \<bar>n\<bar> < 9007199254740992 then Fin n
     else let k = max (digit_count 2 (nat \<bar>n\<bar>) - 53) s;
              m = round_half_even n (2 ^ k) * 2 ^ (k - s)
          in if 2 ^ 2098 \<le> \<bar>m\<bar> then (if 0 < n then PInf else NInf) else Fin m)"
proof (cases "s = 0 \<and> \<bar>n\<bar> < 9007199254740992")
  case True
  then have "f_round n s = Fin n" using f_round_small[of n] by simp
  with True show ?thesis by simp
qed (auto simp only: f_round_def if_False)

lemma ffinite_Fin: "ffinite x \<longleftrightarrow> (\<exists>a. x = Fin a)"
  by (cases x) auto

lemma fin_pos_iff: "fin_pos x \<longleftrightarrow> (\<exists>a. x = Fin a \<and> 0 < a)"
  by (cases x) (auto simp: fin_pos_def)

lemma feq_refl [simp]: "ffinite x \<Longrightarrow> feq x x"
  by (cases x) auto

lemma feq_eq: "ffinite x \<Longrightarrow> feq x y \<longleftrightarrow> x = y"
  by (cases x) auto

lemma fle_Fin [simp]: "fle (Fin a) (Fin b) \<longleftrightarrow> a \<le> b"
  by (auto simp: fle_def)

lemma flt_irrefl [simp]: "\<not> flt x x"
  by (cases x) auto

lemma flt_trans [trans]: "flt x y \<Longrightarrow> flt y z \<Longrightarrow> flt x z"
  by (cases x; cases y; cases z) auto

lemma flt_not_sym: "flt x y \<Longrightarrow> \<not> flt y x"
  by (cases x; cases y) auto

text \<open>A finite difference of finite operands is positive exactly when they are ordered.\<close>

lemma fin_pos_fsub: "ffinite a \<Longrightarrow> ffinite b \<Longrightarrow> fin_pos (fsub a b) \<Longrightarrow> flt b a"
  by (cases a; cases b) (auto simp: fin_pos_def fsub_pos_iff)

end
