(* ===== verification/Spend_Contract.thy ===== *)
theory Spend_Contract
  imports PyFloat
begin

text \<open>
  The values of the private spend-admission contract
  (\<open>domain/spend_admission.py\<close>). Each frozen dataclass is a record; the checks of its
  \<open>__post_init__\<close> are a predicate \<open>\<dots>_ok\<close>, true exactly when construction (or
  \<open>replace\<close>) returns instead of raising \<open>SpendAdmissionContractError\<close>. Construction
  validates one level: the fields' own values have been validated when they were built.
\<close>

subsection \<open>Scalar checks\<close>

definition MAX_SPEND_MICROS :: int where
  "MAX_SPEND_MICROS = 2 ^ 63 - 1"

definition require_id :: "string \<Rightarrow> bool" where
  "require_id s \<longleftrightarrow> opaque_id s"

text \<open>\<open>segment.replace("-", "").isalnum()\<close>: nonempty and alphanumeric without dashes.\<close>

definition workload_segment :: "string \<Rightarrow> bool" where
  "workload_segment w \<longleftrightarrow>
     (let v = filter (\<lambda>c. c \<noteq> CHR ''-'') w in v \<noteq> [] \<and> list_all is_alnum v)"

definition require_workload :: "string \<Rightarrow> bool" where
  "require_workload s \<longleftrightarrow> require_id s \<and>
     (let segments = py_split (CHR ''.'') s in
      2 \<le> length segments \<and> list_all workload_segment segments)"

definition require_digest :: "string \<Rightarrow> bool" where
  "require_digest s \<longleftrightarrow> digest_id s"

definition require_integer :: "int \<Rightarrow> int \<Rightarrow> bool" where
  "require_integer minimum v \<longleftrightarrow> minimum \<le> v \<and> v \<le> MAX_SPEND_MICROS"

definition require_cost_evidence :: "int option \<Rightarrow> string option \<Rightarrow> bool" where
  "require_cost_evidence amount evidence \<longleftrightarrow> (case amount of
      None \<Rightarrow> evidence = None
    | Some a \<Rightarrow> require_integer 0 a \<and> (case evidence of None \<Rightarrow> False | Some e \<Rightarrow> require_id e))"

definition require_lifetime :: "pyfloat \<Rightarrow> bool" where
  "require_lifetime v \<longleftrightarrow> ffinite v \<and> flt fzero v"

subsection \<open>Budgets\<close>

datatype SpendWindow = DAILY | MONTHLY

record SpendBudgetScope =
  sc_client_id :: string
  sc_window :: SpendWindow
  sc_window_start :: date
  sc_workload :: "string option"

definition SpendBudgetScope_ok :: "SpendBudgetScope \<Rightarrow> bool" where
  "SpendBudgetScope_ok s \<longleftrightarrow> require_id (sc_client_id s) \<and>
     (case sc_workload s of None \<Rightarrow> True | Some w \<Rightarrow> require_workload w) \<and>
     \<not> (sc_window s = MONTHLY \<and> day (sc_window_start s) \<noteq> 1)"

record SpendBudgetLimit =
  bl_scope :: SpendBudgetScope
  bl_ceiling_micros :: int

definition SpendBudgetLimit_ok :: "SpendBudgetLimit \<Rightarrow> bool" where
  "SpendBudgetLimit_ok l \<longleftrightarrow> require_integer 1 (bl_ceiling_micros l)"

record SpendBudgetSnapshot =
  bs_limit :: SpendBudgetLimit
  bs_settled_micros :: int
  bs_held_micros :: int

definition exposure_micros :: "SpendBudgetSnapshot \<Rightarrow> int" where
  "exposure_micros b = bs_settled_micros b + bs_held_micros b"

definition SpendBudgetSnapshot_ok :: "SpendBudgetSnapshot \<Rightarrow> bool" where
  "SpendBudgetSnapshot_ok b \<longleftrightarrow> require_integer 0 (bs_settled_micros b) \<and>
     require_integer 0 (bs_held_micros b) \<and> require_integer 0 (exposure_micros b)"

text \<open>\<open>permits_allocation\<close>: \<open>None\<close> is the contract error on a malformed amount.\<close>

definition permits_allocation :: "SpendBudgetSnapshot \<Rightarrow> int \<Rightarrow> bool option" where
  "permits_allocation b amount =
     (if require_integer 0 amount
      then Some (exposure_micros b < bl_ceiling_micros (bs_limit b) \<and>
                 exposure_micros b + amount \<le> bl_ceiling_micros (bs_limit b))
      else None)"

abbreviation bs_scope :: "SpendBudgetSnapshot \<Rightarrow> SpendBudgetScope" where
  "bs_scope b \<equiv> bl_scope (bs_limit b)"

subsection \<open>Attempt slots and reservation requests\<close>

record SpendAttemptAllocation =
  al_deployment_id :: string
  al_fallback_index :: int
  al_attempt_number :: int
  al_bound_micros :: int
  al_pricing_digest :: string
  al_bound_evidence_id :: string

definition SpendAttemptAllocation_ok :: "SpendAttemptAllocation \<Rightarrow> bool" where
  "SpendAttemptAllocation_ok a \<longleftrightarrow> require_id (al_deployment_id a) \<and>
     require_id (al_bound_evidence_id a) \<and> require_digest (al_pricing_digest a) \<and>
     require_integer 0 (al_fallback_index a) \<and> require_integer 1 (al_attempt_number a) \<and>
     require_integer 0 (al_bound_micros a)"

text \<open>\<open>groups.setdefault(key, []).append(item)\<close> on an insertion-ordered dictionary.\<close>

fun group_append :: "('k \<times> 'v list) list \<Rightarrow> 'k \<Rightarrow> 'v \<Rightarrow> ('k \<times> 'v list) list" where
  "group_append [] k v = [(k, [v])]"
| "group_append ((k', vs) # gs) k v =
     (if k = k' then (k', vs @ [v]) # gs else (k', vs) # group_append gs k v)"

definition allocation_groups ::
  "SpendAttemptAllocation list \<Rightarrow> (int \<times> SpendAttemptAllocation list) list" where
  "allocation_groups allocs =
     foldl (\<lambda>gs a. group_append gs (al_fallback_index a) a) [] allocs"

definition candidate_of :: "SpendAttemptAllocation \<Rightarrow> string \<times> int \<times> string \<times> string" where
  "candidate_of a =
     (al_deployment_id a, al_bound_micros a, al_pricing_digest a, al_bound_evidence_id a)"

fun check_groups :: "string set \<Rightarrow> SpendAttemptAllocation list list \<Rightarrow> bool" where
  "check_groups deployments [] = True"
| "check_groups deployments (g # gs) = (case g of [] \<Rightarrow> False
     | first # _ \<Rightarrow>
         map al_attempt_number g = map int [1..<length g + 1] \<and>
         al_deployment_id first \<notin> deployments \<and>
         list_all (\<lambda>slot. candidate_of slot = candidate_of first) g \<and>
         check_groups (insert (al_deployment_id first) deployments) gs)"

definition require_allocation_sequence :: "SpendAttemptAllocation list \<Rightarrow> bool" where
  "require_allocation_sequence allocs \<longleftrightarrow>
     (let groups = allocation_groups allocs;
          keys = map (\<lambda>a. (al_fallback_index a, al_attempt_number a)) allocs
      in keys = sort keys \<and> sort (map fst groups) = map int [0..<length groups] \<and>
         check_groups {} (map snd groups))"

record SpendReservationRequest =
  rq_execution_id :: string
  rq_owner_id :: string
  rq_client_id :: string
  rq_workload :: string
  rq_admitted_on :: date
  rq_policy_epoch :: int
  rq_policy_digest :: string
  rq_plan_digest :: string
  rq_registry_digest :: string
  rq_retry_policy_digest :: string
  rq_limits :: "SpendBudgetLimit list"
  rq_allocations :: "SpendAttemptAllocation list"

definition reserved_micros :: "SpendReservationRequest \<Rightarrow> int" where
  "reserved_micros r = sum_list (map al_bound_micros (rq_allocations r))"

text \<open>The calendar bucket an admission date falls in.\<close>

definition window_bucket :: "SpendWindow \<Rightarrow> date \<Rightarrow> date" where
  "window_bucket w d = (if w = DAILY then d else first_of_month d)"

definition SpendReservationRequest_ok :: "SpendReservationRequest \<Rightarrow> bool" where
  "SpendReservationRequest_ok r \<longleftrightarrow>
     require_id (rq_execution_id r) \<and> require_id (rq_owner_id r) \<and> require_id (rq_client_id r) \<and>
     require_workload (rq_workload r) \<and> require_integer 1 (rq_policy_epoch r) \<and>
     require_digest (rq_policy_digest r) \<and> require_digest (rq_plan_digest r) \<and>
     require_digest (rq_registry_digest r) \<and> require_digest (rq_retry_policy_digest r) \<and>
     rq_limits r \<noteq> [] \<and> rq_allocations r \<noteq> [] \<and>
     (let scopes = map bl_scope (rq_limits r) in
      distinct scopes \<and>
      list_all (\<lambda>s. sc_client_id s = rq_client_id r \<and>
                    sc_workload s \<in> {None, Some (rq_workload r)} \<and>
                    sc_window_start s = window_bucket (sc_window s) (rq_admitted_on r)) scopes) \<and>
     require_allocation_sequence (rq_allocations r) \<and>
     require_integer 0 (reserved_micros r)"

subsection \<open>Receipts\<close>

record SpendReservation =
  rv_request :: SpendReservationRequest
  rv_owner_fence :: string
  rv_owner_timeout_seconds :: pyfloat

definition SpendReservation_ok :: "SpendReservation \<Rightarrow> bool" where
  "SpendReservation_ok v \<longleftrightarrow> require_id (rv_owner_fence v) \<and>
     require_lifetime (rv_owner_timeout_seconds v)"

record SpendDispatchReceipt =
  dr_reservation :: SpendReservation
  dr_allocation :: SpendAttemptAllocation
  dr_dispatch_fence :: string

definition SpendDispatchReceipt_ok :: "SpendDispatchReceipt \<Rightarrow> bool" where
  "SpendDispatchReceipt_ok d \<longleftrightarrow> require_id (dr_dispatch_fence d) \<and>
     dr_allocation d \<in> set (rq_allocations (rv_request (dr_reservation d)))"

record SpendSettlement =
  se_dispatch :: SpendDispatchReceipt
  se_estimated_micros :: "int option"
  se_usage_evidence_id :: "string option"

definition SpendSettlement_ok :: "SpendSettlement \<Rightarrow> bool" where
  "SpendSettlement_ok s \<longleftrightarrow> require_cost_evidence (se_estimated_micros s) (se_usage_evidence_id s)"

record SpendSettlementReceipt =
  sr_settlement :: SpendSettlement
  sr_settlement_fence :: string

definition SpendSettlementReceipt_ok :: "SpendSettlementReceipt \<Rightarrow> bool" where
  "SpendSettlementReceipt_ok r \<longleftrightarrow> require_id (sr_settlement_fence r)"

definition bound_exceeded :: "SpendSettlementReceipt \<Rightarrow> bool" where
  "bound_exceeded r \<longleftrightarrow> (case se_estimated_micros (sr_settlement r) of
      None \<Rightarrow> False
    | Some amount \<Rightarrow> al_bound_micros (dr_allocation (se_dispatch (sr_settlement r))) < amount)"

subsection \<open>Journals\<close>

datatype SpendAttemptState = RESERVED | MAY_HAVE_EXECUTED | SETTLED | UNKNOWN | CLOSED_UNUSED

record SpendAttemptSnapshot =
  sl_allocation :: SpendAttemptAllocation
  sl_state :: SpendAttemptState
  sl_dispatch_fence :: "string option"
  sl_estimated_micros :: "int option"
  sl_usage_evidence_id :: "string option"

definition SpendAttemptSnapshot_ok :: "SpendAttemptSnapshot \<Rightarrow> bool" where
  "SpendAttemptSnapshot_ok s \<longleftrightarrow>
     (if sl_state s \<in> {RESERVED, CLOSED_UNUSED} then sl_dispatch_fence s = None
      else (case sl_dispatch_fence s of None \<Rightarrow> False | Some f \<Rightarrow> require_id f)) \<and>
     (if sl_state s = SETTLED
      then sl_estimated_micros s \<noteq> None \<and>
           require_cost_evidence (sl_estimated_micros s) (sl_usage_evidence_id s)
      else sl_estimated_micros s = None \<and> sl_usage_evidence_id s = None)"

record SpendJournalSnapshot =
  jn_reservation :: SpendReservation
  jn_attempts :: "SpendAttemptSnapshot list"
  jn_closed :: bool
  jn_closure_fence :: "string option"

definition SpendJournalSnapshot_ok :: "SpendJournalSnapshot \<Rightarrow> bool" where
  "SpendJournalSnapshot_ok j \<longleftrightarrow> jn_attempts j \<noteq> [] \<and>
     map sl_allocation (jn_attempts j) = rq_allocations (rv_request (jn_reservation j)) \<and>
     (if jn_closed j
      then (case jn_closure_fence j of None \<Rightarrow> False | Some f \<Rightarrow> require_id f) \<and>
           list_all (\<lambda>s. sl_state s \<notin> {RESERVED, MAY_HAVE_EXECUTED}) (jn_attempts j)
      else jn_closure_fence j = None)"

lemmas spend_contract_defs [post_init] =
  SpendBudgetScope_ok_def SpendBudgetLimit_ok_def SpendBudgetSnapshot_ok_def
  SpendAttemptAllocation_ok_def SpendReservation_ok_def SpendDispatchReceipt_ok_def
  SpendSettlement_ok_def SpendSettlementReceipt_ok_def

subsection \<open>What a validated request guarantees\<close>

lemma group_append_lookup:
  "map_of (group_append gs k v) j =
     (if j = k then Some ((case map_of gs k of None \<Rightarrow> [] | Some vs \<Rightarrow> vs) @ [v]) else map_of gs j)"
  by (induction gs k v rule: group_append.induct) auto

lemma allocation_groups_lookup:
  "map_of (allocation_groups allocs) i =
     (let g = filter (\<lambda>a. al_fallback_index a = i) allocs in if g = [] then None else Some g)"
proof (induction allocs rule: rev_induct)
  case Nil
  then show ?case by (simp add: allocation_groups_def)
next
  case (snoc a allocs)
  have "allocation_groups (allocs @ [a]) =
          group_append (allocation_groups allocs) (al_fallback_index a) a"
    by (simp add: allocation_groups_def)
  with snoc show ?case
    by (auto simp: group_append_lookup Let_def)
qed

lemma check_groups_attempts:
  "check_groups ds gs \<Longrightarrow> g \<in> set gs \<Longrightarrow> map al_attempt_number g = map int [1..<length g + 1]"
  by (induction gs arbitrary: ds) (auto split: list.splits)

text \<open>
  A validated slot sequence repeats no slot: the contiguity check on each candidate's retries
  makes the pair of fallback index and attempt number unique.
\<close>

lemma allocation_sequence_distinct:
  assumes "require_allocation_sequence allocs"
  shows "distinct allocs"
proof -
  have grp: "distinct (filter (\<lambda>a. al_fallback_index a = i) allocs)" for i
  proof (cases "filter (\<lambda>a. al_fallback_index a = i) allocs = []")
    case False
    let ?g = "filter (\<lambda>a. al_fallback_index a = i) allocs"
    from False have "map_of (allocation_groups allocs) i = Some ?g"
      by (simp add: allocation_groups_lookup)
    then have "?g \<in> set (map snd (allocation_groups allocs))"
      by (auto dest!: map_of_SomeD intro: rev_image_eqI)
    with assms have "map al_attempt_number ?g = map int [1..<length ?g + 1]"
      unfolding require_allocation_sequence_def Let_def by (blast intro: check_groups_attempts)
    then have "distinct (map al_attempt_number ?g)"
      by (simp add: distinct_map)
    then show ?thesis by (simp add: distinct_map)
  qed simp
  then show ?thesis by (rule distinct_by_groups)
qed

lemma request_allocations_distinct:
  "SpendReservationRequest_ok r \<Longrightarrow> distinct (rq_allocations r)"
  by (simp add: SpendReservationRequest_ok_def allocation_sequence_distinct)

lemma request_limits_distinct:
  "SpendReservationRequest_ok r \<Longrightarrow> distinct (map bl_scope (rq_limits r))"
  by (simp add: SpendReservationRequest_ok_def Let_def)

lemma SpendReservationRequest_ok_allocations:
  "SpendReservationRequest_ok r \<Longrightarrow> rq_allocations r \<noteq> []"
  by (simp add: SpendReservationRequest_ok_def)

end
