(* ===== verification/Spend_Memory.thy ===== *)
theory Spend_Memory
  imports Spend_Contract
begin

text \<open>
  The same-process reference adapter of the spend-admission contract
  (\<open>adapters/spend_admission_memory.py\<close>, over the ports of
  \<open>application/spend_admission.py\<close>). The adapter's lock makes every method one atomic
  step, so a method is a function of the state. What a method reads from outside (the two clocks,
  \<open>uuid4\<close>, the usage validator) is an argument of the call, \<^typ>\<open>string\<close>-free and
  possibly failing.
\<close>

subsection \<open>State\<close>

datatype SpendControlErrorCode = UNAVAILABLE | INVALID_STATE | CONFLICT | EXPIRED

datatype spend_failure = SpendAdmissionContractError | SpendControlError SpendControlErrorCode

record Execution =
  ex_request :: SpendReservationRequest
  ex_reservation :: "SpendReservation option"
  ex_expires_at :: "pyfloat option"
  ex_journal :: "SpendJournalSnapshot option"
  ex_dispatches :: "SpendDispatchReceipt list"
  ex_settlements :: "SpendSettlementReceipt list"
  ex_admitted_at :: "pyfloat option"

record Image =
  im_revision :: int
  im_budgets :: "SpendBudgetSnapshot list"
  im_executions :: "Execution list"
  im_suspended :: "string set"
  im_fences :: "string set"

record SpendState =
  ss_opening :: "SpendBudgetSnapshot list"
  ss_approved :: "string \<rightharpoonup> SpendReservationRequest"
  ss_epoch :: int
  ss_digest :: string
  ss_lease :: pyfloat
  ss_last_now :: "pyfloat option"
  ss_last_utc :: "instant option"
  ss_revision :: int
  ss_seen :: "string set"
  ss_failed :: bool
  ss_image :: Image

text \<open>What one call reads from outside; \<open>None\<close> is a callback that raised.\<close>

record spend_env =
  env_clock :: "pyfloat option"
  env_utc :: "instant option"
  env_uuid :: "uuid option"
  env_usage :: "SpendSettlement \<Rightarrow> bool option"

type_synonym 'a spend_method = "(SpendState, spend_failure, 'a) pymethod"

definition limits_for :: "SpendBudgetSnapshot list \<Rightarrow> SpendReservationRequest \<Rightarrow> SpendBudgetLimit list" where
  "limits_for opening r = map bs_limit (filter (\<lambda>b.
       sc_client_id (bs_scope b) = rq_client_id r \<and>
       sc_workload (bs_scope b) \<in> {None, Some (rq_workload r)} \<and>
       sc_window_start (bs_scope b) = window_bucket (sc_window (bs_scope b)) (rq_admitted_on r))
     opening)"

definition spend_init ::
  "SpendBudgetSnapshot list \<Rightarrow> SpendReservationRequest list \<Rightarrow> pyfloat \<Rightarrow> spend_failure + SpendState" where
  "spend_init budgets approved lease =
     (case approved of [] \<Rightarrow> Inl SpendAdmissionContractError
      | first # _ \<Rightarrow>
        if budgets = [] \<or> \<not> ffinite lease \<or> fle lease fzero \<or>
           \<not> list_all SpendBudgetSnapshot_ok budgets \<or>
           \<not> list_all SpendReservationRequest_ok approved \<or>
           py_dict_len (map (\<lambda>r. (rq_execution_id r, r)) approved) \<noteq> length approved \<or>
           length (remdups (map bs_scope budgets)) \<noteq> length budgets \<or>
           list_ex (\<lambda>r. (rq_policy_epoch r, rq_policy_digest r) \<noteq>
                          (rq_policy_epoch first, rq_policy_digest first) \<or>
                        set (rq_limits r) \<noteq> set (limits_for budgets r)) approved
        then Inl SpendAdmissionContractError
        else Inr \<lparr>ss_opening = budgets,
                  ss_approved = py_dict (map (\<lambda>r. (rq_execution_id r, r)) approved),
                  ss_epoch = rq_policy_epoch first, ss_digest = rq_policy_digest first,
                  ss_lease = lease, ss_last_now = None, ss_last_utc = None,
                  ss_revision = 0, ss_seen = {}, ss_failed = False,
                  ss_image = \<lparr>im_revision = 0, im_budgets = budgets, im_executions = [],
                              im_suspended = {}, im_fences = {}\<rparr>\<rparr>)"

subsection \<open>Clocks and fences\<close>

definition spend_now :: "spend_env \<Rightarrow> pyfloat spend_method" where
  "spend_now env st = (case env_clock env of
      None \<Rightarrow> (Inl (SpendControlError UNAVAILABLE), st)
    | Some v \<Rightarrow>
        if \<not> ffinite v \<or> flt v fzero \<or>
           (case ss_last_now st of None \<Rightarrow> False | Some l \<Rightarrow> flt v l)
        then (Inl (SpendControlError INVALID_STATE), st)
        else (Inr v, st\<lparr>ss_last_now := Some v\<rparr>))"

definition check_admission_date :: "spend_env \<Rightarrow> SpendReservationRequest \<Rightarrow> unit spend_method" where
  "check_admission_date env r st = (case env_utc env of
      None \<Rightarrow> (Inl (SpendControlError UNAVAILABLE), st)
    | Some v \<Rightarrow>
        if \<not> tz_utc v \<or> (case ss_last_utc st of None \<Rightarrow> False | Some l \<Rightarrow> instant_less v l)
        then (Inl (SpendControlError INVALID_STATE), st)
        else let st' = st\<lparr>ss_last_utc := Some v\<rparr> in
             if instant_date v \<noteq> rq_admitted_on r
             then (Inl (SpendControlError CONFLICT), st') else (Inr (), st'))"

definition spend_fence :: "spend_env \<Rightarrow> Image \<Rightarrow> spend_failure + string" where
  "spend_fence env img = (case env_uuid env of
      None \<Rightarrow> Inl (SpendControlError UNAVAILABLE)
    | Some u \<Rightarrow> if uuid_hex u \<in> im_fences img then Inl (SpendControlError INVALID_STATE)
                else Inr (uuid_hex u))"

subsection \<open>The image audit\<close>

text \<open>
  \<open>_validated_image\<close> re-derives the ledger from the journals before every method and turns
  any discrepancy (and any \<open>KeyError\<close> on the way) into \<open>INVALID_STATE\<close>.
\<close>

definition slot_ok ::
  "bool \<Rightarrow> (SpendAttemptAllocation \<rightharpoonup> SpendDispatchReceipt) \<Rightarrow>
   (SpendAttemptAllocation \<rightharpoonup> SpendSettlementReceipt) \<Rightarrow> SpendAttemptSnapshot \<Rightarrow> bool" where
  "slot_ok closed dispatches settlements slot \<longleftrightarrow>
     SpendAttemptSnapshot_ok slot \<and>
     (let claimed = dispatches (sl_allocation slot); outcome = settlements (sl_allocation slot) in
      (claimed = None) = (sl_dispatch_fence slot = None) \<and>
      (case claimed of None \<Rightarrow> True
       | Some d \<Rightarrow> sl_dispatch_fence slot = Some (dr_dispatch_fence d)) \<and>
      (case outcome of
         Some r \<Rightarrow>
           sl_estimated_micros slot = se_estimated_micros (sr_settlement r) \<and>
           sl_usage_evidence_id slot = se_usage_evidence_id (sr_settlement r) \<and>
           sl_state slot = (if se_estimated_micros (sr_settlement r) = None then UNKNOWN else SETTLED)
       | None \<Rightarrow> sl_state slot \<noteq> SETTLED \<and> (sl_state slot = UNKNOWN \<longrightarrow> closed)) \<and>
      (sl_state slot = CLOSED_UNUSED \<longrightarrow> closed))"

abbreviation dispatch_dict :: "Execution \<Rightarrow> SpendAttemptAllocation \<rightharpoonup> SpendDispatchReceipt" where
  "dispatch_dict e \<equiv> py_dict (map (\<lambda>d. (dr_allocation d, d)) (ex_dispatches e))"

abbreviation receipt_allocation :: "SpendSettlementReceipt \<Rightarrow> SpendAttemptAllocation" where
  "receipt_allocation r \<equiv> dr_allocation (se_dispatch (sr_settlement r))"

abbreviation settlement_dict :: "Execution \<Rightarrow> SpendAttemptAllocation \<rightharpoonup> SpendSettlementReceipt" where
  "settlement_dict e \<equiv> py_dict (map (\<lambda>s. (receipt_allocation s, s)) (ex_settlements e))"

definition owned_execution_ok ::
  "SpendState \<Rightarrow> Execution \<Rightarrow> SpendReservation \<Rightarrow> SpendJournalSnapshot \<Rightarrow> pyfloat \<Rightarrow> pyfloat \<Rightarrow> bool" where
  "owned_execution_ok st e v j admitted expires \<longleftrightarrow>
     rv_request v = ex_request e \<and> SpendReservation_ok v \<and>
     ffinite admitted \<and> ffinite expires \<and> fle fzero admitted \<and>
     feq expires (fadd admitted (ss_lease st)) \<and> flt admitted expires \<and>
     feq (rv_owner_timeout_seconds v) (ss_lease st) \<and>
     jn_reservation j = v \<and> SpendJournalSnapshot_ok j \<and>
     py_dict_len (map (\<lambda>d. (dr_allocation d, d)) (ex_dispatches e)) = length (ex_dispatches e) \<and>
     py_dict_len (map (\<lambda>s. (receipt_allocation s, s)) (ex_settlements e)) = length (ex_settlements e) \<and>
     length (filter (\<lambda>s. sl_state s = MAY_HAVE_EXECUTED) (jn_attempts j)) \<le> 1 \<and>
     list_all (\<lambda>d. dr_reservation d = v \<and> SpendDispatchReceipt_ok d) (ex_dispatches e) \<and>
     list_all (\<lambda>s. SpendSettlementReceipt_ok s \<and>
         dispatch_dict e (receipt_allocation s) = Some (se_dispatch (sr_settlement s)))
       (ex_settlements e) \<and>
     list_all (slot_ok (jn_closed j) (dispatch_dict e) (settlement_dict e)) (jn_attempts j)"

definition execution_ok :: "SpendState \<Rightarrow> Execution \<Rightarrow> bool" where
  "execution_ok st e \<longleftrightarrow>
     ss_approved st (rq_execution_id (ex_request e)) = Some (ex_request e) \<and>
     (case ex_reservation e of
        None \<Rightarrow> ex_journal e = None \<and> ex_expires_at e = None \<and> ex_admitted_at e = None \<and>
                ex_dispatches e = [] \<and> ex_settlements e = []
      | Some v \<Rightarrow> (case (ex_journal e, ex_admitted_at e, ex_expires_at e) of
          (Some j, Some admitted, Some expires) \<Rightarrow> owned_execution_ok st e v j admitted expires
        | _ \<Rightarrow> False))"

type_synonym ledger = "SpendBudgetScope \<rightharpoonup> int"

text \<open>\<open>expected[limit.scope] += amount\<close> over the limits; a missing scope is a \<open>KeyError\<close>.\<close>

fun bump_scopes :: "int \<Rightarrow> SpendBudgetLimit list \<Rightarrow> ledger \<Rightarrow> ledger option" where
  "bump_scopes amount [] m = Some m"
| "bump_scopes amount (l # ls) m = (case m (bl_scope l) of None \<Rightarrow> None
     | Some v \<Rightarrow> bump_scopes amount ls (m(bl_scope l \<mapsto> v + amount)))"

fun account_slots ::
  "SpendBudgetLimit list \<Rightarrow> SpendAttemptSnapshot list \<Rightarrow> ledger \<times> ledger \<Rightarrow> (ledger \<times> ledger) option" where
  "account_slots limits [] (s, h) = Some (s, h)"
| "account_slots limits (slot # slots) (s, h) =
     (if sl_state slot = SETTLED then
        (case sl_estimated_micros slot of None \<Rightarrow> None
         | Some a \<Rightarrow> (case bump_scopes a limits s of None \<Rightarrow> None
             | Some s' \<Rightarrow> account_slots limits slots (s', h)))
      else if sl_state slot \<noteq> CLOSED_UNUSED then
        (case bump_scopes (al_bound_micros (sl_allocation slot)) limits h of None \<Rightarrow> None
         | Some h' \<Rightarrow> account_slots limits slots (s, h'))
      else account_slots limits slots (s, h))"

definition execution_fences :: "Execution \<Rightarrow> string list" where
  "execution_fences e = (case (ex_reservation e, ex_journal e) of
      (Some v, Some j) \<Rightarrow>
        rv_owner_fence v # map dr_dispatch_fence (ex_dispatches e) @
        map sr_settlement_fence (ex_settlements e) @
        (if jn_closed j then (case jn_closure_fence j of None \<Rightarrow> [] | Some f \<Rightarrow> [f]) else [])
    | _ \<Rightarrow> [])"

definition execution_suspends :: "Execution \<Rightarrow> string set" where
  "execution_suspends e =
     set (map (\<lambda>r. al_deployment_id (receipt_allocation r)) (filter bound_exceeded (ex_settlements e)))"

text \<open>The audit's loop over the executions, with its accumulated ledgers, fences and suspensions.\<close>

fun audit_executions ::
  "SpendState \<Rightarrow> Execution list \<Rightarrow> ledger \<times> ledger \<times> string list \<times> string set \<Rightarrow>
   (ledger \<times> ledger \<times> string list \<times> string set) option" where
  "audit_executions st [] acc = Some acc"
| "audit_executions st (e # es) (s, h, fences, suspended) =
     (if \<not> execution_ok st e then None
      else case (ex_reservation e, ex_journal e) of
        (Some v, Some j) \<Rightarrow>
          (case account_slots (rq_limits (rv_request v)) (jn_attempts j) (s, h) of None \<Rightarrow> None
           | Some (s', h') \<Rightarrow> audit_executions st es
               (s', h', fences @ execution_fences e, suspended \<union> execution_suspends e))
      | _ \<Rightarrow> audit_executions st es (s, h, fences, suspended))"

definition image_consistent :: "SpendState \<Rightarrow> bool" where
  "image_consistent st \<longleftrightarrow> (let img = ss_image st in
     \<not> ss_failed st \<and> im_revision img = ss_revision st \<and>
     set (map (\<lambda>e. rq_execution_id (ex_request e)) (im_executions img)) = ss_seen st \<and>
     length (im_executions img) = card (ss_seen st) \<and>
     (case audit_executions st (im_executions img)
             (py_dict (map (\<lambda>b. (bs_scope b, bs_settled_micros b)) (ss_opening st)),
              py_dict (map (\<lambda>b. (bs_scope b, bs_held_micros b)) (ss_opening st)), [], {}) of
        None \<Rightarrow> False
      | Some (s, h, fences, suspended) \<Rightarrow>
          set fences = im_fences img \<and> length fences = card (im_fences img) \<and>
          suspended = im_suspended img \<and>
          list_all2 (\<lambda>opening b. bs_limit b = bs_limit opening \<and> SpendBudgetSnapshot_ok b \<and>
              s (bs_scope b) = Some (bs_settled_micros b) \<and>
              h (bs_scope b) = Some (bs_held_micros b)) (ss_opening st) (im_budgets img)))"

definition validated_image :: "Image spend_method" where
  "validated_image st =
     (if image_consistent st then Inr (ss_image st) else Inl (SpendControlError INVALID_STATE), st)"

subsection \<open>Publication\<close>

definition commit :: "Image \<Rightarrow> unit spend_method" where
  "commit img st =
     (Inr (), st\<lparr>ss_seen := set (map (\<lambda>e. rq_execution_id (ex_request e)) (im_executions img)),
                ss_revision := im_revision img, ss_image := img\<rparr>)"

definition shift_budgets ::
  "SpendBudgetScope list \<Rightarrow> int \<Rightarrow> int \<Rightarrow> SpendBudgetSnapshot list \<Rightarrow> SpendBudgetSnapshot list" where
  "shift_budgets scopes held_delta settled_delta budgets =
     map (\<lambda>b. if bs_scope b \<in> set scopes
               then b\<lparr>bs_held_micros := bs_held_micros b + held_delta,
                      bs_settled_micros := bs_settled_micros b + settled_delta\<rparr>
               else b) budgets"

definition put_execution :: "Execution \<Rightarrow> Execution list \<Rightarrow> Execution list" where
  "put_execution e es =
     filter (\<lambda>x. rq_execution_id (ex_request x) \<noteq> rq_execution_id (ex_request e)) es @ [e]"

text \<open>\<open>{x} if x else set()\<close>: an absent or empty string contributes nothing.\<close>

definition truthy_set :: "string option \<Rightarrow> string set" where
  "truthy_set x = (case x of None \<Rightarrow> {} | Some s \<Rightarrow> if s = [] then {} else {s})"

definition spend_update ::
  "Image \<Rightarrow> Execution \<Rightarrow> int \<Rightarrow> int \<Rightarrow> string option \<Rightarrow> string option \<Rightarrow> unit spend_method" where
  "spend_update img e held_delta settled_delta fence suspended_model st =
     (let scopes = map bl_scope (rq_limits (ex_request e));
          budgets = shift_budgets scopes held_delta settled_delta (im_budgets img)
      in if \<not> list_all (\<lambda>b. bs_scope b \<in> set scopes \<longrightarrow> SpendBudgetSnapshot_ok b) budgets
         then (Inl (SpendControlError INVALID_STATE), st\<lparr>ss_failed := True\<rparr>)
         else commit \<lparr>im_revision = im_revision img + 1, im_budgets = budgets,
                      im_executions = put_execution e (im_executions img),
                      im_suspended = im_suspended img \<union> truthy_set suspended_model,
                      im_fences = im_fences img \<union> truthy_set fence\<rparr> st)"

subsection \<open>Reader\<close>

definition spend_budget :: "SpendBudgetScope \<Rightarrow> int \<Rightarrow> SpendBudgetSnapshot spend_method" where
  "spend_budget scope epoch =
     seq validated_image (\<lambda>img. seq get_state (\<lambda>st.
     seq (require (epoch = ss_epoch st) (SpendControlError CONFLICT)) (\<lambda>_.
     case find (\<lambda>b. bs_scope b = scope) (im_budgets img) of
       None \<Rightarrow> raise (SpendControlError INVALID_STATE)
     | Some b \<Rightarrow> ret b)))"

definition spend_execution :: "Image \<Rightarrow> SpendReservation \<Rightarrow> spend_failure + Execution" where
  "spend_execution img v =
     (case find (\<lambda>e. rq_execution_id (ex_request e) = rq_execution_id (rv_request v))
             (im_executions img) of
        None \<Rightarrow> Inl (SpendControlError INVALID_STATE)
      | Some e \<Rightarrow> if ex_reservation e \<noteq> Some v then Inl (SpendControlError CONFLICT) else Inr e)"

definition spend_journal :: "SpendReservation \<Rightarrow> SpendJournalSnapshot spend_method" where
  "spend_journal v =
     seq validated_image (\<lambda>img. seq (lift_result (spend_execution img v)) (\<lambda>e.
     case ex_journal e of None \<Rightarrow> raise (SpendControlError INVALID_STATE) | Some j \<Rightarrow> ret j))"

subsection \<open>Worker\<close>

definition spend_live :: "spend_env \<Rightarrow> Execution \<Rightarrow> unit spend_method" where
  "spend_live env e =
     seq (spend_now env) (\<lambda>now.
     seq (require (case ex_expires_at e of None \<Rightarrow> False | Some x \<Rightarrow> \<not> fle x now)
            (SpendControlError EXPIRED)) (\<lambda>_.
     require (case ex_journal e of None \<Rightarrow> False | Some j \<Rightarrow> \<not> jn_closed j)
       (SpendControlError CONFLICT)))"

definition construct :: "('a \<Rightarrow> bool) \<Rightarrow> 'a \<Rightarrow> spend_failure + 'a" where
  "construct ok v = (if ok v then Inr v else Inl SpendAdmissionContractError)"

text \<open>\<open>all(b.permits_allocation(amount) for b in ...)\<close>, short-circuiting.\<close>

fun all_permit :: "int \<Rightarrow> SpendBudgetSnapshot list \<Rightarrow> spend_failure + bool" where
  "all_permit amount [] = Inr True"
| "all_permit amount (b # bs) = (case permits_allocation b amount of
      None \<Rightarrow> Inl SpendAdmissionContractError
    | Some p \<Rightarrow> if p then all_permit amount bs else Inr False)"

definition reserved_slot :: "SpendAttemptAllocation \<Rightarrow> SpendAttemptSnapshot" where
  "reserved_slot a = \<lparr>sl_allocation = a, sl_state = RESERVED, sl_dispatch_fence = None,
     sl_estimated_micros = None, sl_usage_evidence_id = None\<rparr>"

definition bare_execution :: "SpendReservationRequest \<Rightarrow> Execution" where
  "bare_execution r = \<lparr>ex_request = r, ex_reservation = None, ex_expires_at = None,
     ex_journal = None, ex_dispatches = [], ex_settlements = [], ex_admitted_at = None\<rparr>"

definition admit_request ::
  "spend_env \<Rightarrow> Image \<Rightarrow> SpendReservationRequest \<Rightarrow> pyfloat \<Rightarrow> SpendReservation option spend_method" where
  "admit_request env img r now = seq get_state (\<lambda>st.
     let deadline = fadd now (ss_lease st) in
     seq (require (ffinite deadline \<and> \<not> fle deadline now) (SpendControlError INVALID_STATE)) (\<lambda>_.
     seq (lift_result (spend_fence env img)) (\<lambda>fence.
     seq (lift_result (construct SpendReservation_ok
            \<lparr>rv_request = r, rv_owner_fence = fence, rv_owner_timeout_seconds = ss_lease st\<rparr>)) (\<lambda>v.
     seq (lift_result (emap (construct SpendAttemptSnapshot_ok)
            (map reserved_slot (rq_allocations r)))) (\<lambda>slots.
     seq (lift_result (construct SpendJournalSnapshot_ok
            \<lparr>jn_reservation = v, jn_attempts = slots, jn_closed = False, jn_closure_fence = None\<rparr>)) (\<lambda>j.
     seq (spend_update img
            \<lparr>ex_request = r, ex_reservation = Some v, ex_expires_at = Some deadline,
             ex_journal = Some j, ex_dispatches = [], ex_settlements = [], ex_admitted_at = Some now\<rparr>
            (reserved_micros r) 0 (Some fence) None) (\<lambda>_.
     ret (Some v))))))))"

definition spend_reserve ::
  "spend_env \<Rightarrow> SpendReservationRequest \<Rightarrow> SpendReservation option spend_method" where
  "spend_reserve env r =
     seq validated_image (\<lambda>img. seq get_state (\<lambda>st.
     seq (require (ss_approved st (rq_execution_id r) = Some r) (SpendControlError CONFLICT)) (\<lambda>_.
     case find (\<lambda>e. rq_execution_id (ex_request e) = rq_execution_id r) (im_executions img) of
       Some existing \<Rightarrow> ret (ex_reservation existing)
     | None \<Rightarrow>
       seq (spend_now env) (\<lambda>now.
       seq (check_admission_date env r) (\<lambda>_.
       seq (require (\<not> list_ex (\<lambda>a. al_deployment_id a \<in> im_suspended img) (rq_allocations r))
              (SpendControlError INVALID_STATE)) (\<lambda>_.
       seq (lift_result (all_permit (reserved_micros r)
              (filter (\<lambda>b. bs_scope b \<in> set (map bl_scope (rq_limits r))) (im_budgets img)))) (\<lambda>fits.
       if \<not> fits
       then seq (spend_update img (bare_execution r) 0 0 None None) (\<lambda>_. ret None)
       else admit_request env img r now)))))))"

definition spend_is_current :: "spend_env \<Rightarrow> SpendReservation \<Rightarrow> bool spend_method" where
  "spend_is_current env v =
     seq validated_image (\<lambda>img. seq (lift_result (spend_execution img v)) (\<lambda>e.
     seq (spend_now env) (\<lambda>now.
     ret ((case ex_expires_at e of None \<Rightarrow> False | Some x \<Rightarrow> flt now x) \<and>
          (case ex_journal e of None \<Rightarrow> False | Some j \<Rightarrow> \<not> jn_closed j)))))"

text \<open>\<open>replace(s, ...) if condition else s\<close>: only a changed slot is validated again.\<close>

definition replace_slot ::
  "(SpendAttemptSnapshot \<Rightarrow> bool) \<Rightarrow> (SpendAttemptSnapshot \<Rightarrow> SpendAttemptSnapshot) \<Rightarrow>
   SpendAttemptSnapshot \<Rightarrow> spend_failure + SpendAttemptSnapshot" where
  "replace_slot c f s = (if c s then construct SpendAttemptSnapshot_ok (f s) else Inr s)"

definition claim_slot :: "string \<Rightarrow> SpendAttemptSnapshot \<Rightarrow> SpendAttemptSnapshot" where
  "claim_slot fence s = s\<lparr>sl_state := MAY_HAVE_EXECUTED, sl_dispatch_fence := Some fence\<rparr>"

definition spend_dispatch ::
  "spend_env \<Rightarrow> SpendReservation \<Rightarrow> SpendAttemptAllocation \<Rightarrow> SpendDispatchReceipt spend_method" where
  "spend_dispatch env v a =
     seq validated_image (\<lambda>img. seq (lift_result (spend_execution img v)) (\<lambda>e.
     seq (require (a \<in> set (rq_allocations (rv_request v))) (SpendControlError CONFLICT)) (\<lambda>_.
     case find (\<lambda>d. dr_allocation d = a) (ex_dispatches e) of
       Some d \<Rightarrow> ret d
     | None \<Rightarrow>
       seq (spend_live env e) (\<lambda>_.
       case ex_journal e of
         None \<Rightarrow> raise (SpendControlError INVALID_STATE)
       | Some j \<Rightarrow>
         seq (require (al_deployment_id a \<notin> im_suspended img) (SpendControlError INVALID_STATE)) (\<lambda>_.
         seq (require (\<not> list_ex (\<lambda>s. sl_state s = MAY_HAVE_EXECUTED) (jn_attempts j))
                (SpendControlError CONFLICT)) (\<lambda>_.
         seq (lift_result (spend_fence env img)) (\<lambda>fence.
         seq (lift_result (construct SpendDispatchReceipt_ok
                \<lparr>dr_reservation = v, dr_allocation = a, dr_dispatch_fence = fence\<rparr>)) (\<lambda>d.
         seq (lift_result (emap (replace_slot (\<lambda>s. sl_allocation s = a) (claim_slot fence)) (jn_attempts j))) (\<lambda>slots.
         seq (lift_result (construct SpendJournalSnapshot_ok (j\<lparr>jn_attempts := slots\<rparr>))) (\<lambda>j'.
         seq (spend_update img
                (e\<lparr>ex_journal := Some j', ex_dispatches := ex_dispatches e @ [d]\<rparr>)
                0 0 (Some fence) None) (\<lambda>_.
         ret d)))))))))))"

definition settle_slot :: "SpendSettlement \<Rightarrow> SpendAttemptSnapshot \<Rightarrow> SpendAttemptSnapshot" where
  "settle_slot se s =
     s\<lparr>sl_state := (if se_estimated_micros se \<noteq> None then SETTLED else UNKNOWN),
       sl_estimated_micros := se_estimated_micros se,
       sl_usage_evidence_id := se_usage_evidence_id se\<rparr>"

definition check_usage :: "spend_env \<Rightarrow> SpendSettlement \<Rightarrow> spend_failure + unit" where
  "check_usage env se =
     (if se_estimated_micros se = None then Inr ()
      else case env_usage env se of
        None \<Rightarrow> Inl (SpendControlError UNAVAILABLE)
      | Some valid \<Rightarrow> if valid then Inr () else Inl (SpendControlError INVALID_STATE))"

definition spend_settle :: "spend_env \<Rightarrow> SpendSettlement \<Rightarrow> SpendSettlementReceipt spend_method" where
  "spend_settle env se =
     seq validated_image (\<lambda>img.
     seq (lift_result (spend_execution img (dr_reservation (se_dispatch se)))) (\<lambda>e.
     seq (require (se_dispatch se \<in> set (ex_dispatches e)) (SpendControlError CONFLICT)) (\<lambda>_.
     case find (\<lambda>r. se_dispatch (sr_settlement r) = se_dispatch se) (ex_settlements e) of
       Some existing \<Rightarrow>
         if sr_settlement existing \<noteq> se then raise (SpendControlError CONFLICT) else ret existing
     | None \<Rightarrow>
       seq (spend_live env e) (\<lambda>_.
       seq (lift_result (check_usage env se)) (\<lambda>_.
       case ex_journal e of
         None \<Rightarrow> raise (SpendControlError INVALID_STATE)
       | Some j \<Rightarrow>
         seq (lift_result (spend_fence env img)) (\<lambda>fence.
         seq (lift_result (construct SpendSettlementReceipt_ok
                \<lparr>sr_settlement = se, sr_settlement_fence = fence\<rparr>)) (\<lambda>receipt.
         seq (lift_result (emap (replace_slot
                (\<lambda>s. sl_allocation s = dr_allocation (se_dispatch se)) (settle_slot se)) (jn_attempts j))) (\<lambda>slots.
         seq (lift_result (construct SpendJournalSnapshot_ok (j\<lparr>jn_attempts := slots\<rparr>))) (\<lambda>j'.
         seq (spend_update img
                (e\<lparr>ex_journal := Some j', ex_settlements := ex_settlements e @ [receipt]\<rparr>)
                (if se_estimated_micros se \<noteq> None
                 then - al_bound_micros (dr_allocation (se_dispatch se)) else 0)
                (case se_estimated_micros se of None \<Rightarrow> 0 | Some amount \<Rightarrow> amount)
                (Some fence)
                (if bound_exceeded receipt
                 then Some (al_deployment_id (dr_allocation (se_dispatch se))) else None)) (\<lambda>_.
         ret receipt))))))))))"

definition close_slot :: "SpendAttemptSnapshot \<Rightarrow> SpendAttemptSnapshot" where
  "close_slot s =
     s\<lparr>sl_state := (if sl_state s = RESERVED then CLOSED_UNUSED else UNKNOWN)\<rparr>"

definition spend_close :: "spend_env \<Rightarrow> SpendReservation \<Rightarrow> SpendJournalSnapshot spend_method" where
  "spend_close env v =
     seq validated_image (\<lambda>img. seq (lift_result (spend_execution img v)) (\<lambda>e.
     case ex_journal e of
       None \<Rightarrow> raise (SpendControlError INVALID_STATE)
     | Some j \<Rightarrow>
       if jn_closed j then ret j
       else
         seq (spend_live env e) (\<lambda>_.
         let unused = sum_list (map (\<lambda>s. al_bound_micros (sl_allocation s))
                        (filter (\<lambda>s. sl_state s = RESERVED) (jn_attempts j))) in
         seq (lift_result (emap (replace_slot
                (\<lambda>s. sl_state s \<in> {RESERVED, MAY_HAVE_EXECUTED}) close_slot) (jn_attempts j))) (\<lambda>slots.
         seq (lift_result (spend_fence env img)) (\<lambda>fence.
         seq (lift_result (construct SpendJournalSnapshot_ok
                (j\<lparr>jn_attempts := slots, jn_closed := True, jn_closure_fence := Some fence\<rparr>))) (\<lambda>closed.
         seq (spend_update img (e\<lparr>ex_journal := Some closed\<rparr>) (- unused) 0 (Some fence) None) (\<lambda>_.
         ret closed)))))))"

end
