(* ===== verification/Spend_Audit.thy ===== *)
theory Spend_Audit
  imports Spend_Memory
begin

text \<open>
  What the adapter's self-audit computes, in closed form: the loop of \<open>_validated_image\<close>
  succeeds exactly when every execution record is well formed, every fence is used once and each
  bucket holds its opening balance plus the sum of what the journals account to it. The second
  half is the one lemma every mutating method rests on: publishing one replaced execution record
  whose changes match the published deltas keeps the audit true.
\<close>

subsection \<open>What one execution accounts to a bucket\<close>

definition slot_settled :: "SpendAttemptSnapshot \<Rightarrow> int" where
  "slot_settled s = (if sl_state s = SETTLED then found id 0 (sl_estimated_micros s) else 0)"

definition slot_held :: "SpendAttemptSnapshot \<Rightarrow> int" where
  "slot_held s =
     (if sl_state s \<in> {SETTLED, CLOSED_UNUSED} then 0 else al_bound_micros (sl_allocation s))"

definition execution_slots :: "Execution \<Rightarrow> SpendAttemptSnapshot list" where
  "execution_slots e = (case (ex_reservation e, ex_journal e) of
      (Some v, Some j) \<Rightarrow> jn_attempts j | _ \<Rightarrow> [])"

abbreviation execution_id :: "Execution \<Rightarrow> string" where
  "execution_id e \<equiv> rq_execution_id (ex_request e)"

definition execution_scopes :: "Execution \<Rightarrow> SpendBudgetScope set" where
  "execution_scopes e = bl_scope ` set (rq_limits (ex_request e))"

definition settled_of :: "SpendBudgetScope \<Rightarrow> Execution \<Rightarrow> int" where
  "settled_of sc e =
     (if sc \<in> execution_scopes e then sum_list (map slot_settled (execution_slots e)) else 0)"

definition held_of :: "SpendBudgetScope \<Rightarrow> Execution \<Rightarrow> int" where
  "held_of sc e =
     (if sc \<in> execution_scopes e then sum_list (map slot_held (execution_slots e)) else 0)"

subsection \<open>Ledgers shifted by an amount per scope\<close>

definition shift :: "ledger \<Rightarrow> (SpendBudgetScope \<Rightarrow> int) \<Rightarrow> ledger" where
  "shift m f = (\<lambda>sc. map_option (\<lambda>v. v + f sc) (m sc))"

lemma shift_zero [simp]: "shift m (\<lambda>_. 0) = m"
  by (simp add: shift_def option.map_ident)

lemma shift_shift [simp]: "shift (shift m f) g = shift m (\<lambda>sc. f sc + g sc)"
  by (auto simp: shift_def fun_eq_iff option.map_comp comp_def add.assoc)

lemma dom_shift [simp]: "dom (shift m f) = dom m"
  by (auto simp: shift_def)

lemma shift_cong: "(\<And>sc. f sc = g sc) \<Longrightarrow> shift m f = shift m g"
  by (simp add: shift_def)

lemma bump_scopes_shift:
  "distinct (map bl_scope ls) \<Longrightarrow> bl_scope ` set ls \<subseteq> dom m \<Longrightarrow>
   bump_scopes a ls m = Some (shift m (\<lambda>sc. if sc \<in> bl_scope ` set ls then a else 0))"
proof (induction ls arbitrary: m)
  case (Cons l ls)
  from Cons.prems obtain v where v: "m (bl_scope l) = Some v" by auto
  have "bump_scopes a ls (m(bl_scope l \<mapsto> v + a)) =
          Some (shift (m(bl_scope l \<mapsto> v + a)) (\<lambda>sc. if sc \<in> bl_scope ` set ls then a else 0))"
    using Cons.prems by (intro Cons.IH) auto
  also have "shift (m(bl_scope l \<mapsto> v + a)) (\<lambda>sc. if sc \<in> bl_scope ` set ls then a else 0) =
        shift m (\<lambda>sc. if sc \<in> bl_scope ` set (l # ls) then a else 0)"
    using Cons.prems v by (auto simp: shift_def fun_eq_iff)
  finally show ?case by (simp only: bump_scopes.simps v option.case)
qed simp

lemma account_slots_shift:
  assumes "distinct (map bl_scope ls)" "bl_scope ` set ls \<subseteq> dom s" "bl_scope ` set ls \<subseteq> dom h"
    and "\<And>x. x \<in> set slots \<Longrightarrow> sl_state x = SETTLED \<Longrightarrow> sl_estimated_micros x \<noteq> None"
  shows "account_slots ls slots (s, h) =
    Some (shift s (\<lambda>sc. if sc \<in> bl_scope ` set ls then sum_list (map slot_settled slots) else 0),
          shift h (\<lambda>sc. if sc \<in> bl_scope ` set ls then sum_list (map slot_held slots) else 0))"
  using assms
proof (induction slots arbitrary: s h)
  case (Cons x slots)
  have IH: "account_slots ls slots (s', h') =
      Some (shift s' (\<lambda>sc. if sc \<in> bl_scope ` set ls then sum_list (map slot_settled slots) else 0),
            shift h' (\<lambda>sc. if sc \<in> bl_scope ` set ls then sum_list (map slot_held slots) else 0))"
    if "dom s' = dom s" "dom h' = dom h" for s' h'
    using Cons.prems that by (intro Cons.IH) auto
  show ?case
  proof (cases "sl_state x = SETTLED")
    case True
    then obtain a where "sl_estimated_micros x = Some a" using Cons.prems(4)[of x] by auto
    with True Cons.prems show ?thesis
      by (auto simp: bump_scopes_shift IH slot_settled_def slot_held_def intro!: shift_cong)
  next
    case False
    with Cons.prems show ?thesis
      by (auto simp: bump_scopes_shift IH slot_settled_def slot_held_def intro!: shift_cong)
  qed
qed (simp cong: if_cong)

subsection \<open>The audit in closed form\<close>

text \<open>The part of the state fixed at construction.\<close>

definition static_ok :: "SpendState \<Rightarrow> bool" where
  "static_ok st \<longleftrightarrow> list_all SpendBudgetSnapshot_ok (ss_opening st) \<and>
     distinct (map bs_scope (ss_opening st)) \<and> fin_pos (ss_lease st) \<and>
     (\<forall>i r. ss_approved st i = Some r \<longrightarrow> rq_execution_id r = i \<and>
        SpendReservationRequest_ok r \<and> set (rq_limits r) = set (limits_for (ss_opening st) r))"

definition opening_scopes :: "SpendState \<Rightarrow> SpendBudgetScope set" where
  "opening_scopes st = set (map bs_scope (ss_opening st))"

lemma limits_for_scopes: "bl_scope ` set (limits_for ob r) \<subseteq> bs_scope ` set ob"
  by (auto simp: limits_for_def)

lemma execution_ok_approved:
  "execution_ok st e \<Longrightarrow> ss_approved st (execution_id e) = Some (ex_request e)"
  by (simp add: execution_ok_def)

lemma static_request:
  assumes "static_ok st" "execution_ok st e"
  shows "SpendReservationRequest_ok (ex_request e)"
    and "execution_scopes e \<subseteq> opening_scopes st"
    and "distinct (map bl_scope (rq_limits (ex_request e)))"
proof -
  from execution_ok_approved[OF assms(2)] assms(1)
  have r: "SpendReservationRequest_ok (ex_request e)"
    and l: "set (rq_limits (ex_request e)) = set (limits_for (ss_opening st) (ex_request e))"
    by (auto simp: static_ok_def)
  show "SpendReservationRequest_ok (ex_request e)" by (rule r)
  show "distinct (map bl_scope (rq_limits (ex_request e)))"
    by (rule request_limits_distinct[OF r])
  show "execution_scopes e \<subseteq> opening_scopes st"
    using l limits_for_scopes by (auto simp: execution_scopes_def opening_scopes_def)
qed

lemma execution_ok_shape:
  assumes "execution_ok st e"
  obtains (denied) "ex_reservation e = None" "ex_journal e = None" "ex_dispatches e = []"
      "ex_settlements e = []" "execution_slots e = []"
  | (owned) v j admitted expires where "ex_reservation e = Some v" "ex_journal e = Some j"
      "ex_admitted_at e = Some admitted" "ex_expires_at e = Some expires"
      "owned_execution_ok st e v j admitted expires" "execution_slots e = jn_attempts j"
  using assms
  by (cases "ex_reservation e"; cases "ex_journal e"; cases "ex_admitted_at e"; cases "ex_expires_at e")
     (auto simp: execution_ok_def execution_slots_def)

lemma settled_slot_has_cost:
  assumes "execution_ok st e" "x \<in> set (execution_slots e)" "sl_state x = SETTLED"
  shows "sl_estimated_micros x \<noteq> None"
  using assms(1)
proof (cases rule: execution_ok_shape)
  case denied
  with assms show ?thesis by simp
next
  case (owned v j admitted expires)
  then have "SpendAttemptSnapshot_ok x"
    using assms(2) by (auto simp: owned_execution_ok_def list_all_iff slot_ok_def)
  with assms(3) show ?thesis by (simp add: SpendAttemptSnapshot_ok_def)
qed

lemma audit_execution_account:
  assumes "static_ok st" "execution_ok st e" "opening_scopes st \<subseteq> dom s" "opening_scopes st \<subseteq> dom h"
  shows "account_slots (rq_limits (ex_request e)) (execution_slots e) (s, h) =
    Some (shift s (\<lambda>sc. settled_of sc e), shift h (\<lambda>sc. held_of sc e))"
proof -
  have "account_slots (rq_limits (ex_request e)) (execution_slots e) (s, h) =
      Some (shift s (\<lambda>sc. if sc \<in> execution_scopes e
                           then sum_list (map slot_settled (execution_slots e)) else 0),
            shift h (\<lambda>sc. if sc \<in> execution_scopes e
                           then sum_list (map slot_held (execution_slots e)) else 0))"
    unfolding execution_scopes_def
    using static_request(2,3)[OF assms(1,2)] assms settled_slot_has_cost[OF assms(2)]
    by (intro account_slots_shift) (auto simp: execution_scopes_def)
  then show ?thesis by (simp add: settled_of_def held_of_def)
qed

lemma audit_executions_closed:
  assumes "static_ok st" "\<forall>e\<in>set es. execution_ok st e"
    and "opening_scopes st \<subseteq> dom s" "opening_scopes st \<subseteq> dom h"
  shows "audit_executions st es (s, h, fs, su) =
    Some (shift s (\<lambda>sc. sum_list (map (settled_of sc) es)),
          shift h (\<lambda>sc. sum_list (map (held_of sc) es)),
          fs @ concat (map execution_fences es), su \<union> (\<Union>e\<in>set es. execution_suspends e))"
  using assms(2-)
proof (induction es arbitrary: s h fs su)
  case Nil
  then show ?case by simp
next
  case (Cons e es)
  then have ok: "execution_ok st e" by simp
  let ?s = "shift s (\<lambda>sc. settled_of sc e)" and ?h = "shift h (\<lambda>sc. held_of sc e)"
  have IH: "audit_executions st es (?s, ?h, fs @ execution_fences e, su \<union> execution_suspends e) =
    Some (shift ?s (\<lambda>sc. sum_list (map (settled_of sc) es)),
          shift ?h (\<lambda>sc. sum_list (map (held_of sc) es)),
          (fs @ execution_fences e) @ concat (map execution_fences es),
          (su \<union> execution_suspends e) \<union> (\<Union>e\<in>set es. execution_suspends e))"
    using Cons.prems by (intro Cons.IH) auto
  from ok show ?case
  proof (cases rule: execution_ok_shape)
    case denied
    then have "settled_of sc e = 0" "held_of sc e = 0" for sc
      by (simp_all add: settled_of_def held_of_def)
    moreover have "execution_fences e = []" "execution_suspends e = {}"
      using denied by (simp_all add: execution_fences_def execution_suspends_def)
    ultimately show ?thesis using IH ok denied by simp
  next
    case (owned v j admitted expires)
    then have "rv_request v = ex_request e" by (simp add: owned_execution_ok_def)
    then have "account_slots (rq_limits (rv_request v)) (jn_attempts j) (s, h) = Some (?s, ?h)"
      using audit_execution_account[OF assms(1) ok] Cons.prems owned by simp
    with IH ok owned show ?thesis by (simp add: Un_assoc)
  qed
qed

lemma audit_executions_ok:
  "audit_executions st es acc = Some acc' \<Longrightarrow> e \<in> set es \<Longrightarrow> execution_ok st e"
  by (induction st es acc rule: audit_executions.induct)
     (auto split: if_splits option.splits prod.splits)

subsection \<open>The invariant\<close>

definition budget_matches :: "Execution list \<Rightarrow> SpendBudgetSnapshot \<Rightarrow> SpendBudgetSnapshot \<Rightarrow> bool" where
  "budget_matches es ob b \<longleftrightarrow> bs_limit b = bs_limit ob \<and> SpendBudgetSnapshot_ok b \<and>
     bs_settled_micros b = bs_settled_micros ob + sum_list (map (settled_of (bs_scope b)) es) \<and>
     bs_held_micros b = bs_held_micros ob + sum_list (map (held_of (bs_scope b)) es)"

definition ledger_inv :: "SpendState \<Rightarrow> bool" where
  "ledger_inv st \<longleftrightarrow> (let img = ss_image st; es = im_executions img;
                       fences = concat (map execution_fences es) in
     im_revision img = ss_revision st \<and> execution_id ` set es = ss_seen st \<and>
     distinct (map execution_id es) \<and> (\<forall>e\<in>set es. execution_ok st e) \<and>
     set fences = im_fences img \<and> distinct fences \<and>
     (\<Union>e\<in>set es. execution_suspends e) = im_suspended img \<and>
     list_all2 (budget_matches es) (ss_opening st) (im_budgets img))"

lemma opening_dict:
  assumes "distinct (map bs_scope (ss_opening st))" "b \<in> set (ss_opening st)"
  shows "py_dict (map (\<lambda>b. (bs_scope b, f b)) (ss_opening st)) (bs_scope b) = Some (f b)"
  using assms by (subst py_dict_distinct) (auto simp: comp_def)

lemma opening_dict_dom:
  "opening_scopes st \<subseteq> dom (py_dict (map (\<lambda>b. (bs_scope b, f b)) (ss_opening st)))"
proof
  fix sc assume "sc \<in> opening_scopes st"
  then have "sc \<in> fst ` set (map (\<lambda>b. (bs_scope b, f b)) (ss_opening st))"
    by (auto simp: opening_scopes_def image_image)
  then show "sc \<in> dom (py_dict (map (\<lambda>b. (bs_scope b, f b)) (ss_opening st)))"
    using py_dict_None[of "map (\<lambda>b. (bs_scope b, f b)) (ss_opening st)" sc] by (auto simp: domIff)
qed

text \<open>
  The executable audit and the closed-form invariant agree: running the loop of
  \<open>_validated_image\<close> succeeds exactly when the invariant holds and no failure is latched.
\<close>

lemma image_consistent_iff:
  assumes "static_ok st"
  shows "image_consistent st \<longleftrightarrow> \<not> ss_failed st \<and> ledger_inv st"
proof -
  define es where "es = im_executions (ss_image st)"
  define s0 where "s0 = py_dict (map (\<lambda>b. (bs_scope b, bs_settled_micros b)) (ss_opening st))"
  define h0 where "h0 = py_dict (map (\<lambda>b. (bs_scope b, bs_held_micros b)) (ss_opening st))"
  have dom0: "opening_scopes st \<subseteq> dom s0" "opening_scopes st \<subseteq> dom h0"
    unfolding s0_def h0_def by (rule opening_dict_dom)+
  have dist: "distinct (map bs_scope (ss_opening st))" using assms by (simp add: static_ok_def)
  have row: "(bs_limit b = bs_limit ob \<and> SpendBudgetSnapshot_ok b \<and>
        shift s0 (\<lambda>sc. sum_list (map (settled_of sc) es)) (bs_scope b) = Some (bs_settled_micros b) \<and>
        shift h0 (\<lambda>sc. sum_list (map (held_of sc) es)) (bs_scope b) = Some (bs_held_micros b)) \<longleftrightarrow>
      budget_matches es ob b" if "ob \<in> set (ss_opening st)" for ob b
    using opening_dict[OF dist that, of bs_settled_micros] opening_dict[OF dist that, of bs_held_micros]
    by (auto simp: budget_matches_def shift_def s0_def h0_def)
  show ?thesis
  proof (cases "\<forall>e\<in>set es. execution_ok st e")
    case True
    have "audit_executions st es (s0, h0, [], {}) =
      Some (shift s0 (\<lambda>sc. sum_list (map (settled_of sc) es)),
            shift h0 (\<lambda>sc. sum_list (map (held_of sc) es)),
            concat (map execution_fences es), \<Union>e\<in>set es. execution_suspends e)"
      using audit_executions_closed[OF assms True dom0, of "[]" "{}"] by simp
    moreover have "list_all2 (\<lambda>ob b. bs_limit b = bs_limit ob \<and> SpendBudgetSnapshot_ok b \<and>
        shift s0 (\<lambda>sc. sum_list (map (settled_of sc) es)) (bs_scope b) = Some (bs_settled_micros b) \<and>
        shift h0 (\<lambda>sc. sum_list (map (held_of sc) es)) (bs_scope b) = Some (bs_held_micros b))
        (ss_opening st) (im_budgets (ss_image st)) \<longleftrightarrow>
      list_all2 (budget_matches es) (ss_opening st) (im_budgets (ss_image st))"
      using row by (auto simp: list_all2_conv_all_nth)
    moreover have "set fs = im_fences (ss_image st) \<Longrightarrow>
        length fs = card (im_fences (ss_image st)) \<longleftrightarrow> distinct fs" for fs
      by (metis card_distinct distinct_card)
    moreover have "execution_id ` set es = ss_seen st \<Longrightarrow>
        length es = card (ss_seen st) \<longleftrightarrow> distinct (map execution_id es)"
      by (rule card_distinct_keys) simp
    ultimately show ?thesis
      using True unfolding image_consistent_def ledger_inv_def Let_def
      by (auto simp flip: es_def s0_def h0_def)
  next
    case False
    then have "audit_executions st es (s0, h0, [], {}) = None"
      using audit_executions_ok by (metis option.exhaust)
    with False show ?thesis
      unfolding image_consistent_def ledger_inv_def Let_def
      by (auto simp flip: es_def s0_def h0_def)
  qed
qed

end
