(* ===== verification/Spend_Invariant.thy ===== *)
theory Spend_Invariant
  imports Spend_Audit
begin

text \<open>
  Every method of the in-memory spend-admission adapter keeps the ledger invariant, and a
  method that raises leaves the ledger as it was.
\<close>

subsection \<open>Publishing one execution record\<close>

text \<open>Equal but for the two clock watermarks.\<close>

definition same_core :: "SpendState \<Rightarrow> SpendState \<Rightarrow> bool" where
  "same_core s t \<longleftrightarrow> t = s\<lparr>ss_last_now := ss_last_now t, ss_last_utc := ss_last_utc t\<rparr>"

lemma same_core_fields:
  assumes "same_core s t"
  shows "ss_opening t = ss_opening s" "ss_approved t = ss_approved s" "ss_lease t = ss_lease s"
    "ss_image t = ss_image s" "ss_failed t = ss_failed s" "ss_seen t = ss_seen s"
    "ss_revision t = ss_revision s" "ss_epoch t = ss_epoch s" "ss_digest t = ss_digest s"
  using assms unfolding same_core_def by (metis SpendState.select_convs SpendState.surjective
      SpendState.update_convs)+

lemma same_core_refl [simp, intro]: "same_core s s"
  by (simp add: same_core_def)

lemma execution_ok_cong:
  assumes "ss_approved t = ss_approved s" "ss_lease t = ss_lease s"
  shows "execution_ok t e \<longleftrightarrow> execution_ok s e"
proof -
  have "owned_execution_ok t e = owned_execution_ok s e"
    using assms by (simp add: owned_execution_ok_def fun_eq_iff)
  then show ?thesis using assms by (auto simp: execution_ok_def split: option.splits)
qed

definition opt_list :: "'a option \<Rightarrow> 'a list" where
  "opt_list x = (case x of None \<Rightarrow> [] | Some y \<Rightarrow> [y])"

lemma opt_list_simps [simp]: "opt_list None = []" "opt_list (Some y) = [y]"
  by (simp_all add: opt_list_def)

abbreviation previous :: "SpendState \<Rightarrow> Execution \<Rightarrow> Execution option" where
  "previous st e \<equiv> find (\<lambda>x. execution_id x = execution_id e) (im_executions (ss_image st))"

text \<open>
  The published change of one execution: the record's journals, fences and suspensions grow by
  exactly what the call publishes beside it.
\<close>

definition accounted ::
  "SpendState \<Rightarrow> Execution \<Rightarrow> int \<Rightarrow> int \<Rightarrow> string option \<Rightarrow> string option \<Rightarrow> bool" where
  "accounted st e held_delta settled_delta fence model \<longleftrightarrow>
     execution_ok st e \<and>
     mset (execution_fences e) =
       mset (found execution_fences [] (previous st e)) + mset (opt_list fence) \<and>
     (\<forall>x. fence = Some x \<longrightarrow> x \<noteq> [] \<and> x \<notin> im_fences (ss_image st)) \<and>
     execution_suspends e = found execution_suspends {} (previous st e) \<union> truthy_set model \<and>
     sum_list (map slot_settled (execution_slots e)) =
       found (\<lambda>x. sum_list (map slot_settled (execution_slots x))) 0 (previous st e) + settled_delta \<and>
     sum_list (map slot_held (execution_slots e)) =
       found (\<lambda>x. sum_list (map slot_held (execution_slots x))) 0 (previous st e) + held_delta"

lemma ledger_execution_ok:
  "ledger_inv st \<Longrightarrow> e \<in> set (im_executions (ss_image st)) \<Longrightarrow> execution_ok st e"
  by (simp add: ledger_inv_def Let_def)

lemma previous_request:
  assumes "ledger_inv st" "execution_ok st e" "previous st e = Some p"
  shows "ex_request p = ex_request e" "execution_ok st p" "p \<in> set (im_executions (ss_image st))"
proof -
  from assms(3) have p: "p \<in> set (im_executions (ss_image st))" "execution_id p = execution_id e"
    by (auto dest: find_SomeD)
  with assms(1) show ok: "execution_ok st p" by (auto intro: ledger_execution_ok)
  from execution_ok_approved[OF ok] execution_ok_approved[OF assms(2)] p(2)
  show "ex_request p = ex_request e" by (metis option.inject)
  show "p \<in> set (im_executions (ss_image st))" by (rule p(1))
qed

lemma accounted_sums:
  assumes inv: "ledger_inv st" and acc: "accounted st e dh ds f m"
  defines "es \<equiv> im_executions (ss_image st)"
  shows "sum_list (map (settled_of sc) (put_execution e es)) =
           sum_list (map (settled_of sc) es) + (if sc \<in> execution_scopes e then ds else 0)"
    and "sum_list (map (held_of sc) (put_execution e es)) =
           sum_list (map (held_of sc) es) + (if sc \<in> execution_scopes e then dh else 0)"
proof -
  have dist: "distinct (map execution_id es)" using inv by (simp add: ledger_inv_def Let_def es_def)
  have ok: "execution_ok st e" using acc by (simp add: accounted_def)
  have sc: "execution_scopes p = execution_scopes e" if "previous st e = Some p" for p
    using previous_request(1)[OF inv ok that] by (simp add: execution_scopes_def)
  have "settled_of sc e = found (settled_of sc) 0 (previous st e) +
          (if sc \<in> execution_scopes e then ds else 0)"
    using acc sc by (cases "previous st e") (auto simp: accounted_def settled_of_def)
  then show "sum_list (map (settled_of sc) (put_execution e es)) =
           sum_list (map (settled_of sc) es) + (if sc \<in> execution_scopes e then ds else 0)"
    using sum_list_by_key[OF dist, of "settled_of sc" "execution_id e"]
    by (simp add: put_execution_def es_def)
  have "held_of sc e = found (held_of sc) 0 (previous st e) +
          (if sc \<in> execution_scopes e then dh else 0)"
    using acc sc by (cases "previous st e") (auto simp: accounted_def held_of_def)
  then show "sum_list (map (held_of sc) (put_execution e es)) =
           sum_list (map (held_of sc) es) + (if sc \<in> execution_scopes e then dh else 0)"
    using sum_list_by_key[OF dist, of "held_of sc" "execution_id e"]
    by (simp add: put_execution_def es_def)
qed

lemma accounted_fences:
  assumes inv: "ledger_inv st" and acc: "accounted st e dh ds f m"
  defines "es \<equiv> im_executions (ss_image st)"
  defines "fs \<equiv> concat (map execution_fences (put_execution e es))"
  shows "distinct fs" "set fs = im_fences (ss_image st) \<union> truthy_set f"
proof -
  let ?old = "concat (map execution_fences es)"
  have dist: "distinct (map execution_id es)" and old: "distinct ?old" "set ?old = im_fences (ss_image st)"
    using inv by (simp_all add: ledger_inv_def Let_def es_def)
  have eq: "mset fs = mset (?old @ opt_list f)"
    using mset_concat_by_key[OF dist, of execution_fences "execution_id e"] acc
    by (simp add: fs_def put_execution_def accounted_def es_def)
  have "distinct (?old @ opt_list f)"
    using old acc by (cases f) (auto simp: accounted_def)
  then show "distinct fs" using eq by (metis mset_eq_imp_distinct_iff)
  show "set fs = im_fences (ss_image st) \<union> truthy_set f"
    using mset_eq_setD[OF eq] old acc
    by (cases f) (auto simp: truthy_set_def accounted_def)
qed

lemma accounted_budgets:
  assumes inv: "ledger_inv st" and acc: "accounted st e dh ds f m"
  defines "es \<equiv> im_executions (ss_image st)"
  defines "bs \<equiv> shift_budgets (map bl_scope (rq_limits (ex_request e))) dh ds (im_budgets (ss_image st))"
  assumes ok: "list_all (\<lambda>b. bs_scope b \<in> execution_scopes e \<longrightarrow> SpendBudgetSnapshot_ok b) bs"
  shows "list_all2 (budget_matches (put_execution e es)) (ss_opening st) bs"
proof -
  have scopes: "set (map bl_scope (rq_limits (ex_request e))) = execution_scopes e"
    by (simp add: execution_scopes_def)
  have okb: "SpendBudgetSnapshot_ok
      (b\<lparr>bs_held_micros := bs_held_micros b + dh, bs_settled_micros := bs_settled_micros b + ds\<rparr>)"
    if "bs_scope b \<in> execution_scopes e" "b \<in> set (im_budgets (ss_image st))" for b
    using ok that by (force simp: bs_def shift_budgets_def list_all_iff execution_scopes_def)
  have "list_all2 (budget_matches es) (ss_opening st) (im_budgets (ss_image st))"
    using inv by (simp add: ledger_inv_def Let_def es_def)
  then have "list_all2 (\<lambda>ob b. budget_matches (put_execution e es) ob
      (if bs_scope b \<in> execution_scopes e
       then b\<lparr>bs_held_micros := bs_held_micros b + dh, bs_settled_micros := bs_settled_micros b + ds\<rparr>
       else b)) (ss_opening st) (im_budgets (ss_image st))"
  proof (rule list.rel_mono_strong)
    fix ob b assume "b \<in> set (im_budgets (ss_image st))" "budget_matches es ob b"
    then show "budget_matches (put_execution e es) ob
        (if bs_scope b \<in> execution_scopes e
         then b\<lparr>bs_held_micros := bs_held_micros b + dh, bs_settled_micros := bs_settled_micros b + ds\<rparr>
         else b)"
      using okb[of b] accounted_sums[OF inv acc, of "bs_scope b"]
      by (auto simp: budget_matches_def es_def)
  qed
  then show ?thesis
    unfolding bs_def shift_budgets_def scopes list_all2_map2 .
qed

lemma spend_update_returns:
  assumes "spend_update img e dh ds f m s = (Inr (), t)"
  shows "t = s\<lparr>ss_seen := execution_id ` set (put_execution e (im_executions img)),
      ss_revision := im_revision img + 1,
      ss_image := \<lparr>im_revision = im_revision img + 1,
        im_budgets = shift_budgets (map bl_scope (rq_limits (ex_request e))) dh ds (im_budgets img),
        im_executions = put_execution e (im_executions img),
        im_suspended = im_suspended img \<union> truthy_set m, im_fences = im_fences img \<union> truthy_set f\<rparr>\<rparr>"
    and "list_all (\<lambda>b. bs_scope b \<in> execution_scopes e \<longrightarrow> SpendBudgetSnapshot_ok b)
           (shift_budgets (map bl_scope (rq_limits (ex_request e))) dh ds (im_budgets img))"
  using assms by (auto simp: spend_update_def commit_def Let_def execution_scopes_def split: if_splits)

text \<open>The lemma behind every mutating method.\<close>

lemma spend_update_ledger:
  assumes inv: "ledger_inv st" and acc: "accounted st e dh ds f m"
    and core: "same_core st s"
    and upd: "spend_update (ss_image st) e dh ds f m s = (Inr (), t)"
  shows "ledger_inv t"
proof -
  note t = spend_update_returns(1)[OF upd] and core = same_core_fields[OF core]
  let ?es = "im_executions (ss_image st)"
  have old: "distinct (map execution_id ?es)" "\<forall>x\<in>set ?es. execution_ok st x"
      "(\<Union>x\<in>set ?es. execution_suspends x) = im_suspended (ss_image st)"
    using inv by (simp_all add: ledger_inv_def Let_def)
  have ok: "execution_ok t x" if "x \<in> set (put_execution e ?es)" for x
  proof -
    from that old acc have "execution_ok st x" by (auto simp: put_execution_def accounted_def)
    then show ?thesis using core t execution_ok_cong[of t st x] by simp
  qed
  have susp: "(\<Union>x\<in>set (put_execution e ?es). execution_suspends x) =
      im_suspended (ss_image st) \<union> truthy_set m"
    using Union_by_key[OF old(1), of execution_suspends "execution_id e"] old(3) acc
    by (auto simp: put_execution_def accounted_def)
  have dist: "distinct (map execution_id (put_execution e ?es))"
    unfolding put_execution_def by (rule distinct_keys_put[OF old(1)]) simp
  from accounted_budgets[OF inv acc spend_update_returns(2)[OF upd]] accounted_fences[OF inv acc]
    ok susp dist core
  show ?thesis unfolding t ledger_inv_def Let_def by simp
qed

end
