(* ===== verification/Spend_Steps.thy ===== *)
theory Spend_Steps
  imports Spend_Invariant
begin

text \<open>
  The methods of the spend-admission adapter as steps: which of them publish, what each
  publication accounts for, and that a raising method publishes nothing.
\<close>

subsection \<open>Methods that publish nothing, and methods that raise cleanly\<close>

lemma same_core_trans [trans]: "same_core r s \<Longrightarrow> same_core s t \<Longrightarrow> same_core r t"
  unfolding same_core_def by (cases r; cases s; cases t) simp

definition quiet :: "'a spend_method \<Rightarrow> bool" where
  "quiet m \<longleftrightarrow> (\<forall>s. same_core s (snd (m s)))"

text \<open>A raise changes the clock watermarks at most, or latches the failure flag.\<close>

definition clean :: "'a spend_method \<Rightarrow> bool" where
  "clean m \<longleftrightarrow> (\<forall>s e t. m s = (Inl e, t) \<longrightarrow> same_core s t \<or> same_core (s\<lparr>ss_failed := True\<rparr>) t)"

lemma same_core_watermarks [simp]:
  "same_core s (s\<lparr>ss_last_now := n\<rparr>)" "same_core s (s\<lparr>ss_last_utc := u\<rparr>)"
  by (simp_all add: same_core_def)

lemma quiet_prims [simp, intro]:
  "quiet (ret x)" "quiet (raise e)" "quiet get_state" "quiet (lift_result r)"
  "quiet (require c e)" "quiet validated_image"
  by (simp_all add: quiet_def get_state_def require_def validated_image_def)

lemma quiet_now [simp, intro]: "quiet (spend_now env)"
  by (auto simp: quiet_def spend_now_def split: option.splits)

lemma quiet_date [simp, intro]: "quiet (check_admission_date env r)"
  by (auto simp: quiet_def check_admission_date_def Let_def split: option.splits)

lemma quiet_seq [intro]:
  assumes "quiet m" "\<And>x. quiet (f x)"
  shows "quiet (seq m f)"
  unfolding quiet_def
proof
  fix s
  from assms(1) have m: "same_core s (snd (m s))" by (simp add: quiet_def)
  show "same_core s (snd (seq m f s))"
  proof (cases rule: seq_cases[of m s f])
    case (raised e t)
    with m show ?thesis by simp
  next
    case (continued x t)
    with m assms(2) show ?thesis by (auto simp: quiet_def intro: same_core_trans)
  qed
qed

lemma quiet_live [simp, intro]: "quiet (spend_live env e)"
  unfolding spend_live_def by (intro quiet_seq quiet_prims quiet_now)

lemma quietD: "quiet m \<Longrightarrow> m s = (r, t) \<Longrightarrow> same_core s t"
  by (metis quiet_def snd_conv)

lemma quiet_clean: "quiet m \<Longrightarrow> clean m"
  by (auto simp: clean_def dest: quietD)

lemma same_core_failed: "same_core s t \<Longrightarrow> same_core (s\<lparr>ss_failed := True\<rparr>) (t\<lparr>ss_failed := True\<rparr>)"
  unfolding same_core_def by (cases s; cases t) simp

lemma clean_seq:
  assumes "quiet m" "\<And>x. clean (f x)"
  shows "clean (seq m f)"
  unfolding clean_def
proof (intro allI impI)
  fix s e t assume eq: "seq m f s = (Inl e, t)"
  show "same_core s t \<or> same_core (s\<lparr>ss_failed := True\<rparr>) t"
  proof (cases rule: seq_cases[of m s f])
    case (raised e' s')
    with eq assms(1) show ?thesis by (auto dest: quietD)
  next
    case (continued x s')
    with eq have "f x s' = (Inl e, t)" by simp
    with assms(2)[of x] have "same_core s' t \<or> same_core (s'\<lparr>ss_failed := True\<rparr>) t"
      by (auto simp: clean_def)
    moreover have "same_core s s'" using assms(1) continued(1) by (rule quietD)
    ultimately show ?thesis
      using same_core_trans[of s s' t] same_core_trans[OF same_core_failed, of s s' t] by blast
  qed
qed

lemma clean_update: "clean (seq (spend_update img e dh ds f m) (\<lambda>_. ret x))"
  by (auto simp: clean_def seq_def spend_update_def commit_def Let_def same_core_def split: if_splits)

lemma clean_cases:
  "(\<And>y. x = Some y \<Longrightarrow> clean (f y)) \<Longrightarrow> clean g \<Longrightarrow> clean (case x of None \<Rightarrow> g | Some y \<Rightarrow> f y)"
  "(c \<Longrightarrow> clean p) \<Longrightarrow> (\<not> c \<Longrightarrow> clean q) \<Longrightarrow> clean (if c then p else q)"
  by (auto split: option.splits)

lemma clean_methods:
  "clean (spend_reserve env r)" "clean (spend_dispatch env v a)"
  "clean (spend_settle env se)" "clean (spend_close env v)"
  unfolding spend_reserve_def admit_request_def spend_dispatch_def spend_settle_def spend_close_def Let_def
  by (intro clean_seq clean_cases clean_update quiet_clean quiet_prims quiet_live quiet_now quiet_date)+

lemma quiet_methods:
  "quiet (spend_budget sc epoch)" "quiet (spend_journal v)" "quiet (spend_is_current env v)"
  unfolding spend_budget_def spend_journal_def spend_is_current_def
  by (intro quiet_seq quiet_prims quiet_now; simp split: option.splits)+

subsection \<open>Slots\<close>

lemma emap_replace_slot:
  assumes "emap (replace_slot c f) slots = Inr slots'"
  shows "slots' = map (\<lambda>s. if c s then f s else s) slots"
    and "\<forall>s\<in>set slots. c s \<longrightarrow> SpendAttemptSnapshot_ok (f s)"
  using assms
  by (induction slots arbitrary: slots')
     (auto simp: replace_slot_def construct_def split: if_splits)

lemma construct_Inr [simp]: "construct ok v = Inr w \<longleftrightarrow> ok v \<and> w = v"
  by (auto simp: construct_def)

lemma emap_construct: "emap (construct ok) xs = Inr ys \<longleftrightarrow> list_all ok xs \<and> ys = xs"
  by (induction xs arbitrary: ys) auto

lemma spend_fence_Inr [simp]:
  "spend_fence env img = Inr f \<longleftrightarrow>
     (\<exists>u. env_uuid env = Some u \<and> f = uuid_hex u \<and> f \<notin> im_fences img)"
  by (auto simp: spend_fence_def split: option.splits)

lemma sum_slots_update:
  fixes g :: "SpendAttemptSnapshot \<Rightarrow> int"
  assumes "distinct (map sl_allocation slots)" "x \<in> set slots" "sl_allocation x = a"
  shows "sum_list (map g (map (\<lambda>s. if sl_allocation s = a then f s else s) slots)) =
         sum_list (map g slots) + (g (f x) - g x)"
proof -
  have same: "s = x" if "s \<in> set slots" "sl_allocation s = a" for s
    using assms that by (metis distinct_map inj_onD)
  have "sum_list (map (\<lambda>s. g (if sl_allocation s = a then f s else s)) slots) =
        sum_list (map g slots) + (g (if sl_allocation x = a then f x else x) - g x)"
  proof (rule sum_list_map_update)
    show "distinct slots" using assms(1) by (simp add: distinct_map)
    show "g (if sl_allocation y = a then f y else y) = g y" if "y \<in> set slots" "y \<noteq> x" for y
      using same that by auto
  qed (rule assms(2))
  then show ?thesis using assms(3) by (simp add: comp_def)
qed

lemma spend_execution_Inr:
  assumes "spend_execution img v = Inr e"
  shows "e \<in> set (im_executions img)" "ex_reservation e = Some v"
    "rq_execution_id (rv_request v) = execution_id e"
    "find (\<lambda>x. execution_id x = execution_id e) (im_executions img) = Some e"
proof -
  from assms have f: "find (\<lambda>x. execution_id x = rq_execution_id (rv_request v)) (im_executions img) = Some e"
    and v: "ex_reservation e = Some v"
    by (auto simp: spend_execution_def split: option.splits if_splits)
  from find_SomeD[OF f] show "e \<in> set (im_executions img)"
    and i: "rq_execution_id (rv_request v) = execution_id e" by auto
  show "ex_reservation e = Some v" by (rule v)
  from f show "find (\<lambda>x. execution_id x = execution_id e) (im_executions img) = Some e"
    by (simp add: i)
qed

lemma validated_image_Inr:
  assumes "static_ok st" "validated_image st = (Inr img, t)"
  shows "t = st" "img = ss_image st" "ledger_inv st" "\<not> ss_failed st"
  using assms image_consistent_iff[OF assms(1)]
  by (auto simp: validated_image_def split: if_splits)

end
