(* ===== verification/Spend_Methods.thy ===== *)
theory Spend_Methods
  imports Spend_Steps
begin

text \<open>
  The four publishing methods, one after the other: what a returning call has done, and that
  the execution record it publishes is accounted for.
\<close>

subsection \<open>Owned executions\<close>

lemma spend_live_Inr:
  assumes "spend_live env e s = (Inr x, t)"
  shows "same_core s t" "\<exists>j. ex_journal e = Some j \<and> \<not> jn_closed j"
  using assms quietD[OF quiet_live assms]
  by (auto simp: spend_live_def seq_Inr_iff split: option.splits if_splits)

text \<open>What the audit says about an execution whose journal is open.\<close>

lemma owned_facts:
  assumes "static_ok st" "execution_ok st e" "ex_reservation e = Some v" "ex_journal e = Some j"
  obtains admitted expires where
    "ex_admitted_at e = Some admitted" "ex_expires_at e = Some expires"
    "owned_execution_ok st e v j admitted expires" "rv_request v = ex_request e"
    "map sl_allocation (jn_attempts j) = rq_allocations (ex_request e)"
    "distinct (map sl_allocation (jn_attempts j))"
    "distinct (map dr_allocation (ex_dispatches e))"
    "distinct (map receipt_allocation (ex_settlements e))"
  using assms(2)
proof (cases rule: execution_ok_shape)
  case (owned v' j' admitted expires)
  with assms have own: "owned_execution_ok st e v j admitted expires" by simp
  then have r: "rv_request v = ex_request e" and "SpendJournalSnapshot_ok j" "jn_reservation j = v"
    by (simp_all add: owned_execution_ok_def)
  then have m: "map sl_allocation (jn_attempts j) = rq_allocations (ex_request e)"
    by (simp add: SpendJournalSnapshot_ok_def)
  have "distinct (rq_allocations (ex_request e))"
    by (rule request_allocations_distinct[OF static_request(1)[OF assms(1,2)]])
  moreover have "distinct (map dr_allocation (ex_dispatches e))"
    "distinct (map receipt_allocation (ex_settlements e))"
    using own by (simp_all add: owned_execution_ok_def py_dict_len_keyed)
  ultimately show ?thesis using that owned(3,4) own r m by simp
qed (use assms in simp)

lemma dispatch_dict_iff:
  "distinct (map dr_allocation (ex_dispatches e)) \<Longrightarrow>
   dispatch_dict e a = Some d \<longleftrightarrow> d \<in> set (ex_dispatches e) \<and> dr_allocation d = a"
  by (subst py_dict_distinct) (auto simp: comp_def)

lemma settlement_dict_iff:
  "distinct (map receipt_allocation (ex_settlements e)) \<Longrightarrow>
   settlement_dict e a = Some r \<longleftrightarrow> r \<in> set (ex_settlements e) \<and> receipt_allocation r = a"
  by (subst py_dict_distinct) (auto simp: comp_def)

lemma py_dict_snoc: "py_dict (kvs @ [(k, v)]) = (py_dict kvs)(k \<mapsto> v)"
  by (simp add: py_dict_def)

lemma find_None_dict:
  "find (\<lambda>d. dr_allocation d = a) (ex_dispatches e) = None \<longleftrightarrow> dispatch_dict e a = None"
  by (auto simp: find_None_iff py_dict_None image_image)

subsection \<open>Reserve\<close>

lemma spend_reserve_returns:
  assumes "static_ok st" "spend_reserve env r st = (Inr x, t)"
  obtains (resolved) e where "t = st" "e \<in> set (im_executions (ss_image st))"
      "execution_id e = rq_execution_id r" "x = ex_reservation e" "ss_approved st (rq_execution_id r) = Some r"
  | (denied) s where "x = None" "ledger_inv st" "ss_approved st (rq_execution_id r) = Some r"
      "find (\<lambda>e. execution_id e = rq_execution_id r) (im_executions (ss_image st)) = None"
      "same_core st s" "spend_update (ss_image st) (bare_execution r) 0 0 None None s = (Inr (), t)"
  | (admitted) s now u v j e deadline where
      "x = Some v" "ledger_inv st" "ss_approved st (rq_execution_id r) = Some r"
      "find (\<lambda>e. execution_id e = rq_execution_id r) (im_executions (ss_image st)) = None"
      "all_permit (reserved_micros r)
         (filter (\<lambda>b. bs_scope b \<in> bl_scope ` set (rq_limits r)) (im_budgets (ss_image st))) = Inr True"
      "\<forall>a\<in>set (rq_allocations r). al_deployment_id a \<notin> im_suspended (ss_image st)"
      "ffinite now" "\<not> flt now fzero" "deadline = fadd now (ss_lease st)" "ffinite deadline" "\<not> fle deadline now"
      "v = \<lparr>rv_request = r, rv_owner_fence = uuid_hex u, rv_owner_timeout_seconds = ss_lease st\<rparr>"
      "uuid_hex u \<notin> im_fences (ss_image st)"
      "j = \<lparr>jn_reservation = v, jn_attempts = map reserved_slot (rq_allocations r), jn_closed = False,
            jn_closure_fence = None\<rparr>"
      "SpendReservation_ok v" "SpendJournalSnapshot_ok j" "\<forall>a\<in>set (rq_allocations r). SpendAttemptSnapshot_ok (reserved_slot a)"
      "e = \<lparr>ex_request = r, ex_reservation = Some v, ex_expires_at = Some deadline,
             ex_journal = Some j, ex_dispatches = [], ex_settlements = [], ex_admitted_at = Some now\<rparr>"
      "same_core st s" "spend_update (ss_image st) e (reserved_micros r) 0 (Some (uuid_hex u)) None s = (Inr (), t)"
proof -
  from assms(2) obtain img where vi: "validated_image st = (Inr img, st)"
    and ap: "ss_approved st (rq_execution_id r) = Some r"
    and rest: "(case find (\<lambda>e. execution_id e = rq_execution_id r) (im_executions img) of
       Some existing \<Rightarrow> ret (ex_reservation existing)
     | None \<Rightarrow>
       seq (spend_now env) (\<lambda>now.
       seq (check_admission_date env r) (\<lambda>_.
       seq (require (\<not> list_ex (\<lambda>a. al_deployment_id a \<in> im_suspended img) (rq_allocations r))
              (SpendControlError INVALID_STATE)) (\<lambda>_.
       seq (lift_result (all_permit (reserved_micros r)
              (filter (\<lambda>b. bs_scope b \<in> set (map bl_scope (rq_limits r))) (im_budgets img)))) (\<lambda>fits.
       if \<not> fits
       then seq (spend_update img (bare_execution r) 0 0 None None) (\<lambda>_. ret None)
       else admit_request env img r now))))) st = (Inr x, t)"
    unfolding spend_reserve_def
    by (auto simp: seq_Inr_iff validated_image_def split: if_splits)
  note img = validated_image_Inr[OF assms(1) vi]
  show ?thesis
  proof (cases "find (\<lambda>e. execution_id e = rq_execution_id r) (im_executions img)")
    case (Some e)
    with rest img ap show ?thesis by (intro resolved[of e]) (auto dest: find_SomeD)
  next
    case None
    with rest obtain now s1 s2 fits where
      now: "spend_now env st = (Inr now, s1)" and date: "check_admission_date env r s1 = (Inr (), s2)"
      and sus: "\<not> list_ex (\<lambda>a. al_deployment_id a \<in> im_suspended img) (rq_allocations r)"
      and fits: "all_permit (reserved_micros r)
              (filter (\<lambda>b. bs_scope b \<in> set (map bl_scope (rq_limits r))) (im_budgets img)) = Inr fits"
      and fin: "(if \<not> fits then seq (spend_update img (bare_execution r) 0 0 None None) (\<lambda>_. ret None)
         else admit_request env img r now) s2 = (Inr x, t)"
      by (auto simp: seq_Inr_iff)
    have core: "same_core st s2"
      using quietD[OF quiet_now now] quietD[OF quiet_date date] by (rule same_core_trans)
    have lease: "ss_lease s2 = ss_lease st" using same_core_fields(3)[OF core] .
    show ?thesis
    proof (cases fits)
      case False
      with fin obtain y where "spend_update img (bare_execution r) 0 0 None None s2 = (Inr y, t)" "x = None"
        by (auto simp: seq_Inr_iff)
      then show ?thesis using img ap None core by (intro denied[of s2]) auto
    next
      case True
      have n: "ffinite now \<and> \<not> flt now fzero"
        using now by (auto simp: spend_now_def split: option.splits if_splits)
      from True fin show ?thesis
        using img ap None core lease n sus fits
        by (auto simp: admit_request_def Let_def seq_Inr_iff emap_construct list_all_iff list_ex_iff
            intro!: admitted[of _ now])
    qed
  qed
qed


lemma accounted_denial:
  assumes "ledger_inv st" "ss_approved st (rq_execution_id r) = Some r"
    "find (\<lambda>e. execution_id e = rq_execution_id r) (im_executions (ss_image st)) = None"
  shows "accounted st (bare_execution r) 0 0 None None"
  using assms
  by (auto simp: accounted_def bare_execution_def execution_ok_def execution_fences_def
      execution_suspends_def execution_slots_def truthy_set_def)

lemma slot_held_reserved [simp]: "slot_held (reserved_slot a) = al_bound_micros a"
  and slot_settled_reserved [simp]: "slot_settled (reserved_slot a) = 0"
  by (simp_all add: slot_held_def slot_settled_def reserved_slot_def)

lemma sum_list_zero_int: "(\<And>x. x \<in> set xs \<Longrightarrow> f x = (0::int)) \<Longrightarrow> sum_list (map f xs) = 0"
  by (induction xs) auto

lemma fle_total: "ffinite a \<Longrightarrow> ffinite b \<Longrightarrow> \<not> fle a b \<longleftrightarrow> flt b a"
  "ffinite a \<Longrightarrow> ffinite b \<Longrightarrow> \<not> flt a b \<longleftrightarrow> fle b a"
  by (cases a; cases b; auto)+

lemma accounted_admission:
  assumes st: "static_ok st" "ledger_inv st" "ss_approved st (rq_execution_id r) = Some r"
    "find (\<lambda>e. execution_id e = rq_execution_id r) (im_executions (ss_image st)) = None"
    and now: "ffinite now" "\<not> flt now fzero" "deadline = fadd now (ss_lease st)" "ffinite deadline"
      "\<not> fle deadline now"
    and v: "v = \<lparr>rv_request = r, rv_owner_fence = uuid_hex u, rv_owner_timeout_seconds = ss_lease st\<rparr>"
      "uuid_hex u \<notin> im_fences (ss_image st)" "SpendReservation_ok v"
    and j: "j = \<lparr>jn_reservation = v, jn_attempts = map reserved_slot (rq_allocations r), jn_closed = False,
            jn_closure_fence = None\<rparr>" "SpendJournalSnapshot_ok j"
      "\<forall>a\<in>set (rq_allocations r). SpendAttemptSnapshot_ok (reserved_slot a)"
    and e: "e = \<lparr>ex_request = r, ex_reservation = Some v, ex_expires_at = Some deadline,
             ex_journal = Some j, ex_dispatches = [], ex_settlements = [], ex_admitted_at = Some now\<rparr>"
  shows "accounted st e (reserved_micros r) 0 (Some (uuid_hex u)) None"
proof -
  have "ffinite (ss_lease st)" using st(1) by (simp add: static_ok_def fin_pos_def)
  then have "owned_execution_ok st e v j now deadline"
    using now v j e fle_total[of deadline now] fle_total[of now fzero]
    by (auto simp: owned_execution_ok_def list_all_iff slot_ok_def reserved_slot_def py_dict_def
        py_dict_len_def filter_empty_conv)
  then have "execution_ok st e" using st(3) e by (simp add: execution_ok_def)
  moreover have "map slot_settled (map reserved_slot (rq_allocations r)) = map (\<lambda>_. 0) (rq_allocations r)"
    by simp
  ultimately show ?thesis
    using st v j e
    by (auto simp: accounted_def execution_fences_def execution_suspends_def execution_slots_def
        truthy_set_def reserved_micros_def comp_def intro!: sum_list_zero_int)
qed

subsection \<open>Dispatch\<close>

lemma spend_dispatch_returns:
  assumes "static_ok st" "spend_dispatch env v a st = (Inr d, t)"
  obtains (resolved) e where "t = st" "spend_execution (ss_image st) v = Inr e" "ledger_inv st"
      "d \<in> set (ex_dispatches e)" "dr_allocation d = a"
  | (claimed) e j u s where "ledger_inv st" "spend_execution (ss_image st) v = Inr e"
      "a \<in> set (rq_allocations (rv_request v))" "ex_journal e = Some j" "\<not> jn_closed j"
      "dispatch_dict e a = None" "al_deployment_id a \<notin> im_suspended (ss_image st)"
      "\<forall>x\<in>set (jn_attempts j). sl_state x \<noteq> MAY_HAVE_EXECUTED"
      "uuid_hex u \<notin> im_fences (ss_image st)"
      "d = \<lparr>dr_reservation = v, dr_allocation = a, dr_dispatch_fence = uuid_hex u\<rparr>"
      "same_core st s"
      "spend_update (ss_image st)
         (e\<lparr>ex_journal := Some (j\<lparr>jn_attempts :=
              map (\<lambda>x. if sl_allocation x = a then claim_slot (uuid_hex u) x else x) (jn_attempts j)\<rparr>),
            ex_dispatches := ex_dispatches e @ [d]\<rparr>)
         0 0 (Some (uuid_hex u)) None s = (Inr (), t)"
proof -
  from assms(2) obtain img e where vi: "validated_image st = (Inr img, st)"
    and ex: "spend_execution img v = Inr e" and a: "a \<in> set (rq_allocations (rv_request v))"
    and rest: "(case find (\<lambda>d. dr_allocation d = a) (ex_dispatches e) of
       Some d \<Rightarrow> ret d
     | None \<Rightarrow>
       seq (spend_live env e) (\<lambda>_.
       case ex_journal e of
         None \<Rightarrow> raise (SpendControlError INVALID_STATE)
       | Some j \<Rightarrow>
         seq (require (al_deployment_id a \<notin> im_suspended img) (SpendControlError INVALID_STATE)) (\<lambda>_.
         seq (require (\<not> list_ex (\<lambda>s. sl_state s = MAY_HAVE_EXECUTED) (jn_attempts j))
                (SpendControlError CONFLICT)) (\<lambda>_.
         seq (lift_result (spend_fence env img)) (\<lambda>fence.
         seq (lift_result (construct SpendDispatchReceipt_ok
                \<lparr>dr_reservation = v, dr_allocation = a, dr_dispatch_fence = fence\<rparr>)) (\<lambda>d.
         seq (lift_result (emap (replace_slot (\<lambda>s. sl_allocation s = a) (claim_slot fence)) (jn_attempts j))) (\<lambda>slots.
         seq (lift_result (construct SpendJournalSnapshot_ok (j\<lparr>jn_attempts := slots\<rparr>))) (\<lambda>j'.
         seq (spend_update img
                (e\<lparr>ex_journal := Some j', ex_dispatches := ex_dispatches e @ [d]\<rparr>)
                0 0 (Some fence) None) (\<lambda>_.
         ret d))))))))) st = (Inr d, t)"
    unfolding spend_dispatch_def
    by (auto simp: seq_Inr_iff validated_image_def split: if_splits)
  note img = validated_image_Inr[OF assms(1) vi]
  show ?thesis
  proof (cases "find (\<lambda>d. dr_allocation d = a) (ex_dispatches e)")
    case (Some d')
    with rest img ex show ?thesis by (intro resolved[of e]) (auto dest: find_SomeD)
  next
    case None
    then have nd: "dispatch_dict e a = None" by (simp add: find_None_dict)
    from None rest obtain y s where live: "spend_live env e st = (Inr y, s)" by (auto simp: seq_Inr_iff)
    from spend_live_Inr[OF live] obtain j where j: "ex_journal e = Some j" "\<not> jn_closed j"
      and core: "same_core st s" by auto
    show ?thesis
      using None rest live img ex a nd j core
      by (auto simp: seq_Inr_iff list_ex_iff dest!: emap_replace_slot(1) intro!: claimed[of e j])
  qed
qed

text \<open>An unclaimed slot of an open journal is untouched; a claimed unsettled one may have executed.\<close>

lemma open_slot_unclaimed:
  assumes "slot_ok False ds ss x" "ds (sl_allocation x) = None"
  shows "sl_state x = RESERVED \<and> sl_dispatch_fence x = None \<and> sl_estimated_micros x = None \<and>
         sl_usage_evidence_id x = None"
  using assms
  by (cases "sl_state x") (auto simp: slot_ok_def SpendAttemptSnapshot_ok_def Let_def split: option.splits)

lemma open_slot_claimed:
  assumes "slot_ok False ds ss x" "ds (sl_allocation x) = Some d" "ss (sl_allocation x) = None"
  shows "sl_state x = MAY_HAVE_EXECUTED \<and> sl_dispatch_fence x = Some (dr_dispatch_fence d)"
  using assms
  by (cases "sl_state x") (auto simp: slot_ok_def SpendAttemptSnapshot_ok_def Let_def split: option.splits)

lemma slot_ok_other:
  assumes "slot_ok c ds ss x" "ds' (sl_allocation x) = ds (sl_allocation x)"
    "ss' (sl_allocation x) = ss (sl_allocation x)"
  shows "slot_ok c ds' ss' x"
  using assms by (simp add: slot_ok_def)

lemma settlement_dispatched:
  assumes "owned_execution_ok st e v j admitted expires" "settlement_dict e a = Some r"
  shows "dispatch_dict e a = Some (se_dispatch (sr_settlement r))"
  using assms py_dict_SomeD[OF assms(2)]
  by (auto simp: owned_execution_ok_def list_all_iff)

lemma owned_execution_update:
  assumes "owned_execution_ok st e v j admitted expires" "ex_request e' = ex_request e"
    "jn_reservation j' = v" "SpendJournalSnapshot_ok j'"
    "distinct (map dr_allocation (ex_dispatches e'))"
    "distinct (map receipt_allocation (ex_settlements e'))"
    "length (filter (\<lambda>s. sl_state s = MAY_HAVE_EXECUTED) (jn_attempts j')) \<le> 1"
    "list_all (\<lambda>d. dr_reservation d = v \<and> SpendDispatchReceipt_ok d) (ex_dispatches e')"
    "list_all (\<lambda>s. SpendSettlementReceipt_ok s \<and>
         dispatch_dict e' (receipt_allocation s) = Some (se_dispatch (sr_settlement s))) (ex_settlements e')"
    "list_all (slot_ok (jn_closed j') (dispatch_dict e') (settlement_dict e')) (jn_attempts j')"
  shows "owned_execution_ok st e' v j' admitted expires"
  using assms by (simp add: owned_execution_ok_def py_dict_len_keyed)

lemma owned_journal:
  assumes "owned_execution_ok st e v j admitted expires"
  shows "jn_reservation j = v" "SpendJournalSnapshot_ok j" "rv_request v = ex_request e"
    "list_all (\<lambda>d. dr_reservation d = v \<and> SpendDispatchReceipt_ok d) (ex_dispatches e)"
    "list_all (\<lambda>s. SpendSettlementReceipt_ok s \<and>
         dispatch_dict e (receipt_allocation s) = Some (se_dispatch (sr_settlement s))) (ex_settlements e)"
    "length (filter (\<lambda>s. sl_state s = MAY_HAVE_EXECUTED) (jn_attempts j)) \<le> 1"
  using assms by (simp_all add: owned_execution_ok_def)

lemma SpendJournalSnapshot_ok_replace:
  assumes "SpendJournalSnapshot_ok j" "\<not> jn_closed j" "map sl_allocation slots = map sl_allocation (jn_attempts j)"
  shows "SpendJournalSnapshot_ok (j\<lparr>jn_attempts := slots\<rparr>)"
proof -
  from assms have "slots \<noteq> []" by (auto simp: SpendJournalSnapshot_ok_def)
  with assms show ?thesis by (simp add: SpendJournalSnapshot_ok_def)
qed

lemma length_filter_map_le:
  "(\<And>x. x \<in> set xs \<Longrightarrow> P (f x) \<Longrightarrow> P x) \<Longrightarrow> length (filter P (map f xs)) \<le> length (filter P xs)"
  by (induction xs) (auto simp: le_SucI)

lemma slots_of_allocation:
  assumes "map sl_allocation (jn_attempts j) = rq_allocations r" "a \<in> set (rq_allocations r)"
  obtains x where "x \<in> set (jn_attempts j)" "sl_allocation x = a"
  using assms by (metis (no_types, lifting) image_iff list.set_map)

lemma length_filter_le_1:
  assumes "distinct (map key xs)" "\<And>x. x \<in> set xs \<Longrightarrow> P x \<Longrightarrow> key x = k"
  shows "length (filter P xs) \<le> 1"
proof -
  have "distinct (map key (filter P xs))" using assms(1) by (rule distinct_map_filter)
  moreover have "set (map key (filter P xs)) \<subseteq> {k}" using assms(2) by auto
  ultimately have "length (map key (filter P xs)) \<le> card {k}"
    by (metis card_mono distinct_card finite.emptyI finite_insert)
  then show ?thesis by simp
qed

lemma accounted_dispatch:
  assumes st: "static_ok st" "ledger_inv st" and ex: "spend_execution (ss_image st) v = Inr e"
    and a: "a \<in> set (rq_allocations (rv_request v))"
    and j: "ex_journal e = Some j" "\<not> jn_closed j" and fresh: "dispatch_dict e a = None"
    and idle: "\<forall>x\<in>set (jn_attempts j). sl_state x \<noteq> MAY_HAVE_EXECUTED"
    and u: "uuid_hex u \<notin> im_fences (ss_image st)"
    and d: "d = \<lparr>dr_reservation = v, dr_allocation = a, dr_dispatch_fence = uuid_hex u\<rparr>"
  defines "slots \<equiv> map (\<lambda>x. if sl_allocation x = a then claim_slot (uuid_hex u) x else x) (jn_attempts j)"
  defines "e' \<equiv> e\<lparr>ex_journal := Some (j\<lparr>jn_attempts := slots\<rparr>), ex_dispatches := ex_dispatches e @ [d]\<rparr>"
  shows "accounted st e' 0 0 (Some (uuid_hex u)) None"
proof -
  note exf = spend_execution_Inr[OF ex]
  have ok: "execution_ok st e" using st(2) exf(1) by (rule ledger_execution_ok)
  from owned_facts[OF st(1) ok exf(2) j(1)] obtain admitted expires where
    times: "ex_admitted_at e = Some admitted" "ex_expires_at e = Some expires"
    and own: "owned_execution_ok st e v j admitted expires" and rv: "rv_request v = ex_request e"
    and al: "map sl_allocation (jn_attempts j) = rq_allocations (ex_request e)"
    and dist: "distinct (map sl_allocation (jn_attempts j))"
    and dd: "distinct (map dr_allocation (ex_dispatches e))"
    and dset: "distinct (map receipt_allocation (ex_settlements e))"
    by metis
  have nos: "settlement_dict e a = None"
    using settlement_dispatched[OF own] fresh by (cases "settlement_dict e a") auto
  have disp': "dispatch_dict e' = (dispatch_dict e)(a \<mapsto> d)"
    using d by (simp add: e'_def py_dict_snoc)
  have set': "settlement_dict e' = settlement_dict e" by (simp add: e'_def)
  have slot: "slot_ok False (dispatch_dict e) (settlement_dict e) x" if "x \<in> set (jn_attempts j)" for x
    using own j(2) that by (simp add: owned_execution_ok_def list_all_iff)
  have unclaimed: "sl_state x = RESERVED" "sl_estimated_micros x = None" "sl_usage_evidence_id x = None"
    if "x \<in> set (jn_attempts j)" "sl_allocation x = a" for x
    using open_slot_unclaimed[OF slot[OF that(1)]] fresh that(2) by auto
  have slots_ok: "list_all (slot_ok False (dispatch_dict e') (settlement_dict e')) slots"
    unfolding list_all_iff slots_def
  proof
    fix y assume "y \<in> set (map (\<lambda>x. if sl_allocation x = a then claim_slot (uuid_hex u) x else x) (jn_attempts j))"
    then obtain x where x: "x \<in> set (jn_attempts j)"
      and y: "y = (if sl_allocation x = a then claim_slot (uuid_hex u) x else x)" by auto
    show "slot_ok False (dispatch_dict e') (settlement_dict e') y"
    proof (cases "sl_allocation x = a")
      case True
      with unclaimed[OF x] y nos d show ?thesis
        by (simp add: disp' set' slot_ok_def claim_slot_def SpendAttemptSnapshot_ok_def require_id_def)
    next
      case False
      with slot[OF x] y show ?thesis by (auto simp: disp' set' intro: slot_ok_other)
    qed
  qed
  have alloc': "map sl_allocation slots = map sl_allocation (jn_attempts j)"
    by (simp add: slots_def claim_slot_def)
  have may: "length (filter (\<lambda>s. sl_state s = MAY_HAVE_EXECUTED) slots) \<le> 1"
  proof (rule length_filter_le_1[of sl_allocation _ _ a])
    show "distinct (map sl_allocation slots)" using dist alloc' by simp
  qed (use idle in \<open>auto simp: slots_def claim_slot_def split: if_splits\<close>)
  note oj = owned_journal[OF own]
  have "a \<notin> dr_allocation ` set (ex_dispatches e)"
    using fresh by (auto simp: py_dict_None image_image)
  then have "distinct (map dr_allocation (ex_dispatches e'))" using dd d by (simp add: e'_def)
  moreover have "SpendDispatchReceipt_ok d"
    using a d by (simp add: SpendDispatchReceipt_ok_def require_id_def)
  moreover have "dispatch_dict e' (receipt_allocation s) = Some (se_dispatch (sr_settlement s))"
    if "s \<in> set (ex_settlements e)" for s
    using oj(5) that fresh by (auto simp: disp' list_all_iff)
  moreover have "SpendJournalSnapshot_ok (j\<lparr>jn_attempts := slots\<rparr>)"
    by (rule SpendJournalSnapshot_ok_replace[OF oj(2) j(2) alloc'])
  ultimately have "owned_execution_ok st e' v (j\<lparr>jn_attempts := slots\<rparr>) admitted expires"
    using oj may slots_ok j(2) d dset
    by (intro owned_execution_update[OF own]) (simp_all add: e'_def list_all_iff)
  then have "execution_ok st e'"
    using ok exf(2) times by (simp add: execution_ok_def e'_def)
  moreover have "sum_list (map slot_held slots) = sum_list (map slot_held (jn_attempts j))"
    and "sum_list (map slot_settled slots) = sum_list (map slot_settled (jn_attempts j))"
    using unclaimed unfolding slots_def map_map
    by (auto intro!: arg_cong[of _ _ sum_list] simp: slot_held_def slot_settled_def claim_slot_def)
  moreover have "previous st e' = Some e" using exf(4) by (simp add: e'_def)
  moreover have "execution_slots e = jn_attempts j" "execution_slots e' = slots"
    using exf(2) j(1) by (simp_all add: execution_slots_def e'_def)
  moreover have "mset (execution_fences e') = mset (execution_fences e) + {#uuid_hex u#}"
    using exf(2) j d by (simp add: execution_fences_def e'_def)
  moreover have "execution_suspends e' = execution_suspends e"
    by (simp add: execution_suspends_def e'_def)
  ultimately show ?thesis using u by (simp add: accounted_def truthy_set_def)
qed

subsection \<open>Settle\<close>

lemma spend_settle_returns:
  assumes "static_ok st" "spend_settle env se st = (Inr r, t)"
  obtains (resolved) e where "t = st" "spend_execution (ss_image st) (dr_reservation (se_dispatch se)) = Inr e"
      "ledger_inv st" "r \<in> set (ex_settlements e)" "sr_settlement r = se"
  | (settled) e j u s where "ledger_inv st"
      "spend_execution (ss_image st) (dr_reservation (se_dispatch se)) = Inr e"
      "se_dispatch se \<in> set (ex_dispatches e)" "ex_journal e = Some j" "\<not> jn_closed j"
      "\<forall>x\<in>set (ex_settlements e). se_dispatch (sr_settlement x) \<noteq> se_dispatch se"
      "check_usage env se = Inr ()" "uuid_hex u \<notin> im_fences (ss_image st)"
      "r = \<lparr>sr_settlement = se, sr_settlement_fence = uuid_hex u\<rparr>" "same_core st s"
      "spend_update (ss_image st)
         (e\<lparr>ex_journal := Some (j\<lparr>jn_attempts := map (\<lambda>x.
               if sl_allocation x = dr_allocation (se_dispatch se) then settle_slot se x else x) (jn_attempts j)\<rparr>),
            ex_settlements := ex_settlements e @ [r]\<rparr>)
         (if se_estimated_micros se \<noteq> None then - al_bound_micros (dr_allocation (se_dispatch se)) else 0)
         (case se_estimated_micros se of None \<Rightarrow> 0 | Some amount \<Rightarrow> amount)
         (Some (uuid_hex u))
         (if bound_exceeded r then Some (al_deployment_id (dr_allocation (se_dispatch se))) else None) s
         = (Inr (), t)"
proof -
  from assms(2) obtain img e where vi: "validated_image st = (Inr img, st)"
    and ex: "spend_execution img (dr_reservation (se_dispatch se)) = Inr e"
    and dm: "se_dispatch se \<in> set (ex_dispatches e)"
    and rest: "(case find (\<lambda>r. se_dispatch (sr_settlement r) = se_dispatch se) (ex_settlements e) of
       Some existing \<Rightarrow>
         if sr_settlement existing \<noteq> se then raise (SpendControlError CONFLICT) else ret existing
     | None \<Rightarrow>
       seq (spend_live env e) (\<lambda>_.
       seq (lift_result (check_usage env se)) (\<lambda>_.
       case ex_journal e of
         None \<Rightarrow> raise (SpendControlError INVALID_STATE)
       | Some j \<Rightarrow>
         seq (lift_result (spend_fence env img)) (\<lambda>fence.
         seq (lift_result (construct SpendSettlementReceipt_ok
                \<lparr>sr_settlement = se, sr_settlement_fence = fence\<rparr>)) (\<lambda>receipt.
         seq (lift_result (emap (replace_slot
                (\<lambda>s. sl_allocation s = dr_allocation (se_dispatch se)) (settle_slot se)) (jn_attempts j))) (\<lambda>slots.
         seq (lift_result (construct SpendJournalSnapshot_ok (j\<lparr>jn_attempts := slots\<rparr>))) (\<lambda>j'.
         seq (spend_update img
                (e\<lparr>ex_journal := Some j', ex_settlements := ex_settlements e @ [receipt]\<rparr>)
                (if se_estimated_micros se \<noteq> None
                 then - al_bound_micros (dr_allocation (se_dispatch se)) else 0)
                (case se_estimated_micros se of None \<Rightarrow> 0 | Some amount \<Rightarrow> amount)
                (Some fence)
                (if bound_exceeded receipt
                 then Some (al_deployment_id (dr_allocation (se_dispatch se))) else None)) (\<lambda>_.
         ret receipt)))))))) st = (Inr r, t)"
    unfolding spend_settle_def
    by (auto simp: seq_Inr_iff validated_image_def split: if_splits)
  note img = validated_image_Inr[OF assms(1) vi]
  show ?thesis
  proof (cases "find (\<lambda>r. se_dispatch (sr_settlement r) = se_dispatch se) (ex_settlements e)")
    case (Some r')
    with rest img ex show ?thesis
      by (intro resolved[of e]) (auto dest: find_SomeD split: if_splits)
  next
    case None
    from None rest obtain y s where live: "spend_live env e st = (Inr y, s)" by (auto simp: seq_Inr_iff)
    from spend_live_Inr[OF live] obtain j where j: "ex_journal e = Some j" "\<not> jn_closed j"
      and core: "same_core st s" by auto
    from None have ns: "\<forall>x\<in>set (ex_settlements e). se_dispatch (sr_settlement x) \<noteq> se_dispatch se"
      by (auto simp: find_None_iff)
    show ?thesis
      using None rest live img ex dm ns j core
      by (auto simp: seq_Inr_iff dest!: emap_replace_slot(1) intro!: settled[of e j])
  qed
qed

text \<open>An unsettled dispatch of an open journal occupies one slot, which may have executed.\<close>

lemma unsettled_dispatch:
  assumes st: "static_ok st" "ledger_inv st"
    and ex: "spend_execution (ss_image st) (dr_reservation d) = Inr e"
    and dm: "d \<in> set (ex_dispatches e)" and j: "ex_journal e = Some j" "\<not> jn_closed j"
    and ns: "\<forall>x\<in>set (ex_settlements e). se_dispatch (sr_settlement x) \<noteq> d"
  shows "dispatch_dict e (dr_allocation d) = Some d" "settlement_dict e (dr_allocation d) = None"
    "\<exists>x\<in>set (jn_attempts j). sl_allocation x = dr_allocation d"
    "x \<in> set (jn_attempts j) \<Longrightarrow> sl_allocation x = dr_allocation d \<Longrightarrow>
       sl_state x = MAY_HAVE_EXECUTED \<and> sl_dispatch_fence x = Some (dr_dispatch_fence d)"
    "distinct (map sl_allocation (jn_attempts j))"
proof -
  note exf = spend_execution_Inr[OF ex]
  have ok: "execution_ok st e" using st(2) exf(1) by (rule ledger_execution_ok)
  from owned_facts[OF st(1) ok exf(2) j(1)] obtain admitted expires where
    own: "owned_execution_ok st e (dr_reservation d) j admitted expires"
    and rv: "rv_request (dr_reservation d) = ex_request e"
    and al: "map sl_allocation (jn_attempts j) = rq_allocations (ex_request e)"
    and dist: "distinct (map sl_allocation (jn_attempts j))"
    and dd: "distinct (map dr_allocation (ex_dispatches e))"
    by metis
  show "distinct (map sl_allocation (jn_attempts j))" by (rule dist)
  show claimed: "dispatch_dict e (dr_allocation d) = Some d"
    using dm by (simp add: dispatch_dict_iff[OF dd])
  show nos: "settlement_dict e (dr_allocation d) = None"
  proof (rule ccontr)
    assume "settlement_dict e (dr_allocation d) \<noteq> None"
    then obtain r where r: "settlement_dict e (dr_allocation d) = Some r" by blast
    with settlement_dispatched[OF own] claimed have "se_dispatch (sr_settlement r) = d" by simp
    moreover from py_dict_SomeD[OF r] have "r \<in> set (ex_settlements e)" by auto
    ultimately show False using ns by blast
  qed
  have "SpendDispatchReceipt_ok d"
    using owned_journal(4)[OF own] dm unfolding list_all_iff by blast
  then have "dr_allocation d \<in> set (map sl_allocation (jn_attempts j))"
    unfolding al by (simp only: SpendDispatchReceipt_ok_def rv)
  then show "\<exists>x\<in>set (jn_attempts j). sl_allocation x = dr_allocation d" by auto
  show "sl_state x = MAY_HAVE_EXECUTED \<and> sl_dispatch_fence x = Some (dr_dispatch_fence d)"
    if x: "x \<in> set (jn_attempts j)" "sl_allocation x = dr_allocation d"
  proof -
    have "slot_ok False (dispatch_dict e) (settlement_dict e) x"
      using own j(2) x(1) by (simp add: owned_execution_ok_def list_all_iff)
    from open_slot_claimed[OF this] claimed nos x(2) show ?thesis by simp
  qed
qed

lemma accounted_settle:
  assumes st: "static_ok st" "ledger_inv st"
    and ex: "spend_execution (ss_image st) (dr_reservation (se_dispatch se)) = Inr e"
    and dm: "se_dispatch se \<in> set (ex_dispatches e)"
    and j: "ex_journal e = Some j" "\<not> jn_closed j"
    and ns: "\<forall>x\<in>set (ex_settlements e). se_dispatch (sr_settlement x) \<noteq> se_dispatch se"
    and u: "uuid_hex u \<notin> im_fences (ss_image st)"
    and r: "r = \<lparr>sr_settlement = se, sr_settlement_fence = uuid_hex u\<rparr>"
    and seok: "SpendSettlement_ok se" and dep: "al_deployment_id (dr_allocation (se_dispatch se)) \<noteq> []"
  defines "a \<equiv> dr_allocation (se_dispatch se)"
  defines "slots \<equiv> map (\<lambda>x. if sl_allocation x = a then settle_slot se x else x) (jn_attempts j)"
  defines "e' \<equiv> e\<lparr>ex_journal := Some (j\<lparr>jn_attempts := slots\<rparr>), ex_settlements := ex_settlements e @ [r]\<rparr>"
  shows "accounted st e' (if se_estimated_micros se \<noteq> None then - al_bound_micros a else 0)
           (case se_estimated_micros se of None \<Rightarrow> 0 | Some amount \<Rightarrow> amount)
           (Some (uuid_hex u)) (if bound_exceeded r then Some (al_deployment_id a) else None)"
proof -
  note exf = spend_execution_Inr[OF ex]
  define v where "v = dr_reservation (se_dispatch se)"
  have ok: "execution_ok st e" using st(2) exf(1) by (rule ledger_execution_ok)
  from owned_facts[OF st(1) ok exf(2) j(1)] obtain admitted expires where
    times: "ex_admitted_at e = Some admitted" "ex_expires_at e = Some expires"
    and own: "owned_execution_ok st e v j admitted expires" and rv: "rv_request v = ex_request e"
    and al: "map sl_allocation (jn_attempts j) = rq_allocations (ex_request e)"
    and dist: "distinct (map sl_allocation (jn_attempts j))"
    and dd: "distinct (map dr_allocation (ex_dispatches e))"
    and dset: "distinct (map receipt_allocation (ex_settlements e))"
    unfolding v_def by metis
  note ud = unsettled_dispatch[OF st ex dm j ns, folded a_def]
  note claimed = ud(1) and nos = ud(2) and running = ud(4)
  obtain x0 where x0: "x0 \<in> set (jn_attempts j)" "sl_allocation x0 = a" using ud(3) by blast
  have disp': "dispatch_dict e' = dispatch_dict e" by (simp add: e'_def)
  have set': "settlement_dict e' = (settlement_dict e)(a \<mapsto> r)"
    using r by (simp add: e'_def py_dict_snoc a_def)
  have slot: "slot_ok False (dispatch_dict e) (settlement_dict e) x" if "x \<in> set (jn_attempts j)" for x
    using own j(2) that by (simp add: owned_execution_ok_def list_all_iff)
  have fid: "opaque_id (dr_dispatch_fence (se_dispatch se))"
    using own dm by (auto simp: owned_execution_ok_def list_all_iff SpendDispatchReceipt_ok_def require_id_def)
  have slots_ok: "list_all (slot_ok False (dispatch_dict e') (settlement_dict e')) slots"
    unfolding list_all_iff slots_def
  proof
    fix y assume "y \<in> set (map (\<lambda>x. if sl_allocation x = a then settle_slot se x else x) (jn_attempts j))"
    then obtain x where x: "x \<in> set (jn_attempts j)"
      and y: "y = (if sl_allocation x = a then settle_slot se x else x)" by auto
    show "slot_ok False (dispatch_dict e') (settlement_dict e') y"
    proof (cases "sl_allocation x = a")
      case True
      with running[OF x True] y r claimed seok fid show ?thesis
        by (cases "se_estimated_micros se")
           (simp_all add: disp' set' slot_ok_def settle_slot_def SpendAttemptSnapshot_ok_def
              SpendSettlement_ok_def require_cost_evidence_def require_id_def)
    next
      case False
      with slot[OF x] y show ?thesis by (auto simp: disp' set' intro: slot_ok_other)
    qed
  qed
  have alloc': "map sl_allocation slots = map sl_allocation (jn_attempts j)"
    by (simp add: slots_def settle_slot_def)
  have may: "length (filter (\<lambda>s. sl_state s = MAY_HAVE_EXECUTED) slots) \<le> 1"
  proof -
    have "length (filter (\<lambda>s. sl_state s = MAY_HAVE_EXECUTED) slots) \<le>
            length (filter (\<lambda>s. sl_state s = MAY_HAVE_EXECUTED) (jn_attempts j))"
      unfolding slots_def by (rule length_filter_map_le) (auto simp: settle_slot_def split: if_splits)
    also have "\<dots> \<le> 1" using own by (simp add: owned_execution_ok_def)
    finally show ?thesis .
  qed
  have rok: "SpendSettlementReceipt_ok r" using r by (simp add: SpendSettlementReceipt_ok_def require_id_def)
  note oj = owned_journal[OF own]
  have "a \<notin> receipt_allocation ` set (ex_settlements e)"
    using nos by (auto simp: py_dict_None image_image)
  then have "distinct (map receipt_allocation (ex_settlements e'))"
    using dset r by (simp add: e'_def a_def)
  moreover have "SpendJournalSnapshot_ok (j\<lparr>jn_attempts := slots\<rparr>)"
    by (rule SpendJournalSnapshot_ok_replace[OF oj(2) j(2) alloc'])
  moreover have "dispatch_dict e (receipt_allocation r) = Some (se_dispatch (sr_settlement r))"
    using claimed r by (simp add: a_def)
  ultimately have "owned_execution_ok st e' v (j\<lparr>jn_attempts := slots\<rparr>) admitted expires"
    using oj may slots_ok j(2) rok dd
    by (intro owned_execution_update[OF own]) (simp_all add: e'_def list_all_iff)
  then have "execution_ok st e'"
    using ok exf(2) times by (simp add: execution_ok_def e'_def v_def)
  moreover have "sum_list (map slot_held slots) = sum_list (map slot_held (jn_attempts j)) +
      (if se_estimated_micros se \<noteq> None then - al_bound_micros a else 0)"
    using sum_slots_update[OF dist x0, of slot_held "settle_slot se"] running[OF x0] x0(2)
    by (simp add: slots_def slot_held_def settle_slot_def)
  moreover have "sum_list (map slot_settled slots) = sum_list (map slot_settled (jn_attempts j)) +
      (case se_estimated_micros se of None \<Rightarrow> 0 | Some amount \<Rightarrow> amount)"
    using sum_slots_update[OF dist x0, of slot_settled "settle_slot se"] running[OF x0]
    by (cases "se_estimated_micros se") (simp_all add: slots_def slot_settled_def settle_slot_def)
  moreover have "previous st e' = Some e" using exf(4) by (simp add: e'_def)
  moreover have "execution_slots e = jn_attempts j" "execution_slots e' = slots"
    using exf(2) j(1) by (simp_all add: execution_slots_def e'_def)
  moreover have "mset (execution_fences e') = mset (execution_fences e) + {#uuid_hex u#}"
    using exf(2) j r by (simp add: execution_fences_def e'_def)
  moreover have "execution_suspends e' = execution_suspends e \<union>
      truthy_set (if bound_exceeded r then Some (al_deployment_id a) else None)"
    using dep r by (auto simp: execution_suspends_def e'_def truthy_set_def a_def)
  ultimately show ?thesis using u by (simp add: accounted_def)
qed

subsection \<open>Close\<close>

definition closing_slot :: "SpendAttemptSnapshot \<Rightarrow> SpendAttemptSnapshot" where
  "closing_slot x = (if sl_state x \<in> {RESERVED, MAY_HAVE_EXECUTED} then close_slot x else x)"

lemma spend_close_returns:
  assumes "static_ok st" "spend_close env v st = (Inr k, t)"
  obtains (resolved) e where "t = st" "spend_execution (ss_image st) v = Inr e" "ledger_inv st"
      "ex_journal e = Some k" "jn_closed k"
  | (closed) e j u s where "ledger_inv st" "spend_execution (ss_image st) v = Inr e"
      "ex_journal e = Some j" "\<not> jn_closed j" "uuid_hex u \<notin> im_fences (ss_image st)"
      "k = j\<lparr>jn_attempts := map closing_slot (jn_attempts j), jn_closed := True,
             jn_closure_fence := Some (uuid_hex u)\<rparr>" "SpendJournalSnapshot_ok k" "same_core st s"
      "spend_update (ss_image st) (e\<lparr>ex_journal := Some k\<rparr>)
         (- sum_list (map (\<lambda>s. al_bound_micros (sl_allocation s))
              (filter (\<lambda>s. sl_state s = RESERVED) (jn_attempts j)))) 0 (Some (uuid_hex u)) None s = (Inr (), t)"
proof -
  from assms(2) obtain img e where vi: "validated_image st = (Inr img, st)"
    and ex: "spend_execution img v = Inr e"
    and rest: "(case ex_journal e of
       None \<Rightarrow> raise (SpendControlError INVALID_STATE)
     | Some j \<Rightarrow>
       if jn_closed j then ret j
       else
         seq (spend_live env e) (\<lambda>_.
         let unused = sum_list (map (\<lambda>s. al_bound_micros (sl_allocation s))
                        (filter (\<lambda>s. sl_state s = RESERVED) (jn_attempts j))) in
         seq (lift_result (emap (replace_slot
                (\<lambda>s. sl_state s \<in> {RESERVED, MAY_HAVE_EXECUTED}) close_slot) (jn_attempts j))) (\<lambda>slots.
         seq (lift_result (spend_fence env img)) (\<lambda>fence.
         seq (lift_result (construct SpendJournalSnapshot_ok
                (j\<lparr>jn_attempts := slots, jn_closed := True, jn_closure_fence := Some fence\<rparr>))) (\<lambda>closed.
         seq (spend_update img (e\<lparr>ex_journal := Some closed\<rparr>) (- unused) 0 (Some fence) None) (\<lambda>_.
         ret closed)))))) st = (Inr k, t)"
    unfolding spend_close_def
    by (auto simp: seq_Inr_iff validated_image_def split: if_splits)
  note img = validated_image_Inr[OF assms(1) vi]
  from rest obtain j where j: "ex_journal e = Some j" by (auto split: option.splits)
  show ?thesis
  proof (cases "jn_closed j")
    case True
    with rest img ex j show ?thesis by (intro resolved[of e]) auto
  next
    case False
    with rest j obtain y s slots u where live: "spend_live env e st = (Inr y, s)"
      and sl: "emap (replace_slot (\<lambda>s. sl_state s \<in> {RESERVED, MAY_HAVE_EXECUTED}) close_slot)
                 (jn_attempts j) = Inr slots"
      and u: "uuid_hex u \<notin> im_fences img"
      and k: "k = j\<lparr>jn_attempts := slots, jn_closed := True, jn_closure_fence := Some (uuid_hex u)\<rparr>"
        "SpendJournalSnapshot_ok k"
      and up: "spend_update img (e\<lparr>ex_journal := Some k\<rparr>)
         (- sum_list (map (\<lambda>s. al_bound_micros (sl_allocation s))
              (filter (\<lambda>s. sl_state s = RESERVED) (jn_attempts j)))) 0 (Some (uuid_hex u)) None s = (Inr (), t)"
      by (auto simp: seq_Inr_iff Let_def)
    have "slots = map closing_slot (jn_attempts j)"
      using emap_replace_slot(1)[OF sl] by (simp add: closing_slot_def fun_eq_iff)
    with False j u k up img ex spend_live_Inr(1)[OF live] show ?thesis
      by (intro closed[of e j u s]) auto
  qed
qed

lemma closing_slot_ok:
  assumes "slot_ok False ds ss x"
  shows "slot_ok True ds ss (closing_slot x)"
  using assms
  by (cases "sl_state x")
     (auto simp: slot_ok_def closing_slot_def close_slot_def SpendAttemptSnapshot_ok_def Let_def
        split: option.splits)

lemma closing_slot_held:
  "slot_held (closing_slot x) =
     slot_held x - (if sl_state x = RESERVED then al_bound_micros (sl_allocation x) else 0)"
  "slot_settled (closing_slot x) = slot_settled x"
  by (cases "sl_state x"; simp add: slot_held_def slot_settled_def closing_slot_def close_slot_def)+

lemma closing_slot_allocation [simp]: "sl_allocation (closing_slot x) = sl_allocation x"
  by (simp add: closing_slot_def close_slot_def)

lemma accounted_close:
  assumes st: "static_ok st" "ledger_inv st" and ex: "spend_execution (ss_image st) v = Inr e"
    and j: "ex_journal e = Some j" "\<not> jn_closed j" and u: "uuid_hex u \<notin> im_fences (ss_image st)"
    and k: "k = j\<lparr>jn_attempts := map closing_slot (jn_attempts j), jn_closed := True,
             jn_closure_fence := Some (uuid_hex u)\<rparr>" "SpendJournalSnapshot_ok k"
  defines "e' \<equiv> e\<lparr>ex_journal := Some k\<rparr>"
  shows "accounted st e' (- sum_list (map (\<lambda>s. al_bound_micros (sl_allocation s))
              (filter (\<lambda>s. sl_state s = RESERVED) (jn_attempts j)))) 0 (Some (uuid_hex u)) None"
proof -
  note exf = spend_execution_Inr[OF ex]
  have ok: "execution_ok st e" using st(2) exf(1) by (rule ledger_execution_ok)
  from owned_facts[OF st(1) ok exf(2) j(1)] obtain admitted expires where
    times: "ex_admitted_at e = Some admitted" "ex_expires_at e = Some expires"
    and own: "owned_execution_ok st e v j admitted expires"
    and dd: "distinct (map dr_allocation (ex_dispatches e))"
    and dset: "distinct (map receipt_allocation (ex_settlements e))"
    by metis
  note oj = owned_journal[OF own]
  have slots: "list_all (slot_ok True (dispatch_dict e) (settlement_dict e)) (jn_attempts k)"
    using own j(2) k(1) by (auto simp: owned_execution_ok_def list_all_iff closing_slot_ok)
  have may: "length (filter (\<lambda>s. sl_state s = MAY_HAVE_EXECUTED) (jn_attempts k)) \<le> 1"
    using k(1) by (auto simp: closing_slot_def close_slot_def filter_empty_conv)
  have "owned_execution_ok st e' v k admitted expires"
    using oj may slots k dd dset
    by (intro owned_execution_update[OF own]) (simp_all add: e'_def)
  then have "execution_ok st e'"
    using ok exf(2) times by (simp add: execution_ok_def e'_def)
  moreover have "sum_list (map slot_held (map closing_slot xs)) = sum_list (map slot_held xs) -
      sum_list (map (\<lambda>s. al_bound_micros (sl_allocation s)) (filter (\<lambda>s. sl_state s = RESERVED) xs))"
    "sum_list (map slot_settled (map closing_slot xs)) = sum_list (map slot_settled xs)" for xs
    by (induction xs) (simp_all add: closing_slot_held)
  moreover have "previous st e' = Some e" using exf(4) by (simp add: e'_def)
  moreover have "execution_slots e = jn_attempts j" "execution_slots e' = map closing_slot (jn_attempts j)"
    using exf(2) j(1) k(1) by (simp_all add: execution_slots_def e'_def)
  moreover have "mset (execution_fences e') = mset (execution_fences e) + {#uuid_hex u#}"
    using exf(2) j k(1) by (simp add: execution_fences_def e'_def)
  moreover have "execution_suspends e' = execution_suspends e"
    by (simp add: execution_suspends_def e'_def)
  ultimately show ?thesis using u by (simp add: accounted_def truthy_set_def)
qed

end
