(* ===== verification/Spend_Theorems.thy ===== *)
theory Spend_Theorems
  imports Spend_Methods
begin

text \<open>
  The promises of the spend-admission adapter over arbitrary call sequences: the self-audit
  never trips on a state the methods produced, exposure stays below the ceilings up to truthfully
  recorded overruns, receipts resolve idempotently, a raise publishes nothing, a latched
  failure denies everything, and the journal history is append-only.
\<close>

subsection \<open>Calls\<close>

datatype spend_call =
    Reserve spend_env SpendReservationRequest
  | IsCurrent spend_env SpendReservation
  | Dispatch spend_env SpendReservation SpendAttemptAllocation
  | Settle spend_env SpendSettlement
  | Close spend_env SpendReservation
  | ReadBudget SpendBudgetScope int
  | ReadJournal SpendReservation

datatype spend_reply =
    Reserved "SpendReservation option"
  | Current bool
  | Dispatched SpendDispatchReceipt
  | Settled SpendSettlementReceipt
  | Closed SpendJournalSnapshot
  | Budget SpendBudgetSnapshot
  | Journal SpendJournalSnapshot

definition reply :: "('a \<Rightarrow> spend_reply) \<Rightarrow> 'a spend_method \<Rightarrow> spend_reply spend_method" where
  "reply f m st = (case m st of (Inl e, t) \<Rightarrow> (Inl e, t) | (Inr x, t) \<Rightarrow> (Inr (f x), t))"

fun spend_exec :: "spend_call \<Rightarrow> spend_reply spend_method" where
  "spend_exec (Reserve env r) = reply Reserved (spend_reserve env r)"
| "spend_exec (IsCurrent env v) = reply Current (spend_is_current env v)"
| "spend_exec (Dispatch env v a) = reply Dispatched (spend_dispatch env v a)"
| "spend_exec (Settle env se) = reply Settled (spend_settle env se)"
| "spend_exec (Close env v) = reply Closed (spend_close env v)"
| "spend_exec (ReadBudget sc epoch) = reply Budget (spend_budget sc epoch)"
| "spend_exec (ReadJournal v) = reply Journal (spend_journal v)"

definition spend_step :: "spend_call \<Rightarrow> SpendState \<Rightarrow> SpendState" where
  "spend_step c st = snd (spend_exec c st)"

lemma reply_state [simp]: "snd (reply f m st) = snd (m st)"
  by (simp add: reply_def split: prod.splits sum.splits)

lemma reply_Inr_iff: "reply f m st = (Inr y, t) \<longleftrightarrow> (\<exists>x. m st = (Inr x, t) \<and> y = f x)"
  by (auto simp: reply_def split: prod.splits sum.splits)

lemma reply_Inl_iff: "reply f m st = (Inl e, t) \<longleftrightarrow> m st = (Inl e, t)"
  by (auto simp: reply_def split: prod.splits sum.splits)

lemma spend_step_simps [simp]:
  "spend_step (Reserve env r) st = snd (spend_reserve env r st)"
  "spend_step (IsCurrent env v) st = snd (spend_is_current env v st)"
  "spend_step (Dispatch env v a) st = snd (spend_dispatch env v a st)"
  "spend_step (Settle env se) st = snd (spend_settle env se st)"
  "spend_step (Close env v) st = snd (spend_close env v st)"
  "spend_step (ReadBudget sc epoch) st = snd (spend_budget sc epoch st)"
  "spend_step (ReadJournal v) st = snd (spend_journal v st)"
  by (simp_all add: spend_step_def)

text \<open>
  A settlement is a value Python could construct: its own checks and those of the slot it names
  have passed.
\<close>

fun spend_legal :: "spend_call \<Rightarrow> bool" where
  "spend_legal (Settle env se) \<longleftrightarrow> SpendSettlement_ok se \<and>
     SpendAttemptAllocation_ok (dr_allocation (se_dispatch se))"
| "spend_legal _ \<longleftrightarrow> True"

text \<open>Requests whose slots and limits have passed their own constructors.\<close>

definition constructed_request :: "SpendReservationRequest \<Rightarrow> bool" where
  "constructed_request r \<longleftrightarrow> list_all SpendAttemptAllocation_ok (rq_allocations r)"

subsection \<open>Overruns and ceilings\<close>

text \<open>How far the settled costs of an execution exceed the bounds reserved for them.\<close>

definition slot_overrun :: "SpendAttemptSnapshot \<Rightarrow> int" where
  "slot_overrun x = max 0 (slot_settled x - al_bound_micros (sl_allocation x))"

definition overrun_of :: "SpendBudgetScope \<Rightarrow> Execution \<Rightarrow> int" where
  "overrun_of sc e =
     (if sc \<in> execution_scopes e then sum_list (map slot_overrun (execution_slots e)) else 0)"

definition within_ceiling :: "Execution list \<Rightarrow> SpendBudgetSnapshot \<Rightarrow> SpendBudgetSnapshot \<Rightarrow> bool" where
  "within_ceiling es ob b \<longleftrightarrow>
     exposure_micros b \<le> max (bl_ceiling_micros (bs_limit b)) (exposure_micros ob) +
                         sum_list (map (overrun_of (bs_scope b)) es)"

definition ceiling_inv :: "SpendState \<Rightarrow> bool" where
  "ceiling_inv st \<longleftrightarrow> list_all2 (within_ceiling (im_executions (ss_image st)))
     (ss_opening st) (im_budgets (ss_image st))"

definition approved_constructed :: "SpendState \<Rightarrow> bool" where
  "approved_constructed st \<longleftrightarrow> (\<forall>i r. ss_approved st i = Some r \<longrightarrow> constructed_request r)"

definition spend_inv :: "SpendState \<Rightarrow> bool" where
  "spend_inv st \<longleftrightarrow> static_ok st \<and> approved_constructed st \<and>
     (ss_failed st \<or> ledger_inv st \<and> ceiling_inv st)"

subsection \<open>Publication steps\<close>

text \<open>A publication: an accounted record and the state it leads to.\<close>

definition publishes ::
  "SpendState \<Rightarrow> Execution \<Rightarrow> int \<Rightarrow> int \<Rightarrow> string option \<Rightarrow> string option \<Rightarrow> SpendState \<Rightarrow> bool" where
  "publishes st e dh ds f m t \<longleftrightarrow> ledger_inv st \<and> accounted st e dh ds f m \<and>
     (\<exists>s. same_core st s \<and> spend_update (ss_image st) e dh ds f m s = (Inr (), t))"

lemma same_core_inv:
  assumes "same_core st t"
  shows "ledger_inv t = ledger_inv st" "ceiling_inv t = ceiling_inv st" "static_ok t = static_ok st"
    "approved_constructed t = approved_constructed st"
  using same_core_fields[OF assms] execution_ok_cong[of t st]
  by (simp_all add: ledger_inv_def ceiling_inv_def static_ok_def approved_constructed_def)

lemma publishes_fields:
  assumes "publishes st e dh ds f m t"
  shows "ledger_inv t" "ss_opening t = ss_opening st" "ss_approved t = ss_approved st"
    "ss_lease t = ss_lease st" "ss_failed t = ss_failed st"
    "im_executions (ss_image t) = put_execution e (im_executions (ss_image st))"
    "im_budgets (ss_image t) =
       shift_budgets (map bl_scope (rq_limits (ex_request e))) dh ds (im_budgets (ss_image st))"
    "im_fences (ss_image t) = im_fences (ss_image st) \<union> truthy_set f"
    "im_suspended (ss_image t) = im_suspended (ss_image st) \<union> truthy_set m"
proof -
  from assms obtain s where s: "same_core st s" "ledger_inv st" "accounted st e dh ds f m"
    "spend_update (ss_image st) e dh ds f m s = (Inr (), t)"
    by (auto simp: publishes_def)
  show "ledger_inv t" by (rule spend_update_ledger[OF s(2,3,1,4)])
  show "ss_opening t = ss_opening st" "ss_approved t = ss_approved st" "ss_lease t = ss_lease st"
    "ss_failed t = ss_failed st"
    "im_executions (ss_image t) = put_execution e (im_executions (ss_image st))"
    "im_budgets (ss_image t) =
       shift_budgets (map bl_scope (rq_limits (ex_request e))) dh ds (im_budgets (ss_image st))"
    "im_fences (ss_image t) = im_fences (ss_image st) \<union> truthy_set f"
    "im_suspended (ss_image t) = im_suspended (ss_image st) \<union> truthy_set m"
    using spend_update_returns(1)[OF s(4)] same_core_fields[OF s(1)] by simp_all
qed

lemma slot_overrun_nonneg: "0 \<le> slot_overrun x"
  by (simp add: slot_overrun_def)

lemma overrun_nonneg: "0 \<le> overrun_of sc e"
  by (auto simp: overrun_of_def intro: sum_list_nonneg_int slot_overrun_nonneg)

text \<open>
  A publication keeps the ceilings when what it adds to a bucket either fits below the ceiling
  or is covered by the overrun it records.
\<close>

lemma publishes_ceiling:
  assumes pub: "publishes st e dh ds f m t" and cei: "ceiling_inv st"
    and fits: "(\<forall>b\<in>set (im_budgets (ss_image st)). bs_scope b \<in> execution_scopes e \<longrightarrow>
                  exposure_micros b + dh + ds \<le> bl_ceiling_micros (bs_limit b)) \<or>
               dh + ds \<le> sum_list (map slot_overrun (execution_slots e)) -
                 found (\<lambda>x. sum_list (map slot_overrun (execution_slots x))) 0 (previous st e)"
    and grows: "found (\<lambda>x. sum_list (map slot_overrun (execution_slots x))) 0 (previous st e) \<le>
                sum_list (map slot_overrun (execution_slots e))"
  shows "ceiling_inv t"
proof -
  let ?es = "im_executions (ss_image st)"
  let ?new = "sum_list (map slot_overrun (execution_slots e))"
  let ?old = "found (\<lambda>x. sum_list (map slot_overrun (execution_slots x))) 0 (previous st e)"
  from pub have inv: "ledger_inv st" and acc: "accounted st e dh ds f m" by (auto simp: publishes_def)
  have dist: "distinct (map execution_id ?es)" using inv by (simp add: ledger_inv_def Let_def)
  have ok: "execution_ok st e" using acc by (simp add: accounted_def)
  have sums: "sum_list (map (overrun_of sc) (put_execution e ?es)) =
      sum_list (map (overrun_of sc) ?es) + (if sc \<in> execution_scopes e then ?new - ?old else 0)" for sc
  proof -
    have "execution_scopes p = execution_scopes e" if "previous st e = Some p" for p
      using previous_request(1)[OF inv ok that] by (simp add: execution_scopes_def)
    then have "overrun_of sc e = found (overrun_of sc) 0 (previous st e) +
        (if sc \<in> execution_scopes e then ?new - ?old else 0)"
      by (cases "previous st e") (auto simp: overrun_of_def)
    then show ?thesis
      using sum_list_by_key[OF dist, of "overrun_of sc" "execution_id e"] by (simp add: put_execution_def)
  qed
  have scopes: "set (map bl_scope (rq_limits (ex_request e))) = execution_scopes e"
    by (simp add: execution_scopes_def)
  have pos: "0 \<le> sum_list (map (overrun_of sc) ?es)" for sc
    by (rule sum_list_nonneg_int) (rule overrun_nonneg)
  from cei have "list_all2 (within_ceiling ?es) (ss_opening st) (im_budgets (ss_image st))"
    by (simp add: ceiling_inv_def)
  then have "list_all2 (\<lambda>ob b. within_ceiling (put_execution e ?es) ob
      (if bs_scope b \<in> execution_scopes e
       then b\<lparr>bs_held_micros := bs_held_micros b + dh, bs_settled_micros := bs_settled_micros b + ds\<rparr>
       else b)) (ss_opening st) (im_budgets (ss_image st))"
  proof (rule list.rel_mono_strong)
    fix ob b assume b: "b \<in> set (im_budgets (ss_image st))" "within_ceiling ?es ob b"
    show "within_ceiling (put_execution e ?es) ob
        (if bs_scope b \<in> execution_scopes e
         then b\<lparr>bs_held_micros := bs_held_micros b + dh, bs_settled_micros := bs_settled_micros b + ds\<rparr>
         else b)"
      using b fits grows sums[of "bs_scope b"] pos[of "bs_scope b"]
      by (auto simp: within_ceiling_def exposure_micros_def)
  qed
  then show ?thesis
    using publishes_fields[OF pub]
    unfolding ceiling_inv_def by (simp add: shift_budgets_def list_all2_map2 execution_scopes_def)
qed

subsection \<open>What each method does\<close>

text \<open>A record only gains receipts, and only while its journal is open.\<close>

definition record_extends :: "Execution \<Rightarrow> Execution \<Rightarrow> bool" where
  "record_extends p q \<longleftrightarrow> q = p \<or>
     (ex_request q = ex_request p \<and> ex_reservation q = ex_reservation p \<and>
      (\<exists>ds. ex_dispatches q = ex_dispatches p @ ds) \<and>
      (\<exists>ss. ex_settlements q = ex_settlements p @ ss) \<and>
      (\<exists>j. ex_journal p = Some j \<and> \<not> jn_closed j))"

definition orderly :: "SpendState \<Rightarrow> Execution \<Rightarrow> int \<Rightarrow> int \<Rightarrow> bool" where
  "orderly st e dh ds \<longleftrightarrow>
     (let old = found (\<lambda>x. sum_list (map slot_overrun (execution_slots x))) 0 (previous st e);
          new = sum_list (map slot_overrun (execution_slots e)) in
      old \<le> new \<and>
      ((\<forall>b\<in>set (im_budgets (ss_image st)). bs_scope b \<in> execution_scopes e \<longrightarrow>
          exposure_micros b + dh + ds \<le> bl_ceiling_micros (bs_limit b)) \<or>
       dh + ds \<le> new - old)) \<and>
     (\<forall>p. previous st e = Some p \<longrightarrow> record_extends p e)"

lemma all_permit_True:
  "all_permit amount bs = Inr True \<Longrightarrow> b \<in> set bs \<Longrightarrow>
   exposure_micros b + amount \<le> bl_ceiling_micros (bs_limit b)"
  by (induction bs) (auto simp: permits_allocation_def split: option.splits if_splits)

lemma sum_overrun_nonneg: "0 \<le> sum_list (map slot_overrun xs)"
  by (rule sum_list_nonneg_int) (rule slot_overrun_nonneg)

lemma overrun_map_same:
  assumes "\<And>x. x \<in> set xs \<Longrightarrow> slot_settled (f x) = slot_settled x \<and> sl_allocation (f x) = sl_allocation x"
  shows "sum_list (map slot_overrun (map f xs)) = sum_list (map slot_overrun xs)"
  using assms by (induction xs) (auto simp: slot_overrun_def)

lemma reserve_effect:
  assumes "static_ok st" "spend_reserve env r st = (Inr x, t)"
  shows "t = st \<or> (\<exists>e dh ds f m. publishes st e dh ds f m t \<and> orderly st e dh ds)"
  using assms
proof (cases rule: spend_reserve_returns)
  case (denied s)
  then have "publishes st (bare_execution r) 0 0 None None t"
    using accounted_denial by (auto simp: publishes_def)
  moreover have "orderly st (bare_execution r) 0 0"
    using denied by (simp add: orderly_def bare_execution_def execution_slots_def)
  ultimately show ?thesis by blast
next
  case (admitted s now u v j e deadline)
  then have "publishes st e (reserved_micros r) 0 (Some (uuid_hex u)) None t"
    using accounted_admission[OF assms(1)] unfolding publishes_def by blast
  moreover have "orderly st e (reserved_micros r) 0"
    using admitted all_permit_True[OF admitted(5)] sum_overrun_nonneg
    by (simp add: orderly_def execution_scopes_def)
  ultimately show ?thesis by blast
qed simp

lemma settled_claim: "slot_settled (claim_slot f x) = 0" "sl_allocation (claim_slot f x) = sl_allocation x"
  by (simp_all add: slot_settled_def claim_slot_def)

lemma dispatch_effect:
  assumes "static_ok st" "spend_dispatch env v a st = (Inr d, t)"
  shows "t = st \<or> (\<exists>e dh ds f m. publishes st e dh ds f m t \<and> orderly st e dh ds)"
  using assms
proof (cases rule: spend_dispatch_returns)
  case (claimed e j u s)
  let ?slots = "map (\<lambda>x. if sl_allocation x = a then claim_slot (uuid_hex u) x else x) (jn_attempts j)"
  let ?e = "e\<lparr>ex_journal := Some (j\<lparr>jn_attempts := ?slots\<rparr>), ex_dispatches := ex_dispatches e @ [d]\<rparr>"
  note exf = spend_execution_Inr[OF claimed(2)]
  have acc: "accounted st ?e 0 0 (Some (uuid_hex u)) None"
    using claimed by (intro accounted_dispatch[OF assms(1)])
  then have pub: "publishes st ?e 0 0 (Some (uuid_hex u)) None t"
    using claimed(1,11,12) unfolding publishes_def by blast
  have slots: "execution_slots e = jn_attempts j" "execution_slots ?e = ?slots"
    using exf(2) claimed(4) by (simp_all add: execution_slots_def)
  have "slot_settled x = 0" if "x \<in> set (jn_attempts j)" "sl_allocation x = a" for x
  proof -
    have "execution_ok st e" using claimed(1) exf(1) by (rule ledger_execution_ok)
    from owned_facts[OF assms(1) this exf(2) claimed(4)] obtain admitted expires where
      "owned_execution_ok st e v j admitted expires" by metis
    then have "slot_ok False (dispatch_dict e) (settlement_dict e) x"
      using that claimed(5) by (simp add: owned_execution_ok_def list_all_iff)
    from open_slot_unclaimed[OF this] that claimed(6) show ?thesis by (simp add: slot_settled_def)
  qed
  then have "sum_list (map slot_overrun ?slots) = sum_list (map slot_overrun (jn_attempts j))"
    by (intro overrun_map_same) (simp_all add: settled_claim)
  then have "orderly st ?e 0 0"
    using slots exf(4) claimed(4,5) by (simp add: orderly_def record_extends_def)
  with pub show ?thesis by blast
qed simp

lemma settle_effect:
  assumes "static_ok st" "spend_settle env se st = (Inr r, t)" "spend_legal (Settle env se)"
  shows "t = st \<or> (\<exists>e dh ds f m. publishes st e dh ds f m t \<and> orderly st e dh ds)"
  using assms(1,2)
proof (cases rule: spend_settle_returns)
  case (settled e j u s)
  let ?a = "dr_allocation (se_dispatch se)"
  let ?slots = "map (\<lambda>x. if sl_allocation x = ?a then settle_slot se x else x) (jn_attempts j)"
  let ?e = "e\<lparr>ex_journal := Some (j\<lparr>jn_attempts := ?slots\<rparr>), ex_settlements := ex_settlements e @ [r]\<rparr>"
  let ?dh = "if se_estimated_micros se \<noteq> None then - al_bound_micros ?a else 0"
  let ?ds = "case se_estimated_micros se of None \<Rightarrow> 0 | Some amount \<Rightarrow> amount"
  note exf = spend_execution_Inr[OF settled(2)]
  from assms(3) have seok: "SpendSettlement_ok se" and dep: "al_deployment_id ?a \<noteq> []"
    and bound: "0 \<le> al_bound_micros ?a"
    by (auto simp: SpendAttemptAllocation_ok_def require_id_def require_integer_def opaque_id_not_Nil)
  have pub: "publishes st ?e ?dh ?ds (Some (uuid_hex u))
      (if bound_exceeded r then Some (al_deployment_id ?a) else None) t"
    using accounted_settle[OF assms(1) settled(1-6,8,9) seok dep] settled(1,10,11)
    unfolding publishes_def by blast
  note ud = unsettled_dispatch[OF assms(1) settled(1-6)]
  from ud(3) obtain x where x: "x \<in> set (jn_attempts j)" "sl_allocation x = ?a" by blast
  have slots: "execution_slots e = jn_attempts j" "execution_slots ?e = ?slots"
    using exf(2) settled(4) by (simp_all add: execution_slots_def)
  have "sum_list (map slot_overrun ?slots) - sum_list (map slot_overrun (jn_attempts j)) =
      max 0 (?ds - al_bound_micros ?a)"
    using sum_slots_update[OF ud(5) x, of slot_overrun "settle_slot se"] ud(4)[OF x] x(2) bound
    by (cases "se_estimated_micros se") (simp_all add: slot_overrun_def slot_settled_def settle_slot_def)
  then have "orderly st ?e ?dh ?ds"
    using slots exf(4) bound settled(4,5)
    by (cases "se_estimated_micros se") (auto simp: orderly_def Let_def record_extends_def)
  with pub show ?thesis by blast
qed simp

lemma close_effect:
  assumes "static_ok st" "spend_close env v st = (Inr k, t)" "approved_constructed st"
  shows "t = st \<or> (\<exists>e dh ds f m. publishes st e dh ds f m t \<and> orderly st e dh ds)"
  using assms(1,2)
proof (cases rule: spend_close_returns)
  case (closed e j u s)
  let ?e = "e\<lparr>ex_journal := Some k\<rparr>"
  let ?unused = "sum_list (map (\<lambda>s. al_bound_micros (sl_allocation s))
                   (filter (\<lambda>s. sl_state s = RESERVED) (jn_attempts j)))"
  note exf = spend_execution_Inr[OF closed(2)]
  have pub: "publishes st ?e (- ?unused) 0 (Some (uuid_hex u)) None t"
    using accounted_close[OF assms(1) closed(1-7)] closed(1,8,9) unfolding publishes_def by blast
  have ok: "execution_ok st e" using closed(1) exf(1) by (rule ledger_execution_ok)
  from owned_facts[OF assms(1) ok exf(2) closed(3)]
  have "map sl_allocation (jn_attempts j) = rq_allocations (ex_request e)" by metis
  then have "sl_allocation x \<in> set (rq_allocations (ex_request e))" if "x \<in> set (jn_attempts j)" for x
    using that by (metis image_eqI list.set_map)
  moreover have "list_all SpendAttemptAllocation_ok (rq_allocations (ex_request e))"
    using execution_ok_approved[OF ok] assms(3) by (auto simp: approved_constructed_def constructed_request_def)
  ultimately have "0 \<le> ?unused"
    by (intro sum_list_nonneg_int)
       (auto simp: list_all_iff SpendAttemptAllocation_ok_def require_integer_def)
  moreover have "sum_list (map slot_overrun (map closing_slot (jn_attempts j))) =
      sum_list (map slot_overrun (jn_attempts j))"
    by (intro overrun_map_same) (simp add: closing_slot_held)
  moreover have "execution_slots e = jn_attempts j" "execution_slots ?e = map closing_slot (jn_attempts j)"
    using exf(2) closed(3,6) by (simp_all add: execution_slots_def)
  ultimately have "orderly st ?e (- ?unused) 0"
    using exf(4) closed(3,4) by (simp add: orderly_def record_extends_def)
  with pub show ?thesis by blast
qed simp

subsection \<open>Steps keep the invariant and extend the history\<close>

lemma spend_step_cases:
  assumes "spend_inv st" "spend_legal c"
  obtains (quiet) "same_core st (spend_step c st)"
  | (halted) "same_core (st\<lparr>ss_failed := True\<rparr>) (spend_step c st)"
  | (published) e dh ds f m where "publishes st e dh ds f m (spend_step c st)" "orderly st e dh ds"
proof -
  from assms have st: "static_ok st" "approved_constructed st" by (auto simp: spend_inv_def)
  have from_method: thesis
    if "clean m" "spend_step c st = snd (m st)"
      "\<And>x t. m st = (Inr x, t) \<Longrightarrow>
         t = st \<or> (\<exists>e dh ds f m. publishes st e dh ds f m t \<and> orderly st e dh ds)"
    for m :: "'a spend_method"
  proof (cases "m st")
    case (Pair r t)
    show ?thesis
    proof (cases r)
      case (Inl err)
      with that(1) Pair have "same_core st t \<or> same_core (st\<lparr>ss_failed := True\<rparr>) t"
        unfolding clean_def by blast
      then show ?thesis using that(2) Pair quiet halted by auto
    next
      case (Inr x)
      from that(3)[of x t] Inr Pair that(2) quiet published show ?thesis by auto
    qed
  qed
  show ?thesis
  proof (cases c)
    case (Reserve env r)
    then show ?thesis
      by (intro from_method[OF clean_methods(1)[of env r]]) (simp, rule reserve_effect[OF st(1)])
  next
    case (Dispatch env v a)
    then show ?thesis
      by (intro from_method[OF clean_methods(2)[of env v a]]) (simp, rule dispatch_effect[OF st(1)])
  next
    case (Settle env se)
    then show ?thesis
      using assms(2)
      by (intro from_method[OF clean_methods(3)[of env se]]) (simp, rule settle_effect[OF st(1)], simp_all)
  next
    case (Close env v)
    then show ?thesis
      by (intro from_method[OF clean_methods(4)[of env v]]) (simp, rule close_effect[OF st(1) _ st(2)])
  qed (use quiet quiet_methods in \<open>auto simp: quiet_def\<close>)
qed

lemma static_ok_cong:
  "ss_opening t = ss_opening s \<Longrightarrow> ss_approved t = ss_approved s \<Longrightarrow> ss_lease t = ss_lease s \<Longrightarrow>
   static_ok t = static_ok s"
  by (simp add: static_ok_def)

lemma spend_step_inv:
  assumes "spend_inv st" "spend_legal c"
  shows "spend_inv (spend_step c st)"
  using assms
proof (cases rule: spend_step_cases)
  case quiet
  with assms(1) same_core_inv[OF quiet] same_core_fields(5)[OF quiet] show ?thesis
    by (simp add: spend_inv_def)
next
  case halted
  from same_core_fields[OF this] assms(1) show ?thesis
    by (auto simp: spend_inv_def approved_constructed_def cong: static_ok_cong)
next
  case (published e dh ds f m)
  note pf = publishes_fields[OF published(1)]
  show ?thesis
  proof (cases "ss_failed st")
    case True
    with pf assms(1) show ?thesis
      by (auto simp: spend_inv_def approved_constructed_def cong: static_ok_cong)
  next
    case False
    with assms(1) have cei: "ceiling_inv st" by (simp add: spend_inv_def)
    have "ceiling_inv (spend_step c st)"
      using published(2) by (intro publishes_ceiling[OF published(1) cei]) (auto simp: orderly_def Let_def)
    with pf assms(1) show ?thesis
      by (auto simp: spend_inv_def approved_constructed_def cong: static_ok_cong)
  qed
qed

definition spend_extends :: "SpendState \<Rightarrow> SpendState \<Rightarrow> bool" where
  "spend_extends s t \<longleftrightarrow> ss_approved t = ss_approved s \<and> im_fences (ss_image s) \<subseteq> im_fences (ss_image t) \<and>
     im_suspended (ss_image s) \<subseteq> im_suspended (ss_image t) \<and> (ss_failed s \<longrightarrow> ss_failed t) \<and>
     (\<forall>p\<in>set (im_executions (ss_image s)). \<exists>q\<in>set (im_executions (ss_image t)). record_extends p q)"

lemma record_extends_refl [simp]: "record_extends p p"
  by (simp add: record_extends_def)

lemma record_extends_trans: "record_extends p q \<Longrightarrow> record_extends q r \<Longrightarrow> record_extends p r"
  by (auto simp: record_extends_def)

lemma spend_extends_trans: "spend_extends r s \<Longrightarrow> spend_extends s t \<Longrightarrow> spend_extends r t"
  unfolding spend_extends_def by (metis order_trans record_extends_trans)

lemma spend_step_extends:
  assumes "spend_inv st" "spend_legal c"
  shows "spend_extends st (spend_step c st)"
  using assms
proof (cases rule: spend_step_cases)
  case quiet
  from same_core_fields[OF this] show ?thesis
    by (simp add: spend_extends_def) (blast intro: record_extends_refl)
next
  case halted
  from same_core_fields[OF this] show ?thesis
    by (simp add: spend_extends_def) (blast intro: record_extends_refl)
next
  case (published e dh ds f m)
  note pf = publishes_fields[OF published(1)]
  have "\<exists>q\<in>set (put_execution e (im_executions (ss_image st))). record_extends p q"
    if p: "p \<in> set (im_executions (ss_image st))" for p
  proof (cases "execution_id p = execution_id e")
    case True
    have "distinct (map execution_id (im_executions (ss_image st)))"
      using published(1) by (simp add: publishes_def ledger_inv_def Let_def)
    then have "previous st e = Some p"
      using p True by (intro find_unique) (auto simp: distinct_map inj_on_def)
    with published(2) show ?thesis by (auto simp: orderly_def put_execution_def)
  next
    case False
    with p show ?thesis by (auto simp: put_execution_def intro!: bexI[of _ p])
  qed
  with pf show ?thesis by (auto simp: spend_extends_def)
qed

interpretation spend: history_machine spend_step spend_legal spend_inv spend_extends
proof
  show "spend_inv s \<Longrightarrow> spend_legal c \<Longrightarrow> spend_inv (spend_step c s)" for s c
    by (rule spend_step_inv)
  show "spend_extends s s" for s
    by (simp add: spend_extends_def) (blast intro: record_extends_refl)
  show "spend_extends r s \<Longrightarrow> spend_extends s t \<Longrightarrow> spend_extends r t" for r s t
    by (rule spend_extends_trans)
  show "spend_inv s \<Longrightarrow> spend_legal c \<Longrightarrow> spend_extends s (spend_step c s)" for s c
    by (rule spend_step_extends)
qed

subsection \<open>Construction\<close>

lemma py_dict_keyed_SomeD: "py_dict (map (\<lambda>r. (key r, r)) rs) i = Some r \<Longrightarrow> r \<in> set rs \<and> key r = i"
  by (auto dest: py_dict_SomeD)

lemma spend_init_inv:
  assumes "spend_init budgets approved lease = Inr st" "list_all constructed_request approved"
  shows "spend_inv st" "\<not> ss_failed st" "im_executions (ss_image st) = []"
    "ss_opening st = budgets" "im_budgets (ss_image st) = budgets"
proof -
  from assms(1) obtain first rest where ap: "approved = first # rest"
    and g: "ffinite lease" "\<not> fle lease fzero" "list_all SpendBudgetSnapshot_ok budgets"
      "list_all SpendReservationRequest_ok approved" "distinct (map bs_scope budgets)"
      "\<forall>r\<in>set approved. set (rq_limits r) = set (limits_for budgets r)"
    and st: "st = \<lparr>ss_opening = budgets,
                  ss_approved = py_dict (map (\<lambda>r. (rq_execution_id r, r)) approved),
                  ss_epoch = rq_policy_epoch first, ss_digest = rq_policy_digest first,
                  ss_lease = lease, ss_last_now = None, ss_last_utc = None,
                  ss_revision = 0, ss_seen = {}, ss_failed = False,
                  ss_image = \<lparr>im_revision = 0, im_budgets = budgets, im_executions = [],
                              im_suspended = {}, im_fences = {}\<rparr>\<rparr>"
    by (auto simp: spend_init_def list_ex_iff list_all_iff length_remdups_eq
        simp flip: length_map[of bs_scope budgets] simp del: length_map
        split: list.splits if_splits)
  have "static_ok st"
    using g st fle_total[of lease fzero]
    by (auto simp: static_ok_def fin_pos_def list_all_iff dest!: py_dict_keyed_SomeD)
  moreover have "approved_constructed st"
    using assms(2) st by (auto simp: approved_constructed_def list_all_iff dest!: py_dict_keyed_SomeD)
  moreover have "ledger_inv st"
    using g st by (auto simp: ledger_inv_def budget_matches_def list_all_iff list_all2_conv_all_nth)
  moreover have "ceiling_inv st"
    using st by (auto simp: ceiling_inv_def within_ceiling_def list_all2_conv_all_nth)
  ultimately show "spend_inv st" by (simp add: spend_inv_def)
  show "\<not> ss_failed st" "im_executions (ss_image st) = []" "ss_opening st = budgets"
    "im_budgets (ss_image st) = budgets" using st by simp_all
qed

end
