(* ===== verification/Spend_Receipts.thy ===== *)
theory Spend_Receipts
  imports Spend_Theorems
begin

text \<open>
  What a returned receipt leaves behind: the record it is read from again, how later calls
  resolve it, and the suspension a cost above its bound leaves on a deployment.
\<close>

subsection \<open>Records\<close>

lemma validated_image_passes:
  "spend_inv st \<Longrightarrow> \<not> ss_failed st \<Longrightarrow> validated_image st = (Inr (ss_image st), st)"
  using image_consistent_iff[of st] by (simp add: spend_inv_def validated_image_def)

lemma record_unique:
  assumes "spend_inv st" "\<not> ss_failed st" "e \<in> set (im_executions (ss_image st))"
  shows "find (\<lambda>x. execution_id x = execution_id e) (im_executions (ss_image st)) = Some e"
proof -
  from assms have "distinct (map execution_id (im_executions (ss_image st)))"
    by (simp add: spend_inv_def ledger_inv_def Let_def)
  with assms(3) show ?thesis by (intro find_unique) (auto simp: distinct_map inj_on_def)
qed

lemma record_owned:
  assumes "spend_inv st" "\<not> ss_failed st" "e \<in> set (im_executions (ss_image st))"
    "ex_reservation e = Some v"
  obtains j admitted expires where "ex_journal e = Some j" "owned_execution_ok st e v j admitted expires"
proof -
  from assms have "execution_ok st e" by (auto simp: spend_inv_def intro: ledger_execution_ok)
  with assms(4) show ?thesis by (auto simp: execution_ok_def split: option.splits intro: that)
qed

lemma record_execution:
  assumes "spend_inv st" "\<not> ss_failed st" "e \<in> set (im_executions (ss_image st))"
    "ex_reservation e = Some v"
  shows "spend_execution (ss_image st) v = Inr e"
proof -
  from assms obtain j admitted expires where "owned_execution_ok st e v j admitted expires"
    by (rule record_owned)
  from owned_journal(3)[OF this] have "execution_id e = rq_execution_id (rv_request v)" by simp
  with record_unique[OF assms(1-3)] assms(4) show ?thesis by (simp add: spend_execution_def)
qed

subsection \<open>Resolving a recorded receipt\<close>

text \<open>The part of a record a receipt is read from.\<close>

fun recorded :: "spend_call \<Rightarrow> spend_reply \<Rightarrow> Execution \<Rightarrow> bool" where
  "recorded (Reserve env r) y e \<longleftrightarrow>
     execution_id e = rq_execution_id r \<and> y = Reserved (ex_reservation e)"
| "recorded (Dispatch env v a) y e \<longleftrightarrow> ex_reservation e = Some v \<and>
     (\<exists>d\<in>set (ex_dispatches e). dr_allocation d = a \<and> y = Dispatched d)"
| "recorded (Settle env se) y e \<longleftrightarrow> ex_reservation e = Some (dr_reservation (se_dispatch se)) \<and>
     (\<exists>r\<in>set (ex_settlements e). sr_settlement r = se \<and> y = Settled r)"
| "recorded (Close env v) y e \<longleftrightarrow> ex_reservation e = Some v \<and>
     (\<exists>j. ex_journal e = Some j \<and> jn_closed j \<and> y = Closed j)"
| "recorded _ y e \<longleftrightarrow> False"

text \<open>The calls that return a receipt, and the same call made again in another environment.\<close>

fun receipt_call :: "spend_call \<Rightarrow> bool" where
  "receipt_call (IsCurrent env v) \<longleftrightarrow> False"
| "receipt_call (ReadBudget sc epoch) \<longleftrightarrow> False"
| "receipt_call (ReadJournal v) \<longleftrightarrow> False"
| "receipt_call _ \<longleftrightarrow> True"

fun again :: "spend_env \<Rightarrow> spend_call \<Rightarrow> spend_call" where
  "again env' (Reserve env r) = Reserve env' r"
| "again env' (IsCurrent env v) = IsCurrent env' v"
| "again env' (Dispatch env v a) = Dispatch env' v a"
| "again env' (Settle env se) = Settle env' se"
| "again env' (Close env v) = Close env' v"
| "again env' c = c"

lemma recorded_extends:
  "recorded c y p \<Longrightarrow> record_extends p q \<Longrightarrow> recorded c y q"
  by (cases c) (auto simp: record_extends_def)

fun approved_call :: "SpendState \<Rightarrow> spend_call \<Rightarrow> bool" where
  "approved_call st (Reserve env r) \<longleftrightarrow> ss_approved st (rq_execution_id r) = Some r"
| "approved_call st c \<longleftrightarrow> True"

lemma recorded_dispatch_unique:
  assumes "owned_execution_ok st e v j admitted expires" "d \<in> set (ex_dispatches e)"
  shows "find (\<lambda>x. dr_allocation x = dr_allocation d) (ex_dispatches e) = Some d"
proof -
  from assms(1) have "distinct (map dr_allocation (ex_dispatches e))"
    by (simp add: owned_execution_ok_def py_dict_len_keyed)
  with assms(2) show ?thesis by (intro find_unique) (auto simp: distinct_map inj_on_def)
qed

lemma recorded_settlement_unique:
  assumes "owned_execution_ok st e v j admitted expires" "r \<in> set (ex_settlements e)"
  shows "find (\<lambda>x. se_dispatch (sr_settlement x) = se_dispatch (sr_settlement r)) (ex_settlements e) = Some r"
proof -
  from assms(1) have "distinct (map receipt_allocation (ex_settlements e))"
    by (simp add: owned_execution_ok_def py_dict_len_keyed)
  with assms(2) show ?thesis by (intro find_unique) (auto simp: distinct_map inj_on_def)
qed

lemma recorded_resolves:
  assumes inv: "spend_inv st" "\<not> ss_failed st" and e: "e \<in> set (im_executions (ss_image st))"
    and rec: "recorded c y e" and app: "approved_call st c"
  shows "spend_exec (again env' c) st = (Inr y, st)"
proof (cases c)
  case (Reserve env r)
  with record_unique[OF inv e] rec app show ?thesis
    by (simp add: spend_reserve_def reply_Inr_iff seq_def validated_image_passes[OF inv] get_state_def
        require_def)
next
  case (Dispatch env v a)
  with rec obtain d where d: "d \<in> set (ex_dispatches e)" "dr_allocation d = a" "y = Dispatched d"
    and v: "ex_reservation e = Some v" by auto
  from inv e v obtain j ad ep where ow: "owned_execution_ok st e v j ad ep" by (rule record_owned)
  have "a \<in> set (rq_allocations (rv_request v))"
    using owned_journal(4)[OF ow] d by (auto simp: list_all_iff SpendDispatchReceipt_ok_def)
  with Dispatch d recorded_dispatch_unique[OF ow d(1)] record_execution[OF inv e v] show ?thesis
    by (simp add: spend_dispatch_def reply_Inr_iff seq_def validated_image_passes[OF inv] require_def)
next
  case (Settle env se)
  with rec obtain r where r: "r \<in> set (ex_settlements e)" "sr_settlement r = se" "y = Settled r"
    and v: "ex_reservation e = Some (dr_reservation (se_dispatch se))" by auto
  from inv e v obtain j ad ep where ow: "owned_execution_ok st e (dr_reservation (se_dispatch se)) j ad ep"
    by (rule record_owned)
  have "dispatch_dict e (receipt_allocation r) = Some (se_dispatch se)"
    using ow r by (auto simp: owned_execution_ok_def list_all_iff)
  then have "se_dispatch se \<in> set (ex_dispatches e)" by (auto dest: py_dict_SomeD)
  with Settle r recorded_settlement_unique[OF ow r(1)] record_execution[OF inv e v] show ?thesis
    by (simp add: spend_settle_def reply_Inr_iff seq_def validated_image_passes[OF inv] require_def)
next
  case (Close env v)
  with rec record_execution[OF inv e] show ?thesis
    by (auto simp: spend_close_def reply_Inr_iff seq_def validated_image_passes[OF inv])
qed (use rec in auto)


subsection \<open>A returned receipt is recorded\<close>

lemma update_records:
  "spend_update img e dh ds f m s = (Inr (), t) \<Longrightarrow> e \<in> set (im_executions (ss_image t))"
  by (auto simp: spend_update_def commit_def put_execution_def Let_def split: if_splits)

lemma returned_recorded:
  assumes st: "spend_inv st" and ret: "spend_exec c st = (Inr y, t)" and rc: "receipt_call c"
  shows "\<exists>e\<in>set (im_executions (ss_image t)). recorded c y e"
proof (cases c)
  case (Reserve env r)
  with ret obtain x where x: "spend_reserve env r st = (Inr x, t)" "y = Reserved x"
    by (auto simp: reply_Inr_iff)
  from st have "static_ok st" by (simp add: spend_inv_def)
  from this x(1) show ?thesis
  proof (cases rule: spend_reserve_returns)
    case (resolved e)
    with x(2) Reserve show ?thesis by auto
  next
    case (denied s)
    with x(2) Reserve show ?thesis
      by (intro bexI[OF _ update_records[OF denied(6)]]) (simp add: bare_execution_def)
  next
    case (admitted s now u v j e deadline)
    with x(2) Reserve show ?thesis
      by (intro bexI[OF _ update_records[OF admitted(20)]]) simp
  qed
next
  case (Dispatch env v a)
  with ret obtain d where d: "spend_dispatch env v a st = (Inr d, t)" "y = Dispatched d"
    by (auto simp: reply_Inr_iff)
  from st have "static_ok st" by (simp add: spend_inv_def)
  from this d(1) show ?thesis
  proof (cases rule: spend_dispatch_returns)
    case (resolved e)
    with spend_execution_Inr[OF resolved(2)] d(2) Dispatch show ?thesis by auto
  next
    case (claimed e j u s)
    with spend_execution_Inr(2)[OF claimed(2)] d(2) Dispatch show ?thesis
      by (intro bexI[OF _ update_records[OF claimed(12)]]) auto
  qed
next
  case (Settle env se)
  with ret obtain r where r: "spend_settle env se st = (Inr r, t)" "y = Settled r"
    by (auto simp: reply_Inr_iff)
  from st have "static_ok st" by (simp add: spend_inv_def)
  from this r(1) show ?thesis
  proof (cases rule: spend_settle_returns)
    case (resolved e)
    with spend_execution_Inr[OF resolved(2)] r(2) Settle show ?thesis by auto
  next
    case (settled e j u s)
    with spend_execution_Inr(2)[OF settled(2)] r(2) Settle show ?thesis
      by (intro bexI[OF _ update_records[OF settled(11)]]) auto
  qed
next
  case (Close env v)
  with ret obtain k where k: "spend_close env v st = (Inr k, t)" "y = Closed k"
    by (auto simp: reply_Inr_iff)
  from st have "static_ok st" by (simp add: spend_inv_def)
  from this k(1) show ?thesis
  proof (cases rule: spend_close_returns)
    case (resolved e)
    with spend_execution_Inr[OF resolved(2)] k(2) Close show ?thesis by auto
  next
    case (closed e j u s)
    with spend_execution_Inr(2)[OF closed(2)] k(2) Close show ?thesis
      by (intro bexI[OF _ update_records[OF closed(9)]]) auto
  qed
qed (use rc in auto)

lemma returned_approved:
  assumes "spend_exec c st = (Inr y, t)"
  shows "approved_call st c"
  using assms
  by (cases c) (auto simp: reply_Inr_iff spend_reserve_def get_state_def validated_image_def
      elim!: seq_InrE split: if_splits)

text \<open>A recorded receipt is found again by every extending state.\<close>

lemma recorded_again:
  assumes "spend_inv st" "spend_inv u" "\<not> ss_failed u" "spend_extends st u"
    "\<exists>e\<in>set (im_executions (ss_image st)). recorded c y e" "approved_call st c"
  shows "spend_exec (again env' c) u = (Inr y, u)"
proof -
  from assms(4,5) obtain q where "q \<in> set (im_executions (ss_image u))" "recorded c y q"
    unfolding spend_extends_def by (meson recorded_extends)
  moreover have "approved_call u c"
    using assms(4,6) by (cases c) (auto simp: spend_extends_def)
  ultimately show ?thesis using assms(2,3) by (intro recorded_resolves)
qed

end
