(* ===== verification/Spend_Properties.thy ===== *)
theory Spend_Properties
  imports Spend_Receipts
begin

text \<open>
  Reachable states of the spend-admission adapter, a concrete approved portfolio on which the
  operations are evaluated, and the properties of the adapter.
\<close>

subsection \<open>Reachable states\<close>

inductive spend_reachable ::
  "SpendBudgetSnapshot list \<Rightarrow> SpendReservationRequest list \<Rightarrow> pyfloat \<Rightarrow> SpendState \<Rightarrow> bool"
  for budgets approved lease where
  start: "spend_init budgets approved lease = Inr st \<Longrightarrow> list_all constructed_request approved \<Longrightarrow>
    spend_reachable budgets approved lease st"
| call: "spend_reachable budgets approved lease st \<Longrightarrow> spend_legal c \<Longrightarrow>
    spend_reachable budgets approved lease (spend_step c st)"

lemma spend_reachable_inv: "spend_reachable budgets approved lease st \<Longrightarrow> spend_inv st"
  by (induction rule: spend_reachable.induct) (auto intro: spend_init_inv spend.inv_step)

lemma spend_step_opening: "spend_inv st \<Longrightarrow> spend_legal c \<Longrightarrow> ss_opening (spend_step c st) = ss_opening st"
  by (elim spend_step_cases) (auto dest: same_core_fields(1) publishes_fields(2))

lemma spend_reachable_opening: "spend_reachable budgets approved lease st \<Longrightarrow> ss_opening st = budgets"
  by (induction rule: spend_reachable.induct)
     (auto simp: spend_init_inv spend_step_opening spend_reachable_inv)

lemma spend_reachable_run:
  "spend_reachable budgets approved lease st \<Longrightarrow> list_all spend_legal cs \<Longrightarrow>
   spend_reachable budgets approved lease (run_calls spend_step st cs)"
  by (induction cs arbitrary: st) (auto intro: spend_reachable.call)


subsection \<open>Overruns and suspended deployments\<close>

lemma owned_bound_nonneg:
  assumes "spend_inv st" "\<not> ss_failed st" "e \<in> set (im_executions (ss_image st))"
    "owned_execution_ok st e v j ad ep" "x \<in> set (jn_attempts j)"
  shows "0 \<le> al_bound_micros (sl_allocation x)"
proof -
  note oj = owned_journal[OF assms(4)]
  have "sl_allocation x \<in> set (rq_allocations (ex_request e))"
    using oj(1-3) assms(5) by (metis SpendJournalSnapshot_ok_def image_eqI list.set_map)
  moreover have "constructed_request (ex_request e)"
    using assms(1-3) execution_ok_approved[OF ledger_execution_ok[of st e]]
    by (auto simp: spend_inv_def approved_constructed_def)
  ultimately show ?thesis
    by (auto simp: constructed_request_def list_all_iff SpendAttemptAllocation_ok_def require_integer_def)
qed

lemma no_suspension_no_overrun:
  assumes "spend_inv st" "\<not> ss_failed st" "im_suspended (ss_image st) = {}"
    "e \<in> set (im_executions (ss_image st))"
  shows "overrun_of sc e = 0"
proof -
  have none: "\<not> bound_exceeded r" if "r \<in> set (ex_settlements e)" for r
  proof -
    have "execution_suspends e \<subseteq> im_suspended (ss_image st)"
      using assms(1,2,4) by (auto simp: spend_inv_def ledger_inv_def Let_def)
    with assms(3) that show ?thesis by (auto simp: execution_suspends_def filter_empty_conv)
  qed
  have "slot_overrun x = 0" if "x \<in> set (execution_slots e)" for x
  proof -
    from that obtain v j where vj: "ex_reservation e = Some v" "ex_journal e = Some j" "x \<in> set (jn_attempts j)"
      by (cases "ex_reservation e"; cases "ex_journal e") (auto simp: execution_slots_def)
    from record_owned[OF assms(1,2,4) vj(1)] vj(2) obtain ad ep where
      ow: "owned_execution_ok st e v j ad ep" by (metis option.inject)
    have bound: "0 \<le> al_bound_micros (sl_allocation x)"
      by (rule owned_bound_nonneg[OF assms(1,2,4) ow vj(3)])
    from ow have x: "slot_ok (jn_closed j) (dispatch_dict e) (settlement_dict e) x"
      using vj(3) by (simp add: owned_execution_ok_def list_all_iff)
    show ?thesis
    proof (cases "settlement_dict e (sl_allocation x)")
      case None
      with x bound show ?thesis
        by (auto simp: slot_ok_def slot_overrun_def slot_settled_def Let_def)
    next
      case (Some r)
      from py_dict_SomeD[OF Some] have r: "r \<in> set (ex_settlements e)" "receipt_allocation r = sl_allocation x"
        by auto
      from x Some r none[OF r(1)] bound show ?thesis
        by (auto simp: slot_ok_def slot_overrun_def slot_settled_def Let_def bound_exceeded_def
            SpendAttemptSnapshot_ok_def split: if_splits option.splits)
    qed
  qed
  then show ?thesis by (simp add: overrun_of_def sum_list_0 cong: map_cong)
qed

lemma settled_overrun_suspends:
  assumes inv: "spend_inv t" "\<not> ss_failed t" and e: "e \<in> set (im_executions (ss_image t))"
    and r: "r \<in> set (ex_settlements e)" "bound_exceeded r"
  shows "al_deployment_id (receipt_allocation r) \<in> im_suspended (ss_image t)"
proof -
  have "execution_suspends e \<subseteq> im_suspended (ss_image t)"
    using inv e by (auto simp: spend_inv_def ledger_inv_def Let_def)
  with r show ?thesis by (auto simp: execution_suspends_def)
qed


lemma suspended_reserve:
  assumes "static_ok u" "spend_reserve env q u = (Inr x, w)"
    "a \<in> set (rq_allocations q)" "al_deployment_id a \<in> im_suspended (ss_image u)"
  shows "w = u"
proof (rule ccontr)
  assume "w \<noteq> u"
  from assms(2) obtain img s t where vi: "validated_image u = (Inr img, u)"
    and rest: "w = u \<or> (\<forall>a\<in>set (rq_allocations q). al_deployment_id a \<notin> im_suspended img)"
    by (auto simp: spend_reserve_def get_state_def validated_image_def list_ex_iff ret_def
        elim!: seq_InrE split: option.splits if_splits)
  then show False
    using \<open>w \<noteq> u\<close> assms validated_image_Inr(2)[OF assms(1) vi] by blast
qed

subsection \<open>A concrete approved portfolio\<close>

text \<open>
  One client bucket with a ceiling of 1000 micros and a request that reserves two attempts of 200
  micros each; clock readings and the lease are small floats, counted in the float resolution.
\<close>

definition sample_digest :: string where
  "sample_digest = ''sha256:'' @ replicate 64 (CHR ''a'')"

definition sample_scope :: SpendBudgetScope where
  "sample_scope = \<lparr>sc_client_id = ''client-a'', sc_window = DAILY,
     sc_window_start = Date 2026 7 14, sc_workload = None\<rparr>"

definition sample_budget :: SpendBudgetSnapshot where
  "sample_budget = \<lparr>bs_limit = \<lparr>bl_scope = sample_scope, bl_ceiling_micros = 1000\<rparr>,
     bs_settled_micros = 100, bs_held_micros = 0\<rparr>"

definition sample_slot :: "string \<Rightarrow> int \<Rightarrow> int \<Rightarrow> SpendAttemptAllocation" where
  "sample_slot dep fallback attempt = \<lparr>al_deployment_id = dep, al_fallback_index = fallback,
     al_attempt_number = attempt, al_bound_micros = 200, al_pricing_digest = sample_digest,
     al_bound_evidence_id = ''bound-1''\<rparr>"

definition sample_request :: SpendReservationRequest where
  "sample_request = \<lparr>rq_execution_id = ''exec-1'', rq_owner_id = ''owner-1'',
     rq_client_id = ''client-a'', rq_workload = ''team.chat'',
     rq_admitted_on = Date 2026 7 14, rq_policy_epoch = 1,
     rq_policy_digest = sample_digest, rq_plan_digest = sample_digest,
     rq_registry_digest = sample_digest, rq_retry_policy_digest = sample_digest,
     rq_limits = [bs_limit sample_budget],
     rq_allocations = [sample_slot ''model-a'' 0 1, sample_slot ''model-b'' 1 1]\<rparr>"

definition sample_env :: "nat \<Rightarrow> spend_env" where
  "sample_env n = \<lparr>env_clock = Some (Fin (int n)),
     env_utc = Some (Instant True (Date 2026 7 14) (int n)),
     env_uuid = Some (of_nat n), env_usage = (\<lambda>_. Some True)\<rparr>"

definition sample_start :: SpendState where
  "sample_start = \<lparr>ss_opening = [sample_budget], ss_approved = py_dict [(''exec-1'', sample_request)],
     ss_epoch = 1, ss_digest = sample_digest, ss_lease = Fin 60, ss_last_now = None, ss_last_utc = None,
     ss_revision = 0, ss_seen = {}, ss_failed = False,
     ss_image = \<lparr>im_revision = 0, im_budgets = [sample_budget], im_executions = [],
       im_suspended = {}, im_fences = {}\<rparr>\<rparr>"

definition sample_owner :: SpendReservation where
  "sample_owner = \<lparr>rv_request = sample_request, rv_owner_fence = uuid_hex 1,
     rv_owner_timeout_seconds = Fin 60\<rparr>"

definition sample_settlement :: SpendSettlement where
  "sample_settlement = \<lparr>se_dispatch = \<lparr>dr_reservation = sample_owner,
       dr_allocation = sample_slot ''model-a'' 0 1, dr_dispatch_fence = uuid_hex 2\<rparr>,
     se_estimated_micros = Some 250, se_usage_evidence_id = Some ''usage-1''\<rparr>"

definition sample_calls :: "spend_call list" where
  "sample_calls = [Reserve (sample_env 1) sample_request,
     Dispatch (sample_env 2) sample_owner (sample_slot ''model-a'' 0 1),
     Settle (sample_env 3) sample_settlement]"

definition sample_end :: SpendState where
  "sample_end = run_calls spend_step sample_start sample_calls"

lemma sample_request_ok: "SpendReservationRequest_ok sample_request"
  by code_simp

lemma sample_limits: "limits_for [sample_budget] sample_request = rq_limits sample_request"
  by code_simp

lemma sample_budget_ok: "SpendBudgetSnapshot_ok sample_budget"
  by code_simp

lemma sample_init: "spend_init [sample_budget] [sample_request] (Fin 60) = Inr sample_start"
  using sample_request_ok sample_limits sample_budget_ok
  by (simp add: spend_init_def sample_start_def py_dict_len_def)
     (simp add: sample_request_def)

lemma sample_constructed: "list_all constructed_request [sample_request]"
  by code_simp

lemma sample_legal: "list_all spend_legal sample_calls"
  by code_simp

lemma sample_start_reachable: "spend_reachable [sample_budget] [sample_request] (Fin 60) sample_start"
  using sample_init sample_constructed by (rule spend_reachable.start)

lemma sample_end_reachable: "spend_reachable [sample_budget] [sample_request] (Fin 60) sample_end"
  unfolding sample_end_def by (rule spend_reachable_run[OF sample_start_reachable sample_legal])

lemma sample_end_runs:
  "\<not> ss_failed sample_end \<and> length (im_executions (ss_image sample_end)) = 1 \<and>
   map exposure_micros (im_budgets (ss_image sample_end)) = [550] \<and>
   im_suspended (ss_image sample_end) = {''model-a''}"
  by code_simp


subsection \<open>Properties\<close>

text \<open>
  C1. Every reachable state that has not latched a failure passes the adapter's own
  audit: \<open>_validated_image\<close> returns the image it protects, so a well-behaved process never sees
  a spurious \<open>INVALID_STATE\<close> from ledger, fence or suspension bookkeeping.
\<close>

theorem spend_audit_passes:
  assumes "spend_reachable budgets approved lease st" "\<not> ss_failed st"
  shows "validated_image st = (Inr (ss_image st), st)"
  using spend_reachable_inv[OF assms(1)] assms(2) by (rule validated_image_passes)

theorem spend_audit_passes_witness:
  "validated_image sample_end = (Inr (ss_image sample_end), sample_end)"
  using spend_audit_passes[OF sample_end_reachable] sample_end_runs by simp

text \<open>
  C2. The exposure of a bucket never exceeds its ceiling, or what it already was at
  start-up, by more than the overruns the journals of the executions truthfully record; while no
  deployment has been suspended for an overrun, it does not exceed it at all.
\<close>

theorem spend_ceiling_respected:
  assumes "spend_reachable budgets approved lease st" "\<not> ss_failed st" "i < length budgets"
  defines "b \<equiv> im_budgets (ss_image st) ! i"
  shows "length (im_budgets (ss_image st)) = length budgets \<and> bs_limit b = bs_limit (budgets ! i) \<and>
    exposure_micros b \<le> max (bl_ceiling_micros (bs_limit b)) (exposure_micros (budgets ! i)) +
      sum_list (map (overrun_of (bs_scope b)) (im_executions (ss_image st))) \<and>
    (im_suspended (ss_image st) = {} \<longrightarrow>
      exposure_micros b \<le> max (bl_ceiling_micros (bs_limit b)) (exposure_micros (budgets ! i)))"
proof -
  have inv: "spend_inv st" by (rule spend_reachable_inv[OF assms(1)])
  with assms(2) have ld: "ledger_inv st" "ceiling_inv st" by (auto simp: spend_inv_def)
  have ob: "ss_opening st = budgets" by (rule spend_reachable_opening[OF assms(1)])
  from ld(1) ob have mt: "list_all2 (budget_matches (im_executions (ss_image st))) budgets (im_budgets (ss_image st))"
    by (simp add: ledger_inv_def Let_def)
  from ld(2) ob have wc: "list_all2 (within_ceiling (im_executions (ss_image st))) budgets (im_budgets (ss_image st))"
    by (simp add: ceiling_inv_def)
  have z: "im_suspended (ss_image st) = {} \<Longrightarrow>
      sum_list (map (overrun_of (bs_scope b)) (im_executions (ss_image st))) = 0"
    using no_suspension_no_overrun[OF inv assms(2)] by (intro sum_list_zero_int) auto
  from mt wc assms(3) z show ?thesis
    unfolding b_def by (auto simp: list_all2_conv_all_nth budget_matches_def within_ceiling_def)
qed

theorem spend_ceiling_respected_witness:
  "exposure_micros (im_budgets (ss_image sample_end) ! 0) \<le> 1000 + sum_list (map (overrun_of
     (bs_scope (im_budgets (ss_image sample_end) ! 0))) (im_executions (ss_image sample_end)))"
  using spend_ceiling_respected[OF sample_end_reachable, of 0] sample_end_runs
  by (clarsimp simp: sample_budget_def exposure_micros_def)

text \<open>
  C8. Money is conserved: the settled and held micros of every bucket are its
  start-up values plus exactly what the journals of the executions charged to that bucket say
  (settled estimates, and bounds of slots that are reserved, in flight or unknown).
\<close>

theorem spend_ledger_conserved:
  assumes "spend_reachable budgets approved lease st" "\<not> ss_failed st" "i < length budgets"
  defines "b \<equiv> im_budgets (ss_image st) ! i"
  shows "bs_settled_micros b = bs_settled_micros (budgets ! i) +
      sum_list (map (settled_of (bs_scope (budgets ! i))) (im_executions (ss_image st))) \<and>
    bs_held_micros b = bs_held_micros (budgets ! i) +
      sum_list (map (held_of (bs_scope (budgets ! i))) (im_executions (ss_image st)))"
proof -
  from spend_reachable_inv[OF assms(1)] assms(2) have "ledger_inv st" by (auto simp: spend_inv_def)
  then have "list_all2 (budget_matches (im_executions (ss_image st))) budgets (im_budgets (ss_image st))"
    using spend_reachable_opening[OF assms(1)] by (simp add: ledger_inv_def Let_def)
  with assms(3) show ?thesis
    unfolding b_def by (auto simp: list_all2_conv_all_nth budget_matches_def)
qed

theorem spend_ledger_conserved_witness:
  "bs_settled_micros (im_budgets (ss_image sample_end) ! 0) = 100 +
     sum_list (map (settled_of sample_scope) (im_executions (ss_image sample_end))) \<and>
   bs_held_micros (im_budgets (ss_image sample_end) ! 0) =
     sum_list (map (held_of sample_scope) (im_executions (ss_image sample_end)))"
  using spend_ledger_conserved[OF sample_end_reachable, of 0] sample_end_runs
  by (simp add: sample_budget_def)

text \<open>
  C9. Receipts are durable and every owner call is idempotent: once a reservation (or a
  denial), dispatch, settlement or closure has returned, the same call repeated at any later
  moment, whatever the clocks, UUIDs and usage validator then answer, returns the same receipt
  and changes nothing, until a failure is latched.
\<close>

theorem spend_receipts_durable:
  assumes "spend_reachable budgets approved lease st" "spend_legal c" "receipt_call c"
    "spend_exec c st = (Inr y, t)" "list_all spend_legal cs"
    "u = run_calls spend_step t cs" "\<not> ss_failed u"
  shows "spend_exec (again env' c) u = (Inr y, u)"
proof -
  have inv: "spend_inv st" by (rule spend_reachable_inv[OF assms(1)])
  have t: "t = spend_step c st" using assms(4) by (simp add: spend_step_def)
  have "spend_inv t" "spend_extends st t"
    unfolding t by (rule spend.inv_step[OF inv assms(2)], rule spend.extends_step[OF inv assms(2)])
  moreover have "approved_call t c"
    using returned_approved[OF assms(4)] \<open>spend_extends st t\<close> by (cases c) (auto simp: spend_extends_def)
  moreover have "spend_inv u" "spend_extends t u"
    using spend.run_inv spend.run_extends \<open>spend_inv t\<close> assms(5,6) by auto
  ultimately show ?thesis
    using returned_recorded[OF inv assms(4,3)] assms(7) by (intro recorded_again)
qed

theorem spend_receipts_durable_witness:
  "spend_exec (Reserve (sample_env 9) sample_request) sample_end = (Inr (Reserved (Some sample_owner)), sample_end)"
proof -
  let ?c = "Reserve (sample_env 1) sample_request"
  have "fst (spend_exec ?c sample_start) = Inr (Reserved (Some sample_owner))" by code_simp
  then have "spend_exec ?c sample_start = (Inr (Reserved (Some sample_owner)), spend_step ?c sample_start)"
    by (simp add: spend_step_def prod_eq_iff)
  moreover have "sample_end = run_calls spend_step (spend_step ?c sample_start) (tl sample_calls)"
    by (simp add: sample_end_def sample_calls_def)
  ultimately show ?thesis
    using spend_receipts_durable[OF sample_start_reachable, of ?c "Reserved (Some sample_owner)"
        "spend_step ?c sample_start" "tl sample_calls" sample_end "sample_env 9"]
      sample_end_runs sample_legal by (simp add: sample_calls_def)
qed

text \<open>
  C10. A call that raises publishes nothing: the budgets, journals, fences, suspensions
  and revision are those from before the call; at most the two clock watermarks advance or the
  failure latch is set.
\<close>

theorem spend_raise_publishes_nothing:
  assumes "spend_exec c st = (Inl err, t)"
  shows "ss_image t = ss_image st \<and> ss_revision t = ss_revision st \<and> ss_seen t = ss_seen st \<and>
    ss_approved t = ss_approved st \<and> ss_opening t = ss_opening st \<and> ss_lease t = ss_lease st"
proof -
  have "same_core st t \<or> same_core (st\<lparr>ss_failed := True\<rparr>) t"
    using assms clean_methods quiet_clean[OF quiet_methods(1)] quiet_clean[OF quiet_methods(2)]
      quiet_clean[OF quiet_methods(3)]
    by (cases c) (simp_all add: reply_Inl_iff clean_def)
  then show ?thesis by (auto dest: same_core_fields)
qed

theorem spend_raise_publishes_nothing_witness:
  "ss_image (spend_step (Dispatch (sample_env 5) sample_owner (sample_slot ''model-a'' 0 1)) sample_start) =
   ss_image sample_start"
proof -
  let ?c = "Dispatch (sample_env 5) sample_owner (sample_slot ''model-a'' 0 1)"
  have "fst (spend_exec ?c sample_start) = Inl (SpendControlError INVALID_STATE)" by code_simp
  then have "spend_exec ?c sample_start = (Inl (SpendControlError INVALID_STATE), spend_step ?c sample_start)"
    by (simp add: spend_step_def prod_eq_iff)
  then show ?thesis by (rule spend_raise_publishes_nothing[THEN conjunct1])
qed

text \<open>
  C11. A latched failure is final: every method then raises \<open>INVALID_STATE\<close> and leaves
  the state as it is.
\<close>

theorem spend_failure_latched:
  assumes "ss_failed st"
  shows "spend_exec c st = (Inl (SpendControlError INVALID_STATE), st)"
proof -
  have "validated_image st = (Inl (SpendControlError INVALID_STATE), st)"
    using assms by (simp add: validated_image_def image_consistent_def Let_def)
  then show ?thesis
    by (cases c) (simp_all add: reply_Inl_iff seq_def spend_reserve_def spend_is_current_def
        spend_dispatch_def spend_settle_def spend_close_def spend_budget_def spend_journal_def)
qed

theorem spend_failure_latched_witness:
  "spend_exec (ReadJournal sample_owner) (sample_end\<lparr>ss_failed := True\<rparr>) =
     (Inl (SpendControlError INVALID_STATE), sample_end\<lparr>ss_failed := True\<rparr>)"
  by (rule spend_failure_latched) simp


text \<open>
  C12. Fences are never shared: the owner, dispatch, settlement and closure fences of all
  executions are pairwise different, an execution identity has one record, and an execution has
  at most one attempt in flight.
\<close>

theorem spend_fences_unique:
  assumes "spend_reachable budgets approved lease st" "\<not> ss_failed st"
  shows "distinct (concat (map execution_fences (im_executions (ss_image st)))) \<and>
    distinct (map execution_id (im_executions (ss_image st))) \<and>
    (\<forall>e\<in>set (im_executions (ss_image st)).
       length (filter (\<lambda>x. sl_state x = MAY_HAVE_EXECUTED) (execution_slots e)) \<le> 1)"
proof -
  from spend_reachable_inv[OF assms(1)] assms(2) have ld: "ledger_inv st" by (auto simp: spend_inv_def)
  moreover have "length (filter (\<lambda>x. sl_state x = MAY_HAVE_EXECUTED) (execution_slots e)) \<le> 1"
    if "e \<in> set (im_executions (ss_image st))" for e
  proof (cases "ex_reservation e")
    case (Some v)
    from record_owned[OF spend_reachable_inv[OF assms(1)] assms(2) that Some] obtain j ad ep where
      "ex_journal e = Some j" "owned_execution_ok st e v j ad ep" by metis
    with Some owned_journal(6) show ?thesis by (simp add: execution_slots_def)
  qed (simp add: execution_slots_def)
  ultimately show ?thesis by (simp add: ledger_inv_def Let_def)
qed

theorem spend_fences_unique_witness:
  "distinct (concat (map execution_fences (im_executions (ss_image sample_end))))"
  using spend_fences_unique[OF sample_end_reachable] sample_end_runs by simp

text \<open>
  C13. A deployment whose settled cost once exceeded its reserved bound stays suspended:
  afterwards no new dispatch claims a slot on it and no new reservation admits a request that
  names it; such calls raise, or return a receipt recorded before.
\<close>

theorem spend_overrun_suspends:
  assumes "spend_reachable budgets approved lease st" "spend_legal (Settle env se)"
    "spend_settle env se st = (Inr r, t)" "bound_exceeded r"
    "list_all spend_legal cs" "u = run_calls spend_step t cs"
  defines "model \<equiv> al_deployment_id (dr_allocation (se_dispatch se))"
  shows "(al_deployment_id a = model \<longrightarrow> spend_dispatch env' v a u = (Inr d, w) \<longrightarrow> w = u) \<and>
    (model \<in> al_deployment_id ` set (rq_allocations q) \<longrightarrow> spend_reserve env' q u = (Inr x, w) \<longrightarrow> w = u)"
proof (cases "ss_failed u")
  case True
  then have "spend_exec c u = (Inl (SpendControlError INVALID_STATE), u)" for c
    by (cases c) (simp_all add: reply_Inl_iff seq_def spend_reserve_def spend_is_current_def
        spend_dispatch_def spend_settle_def spend_close_def spend_budget_def spend_journal_def
        validated_image_def image_consistent_def Let_def)
  from this[of "Dispatch env' v a"] this[of "Reserve env' q"] show ?thesis by (auto simp: reply_Inl_iff)
next
  case False
  have inv: "spend_inv st" by (rule spend_reachable_inv[OF assms(1)])
  have ex: "spend_exec (Settle env se) st = (Inr (Settled r), t)" using assms(3) by (simp add: reply_Inr_iff)
  then have t: "spend_inv t"
    using spend.inv_step[OF inv assms(2)] by (simp add: spend_step_def del: spend_step_simps)
  with assms(5,6) have u: "spend_inv u" "spend_extends t u" using spend.run_inv spend.run_extends by auto
  then have nf: "\<not> ss_failed t" using False by (auto simp: spend_extends_def)
  from returned_recorded[OF inv ex] obtain e where e: "e \<in> set (im_executions (ss_image t))"
    "r \<in> set (ex_settlements e)" "sr_settlement r = se" by auto
  from settled_overrun_suspends[OF t nf e(1,2) assms(4)] e(3) u(2)
  have sus: "model \<in> im_suspended (ss_image u)" by (auto simp: model_def spend_extends_def)
  have so: "static_ok u" using u(1) by (simp add: spend_inv_def)
  have "w = u" if "al_deployment_id a = model" "spend_dispatch env' v a u = (Inr d, w)"
    using so that(2) by (cases rule: spend_dispatch_returns) (use that(1) sus in auto)
  moreover have "w = u" if "model \<in> al_deployment_id ` set (rq_allocations q)" "spend_reserve env' q u = (Inr x, w)"
    using suspended_reserve[OF so that(2)] that(1) sus by blast
  ultimately show ?thesis by blast
qed

theorem spend_overrun_suspends_witness:
  "bound_exceeded \<lparr>sr_settlement = sample_settlement, sr_settlement_fence = uuid_hex 3\<rparr> \<and>
   snd (spend_dispatch (sample_env 4) sample_owner (sample_slot ''model-a'' 0 1) sample_end) = sample_end"
proof -
  let ?s = "run_calls spend_step sample_start (take 2 sample_calls)"
  let ?r = "\<lparr>sr_settlement = sample_settlement, sr_settlement_fence = uuid_hex 3\<rparr>"
  have reach: "spend_reachable [sample_budget] [sample_request] (Fin 60) ?s"
    using sample_legal by (intro spend_reachable_run[OF sample_start_reachable]) (simp add: sample_calls_def)
  have "fst (spend_settle (sample_env 3) sample_settlement ?s) = Inr ?r" by code_simp
  then have ret: "spend_settle (sample_env 3) sample_settlement ?s = (Inr ?r, sample_end)"
    by (simp add: sample_end_def sample_calls_def prod_eq_iff)
  have over: "bound_exceeded ?r" by code_simp
  have legal: "spend_legal (Settle (sample_env 3) sample_settlement)" using sample_legal by (simp add: sample_calls_def)
  have model: "al_deployment_id (sample_slot ''model-a'' 0 1) =
      al_deployment_id (dr_allocation (se_dispatch sample_settlement))" by code_simp
  let ?again = "spend_dispatch (sample_env 4) sample_owner (sample_slot ''model-a'' 0 1) sample_end"
  have "fst ?again = Inr (se_dispatch sample_settlement)" by code_simp
  then have "?again = (Inr (se_dispatch sample_settlement), snd ?again)" by (simp add: prod_eq_iff)
  with spend_overrun_suspends[OF reach legal ret over, of "[]" sample_end "sample_slot ''model-a'' 0 1"]
  show ?thesis using over model by auto
qed

text \<open>
  History is append-only over any sequence of calls: no fence, suspension or
  latched failure is taken back, and the record of an execution keeps its request, owner and the
  receipts it has, gaining new ones only at the end and none once its journal is closed.
\<close>

theorem spend_history_append_only:
  assumes "spend_reachable budgets approved lease st" "list_all spend_legal cs"
    "p \<in> set (im_executions (ss_image st))"
  shows "let u = run_calls spend_step st cs in
    im_fences (ss_image st) \<subseteq> im_fences (ss_image u) \<and>
    im_suspended (ss_image st) \<subseteq> im_suspended (ss_image u) \<and> (ss_failed st \<longrightarrow> ss_failed u) \<and>
    (\<exists>q\<in>set (im_executions (ss_image u)). ex_request q = ex_request p \<and> ex_reservation q = ex_reservation p \<and>
       (\<exists>ds. ex_dispatches q = ex_dispatches p @ ds) \<and> (\<exists>ss. ex_settlements q = ex_settlements p @ ss) \<and>
       ((\<exists>j. ex_journal p = Some j \<and> jn_closed j) \<longrightarrow> q = p))"
proof -
  have "spend_extends st (run_calls spend_step st cs)"
    using spend_reachable_inv[OF assms(1)] assms(2) by (rule spend.run_extends)
  moreover from this obtain q where "q \<in> set (im_executions (ss_image (run_calls spend_step st cs)))" "record_extends p q"
    using assms(3) unfolding spend_extends_def by blast
  ultimately show ?thesis by (auto simp: spend_extends_def record_extends_def Let_def)
qed

theorem spend_history_append_only_witness:
  "uuid_hex 1 \<in> im_fences (ss_image sample_end)"
proof -
  let ?s = "run_calls spend_step sample_start (take 1 sample_calls)"
  have reach: "spend_reachable [sample_budget] [sample_request] (Fin 60) ?s"
    using sample_legal by (intro spend_reachable_run[OF sample_start_reachable]) (simp add: sample_calls_def)
  have final: "run_calls spend_step ?s (drop 1 sample_calls) = sample_end"
    by (simp add: sample_end_def sample_calls_def)
  have legal: "list_all spend_legal (drop 1 sample_calls)" using sample_legal by (simp add: sample_calls_def)
  have "uuid_hex 1 \<in> im_fences (ss_image ?s) \<and> im_executions (ss_image ?s) \<noteq> []" by code_simp
  then obtain p where "uuid_hex 1 \<in> im_fences (ss_image ?s)" "p \<in> set (im_executions (ss_image ?s))"
    by (metis list.set_intros(1) neq_Nil_conv)
  with spend_history_append_only[OF reach legal] show ?thesis unfolding Let_def final by blast
qed

end
