(* ===== verification/Credential_Memory.thy ===== *)
theory Credential_Memory
  imports PyFloat
begin

text \<open>
  Credential availability: the values of \<open>domain/credential_availability.py\<close> and the
  same-process reference adapter \<open>adapters/credential_availability_memory.py\<close>. The lock makes
  every method one step; a call's clock reading and UUID are arguments, \<open>None\<close> when the
  callback raised.
\<close>

subsection \<open>Values\<close>

datatype CredentialAvailabilityState =
  UNKNOWN | PENDING_VALIDATION | VALIDATING | AVAILABLE | QUARANTINED

datatype CredentialRejectionEvidence = AUTHENTICATION_BOUNDARY_REJECTED | EXPLICIT_INVALID_CREDENTIAL

record CredentialGeneration =
  cg_binding_id :: string
  cg_epoch :: int
  cg_material_id :: string
  cg_secret_version_id :: string
  cg_runtime_digest :: string
  cg_auth_scope_digest :: string

definition CredentialGeneration_ok :: "CredentialGeneration \<Rightarrow> bool" where
  "CredentialGeneration_ok g \<longleftrightarrow> opaque_id (cg_binding_id g) \<and> opaque_id (cg_material_id g) \<and>
     opaque_id (cg_secret_version_id g) \<and> 1 \<le> cg_epoch g \<and> cg_epoch g \<le> 2 ^ 63 - 1 \<and>
     digest_id (cg_runtime_digest g) \<and> digest_id (cg_auth_scope_digest g)"

record CredentialGenerationPublication =
  pb_generation :: CredentialGeneration
  pb_expected_generation :: "CredentialGeneration option"

definition CredentialGenerationPublication_ok :: "CredentialGenerationPublication \<Rightarrow> bool" where
  "CredentialGenerationPublication_ok p \<longleftrightarrow> (case pb_expected_generation p of
      None \<Rightarrow> True
    | Some e \<Rightarrow> cg_binding_id (pb_generation p) = cg_binding_id e \<and>
                cg_epoch e < cg_epoch (pb_generation p))"

record CredentialAvailabilitySnapshot =
  cv_binding_id :: string
  cv_state :: CredentialAvailabilityState
  cv_generation :: "CredentialGeneration option"

definition CredentialAvailabilitySnapshot_ok :: "CredentialAvailabilitySnapshot \<Rightarrow> bool" where
  "CredentialAvailabilitySnapshot_ok s \<longleftrightarrow> opaque_id (cv_binding_id s) \<and>
     (if cv_state s = UNKNOWN then cv_generation s = None
      else (case cv_generation s of None \<Rightarrow> False | Some g \<Rightarrow> cg_binding_id g = cv_binding_id s))"

definition is_candidate_eligible :: "CredentialAvailabilitySnapshot \<Rightarrow> CredentialGeneration \<Rightarrow> bool" where
  "is_candidate_eligible s g \<longleftrightarrow>
     cv_generation s = Some g \<and> cv_state s \<in> {PENDING_VALIDATION, AVAILABLE}"

record CredentialAdmission =
  ca_generation :: CredentialGeneration
  ca_attempt_id :: string
  ca_validation_fence :: "string option"
  ca_validation_timeout_seconds :: "pyfloat option"

definition CredentialAdmission_ok :: "CredentialAdmission \<Rightarrow> bool" where
  "CredentialAdmission_ok a \<longleftrightarrow> opaque_id (ca_attempt_id a) \<and>
     (ca_validation_fence a = None) = (ca_validation_timeout_seconds a = None) \<and>
     (case ca_validation_fence a of None \<Rightarrow> True | Some f \<Rightarrow> opaque_id f) \<and>
     (case ca_validation_timeout_seconds a of None \<Rightarrow> True | Some t \<Rightarrow> fin_pos t)"

abbreviation is_validation :: "CredentialAdmission \<Rightarrow> bool" where
  "is_validation a \<equiv> ca_validation_fence a \<noteq> None"

record CredentialCompletionReceipt =
  cr_generation :: CredentialGeneration
  cr_attempt_id :: string
  cr_validation_fence :: string
  cr_completion_fence :: string

definition CredentialCompletionReceipt_ok :: "CredentialCompletionReceipt \<Rightarrow> bool" where
  "CredentialCompletionReceipt_ok r \<longleftrightarrow> opaque_id (cr_attempt_id r) \<and>
     opaque_id (cr_validation_fence r) \<and> opaque_id (cr_completion_fence r)"

definition matches_admission :: "CredentialCompletionReceipt \<Rightarrow> CredentialAdmission \<Rightarrow> bool" where
  "matches_admission r a \<longleftrightarrow> is_validation a \<and> cr_generation r = ca_generation a \<and>
     cr_attempt_id r = ca_attempt_id a \<and> Some (cr_validation_fence r) = ca_validation_fence a"

record CredentialBindingRejection =
  rj_generation :: CredentialGeneration
  rj_evidence :: CredentialRejectionEvidence
  rj_classifier_id :: string

definition CredentialBindingRejection_ok :: "CredentialBindingRejection \<Rightarrow> bool" where
  "CredentialBindingRejection_ok j \<longleftrightarrow> opaque_id (rj_classifier_id j)"

subsection \<open>State\<close>

datatype CredentialAvailabilityErrorCode = UNAVAILABLE | INVALID_STATE

datatype credential_failure =
  CredentialContractError | CredentialAvailabilityError CredentialAvailabilityErrorCode

record ValidationOwner =
  ow_admission :: CredentialAdmission
  ow_expires_at :: pyfloat

record BindingRecord =
  br_generation :: CredentialGeneration
  br_publication :: CredentialGenerationPublication
  br_state :: CredentialAvailabilityState
  br_owner :: "ValidationOwner option"
  br_receipt :: "CredentialCompletionReceipt option"

record CredentialState =
  cs_lease_seconds :: pyfloat
  cs_last_now :: "pyfloat option"
  cs_records :: "string \<rightharpoonup> BindingRecord"
  cs_seen_bindings :: "string set"
  cs_published :: "CredentialGeneration set"
  cs_rejected :: "(string \<times> string) set"
  cs_used_fences :: "string set"

record credential_env =
  ce_clock :: "pyfloat option"
  ce_uuid :: "uuid option"

type_synonym 'a credential_method = "(CredentialState, credential_failure, 'a) pymethod"

definition credential_init :: "pyfloat \<Rightarrow> credential_failure + CredentialState" where
  "credential_init lease =
     (if \<not> ffinite lease \<or> fle lease fzero then Inl CredentialContractError
      else Inr \<lparr>cs_lease_seconds = lease, cs_last_now = None, cs_records = (\<lambda>_. None),
                cs_seen_bindings = {}, cs_published = {}, cs_rejected = {}, cs_used_fences = {}\<rparr>)"

definition credential_now :: "credential_env \<Rightarrow> pyfloat credential_method" where
  "credential_now env st = (case ce_clock env of
      None \<Rightarrow> (Inl (CredentialAvailabilityError UNAVAILABLE), st)
    | Some v \<Rightarrow>
        if \<not> ffinite v \<or> flt v fzero \<or>
           (case cs_last_now st of None \<Rightarrow> False | Some l \<Rightarrow> flt v l)
        then (Inl (CredentialAvailabilityError INVALID_STATE), st)
        else (Inr v, st\<lparr>cs_last_now := Some v\<rparr>))"

definition new_fence :: "credential_env \<Rightarrow> string credential_method" where
  "new_fence env st = (case ce_uuid env of
      None \<Rightarrow> (Inl (CredentialAvailabilityError UNAVAILABLE), st)
    | Some u \<Rightarrow>
        if uuid_hex u \<in> cs_used_fences st then (Inl (CredentialAvailabilityError INVALID_STATE), st)
        else (Inr (uuid_hex u), st\<lparr>cs_used_fences := insert (uuid_hex u) (cs_used_fences st)\<rparr>))"

text \<open>The consistency checks of \<open>_record\<close> on a record found under a binding.\<close>

definition record_valid :: "CredentialState \<Rightarrow> string \<Rightarrow> BindingRecord \<Rightarrow> bool" where
  "record_valid st b r \<longleftrightarrow>
     cg_binding_id (br_generation r) = b \<and> br_generation r \<in> cs_published st \<and>
     pb_generation (br_publication r) = br_generation r \<and> br_state r \<noteq> UNKNOWN \<and>
     ((b, cg_material_id (br_generation r)) \<in> cs_rejected st) = (br_state r = QUARANTINED) \<and>
     (if br_state r = VALIDATING
      then (case br_owner r of None \<Rightarrow> False
            | Some w \<Rightarrow> ca_generation (ow_admission w) = br_generation r \<and>
                (case ca_validation_fence (ow_admission w) of None \<Rightarrow> False
                 | Some f \<Rightarrow> f \<in> cs_used_fences st) \<and>
                ffinite (ow_expires_at w) \<and> \<not> fle (ow_expires_at w) fzero)
      else br_owner r = None) \<and>
     (if br_state r = AVAILABLE
      then (case br_receipt r of None \<Rightarrow> False
            | Some c \<Rightarrow> cr_generation c = br_generation r \<and>
                cr_validation_fence c \<in> cs_used_fences st \<and> cr_completion_fence c \<in> cs_used_fences st)
      else br_receipt r = None)"

definition credential_record :: "string \<Rightarrow> BindingRecord option credential_method" where
  "credential_record b st = (case cs_records st b of
      None \<Rightarrow> if b \<in> cs_seen_bindings st
              then (Inl (CredentialAvailabilityError INVALID_STATE), st) else (Inr None, st)
    | Some r \<Rightarrow> if record_valid st b r then (Inr (Some r), st)
                else (Inl (CredentialAvailabilityError INVALID_STATE), st))"

definition put_record :: "string \<Rightarrow> BindingRecord \<Rightarrow> unit credential_method" where
  "put_record b r st = (Inr (), st\<lparr>cs_records := (cs_records st)(b \<mapsto> r)\<rparr>)"

subsection \<open>Reader\<close>

definition live_owner :: "BindingRecord \<Rightarrow> pyfloat \<Rightarrow> ValidationOwner option" where
  "live_owner r now = (case br_owner r of None \<Rightarrow> None
     | Some w \<Rightarrow> if flt now (ow_expires_at w) then Some w else None)"

definition matches_owner :: "BindingRecord \<Rightarrow> CredentialAdmission \<Rightarrow> bool" where
  "matches_owner r a \<longleftrightarrow> (case br_owner r of None \<Rightarrow> False
     | Some w \<Rightarrow> is_validation a \<and> br_generation r = ca_generation a \<and>
         ca_attempt_id (ow_admission w) = ca_attempt_id a \<and>
         ca_validation_fence (ow_admission w) = ca_validation_fence a)"

definition owns :: "BindingRecord \<Rightarrow> CredentialAdmission \<Rightarrow> pyfloat \<Rightarrow> bool" where
  "owns r a now \<longleftrightarrow> live_owner r now \<noteq> None \<and> matches_owner r a"

definition contract :: "('a \<Rightarrow> bool) \<Rightarrow> 'a \<Rightarrow> credential_failure + 'a" where
  "contract ok v = (if ok v then Inr v else Inl CredentialContractError)"

definition credential_snapshot ::
  "credential_env \<Rightarrow> string \<Rightarrow> CredentialAvailabilitySnapshot credential_method" where
  "credential_snapshot env b =
     seq (lift_result (contract CredentialAvailabilitySnapshot_ok
            \<lparr>cv_binding_id = b, cv_state = UNKNOWN, cv_generation = None\<rparr>)) (\<lambda>unknown.
     seq (credential_now env) (\<lambda>now.
     seq (credential_record b) (\<lambda>rec.
     case rec of None \<Rightarrow> ret unknown
     | Some r \<Rightarrow>
         lift_result (contract CredentialAvailabilitySnapshot_ok
           \<lparr>cv_binding_id = b,
            cv_state = (if br_state r = VALIDATING \<and> live_owner r now = None
                        then PENDING_VALIDATION else br_state r),
            cv_generation = Some (br_generation r)\<rparr>))))"

subsection \<open>Worker\<close>

text \<open>Claiming the validation of a pending or expired record.\<close>

definition claim_validation ::
  "credential_env \<Rightarrow> CredentialGeneration \<Rightarrow> string \<Rightarrow> BindingRecord \<Rightarrow> pyfloat \<Rightarrow>
   CredentialAdmission option credential_method" where
  "claim_validation env g attempt r now =
     seq get_state (\<lambda>st.
     let deadline = fadd now (cs_lease_seconds st) in
     seq (require (ffinite deadline \<and> \<not> fle deadline now)
            (CredentialAvailabilityError INVALID_STATE)) (\<lambda>_.
     seq (new_fence env) (\<lambda>fence.
     seq (lift_result (contract CredentialAdmission_ok
            \<lparr>ca_generation = g, ca_attempt_id = attempt, ca_validation_fence = Some fence,
             ca_validation_timeout_seconds = Some (fsub deadline now)\<rparr>)) (\<lambda>a.
     seq (put_record (cg_binding_id g)
            (r\<lparr>br_state := VALIDATING,
               br_owner := Some \<lparr>ow_admission = a, ow_expires_at = deadline\<rparr>\<rparr>)) (\<lambda>_.
     ret (Some a))))))"

definition credential_admit ::
  "credential_env \<Rightarrow> CredentialGeneration \<Rightarrow> string \<Rightarrow> CredentialAdmission option credential_method" where
  "credential_admit env g attempt =
     seq (lift_result (contract CredentialAdmission_ok
            \<lparr>ca_generation = g, ca_attempt_id = attempt, ca_validation_fence = None,
             ca_validation_timeout_seconds = None\<rparr>)) (\<lambda>ordinary.
     seq (credential_now env) (\<lambda>now.
     seq (credential_record (cg_binding_id g)) (\<lambda>rec.
     case rec of None \<Rightarrow> ret None
     | Some r \<Rightarrow>
       if br_generation r \<noteq> g then ret None
       else if br_state r = AVAILABLE then ret (Some ordinary)
       else if br_state r = QUARANTINED then ret None
       else (case live_owner r now of
         Some w \<Rightarrow>
           if ca_attempt_id (ow_admission w) \<noteq> attempt then ret None
           else seq (lift_result (contract CredentialAdmission_ok
                  ((ow_admission w)\<lparr>ca_validation_timeout_seconds := Some (fsub (ow_expires_at w) now)\<rparr>)))
                (\<lambda>a. ret (Some a))
       | None \<Rightarrow> claim_validation env g attempt r now))))"

definition credential_is_admitted ::
  "credential_env \<Rightarrow> CredentialAdmission \<Rightarrow> bool credential_method" where
  "credential_is_admitted env a =
     seq (credential_now env) (\<lambda>now.
     seq (credential_record (cg_binding_id (ca_generation a))) (\<lambda>rec.
     case rec of None \<Rightarrow> ret False
     | Some r \<Rightarrow>
       if br_generation r \<noteq> ca_generation a then ret False
       else if \<not> is_validation a then ret (br_state r = AVAILABLE)
       else ret (owns r a now)))"

definition credential_release :: "CredentialAdmission \<Rightarrow> unit credential_method" where
  "credential_release a =
     seq (credential_record (cg_binding_id (ca_generation a))) (\<lambda>rec.
     case rec of None \<Rightarrow> ret ()
     | Some r \<Rightarrow>
       if matches_owner r a
       then put_record (cg_binding_id (ca_generation a))
              (r\<lparr>br_state := PENDING_VALIDATION, br_owner := None\<rparr>)
       else ret ())"

definition finish_validation ::
  "credential_env \<Rightarrow> CredentialAdmission \<Rightarrow> string \<Rightarrow> BindingRecord \<Rightarrow>
   CredentialCompletionReceipt option credential_method" where
  "finish_validation env a vf r =
     seq (new_fence env) (\<lambda>cf.
     seq (lift_result (contract CredentialCompletionReceipt_ok
            \<lparr>cr_generation = ca_generation a, cr_attempt_id = ca_attempt_id a,
             cr_validation_fence = vf, cr_completion_fence = cf\<rparr>)) (\<lambda>c.
     seq (put_record (cg_binding_id (ca_generation a))
            (r\<lparr>br_state := AVAILABLE, br_owner := None, br_receipt := Some c\<rparr>)) (\<lambda>_.
     ret (Some c))))"

definition credential_complete_validation ::
  "credential_env \<Rightarrow> CredentialAdmission \<Rightarrow> CredentialCompletionReceipt option credential_method" where
  "credential_complete_validation env a =
     seq (credential_now env) (\<lambda>now.
     seq (credential_record (cg_binding_id (ca_generation a))) (\<lambda>rec.
     case rec of None \<Rightarrow> ret None
     | Some r \<Rightarrow>
       if br_generation r \<noteq> ca_generation a then ret None
       else if (case br_receipt r of None \<Rightarrow> False | Some c \<Rightarrow> matches_admission c a)
       then ret (br_receipt r)
       else (case ca_validation_fence a of None \<Rightarrow> ret None
         | Some vf \<Rightarrow>
           if \<not> owns r a now then ret None else finish_validation env a vf r)))"

definition credential_is_completion_current ::
  "CredentialCompletionReceipt \<Rightarrow> bool credential_method" where
  "credential_is_completion_current c =
     seq (credential_record (cg_binding_id (cr_generation c))) (\<lambda>rec.
     case rec of None \<Rightarrow> ret False
     | Some r \<Rightarrow> ret (br_state r = AVAILABLE \<and> br_receipt r = Some c))"

definition credential_record_rejection :: "CredentialBindingRejection \<Rightarrow> unit credential_method" where
  "credential_record_rejection rj =
     (let g = rj_generation rj in
      seq (credential_record (cg_binding_id g)) (\<lambda>rec. seq get_state (\<lambda>st.
      case rec of None \<Rightarrow> raise (CredentialAvailabilityError INVALID_STATE)
      | Some r \<Rightarrow>
        if g \<notin> cs_published st then raise (CredentialAvailabilityError INVALID_STATE)
        else (\<lambda>st'. (if cg_material_id (br_generation r) = cg_material_id g
                     then put_record (cg_binding_id g)
                            (r\<lparr>br_state := QUARANTINED, br_owner := None, br_receipt := None\<rparr>)
                     else ret ())
               (st'\<lparr>cs_rejected := insert (cg_binding_id g, cg_material_id g) (cs_rejected st')\<rparr>)))))"

subsection \<open>Publisher\<close>

definition credential_publish :: "CredentialGenerationPublication \<Rightarrow> bool credential_method" where
  "credential_publish p =
     (let g = pb_generation p; b = cg_binding_id g in
      seq (credential_record b) (\<lambda>rec.
      if (case rec of None \<Rightarrow> False | Some r \<Rightarrow> br_publication r = p) then ret True
      else if map_option br_generation rec \<noteq> pb_expected_generation p then ret False
      else (\<lambda>st. (Inr True, st\<lparr>
             cs_records := (cs_records st)(b \<mapsto>
               \<lparr>br_generation = g, br_publication = p,
                br_state = (if (b, cg_material_id g) \<in> cs_rejected st then QUARANTINED
                            else PENDING_VALIDATION),
                br_owner = None, br_receipt = None\<rparr>),
             cs_seen_bindings := insert b (cs_seen_bindings st),
             cs_published := insert g (cs_published st)\<rparr>))))"

end
