(* ===== verification/Credential_Steps.thy ===== *)
theory Credential_Steps
  imports Credential_Memory
begin

text \<open>
  The adapter's methods as a step relation: every call performs a sequence of elementary
  updates, each of which keeps the invariant that \<open>_record\<close> checks and only adds history.
\<close>

subsection \<open>Calls\<close>

datatype credential_call =
    Snapshot credential_env string
  | Admit credential_env CredentialGeneration string
  | IsAdmitted credential_env CredentialAdmission
  | Release CredentialAdmission
  | CompleteValidation credential_env CredentialAdmission
  | IsCompletionCurrent CredentialCompletionReceipt
  | RecordRejection CredentialBindingRejection
  | Publish CredentialGenerationPublication

fun credential_step :: "credential_call \<Rightarrow> CredentialState \<Rightarrow> CredentialState" where
  "credential_step (Snapshot env b) st = snd (credential_snapshot env b st)"
| "credential_step (Admit env g attempt) st = snd (credential_admit env g attempt st)"
| "credential_step (IsAdmitted env a) st = snd (credential_is_admitted env a st)"
| "credential_step (Release a) st = snd (credential_release a st)"
| "credential_step (CompleteValidation env a) st = snd (credential_complete_validation env a st)"
| "credential_step (IsCompletionCurrent c) st = snd (credential_is_completion_current c st)"
| "credential_step (RecordRejection j) st = snd (credential_record_rejection j st)"
| "credential_step (Publish p) st = snd (credential_publish p st)"

text \<open>The publisher receives constructed publications.\<close>

fun credential_legal :: "credential_call \<Rightarrow> bool" where
  "credential_legal (Publish p) \<longleftrightarrow> CredentialGenerationPublication_ok p"
| "credential_legal _ \<longleftrightarrow> True"

subsection \<open>Elementary updates\<close>

inductive credential_update :: "CredentialState \<Rightarrow> CredentialState \<Rightarrow> bool" where
  tick: "ffinite v \<Longrightarrow> \<not> flt v fzero \<Longrightarrow> credential_update st (st\<lparr>cs_last_now := Some v\<rparr>)"
| burn: "f \<notin> cs_used_fences st \<Longrightarrow>
    credential_update st (st\<lparr>cs_used_fences := insert f (cs_used_fences st)\<rparr>)"
| claim: "cs_records st b = Some r \<Longrightarrow> br_state r \<in> {PENDING_VALIDATION, VALIDATING} \<Longrightarrow>
    f \<notin> cs_used_fences st \<Longrightarrow> ca_generation (ow_admission w) = br_generation r \<Longrightarrow>
    ca_validation_fence (ow_admission w) = Some f \<Longrightarrow> CredentialAdmission_ok (ow_admission w) \<Longrightarrow>
    fin_pos (ow_expires_at w) \<Longrightarrow>
    credential_update st (st\<lparr>cs_used_fences := insert f (cs_used_fences st),
      cs_records := (cs_records st)(b \<mapsto> r\<lparr>br_state := VALIDATING, br_owner := Some w\<rparr>)\<rparr>)"
| release: "cs_records st b = Some r \<Longrightarrow> br_owner r \<noteq> None \<Longrightarrow>
    credential_update st (st\<lparr>cs_records := (cs_records st)(b \<mapsto>
      r\<lparr>br_state := PENDING_VALIDATION, br_owner := None\<rparr>)\<rparr>)"
| complete: "cs_records st b = Some r \<Longrightarrow> br_owner r = Some w \<Longrightarrow> f \<notin> cs_used_fences st \<Longrightarrow>
    cr_generation c = br_generation r \<Longrightarrow>
    ca_validation_fence (ow_admission w) = Some (cr_validation_fence c) \<Longrightarrow> cr_completion_fence c = f \<Longrightarrow>
    credential_update st (st\<lparr>cs_used_fences := insert f (cs_used_fences st),
      cs_records := (cs_records st)(b \<mapsto>
        r\<lparr>br_state := AVAILABLE, br_owner := None, br_receipt := Some c\<rparr>)\<rparr>)"
| reject: "cs_records st b = Some r \<Longrightarrow>
    credential_update st (st\<lparr>cs_rejected := insert (b, m) (cs_rejected st),
      cs_records := (if cg_material_id (br_generation r) = m
        then (cs_records st)(b \<mapsto> r\<lparr>br_state := QUARANTINED, br_owner := None, br_receipt := None\<rparr>)
        else cs_records st)\<rparr>)"
| publish: "CredentialGenerationPublication_ok p \<Longrightarrow> b = cg_binding_id (pb_generation p) \<Longrightarrow>
    map_option br_generation (cs_records st b) = pb_expected_generation p \<Longrightarrow>
    credential_update st (st\<lparr>
      cs_records := (cs_records st)(b \<mapsto>
        \<lparr>br_generation = pb_generation p, br_publication = p,
         br_state = (if (b, cg_material_id (pb_generation p)) \<in> cs_rejected st then QUARANTINED
                     else PENDING_VALIDATION),
         br_owner = None, br_receipt = None\<rparr>),
      cs_seen_bindings := insert b (cs_seen_bindings st),
      cs_published := insert (pb_generation p) (cs_published st)\<rparr>)"

subsection \<open>Invariant\<close>

definition credential_inv :: "CredentialState \<Rightarrow> bool" where
  "credential_inv st \<longleftrightarrow> fin_pos (cs_lease_seconds st) \<and>
     (\<forall>n. cs_last_now st = Some n \<longrightarrow> ffinite n \<and> \<not> flt n fzero) \<and>
     cs_seen_bindings st = dom (cs_records st) \<and>
     (\<forall>b r. cs_records st b = Some r \<longrightarrow> record_valid st b r \<and>
        (\<forall>w. br_owner r = Some w \<longrightarrow> CredentialAdmission_ok (ow_admission w)))"

lemma fin_pos_positive: "fin_pos x \<Longrightarrow> ffinite x \<and> \<not> fle x fzero"
  by (auto simp: fin_pos_iff)

lemma record_valid_mono:
  assumes "record_valid st b r" "cs_published st \<subseteq> cs_published t" "cs_used_fences st \<subseteq> cs_used_fences t"
    "((b, cg_material_id (br_generation r)) \<in> cs_rejected t) = ((b, cg_material_id (br_generation r)) \<in> cs_rejected st)"
  shows "record_valid t b r"
  using assms unfolding record_valid_def by (auto split: option.splits if_splits)

lemma credential_inv_record: "credential_inv st \<Longrightarrow> cs_records st b = Some r \<Longrightarrow> record_valid st b r"
  by (simp add: credential_inv_def)

lemma record_valid_cong:
  assumes "cs_published t = cs_published st" "cs_used_fences t = cs_used_fences st" "cs_rejected t = cs_rejected st"
  shows "record_valid t b r = record_valid st b r"
  using assms unfolding record_valid_def by presburger

lemma credential_update_inv:
  assumes "credential_update st t" "credential_inv st"
  shows "credential_inv t"
  using assms
proof (induction rule: credential_update.induct)
  case (tick v st)
  have "record_valid (st\<lparr>cs_last_now := Some v\<rparr>) b r = record_valid st b r" for b r
    by (rule record_valid_cong) simp_all
  with tick show ?case by (auto simp: credential_inv_def)
next
  case (burn f st)
  have "record_valid (st\<lparr>cs_used_fences := insert f (cs_used_fences st)\<rparr>) b r"
    if "record_valid st b r" for b r
    using that by (rule record_valid_mono) auto
  with burn show ?case by (auto simp: credential_inv_def)
next
  case (claim st b r f w)
  let ?t = "st\<lparr>cs_used_fences := insert f (cs_used_fences st),
      cs_records := (cs_records st)(b \<mapsto> r\<lparr>br_state := VALIDATING, br_owner := Some w\<rparr>)\<rparr>"
  have v: "record_valid st b r" using claim by (auto simp: credential_inv_def)
  have "record_valid ?t b (r\<lparr>br_state := VALIDATING, br_owner := Some w\<rparr>)"
    using v claim(2,4,5) fin_pos_positive[OF claim(7)] by (auto simp: record_valid_def split: if_splits)
  moreover have "record_valid ?t b' r'" if "cs_records st b' = Some r'" for b' r'
    using credential_inv_record[OF claim(8) that] by (rule record_valid_mono) auto
  ultimately show ?case using claim(1,6,8) by (auto simp: credential_inv_def)
next
  case (release st b r)
  then have v: "record_valid st b r" by (auto simp: credential_inv_def)
  with release(2) have "br_state r = VALIDATING" by (auto simp: record_valid_def split: if_splits)
  with v have "record_valid (st\<lparr>cs_records := (cs_records st)(b \<mapsto>
      r\<lparr>br_state := PENDING_VALIDATION, br_owner := None\<rparr>)\<rparr>) b (r\<lparr>br_state := PENDING_VALIDATION, br_owner := None\<rparr>)"
    by (auto simp: record_valid_def)
  moreover have "record_valid (st\<lparr>cs_records := x\<rparr>) b' r' = record_valid st b' r'" for x b' r'
    by (rule record_valid_cong) simp_all
  ultimately show ?case using release(1,3) by (auto simp: credential_inv_def)
next
  case (complete st b r w f c)
  let ?r = "r\<lparr>br_state := AVAILABLE, br_owner := None, br_receipt := Some c\<rparr>"
  let ?t = "st\<lparr>cs_used_fences := insert f (cs_used_fences st), cs_records := (cs_records st)(b \<mapsto> ?r)\<rparr>"
  from complete have v: "record_valid st b r" by (auto simp: credential_inv_def)
  with complete(2) have "br_state r = VALIDATING" by (auto simp: record_valid_def split: if_splits)
  with v complete(2,4,5,6) have "record_valid ?t b ?r" by (auto simp: record_valid_def)
  moreover have "record_valid ?t b' r'" if "cs_records st b' = Some r'" for b' r'
    using credential_inv_record[OF complete(7) that] by (rule record_valid_mono) auto
  ultimately show ?case using complete(1,7) by (auto simp: credential_inv_def)
next
  case (reject st b r m)
  let ?r = "r\<lparr>br_state := QUARANTINED, br_owner := None, br_receipt := None\<rparr>"
  let ?t = "st\<lparr>cs_rejected := insert (b, m) (cs_rejected st),
      cs_records := (if cg_material_id (br_generation r) = m then (cs_records st)(b \<mapsto> ?r) else cs_records st)\<rparr>"
  from reject have v: "record_valid st b r" by (auto simp: credential_inv_def)
  have "record_valid ?t b' r'" if "cs_records ?t b' = Some r'" for b' r'
  proof (cases "b' = b \<and> cg_material_id (br_generation r) = m")
    case True
    with that v show ?thesis by (auto simp: record_valid_def)
  next
    case False
    with that reject(1) have old: "cs_records st b' = Some r'" by (auto split: if_splits)
    then have "record_valid st b' r'" using reject(2) by (auto simp: credential_inv_def)
    with False old reject(1) show ?thesis by (elim record_valid_mono) auto
  qed
  moreover have "CredentialAdmission_ok (ow_admission w)" if "cs_records ?t b' = Some r'" "br_owner r' = Some w" for b' r' w
    using that reject by (auto simp: credential_inv_def split: if_splits)
  ultimately show ?case using reject unfolding credential_inv_def by auto
next
  case (publish p b st)
  let ?r = "\<lparr>br_generation = pb_generation p, br_publication = p,
         br_state = (if (b, cg_material_id (pb_generation p)) \<in> cs_rejected st then QUARANTINED
                     else PENDING_VALIDATION), br_owner = None, br_receipt = None\<rparr>"
  let ?t = "st\<lparr>cs_records := (cs_records st)(b \<mapsto> ?r), cs_seen_bindings := insert b (cs_seen_bindings st),
      cs_published := insert (pb_generation p) (cs_published st)\<rparr>"
  have "record_valid ?t b ?r" using publish(2) by (auto simp: record_valid_def)
  moreover have "record_valid ?t b' r'" if "cs_records st b' = Some r'" for b' r'
    using credential_inv_record[OF publish(4) that] by (rule record_valid_mono) auto
  ultimately show ?case using publish(4) by (auto simp: credential_inv_def)
qed


subsection \<open>History\<close>

definition owner_of :: "CredentialState \<Rightarrow> string \<Rightarrow> ValidationOwner option" where
  "owner_of st b = Option.bind (cs_records st b) br_owner"

text \<open>
  A later state: rejections, publications and fences are kept, a binding's active generation is
  the same or has a larger epoch, and an owner whose fence was already used is that same owner.
\<close>

definition credential_extends :: "CredentialState \<Rightarrow> CredentialState \<Rightarrow> bool" where
  "credential_extends s t \<longleftrightarrow> cs_rejected s \<subseteq> cs_rejected t \<and> cs_published s \<subseteq> cs_published t \<and>
     cs_used_fences s \<subseteq> cs_used_fences t \<and>
     (\<forall>b r. cs_records s b = Some r \<longrightarrow> (\<exists>r'. cs_records t b = Some r' \<and>
        (br_generation r' = br_generation r \<or>
         cg_epoch (br_generation r) < cg_epoch (br_generation r')))) \<and>
     (\<forall>b w f. owner_of t b = Some w \<longrightarrow> ca_validation_fence (ow_admission w) = Some f \<longrightarrow>
        f \<in> cs_used_fences s \<longrightarrow> owner_of s b = Some w)"

lemma credential_extends_refl [simp]: "credential_extends s s"
  by (auto simp: credential_extends_def)

lemma credential_extends_trans:
  assumes "credential_extends r s" "credential_extends s t"
  shows "credential_extends r t"
proof -
  have "\<exists>x''. cs_records t b = Some x'' \<and> (br_generation x'' = br_generation x \<or>
      cg_epoch (br_generation x) < cg_epoch (br_generation x''))" if "cs_records r b = Some x" for b x
  proof -
    from assms(1) that obtain x' where "cs_records s b = Some x'"
      "br_generation x' = br_generation x \<or> cg_epoch (br_generation x) < cg_epoch (br_generation x')"
      unfolding credential_extends_def by blast
    moreover from this(1) assms(2) obtain x'' where "cs_records t b = Some x''"
      "br_generation x'' = br_generation x' \<or> cg_epoch (br_generation x') < cg_epoch (br_generation x'')"
      unfolding credential_extends_def by blast
    ultimately show ?thesis by (metis less_trans)
  qed
  moreover have "owner_of r b = Some w"
    if "owner_of t b = Some w" "ca_validation_fence (ow_admission w) = Some f" "f \<in> cs_used_fences r" for b w f
    using assms that unfolding credential_extends_def by (meson in_mono)
  ultimately show ?thesis using assms unfolding credential_extends_def by blast
qed

lemma credential_update_extends: "credential_update st t \<Longrightarrow> credential_extends st t"
proof (induction rule: credential_update.induct)
  case (publish p b st)
  then show ?case
    by (auto simp: credential_extends_def owner_of_def CredentialGenerationPublication_ok_def
        split: option.splits if_splits)
qed (auto simp: credential_extends_def owner_of_def split: if_splits)

lemma credential_updates:
  assumes "credential_update\<^sup>*\<^sup>* st t" "credential_inv st"
  shows "credential_inv t \<and> credential_extends st t"
  using assms(1)
proof (induction rule: rtranclp_induct)
  case (step t u)
  then show ?case
    using credential_update_inv credential_update_extends credential_extends_trans by blast
qed (simp add: assms(2))

subsection \<open>Methods perform updates\<close>

text \<open>A method whose effect is a sequence of updates.\<close>

definition updates :: "'a credential_method \<Rightarrow> bool" where
  "updates m \<longleftrightarrow> (\<forall>st. credential_update\<^sup>*\<^sup>* st (snd (m st)))"

lemma updates_prims [simp, intro]:
  "updates (ret x)" "updates (raise e)" "updates get_state" "updates (lift_result r)"
  "updates (require c e)" "updates (credential_record b)" "updates (Pair v)"
  by (simp_all add: updates_def get_state_def require_def credential_record_def split: option.splits)

lemma from_seq:
  assumes "credential_update\<^sup>*\<^sup>* st (snd (m st))"
    "\<And>x t. m st = (Inr x, t) \<Longrightarrow> credential_update\<^sup>*\<^sup>* t (snd (f x t))"
  shows "credential_update\<^sup>*\<^sup>* st (snd (seq m f st))"
proof (cases rule: seq_cases[of m st f])
  case (raised e s')
  with assms(1) show ?thesis by simp
next
  case (continued x s')
  with assms(1) assms(2)[OF continued(1)] show ?thesis by simp
qed

lemma updatesD: "updates m \<Longrightarrow> credential_update\<^sup>*\<^sup>* st (snd (m st))"
  by (simp add: updates_def)

lemma updates_seq:
  assumes "updates m" "\<And>st x t. m st = (Inr x, t) \<Longrightarrow> credential_update\<^sup>*\<^sup>* t (snd (f x t))"
  shows "updates (seq m f)"
  unfolding updates_def by (intro allI from_seq updatesD assms) auto

lemma credential_now_updates: "updates (credential_now env)"
  by (auto simp: updates_def credential_now_def split: option.splits intro: tick)

lemma credential_record_Inr:
  "credential_record b st = (Inr x, t) \<longleftrightarrow> t = st \<and> x = cs_records st b \<and>
     (case x of None \<Rightarrow> b \<notin> cs_seen_bindings st | Some r \<Rightarrow> record_valid st b r)"
  by (auto simp: credential_record_def split: option.splits if_splits)

lemma contract_Inr [simp]: "contract ok v = Inr w \<longleftrightarrow> ok v \<and> w = v"
  by (auto simp: contract_def)

lemma contract_cases: "contract ok v = (if ok v then Inr v else Inl CredentialContractError)"
  by (simp add: contract_def)


lemma fence_then:
  assumes "\<And>f t. f \<notin> cs_used_fences st \<Longrightarrow> t = st\<lparr>cs_used_fences := insert f (cs_used_fences st)\<rparr> \<Longrightarrow>
    opaque_id f \<Longrightarrow> credential_update\<^sup>*\<^sup>* st (snd (k f t))"
  shows "credential_update\<^sup>*\<^sup>* st (snd (seq (new_fence env) k st))"
proof (cases rule: seq_cases[of "new_fence env" st k])
  case (raised e s')
  then show ?thesis by (auto simp: new_fence_def split: option.splits if_splits)
next
  case (continued f t)
  with assms[of f t] show ?thesis by (auto simp: new_fence_def split: option.splits if_splits)
qed

lemma credential_snapshot_updates: "updates (credential_snapshot env b)"
  unfolding credential_snapshot_def
  by (intro updates_seq updates_prims credential_now_updates)
     (auto split: option.splits intro!: updatesD updates_seq credential_now_updates)

lemma credential_is_admitted_updates: "updates (credential_is_admitted env a)"
  unfolding credential_is_admitted_def
  by (intro updates_seq updates_prims credential_now_updates)
     (auto split: option.splits intro!: updatesD updates_seq)

lemma credential_is_completion_current_updates: "updates (credential_is_completion_current c)"
  unfolding credential_is_completion_current_def
  by (intro updates_seq updates_prims) (auto split: option.splits)

lemma credential_release_updates: "updates (credential_release a)"
  unfolding credential_release_def
proof (intro updates_seq updates_prims)
  fix st x t
  assume "credential_record (cg_binding_id (ca_generation a)) st = (Inr x, t)"
  then show "credential_update\<^sup>*\<^sup>* t (snd ((case x of None \<Rightarrow> ret () | Some r \<Rightarrow>
      if matches_owner r a then put_record (cg_binding_id (ca_generation a))
        (r\<lparr>br_state := PENDING_VALIDATION, br_owner := None\<rparr>) else ret ()) t))"
    by (auto simp: credential_record_Inr put_record_def matches_owner_def
        split: option.splits intro!: release)
qed

lemma credential_record_rejection_updates: "updates (credential_record_rejection j)"
  unfolding credential_record_rejection_def Let_def
proof (intro updates_seq updates_prims)
  fix st x t
  let ?g = "rj_generation j"
  assume rec: "credential_record (cg_binding_id ?g) st = (Inr x, t)"
  show "credential_update\<^sup>*\<^sup>* t (snd (seq get_state (\<lambda>st. case x of
      None \<Rightarrow> raise (CredentialAvailabilityError INVALID_STATE)
    | Some r \<Rightarrow> if ?g \<notin> cs_published st then raise (CredentialAvailabilityError INVALID_STATE)
        else (\<lambda>st'. (if cg_material_id (br_generation r) = cg_material_id ?g
                     then put_record (cg_binding_id ?g)
                            (r\<lparr>br_state := QUARANTINED, br_owner := None, br_receipt := None\<rparr>)
                     else ret ())
               (st'\<lparr>cs_rejected := insert (cg_binding_id ?g, cg_material_id ?g) (cs_rejected st')\<rparr>))) t))"
  proof (cases x)
    case (Some r)
    with rec have "cs_records t (cg_binding_id ?g) = Some r" by (simp add: credential_record_Inr)
    from reject[OF this, of "cg_material_id ?g"] Some show ?thesis
      by (auto simp: put_record_def)
  qed simp
qed

lemma credential_publish_updates:
  assumes "CredentialGenerationPublication_ok p"
  shows "updates (credential_publish p)"
  unfolding credential_publish_def Let_def
proof (intro updates_seq updates_prims)
  fix st x t
  let ?g = "pb_generation p" and ?b = "cg_binding_id (pb_generation p)"
  assume rec: "credential_record ?b st = (Inr x, t)"
  then have x: "x = cs_records t ?b" by (simp add: credential_record_Inr)
  show "credential_update\<^sup>*\<^sup>* t (snd ((if (case x of None \<Rightarrow> False | Some r \<Rightarrow> br_publication r = p) then ret True
      else if map_option br_generation x \<noteq> pb_expected_generation p then ret False
      else (\<lambda>st. (Inr True, st\<lparr>
             cs_records := (cs_records st)(?b \<mapsto>
               \<lparr>br_generation = ?g, br_publication = p,
                br_state = (if (?b, cg_material_id ?g) \<in> cs_rejected st then QUARANTINED
                            else PENDING_VALIDATION),
                br_owner = None, br_receipt = None\<rparr>),
             cs_seen_bindings := insert ?b (cs_seen_bindings st),
             cs_published := insert ?g (cs_published st)\<rparr>))) t))"
    using publish[OF assms refl, of t] x by auto
qed


lemma credential_now_Inr:
  "credential_now env st = (Inr v, t) \<longleftrightarrow> ce_clock env = Some v \<and> ffinite v \<and> \<not> flt v fzero \<and>
     (\<forall>l. cs_last_now st = Some l \<longrightarrow> \<not> flt v l) \<and> t = st\<lparr>cs_last_now := Some v\<rparr>"
  by (auto simp: credential_now_def split: option.splits if_splits)

lemma deadline_positive:
  "ffinite now \<Longrightarrow> \<not> flt now fzero \<Longrightarrow> ffinite d \<Longrightarrow> \<not> fle d now \<Longrightarrow> fin_pos d"
  by (cases now; cases d) (auto simp: fin_pos_iff)

lemma claim_validation_updates:
  assumes "cs_records st (cg_binding_id g) = Some r" "br_generation r = g"
    "br_state r \<in> {PENDING_VALIDATION, VALIDATING}" "ffinite now" "\<not> flt now fzero"
  shows "credential_update\<^sup>*\<^sup>* st (snd (claim_validation env g attempt r now st))"
proof -
  define d where "d = fadd now (cs_lease_seconds st)"
  show ?thesis
  proof (cases "ffinite d \<and> \<not> fle d now")
    case True
    then have d: "fin_pos d" using assms(4,5) deadline_positive by blast
    have "credential_update\<^sup>*\<^sup>* st (snd (seq (new_fence env) (\<lambda>fence.
        seq (lift_result (contract CredentialAdmission_ok
            \<lparr>ca_generation = g, ca_attempt_id = attempt, ca_validation_fence = Some fence,
             ca_validation_timeout_seconds = Some (fsub d now)\<rparr>)) (\<lambda>a.
        seq (put_record (cg_binding_id g) (r\<lparr>br_state := VALIDATING,
               br_owner := Some \<lparr>ow_admission = a, ow_expires_at = d\<rparr>\<rparr>)) (\<lambda>_. ret (Some a)))) st))"
    proof (rule fence_then)
      fix f t
      let ?a = "\<lparr>ca_generation = g, ca_attempt_id = attempt, ca_validation_fence = Some f,
             ca_validation_timeout_seconds = Some (fsub d now)\<rparr>"
      assume f: "f \<notin> cs_used_fences st" "t = st\<lparr>cs_used_fences := insert f (cs_used_fences st)\<rparr>"
      show "credential_update\<^sup>*\<^sup>* st (snd (seq (lift_result (contract CredentialAdmission_ok ?a)) (\<lambda>a.
          seq (put_record (cg_binding_id g) (r\<lparr>br_state := VALIDATING,
               br_owner := Some \<lparr>ow_admission = a, ow_expires_at = d\<rparr>\<rparr>)) (\<lambda>_. ret (Some a))) t))"
      proof (cases "CredentialAdmission_ok ?a")
        case True
        with claim[OF assms(1,3) f(1), of "\<lparr>ow_admission = ?a, ow_expires_at = d\<rparr>"] f(2) d assms(2)
        show ?thesis by (simp add: contract_cases put_record_def seq_def)
      next
        case False
        with burn[OF f(1)] f(2) show ?thesis by (simp add: contract_cases)
      qed
    qed
    with True show ?thesis by (simp add: claim_validation_def d_def Let_def seq_require)
  qed (auto simp: claim_validation_def d_def Let_def seq_require)
qed

lemma credential_admit_updates: "updates (credential_admit env g attempt)"
  unfolding updates_def credential_admit_def
proof (intro allI, rule from_seq, simp, rule from_seq, rule updatesD[OF credential_now_updates],
    rule from_seq, rule updatesD[OF updates_prims(6)])
  fix st ordinary t0 now t1 rec t
  assume now: "credential_now env t0 = (Inr now, t1)"
    and rec: "credential_record (cg_binding_id g) t1 = (Inr rec, t)"
  show "credential_update\<^sup>*\<^sup>* t (snd ((case rec of None \<Rightarrow> ret None
     | Some r \<Rightarrow>
       if br_generation r \<noteq> g then ret None
       else if br_state r = AVAILABLE then ret (Some ordinary)
       else if br_state r = QUARANTINED then ret None
       else (case live_owner r now of
         None \<Rightarrow> claim_validation env g attempt r now
       | Some w \<Rightarrow>
           if ca_attempt_id (ow_admission w) \<noteq> attempt then ret None
           else seq (lift_result (contract CredentialAdmission_ok
                  ((ow_admission w)\<lparr>ca_validation_timeout_seconds := Some (fsub (ow_expires_at w) now)\<rparr>)))
                (\<lambda>a. ret (Some a)))) t))"
  proof (cases rec)
    case (Some r)
    with rec have r: "cs_records t (cg_binding_id g) = Some r" "br_state r \<noteq> UNKNOWN"
      by (auto simp: credential_record_Inr record_valid_def)
    then have "br_state r \<in> {PENDING_VALIDATION, VALIDATING}"
      if "br_state r \<noteq> AVAILABLE" "br_state r \<noteq> QUARANTINED"
      using that by (cases "br_state r") auto
    with now Some r(1) show ?thesis
      by (auto simp: credential_now_Inr contract_cases split: option.splits intro!: claim_validation_updates)
  qed simp
qed

lemma finish_validation_updates:
  assumes "cs_records st (cg_binding_id (ca_generation a)) = Some r" "br_generation r = ca_generation a"
    "br_owner r = Some w" "ca_validation_fence (ow_admission w) = Some vf"
  shows "credential_update\<^sup>*\<^sup>* st (snd (finish_validation env a vf r st))"
  unfolding finish_validation_def
proof (rule fence_then)
  fix f t
  let ?c = "\<lparr>cr_generation = ca_generation a, cr_attempt_id = ca_attempt_id a,
             cr_validation_fence = vf, cr_completion_fence = f\<rparr>"
  assume f: "f \<notin> cs_used_fences st" "t = st\<lparr>cs_used_fences := insert f (cs_used_fences st)\<rparr>"
  show "credential_update\<^sup>*\<^sup>* st (snd (seq (lift_result (contract CredentialCompletionReceipt_ok ?c)) (\<lambda>c.
     seq (put_record (cg_binding_id (ca_generation a))
            (r\<lparr>br_state := AVAILABLE, br_owner := None, br_receipt := Some c\<rparr>)) (\<lambda>_. ret (Some c))) t))"
  proof (cases "CredentialCompletionReceipt_ok ?c")
    case True
    with complete[OF assms(1,3) f(1), of ?c] f(2) assms(2,4)
    show ?thesis by (simp add: contract_cases put_record_def seq_def)
  next
    case False
    with burn[OF f(1)] f(2) show ?thesis by (simp add: contract_cases)
  qed
qed

lemma credential_complete_updates: "updates (credential_complete_validation env a)"
  unfolding updates_def credential_complete_validation_def
  by (intro allI from_seq updatesD[OF updates_prims(4)] updatesD[OF credential_now_updates]
        updatesD[OF updates_prims(6)])
     (auto simp: credential_record_Inr owns_def matches_owner_def
        split: option.splits intro!: finish_validation_updates)

lemma credential_step_updates:
  "credential_legal c \<Longrightarrow> credential_update\<^sup>*\<^sup>* st (credential_step c st)"
  by (cases c)
     (simp_all add: updatesD credential_snapshot_updates credential_admit_updates
        credential_is_admitted_updates credential_release_updates credential_complete_updates
        credential_is_completion_current_updates credential_record_rejection_updates
        credential_publish_updates)

interpretation credential: history_machine credential_step credential_legal credential_inv credential_extends
proof
  show "credential_inv s \<Longrightarrow> credential_legal c \<Longrightarrow> credential_inv (credential_step c s)" for s c
    using credential_updates[OF credential_step_updates] by blast
  show "credential_extends s s" for s by simp
  show "credential_extends r s \<Longrightarrow> credential_extends s t \<Longrightarrow> credential_extends r t" for r s t
    by (rule credential_extends_trans)
  show "credential_inv s \<Longrightarrow> credential_legal c \<Longrightarrow> credential_extends s (credential_step c s)" for s c
    using credential_updates[OF credential_step_updates] by blast
qed

lemma credential_init_inv: "credential_init lease = Inr st \<Longrightarrow> credential_inv st"
  by (cases lease) (auto simp: credential_init_def credential_inv_def fin_pos_iff split: if_splits)

end
