(* ===== verification/Credential_Properties.thy ===== *)
theory Credential_Properties
  imports Credential_Steps
begin

text \<open>
  Reachable states of the credential-availability adapter, a concrete rotation on which its
  methods are evaluated, and its properties.
\<close>

inductive credential_reachable :: "pyfloat \<Rightarrow> CredentialState \<Rightarrow> bool" for lease where
  start: "credential_init lease = Inr st \<Longrightarrow> credential_reachable lease st"
| call: "credential_reachable lease st \<Longrightarrow> credential_legal c \<Longrightarrow>
    credential_reachable lease (credential_step c st)"

lemma credential_reachable_inv: "credential_reachable lease st \<Longrightarrow> credential_inv st"
  by (induction rule: credential_reachable.induct) (auto intro: credential_init_inv credential.inv_step)

lemma credential_reachable_run:
  "credential_reachable lease st \<Longrightarrow> list_all credential_legal cs \<Longrightarrow>
   credential_reachable lease (run_calls credential_step st cs)"
  by (induction cs arbitrary: st) (auto intro: credential_reachable.call)

lemma credential_record_passes:
  assumes "credential_inv st"
  shows "credential_record b st = (Inr (cs_records st b), st)"
  using assms
  by (auto simp: credential_record_def credential_inv_def split: option.splits)

subsection \<open>Rejected material\<close>

lemma record_valid_rejected:
  "record_valid st b r \<Longrightarrow> (b, cg_material_id (br_generation r)) \<in> cs_rejected st \<Longrightarrow>
   br_state r = QUARANTINED \<and> br_owner r = None \<and> br_receipt r = None"
  by (auto simp: record_valid_def)

lemma record_valid_publication: "record_valid st b r \<Longrightarrow> pb_generation (br_publication r) = br_generation r"
  by (simp add: record_valid_def)

lemma tick_inv:
  "credential_inv st \<Longrightarrow> credential_now env st = (Inr v, t) \<Longrightarrow>
   credential_inv t \<and> cs_records t = cs_records st \<and> cs_rejected t = cs_rejected st"
  using credential_update_inv[OF tick] by (auto simp: credential_now_Inr)

lemma rejected_denied:
  assumes rej: "(cg_binding_id g, cg_material_id g) \<in> cs_rejected st"
  shows "credential_admit env g attempt st = (Inr x, t) \<Longrightarrow> x = None"
    and "ca_generation a = g \<Longrightarrow> credential_is_admitted env a st = (Inr y, t) \<Longrightarrow> \<not> y"
    and "ca_generation a = g \<Longrightarrow> credential_complete_validation env a st = (Inr z, t) \<Longrightarrow> z = None"
    and "credential_snapshot env (cg_binding_id g) st = (Inr s, t) \<Longrightarrow> \<not> is_candidate_eligible s g"
proof -
  show "x = None" if "credential_admit env g attempt st = (Inr x, t)"
    using that rej unfolding credential_admit_def
    by (auto simp: credential_record_Inr credential_now_Inr
        elim!: seq_InrE split: option.splits if_splits dest!: record_valid_rejected)
  show "\<not> y" if "ca_generation a = g" "credential_is_admitted env a st = (Inr y, t)"
    using that rej unfolding credential_is_admitted_def
    by (auto simp: credential_record_Inr credential_now_Inr owns_def matches_owner_def
        elim!: seq_InrE split: option.splits if_splits dest!: record_valid_rejected)
  show "z = None" if "ca_generation a = g" "credential_complete_validation env a st = (Inr z, t)"
    using that rej unfolding credential_complete_validation_def
    by (auto simp: credential_record_Inr credential_now_Inr owns_def matches_owner_def
        elim!: seq_InrE split: option.splits if_splits dest!: record_valid_rejected)
  show "\<not> is_candidate_eligible s g" if "credential_snapshot env (cg_binding_id g) st = (Inr s, t)"
    using that rej unfolding credential_snapshot_def
    by (auto simp: credential_record_Inr credential_now_Inr is_candidate_eligible_def
        elim!: seq_InrE split: option.splits if_splits dest!: record_valid_rejected)
qed

subsection \<open>Retired fences\<close>

definition owns_binding :: "CredentialState \<Rightarrow> CredentialAdmission \<Rightarrow> bool" where
  "owns_binding st a \<longleftrightarrow> (case cs_records st (cg_binding_id (ca_generation a)) of
     None \<Rightarrow> False | Some r \<Rightarrow> matches_owner r a)"

lemma is_admitted_owns:
  assumes "credential_inv st" "is_validation a" "credential_is_admitted env a st = (Inr True, t)"
  shows "owns_binding st a"
  using assms(2,3) tick_inv[OF assms(1)] unfolding credential_is_admitted_def owns_binding_def
  by (auto simp: credential_record_Inr owns_def elim!: seq_InrE split: option.splits if_splits)

lemma owns_binding_back:
  assumes "credential_extends s t" "credential_inv s" "credential_inv t"
    "ca_validation_fence a = Some f" "f \<in> cs_used_fences s" "owns_binding t a"
  shows "owns_binding s a"
proof -
  let ?b = "cg_binding_id (ca_generation a)"
  from assms(4,6) obtain r w where r: "cs_records t ?b = Some r" "br_owner r = Some w"
    "br_generation r = ca_generation a" "ca_attempt_id (ow_admission w) = ca_attempt_id a"
    "ca_validation_fence (ow_admission w) = Some f"
    by (auto simp: owns_binding_def matches_owner_def split: option.splits)
  then have "owner_of t ?b = Some w" by (simp add: owner_of_def)
  with assms(1,5) r(5) have "owner_of s ?b = Some w" unfolding credential_extends_def by blast
  then obtain r' where r': "cs_records s ?b = Some r'" "br_owner r' = Some w"
    by (auto simp: owner_of_def bind_eq_Some_conv)
  have "ca_generation (ow_admission w) = br_generation r"
    using credential_inv_record[OF assms(3) r(1)] r(2) by (auto simp: record_valid_def split: if_splits)
  moreover have "ca_generation (ow_admission w) = br_generation r'"
    using credential_inv_record[OF assms(2) r'(1)] r'(2) by (auto simp: record_valid_def split: if_splits)
  ultimately show ?thesis
    using r r' assms(4) by (auto simp: owns_binding_def matches_owner_def)
qed


subsection \<open>A concrete rotation\<close>

definition cred_generation :: "int \<Rightarrow> string \<Rightarrow> CredentialGeneration" where
  "cred_generation epoch material = \<lparr>cg_binding_id = ''binding-a'', cg_epoch = epoch,
     cg_material_id = material, cg_secret_version_id = ''version-1'',
     cg_runtime_digest = ''sha256:'' @ replicate 64 (CHR ''a''),
     cg_auth_scope_digest = ''sha256:'' @ replicate 64 (CHR ''b'')\<rparr>"

definition cred_env :: "nat \<Rightarrow> credential_env" where
  "cred_env n = \<lparr>ce_clock = Some (Fin (int n)), ce_uuid = Some (of_nat n)\<rparr>"

definition cred_start :: CredentialState where
  "cred_start = \<lparr>cs_lease_seconds = Fin 60, cs_last_now = None, cs_records = (\<lambda>_. None),
     cs_seen_bindings = {}, cs_published = {}, cs_rejected = {}, cs_used_fences = {}\<rparr>"

definition cred_first :: CredentialGenerationPublication where
  "cred_first = \<lparr>pb_generation = cred_generation 1 ''key-1'', pb_expected_generation = None\<rparr>"

definition cred_second :: CredentialGenerationPublication where
  "cred_second = \<lparr>pb_generation = cred_generation 2 ''key-2'',
     pb_expected_generation = Some (cred_generation 1 ''key-1'')\<rparr>"

definition cred_owner :: CredentialAdmission where
  "cred_owner = \<lparr>ca_generation = cred_generation 1 ''key-1'', ca_attempt_id = ''attempt-1'',
     ca_validation_fence = Some (uuid_hex 1), ca_validation_timeout_seconds = Some (Fin 60)\<rparr>"

definition cred_rejection :: CredentialBindingRejection where
  "cred_rejection = \<lparr>rj_generation = cred_generation 1 ''key-1'',
     rj_evidence = EXPLICIT_INVALID_CREDENTIAL, rj_classifier_id = ''classifier''\<rparr>"

text \<open>Publication, and a first attempt that owns its validation.\<close>

definition cred_owned :: CredentialState where
  "cred_owned = run_calls credential_step cred_start
     [Publish cred_first, Admit (cred_env 1) (cred_generation 1 ''key-1'') ''attempt-1'']"

lemma cred_start_reachable: "credential_reachable (Fin 60) cred_start"
  by (rule credential_reachable.start) (simp add: credential_init_def cred_start_def)

lemma cred_owned_reachable: "credential_reachable (Fin 60) cred_owned"
  unfolding cred_owned_def
  by (rule credential_reachable_run[OF cred_start_reachable])
     (simp add: CredentialGenerationPublication_ok_def cred_first_def)

lemma cred_owned_record:
  "map_option br_owner (cs_records cred_owned ''binding-a'') =
     Some (Some \<lparr>ow_admission = cred_owner, ow_expires_at = Fin 61\<rparr>) \<and>
   uuid_hex 1 \<in> cs_used_fences cred_owned"
  by code_simp

subsection \<open>Properties\<close>

text \<open>
  C14. The consistency checks of \<open>_record\<close> never fail on a reachable state: what is
  stored under a binding is what every method reads, and \<open>INVALID_STATE\<close> is only raised for a
  broken clock, a repeated UUID, or a rejection of an unpublished generation.
\<close>

theorem credential_records_consistent:
  assumes "credential_reachable lease st"
  shows "credential_record b st = (Inr (cs_records st b), st)"
  using credential_reachable_inv[OF assms] by (rule credential_record_passes)

theorem credential_records_consistent_witness:
  "credential_record ''binding-a'' cred_owned = (Inr (cs_records cred_owned ''binding-a''), cred_owned)"
  by (rule credential_records_consistent[OF cred_owned_reachable])

text \<open>
  C15. Quarantine is permanent: once a rejection of some material of a binding has been
  recorded, no later call admits an attempt, confirms an admission, completes a validation or
  reports a candidate-eligible snapshot for any generation with that material, whatever is
  published in between.
\<close>

theorem credential_quarantine_permanent:
  assumes "credential_reachable lease st" "credential_record_rejection j st = (Inr (), t)"
    "list_all credential_legal cs" "u = run_calls credential_step t cs"
    "cg_binding_id g = cg_binding_id (rj_generation j)" "cg_material_id g = cg_material_id (rj_generation j)"
  shows "(credential_admit env g attempt u = (Inr x, w) \<longrightarrow> x = None) \<and>
    (ca_generation a = g \<longrightarrow> credential_is_admitted env a u = (Inr y, w) \<longrightarrow> \<not> y) \<and>
    (ca_generation a = g \<longrightarrow> credential_complete_validation env a u = (Inr z, w) \<longrightarrow> z = None) \<and>
    (credential_snapshot env (cg_binding_id g) u = (Inr s, w) \<longrightarrow> \<not> is_candidate_eligible s g)"
proof -
  have t: "t = credential_step (RecordRejection j) st" using assms(2) by simp
  have inv: "credential_inv t"
    unfolding t by (rule credential.inv_step[OF credential_reachable_inv[OF assms(1)]]) simp
  have "(cg_binding_id g, cg_material_id g) \<in> cs_rejected t"
    using assms(2,5,6) unfolding credential_record_rejection_def Let_def
    by (auto simp: credential_record_Inr put_record_def elim!: seq_InrE split: option.splits if_splits)
  moreover have "credential_extends t u" using credential.run_extends[OF inv assms(3)] assms(4) by simp
  ultimately have rej: "(cg_binding_id g, cg_material_id g) \<in> cs_rejected u"
    by (auto simp: credential_extends_def)
  show ?thesis using rejected_denied[OF rej] by blast
qed

theorem credential_quarantine_permanent_witness:
  "fst (credential_admit (cred_env 9) (cred_generation 1 ''key-1'') ''attempt-2''
     (run_calls credential_step cred_owned [RecordRejection cred_rejection])) = Inr None"
proof -
  let ?t = "snd (credential_record_rejection cred_rejection cred_owned)"
  let ?r = "credential_admit (cred_env 9) (cred_generation 1 ''key-1'') ''attempt-2'' ?t"
  have "fst (credential_record_rejection cred_rejection cred_owned) = Inr ()" by code_simp
  then have rj: "credential_record_rejection cred_rejection cred_owned = (Inr (), ?t)"
    by (simp add: prod_eq_iff)
  have "isl (fst ?r) = False" by code_simp
  then obtain x where "?r = (Inr x, snd ?r)" by (cases "fst ?r") (auto simp: prod_eq_iff)
  with credential_quarantine_permanent[OF cred_owned_reachable rj, of "[]" ?t "cred_generation 1 ''key-1''"]
  have "x = None" by (auto simp: cred_rejection_def cred_generation_def)
  with \<open>?r = (Inr x, snd ?r)\<close> show ?thesis by (simp add: prod_eq_iff)
qed

text \<open>
  C16. A retired validation fence is never revived: an admission whose fence has been
  issued but does not own its binding any more (it was released, superseded, completed or its
  generation replaced) is not confirmed by \<open>is_admitted\<close> in any later state.
\<close>

theorem credential_fence_not_revived:
  assumes "credential_reachable lease st" "ca_validation_fence a = Some f" "f \<in> cs_used_fences st"
    "\<not> owns_binding st a" "list_all credential_legal cs"
    "credential_is_admitted env a (run_calls credential_step st cs) = (Inr y, w)"
  shows "\<not> y"
proof
  assume y: y
  let ?u = "run_calls credential_step st cs"
  note inv = credential_reachable_inv[OF assms(1)]
  have u: "credential_inv ?u" "credential_extends st ?u"
    using credential.run_inv[OF inv assms(5)] credential.run_extends[OF inv assms(5)] by auto
  have "owns_binding ?u a" using is_admitted_owns[OF u(1)] assms(2,6) y by simp
  with owns_binding_back[OF u(2) inv u(1) assms(2,3)] assms(4) show False by blast
qed

theorem credential_fence_not_revived_witness:
  "fst (credential_is_admitted (cred_env 3) cred_owner
     (run_calls credential_step cred_owned [Release cred_owner])) = Inr False"
proof -
  let ?s = "run_calls credential_step cred_owned [Release cred_owner]"
  let ?r = "credential_is_admitted (cred_env 3) cred_owner ?s"
  have reach: "credential_reachable (Fin 60) ?s"
    by (rule credential_reachable_run[OF cred_owned_reachable]) simp
  have facts: "uuid_hex 1 \<in> cs_used_fences ?s \<and> \<not> owns_binding ?s cred_owner \<and> isl (fst ?r) = False"
    by code_simp
  then obtain y where y: "?r = (Inr y, snd ?r)" by (cases "fst ?r") (auto simp: prod_eq_iff)
  have "ca_validation_fence cred_owner = Some (uuid_hex 1)" by (simp add: cred_owner_def)
  with credential_fence_not_revived[OF reach, of cred_owner "uuid_hex 1" "[]" "cred_env 3" y "snd ?r"] facts y
  have "\<not> y" by simp
  with y show ?thesis by (simp add: prod_eq_iff)
qed

text \<open>
  C17. Activation is monotone: over any sequence of calls a binding keeps its active
  generation or moves to one with a strictly larger epoch, and a successful compare-and-set
  publication makes exactly the published generation active, never as validated.
\<close>

theorem credential_epoch_monotone:
  assumes "credential_reachable lease st" "list_all credential_legal cs"
  shows "(cs_records st b = Some r \<longrightarrow> (\<exists>r'. cs_records (run_calls credential_step st cs) b = Some r' \<and>
      (br_generation r' = br_generation r \<or> cg_epoch (br_generation r) < cg_epoch (br_generation r')))) \<and>
    (credential_publish p st = (Inr True, t) \<longrightarrow>
      (\<exists>r'. cs_records t (cg_binding_id (pb_generation p)) = Some r' \<and> br_generation r' = pb_generation p \<and>
        (t \<noteq> st \<longrightarrow> br_state r' \<in> {PENDING_VALIDATION, QUARANTINED})))"
proof -
  note inv = credential_reachable_inv[OF assms(1)]
  have "\<exists>r'. cs_records (run_calls credential_step st cs) b = Some r' \<and>
      (br_generation r' = br_generation r \<or> cg_epoch (br_generation r) < cg_epoch (br_generation r'))"
    if "cs_records st b = Some r"
    using credential.run_extends[OF inv assms(2)] that unfolding credential_extends_def by blast
  moreover have "\<exists>r'. cs_records t (cg_binding_id (pb_generation p)) = Some r' \<and> br_generation r' = pb_generation p \<and>
        (t \<noteq> st \<longrightarrow> br_state r' \<in> {PENDING_VALIDATION, QUARANTINED})"
    if "credential_publish p st = (Inr True, t)"
    using that unfolding credential_publish_def Let_def
    by (auto simp: credential_record_Inr dest: record_valid_publication[symmetric]
        elim!: seq_InrE split: option.splits if_splits)
  ultimately show ?thesis by blast
qed

theorem credential_epoch_monotone_witness:
  "\<exists>r'. cs_records (run_calls credential_step cred_owned [Publish cred_second]) ''binding-a'' = Some r' \<and>
     1 \<le> cg_epoch (br_generation r')"
proof -
  obtain r where r: "cs_records cred_owned ''binding-a'' = Some r"
    using cred_owned_record by auto
  have "map_option (cg_epoch \<circ> br_generation) (cs_records cred_owned ''binding-a'') = Some 1" by code_simp
  with r have ep: "cg_epoch (br_generation r) = 1" by simp
  have legal: "list_all credential_legal [Publish cred_second]" by code_simp
  from credential_epoch_monotone[OF cred_owned_reachable legal] r obtain r' where
    "cs_records (run_calls credential_step cred_owned [Publish cred_second]) ''binding-a'' = Some r'"
    "br_generation r' = br_generation r \<or> cg_epoch (br_generation r) < cg_epoch (br_generation r')"
    by blast
  with ep show ?thesis by (intro exI[of _ r']) auto
qed

text \<open>
  Validation has a single live owner: while \<open>is_admitted\<close> confirms a validation
  admission, an attempt with another identity asking for the same generation at that moment is
  refused without changing any record.
\<close>

theorem credential_single_owner:
  assumes "credential_reachable lease st" "is_validation a"
    "credential_is_admitted env a st = (Inr True, t)" "attempt \<noteq> ca_attempt_id a" "opaque_id attempt"
  shows "fst (credential_admit env (ca_generation a) attempt st) = Inr None \<and>
    cs_records (snd (credential_admit env (ca_generation a) attempt st)) = cs_records st"
proof -
  from assms(3) obtain now u where now: "credential_now env st = (Inr now, u)"
    unfolding credential_is_admitted_def by (auto elim!: seq_InrE)
  have u: "credential_inv u" "cs_records u = cs_records st"
    using tick_inv[OF credential_reachable_inv[OF assms(1)] now] by auto
  note rec = credential_record_passes[OF u(1)]
  from assms(2,3) obtain r where r: "cs_records u (cg_binding_id (ca_generation a)) = Some r"
    "br_generation r = ca_generation a" "owns r a now"
    unfolding credential_is_admitted_def
    by (auto simp: seq_def now rec split: option.splits if_splits)
  then obtain w where w: "live_owner r now = Some w" "br_owner r = Some w" "ca_attempt_id (ow_admission w) = ca_attempt_id a"
    by (auto simp: owns_def matches_owner_def live_owner_def split: option.splits if_splits)
  have "br_state r = VALIDATING"
    using credential_inv_record[OF u(1) r(1)] w(2) by (auto simp: record_valid_def split: if_splits)
  with r w assms(4,5) show ?thesis
    by (simp add: credential_admit_def contract_cases CredentialAdmission_ok_def seq_def now rec u(2))
qed

theorem credential_single_owner_witness:
  "fst (credential_admit (cred_env 2) (ca_generation cred_owner) ''attempt-2'' cred_owned) = Inr None"
proof -
  let ?r = "credential_is_admitted (cred_env 2) cred_owner cred_owned"
  have "fst ?r = Inr True" by code_simp
  then have r: "?r = (Inr True, snd ?r)" by (simp add: prod_eq_iff)
  have "is_validation cred_owner \<and> ''attempt-2'' \<noteq> ca_attempt_id cred_owner \<and> opaque_id ''attempt-2''" by code_simp
  with credential_single_owner[OF cred_owned_reachable _ r] show ?thesis by blast
qed

text \<open>
  Completion is idempotent: a completion receipt is current right after it was
  issued, and completing the same admission again, with any working clock, returns the same
  receipt and changes no record.
\<close>

theorem credential_completion_idempotent:
  assumes "credential_reachable lease st" "credential_complete_validation env a st = (Inr (Some c), t)"
    "credential_now env' t = (Inr now, u)"
  shows "credential_is_completion_current c t = (Inr True, t) \<and>
    credential_complete_validation env' a t = (Inr (Some c), u) \<and> cs_records u = cs_records t"
proof -
  have t: "t = credential_step (CompleteValidation env a) st" using assms(2) by simp
  have inv: "credential_inv t"
    unfolding t by (rule credential.inv_step[OF credential_reachable_inv[OF assms(1)]]) simp
  note u = tick_inv[OF inv assms(3)]
  from assms(2) obtain r where r: "cs_records t (cg_binding_id (ca_generation a)) = Some r"
    "br_generation r = ca_generation a" "br_receipt r = Some c" "matches_admission c a"
    unfolding credential_complete_validation_def finish_validation_def
    by (auto simp: credential_record_Inr put_record_def matches_admission_def new_fence_def
        elim!: seq_InrE split: option.splits if_splits)
  moreover have "br_state r = AVAILABLE" "cr_generation c = ca_generation a"
    using credential_inv_record[OF inv r(1)] r(2,3) by (auto simp: record_valid_def split: if_splits)
  ultimately show ?thesis
    using u by (simp add: credential_is_completion_current_def credential_complete_validation_def
        seq_def credential_record_passes[OF inv] assms(3) credential_record_passes[of u])
qed

theorem credential_completion_idempotent_witness:
  "fst (credential_is_completion_current \<lparr>cr_generation = cred_generation 1 ''key-1'',
      cr_attempt_id = ''attempt-1'', cr_validation_fence = uuid_hex 1, cr_completion_fence = uuid_hex 2\<rparr>
     (snd (credential_complete_validation (cred_env 2) cred_owner cred_owned))) = Inr True"
proof -
  let ?c = "\<lparr>cr_generation = cred_generation 1 ''key-1'', cr_attempt_id = ''attempt-1'',
      cr_validation_fence = uuid_hex 1, cr_completion_fence = uuid_hex 2\<rparr>"
  let ?r = "credential_complete_validation (cred_env 2) cred_owner cred_owned"
  have "fst ?r = Inr (Some ?c)" by code_simp
  then have r: "?r = (Inr (Some ?c), snd ?r)" by (simp add: prod_eq_iff)
  have "fst (credential_now (cred_env 3) (snd ?r)) = Inr (Fin 3)" by code_simp
  then have n: "credential_now (cred_env 3) (snd ?r) = (Inr (Fin 3), snd (credential_now (cred_env 3) (snd ?r)))"
    by (simp add: prod_eq_iff)
  from credential_completion_idempotent[OF cred_owned_reachable r n] show ?thesis by simp
qed

end
