(* ===== verification/Provider.thy ===== *)
theory Provider
  imports Complex_Main PyFloat
begin

text \<open>
  The provider boundary (\<open>application/provider.py\<close>): error categories, the transient-error
  test every health tracker and retry loop shares, usage validation and stream events. Decimal
  costs are rationals; message and tool payloads are opaque to the gateway core.
\<close>

datatype ProviderErrorCode =
    AUTHENTICATION | RATE_LIMIT | TIMEOUT | INVALID_REQUEST | UNAVAILABLE | TRANSPORT
  | INVALID_RESPONSE | INVALID_STRUCTURED_OUTPUT | INVALID_TOOL_CALL | UNKNOWN

record ProviderError =
  pe_provider :: string
  pe_code :: ProviderErrorCode
  pe_retryable :: bool
  pe_status_code :: "int option"
  pe_retry_after_seconds :: "pyfloat option"

definition is_transient_provider_error :: "ProviderError \<Rightarrow> bool" where
  "is_transient_provider_error e \<longleftrightarrow> pe_retryable e \<and>
     pe_code e \<in> {RATE_LIMIT, TIMEOUT, UNAVAILABLE, TRANSPORT}"

text \<open>\<open>application/health_probe.py\<close>: a local timeout of a recovery probe.\<close>

definition probe_expired_error :: "string \<Rightarrow> ProviderError" where
  "probe_expired_error provider = \<lparr>pe_provider = provider, pe_code = TIMEOUT, pe_retryable = True,
     pe_status_code = None, pe_retry_after_seconds = None\<rparr>"

record ProviderUsage =
  us_input_tokens :: int
  us_output_tokens :: int
  us_total_tokens :: "int option"
  us_cache_read_input_tokens :: "int option"
  us_cache_write_input_tokens :: "int option"
  us_total_cost_usd :: "rat option"

definition ProviderUsage_ok :: "ProviderUsage \<Rightarrow> bool" where
  "ProviderUsage_ok u \<longleftrightarrow> 0 \<le> us_input_tokens u \<and> 0 \<le> us_output_tokens u \<and>
     (case us_total_tokens u of None \<Rightarrow> True
      | Some t \<Rightarrow> 0 \<le> t \<and> t = us_input_tokens u + us_output_tokens u) \<and>
     (case us_cache_read_input_tokens u of None \<Rightarrow> True | Some v \<Rightarrow> 0 \<le> v) \<and>
     (case us_cache_write_input_tokens u of None \<Rightarrow> True | Some v \<Rightarrow> 0 \<le> v) \<and>
     (case us_total_cost_usd u of None \<Rightarrow> True | Some v \<Rightarrow> 0 \<le> v)"

lemma probe_expired_transient [simp]: "is_transient_provider_error (probe_expired_error p)"
  by (simp add: is_transient_provider_error_def probe_expired_error_def)

end
