(* ===== verification/Health.thy ===== *)
theory Health
  imports Provider
begin

text \<open>
  Per-deployment health and the circuit breaker: the values of \<open>domain/resilience.py\<close> and
  \<open>InMemoryHealthTracker\<close> of \<open>application/resilience.py\<close>. A method runs without awaiting, so
  it is one step on the tracker. Every clock and UUID reading of a call is a field of its
  environment, in the order the code takes them.
\<close>

subsection \<open>Values\<close>

datatype CircuitState = CLOSED | OPEN | HALF_OPEN

datatype HealthStatus = HEALTHY | DEGRADED | UNHEALTHY

datatype health_failure = ValueError | RuntimeError

record DeploymentHealthSnapshot =
  hs_deployment_id :: string
  hs_status :: HealthStatus
  hs_circuit_state :: CircuitState
  hs_request_count :: int
  hs_success_count :: int
  hs_transient_failure_count :: int
  hs_timeout_count :: int
  hs_rate_limit_count :: int
  hs_server_error_count :: int
  hs_consecutive_transient_failures :: int
  hs_last_latency_ms :: "int option"

definition DeploymentHealthSnapshot_ok :: "DeploymentHealthSnapshot \<Rightarrow> bool" where
  "DeploymentHealthSnapshot_ok s \<longleftrightarrow> normalized (hs_deployment_id s) \<and>
     list_all (\<lambda>v. 0 \<le> v) [hs_request_count s, hs_success_count s, hs_transient_failure_count s,
       hs_timeout_count s, hs_rate_limit_count s, hs_server_error_count s,
       hs_consecutive_transient_failures s] \<and>
     hs_success_count s \<le> hs_request_count s \<and> hs_transient_failure_count s \<le> hs_request_count s \<and>
     (case hs_last_latency_ms s of None \<Rightarrow> True | Some l \<Rightarrow> 0 \<le> l) \<and>
     (hs_circuit_state s = OPEN \<longrightarrow> hs_status s = UNHEALTHY)"

record CircuitBreakerPolicy =
  cb_failure_threshold :: int
  cb_cooldown_seconds :: pyfloat
  cb_probe_lease_seconds :: pyfloat

definition CircuitBreakerPolicy_ok :: "CircuitBreakerPolicy \<Rightarrow> bool" where
  "CircuitBreakerPolicy_ok p \<longleftrightarrow> 0 < cb_failure_threshold p \<and>
     fin_pos (cb_cooldown_seconds p) \<and> fin_pos (cb_probe_lease_seconds p)"

record HealthAdmission =
  ha_deployment_id :: string
  ha_attempt_id :: string
  ha_generation :: string
  ha_probe_timeout_seconds :: "pyfloat option"

definition HealthAdmission_ok :: "HealthAdmission \<Rightarrow> bool" where
  "HealthAdmission_ok a \<longleftrightarrow> normalized (ha_deployment_id a) \<and> normalized (ha_attempt_id a) \<and>
     normalized (ha_generation a) \<and> length (ha_attempt_id a) \<le> 128 \<and> length (ha_generation a) \<le> 128 \<and>
     (case ha_probe_timeout_seconds a of None \<Rightarrow> True | Some t \<Rightarrow> fin_pos t)"

definition is_probe :: "HealthAdmission \<Rightarrow> bool" where
  "is_probe a \<longleftrightarrow> ha_probe_timeout_seconds a \<noteq> None"

subsection \<open>Tracker state\<close>

record DeploymentHealth =
  mh_request_count :: int
  mh_success_count :: int
  mh_transient_failure_count :: int
  mh_timeout_count :: int
  mh_rate_limit_count :: int
  mh_server_error_count :: int
  mh_consecutive_transient_failures :: int
  mh_last_latency_ms :: "int option"
  mh_circuit_state :: CircuitState
  mh_opened_at :: "pyfloat option"
  mh_generation :: string
  mh_probe_owner :: "string option"
  mh_probe_expires_at :: "pyfloat option"

definition fresh_health :: "uuid \<Rightarrow> DeploymentHealth" where
  "fresh_health u = \<lparr>mh_request_count = 0, mh_success_count = 0, mh_transient_failure_count = 0,
     mh_timeout_count = 0, mh_rate_limit_count = 0, mh_server_error_count = 0,
     mh_consecutive_transient_failures = 0, mh_last_latency_ms = None, mh_circuit_state = CLOSED,
     mh_opened_at = None, mh_generation = uuid_hex u, mh_probe_owner = None,
     mh_probe_expires_at = None\<rparr>"

record HealthTracker =
  ht_policy :: CircuitBreakerPolicy
  ht_states :: "string \<rightharpoonup> DeploymentHealth"

text \<open>
  One call's readings: the owner UUID of \<open>health_attempt_id\<close>, the default state's UUID, the
  refresh's clock and retirement UUID, and the later readings of the method body.
\<close>

record health_env =
  hv_owner :: uuid
  hv_initial :: uuid
  hv_now :: pyfloat
  hv_refresh_uuid :: uuid
  hv_claim_uuid :: uuid
  hv_claim_now :: pyfloat
  hv_admit_now :: pyfloat
  hv_open_now :: pyfloat
  hv_retire_uuid :: uuid

type_synonym 'a health_method = "(HealthTracker, health_failure, 'a) pymethod"
type_synonym 'a entry_method = "(DeploymentHealth, health_failure, 'a) pymethod"

definition tracker_init :: "CircuitBreakerPolicy \<Rightarrow> HealthTracker" where
  "tracker_init p = \<lparr>ht_policy = p, ht_states = (\<lambda>_. None)\<rparr>"

text \<open>\<open>_state\<close> with \<open>setdefault\<close>, and a method body working on that entry.\<close>

definition entry_of :: "HealthTracker \<Rightarrow> uuid \<Rightarrow> string \<Rightarrow> DeploymentHealth" where
  "entry_of tr u d = (case ht_states tr d of None \<Rightarrow> fresh_health u | Some s \<Rightarrow> s)"

definition on_state ::
  "string \<Rightarrow> uuid \<Rightarrow> (CircuitBreakerPolicy \<Rightarrow> 'a entry_method) \<Rightarrow> 'a health_method" where
  "on_state d u body tr =
     (if \<not> normalized d then (Inl ValueError, tr)
      else case body (ht_policy tr) (entry_of tr u d) of
        (r, s) \<Rightarrow> (r, tr\<lparr>ht_states := (ht_states tr)(d \<mapsto> s)\<rparr>))"

definition retire_probe :: "uuid \<Rightarrow> DeploymentHealth \<Rightarrow> DeploymentHealth" where
  "retire_probe u s =
     s\<lparr>mh_generation := uuid_hex u, mh_probe_owner := None, mh_probe_expires_at := None\<rparr>"

definition cool_down :: "CircuitBreakerPolicy \<Rightarrow> pyfloat \<Rightarrow> DeploymentHealth \<Rightarrow> DeploymentHealth" where
  "cool_down p now s =
     (if mh_circuit_state s = OPEN \<and>
         (case mh_opened_at s of None \<Rightarrow> False | Some opened \<Rightarrow> fle (cb_cooldown_seconds p) (fsub now opened))
      then s\<lparr>mh_circuit_state := HALF_OPEN\<rparr> else s)"

definition refresh_circuit ::
  "CircuitBreakerPolicy \<Rightarrow> pyfloat \<Rightarrow> uuid \<Rightarrow> DeploymentHealth \<Rightarrow> DeploymentHealth" where
  "refresh_circuit p now u s =
     (let s' = cool_down p now s in
      if (case mh_probe_expires_at s' of None \<Rightarrow> False | Some e \<Rightarrow> fle e now)
      then retire_probe u s' else s')"

definition refresh :: "health_env \<Rightarrow> CircuitBreakerPolicy \<Rightarrow> unit entry_method" where
  "refresh env p s = (Inr (), refresh_circuit p (hv_now env) (hv_refresh_uuid env) s)"

definition health_matches :: "DeploymentHealth \<Rightarrow> HealthAdmission \<Rightarrow> bool" where
  "health_matches s a \<longleftrightarrow> mh_generation s = ha_generation a \<and>
     ((mh_circuit_state s = CLOSED \<and> \<not> is_probe a) \<or>
      (mh_circuit_state s = HALF_OPEN \<and> is_probe a \<and> mh_probe_owner s = Some (ha_attempt_id a)))"

definition controls_circuit ::
  "string \<Rightarrow> DeploymentHealth \<Rightarrow> HealthAdmission option \<Rightarrow> health_failure + bool" where
  "controls_circuit d s adm = (case adm of
      None \<Rightarrow> Inr (mh_circuit_state s = CLOSED)
    | Some a \<Rightarrow> if ha_deployment_id a \<noteq> d then Inl ValueError else Inr (health_matches s a))"

subsection \<open>Methods\<close>

definition snapshot_of :: "string \<Rightarrow> DeploymentHealth \<Rightarrow> DeploymentHealthSnapshot" where
  "snapshot_of d s = \<lparr>hs_deployment_id = d,
     hs_status = (if mh_circuit_state s = OPEN then UNHEALTHY
       else if mh_circuit_state s = HALF_OPEN \<or> mh_consecutive_transient_failures s \<noteq> 0 then DEGRADED
       else HEALTHY),
     hs_circuit_state = mh_circuit_state s, hs_request_count = mh_request_count s,
     hs_success_count = mh_success_count s,
     hs_transient_failure_count = mh_transient_failure_count s, hs_timeout_count = mh_timeout_count s,
     hs_rate_limit_count = mh_rate_limit_count s, hs_server_error_count = mh_server_error_count s,
     hs_consecutive_transient_failures = mh_consecutive_transient_failures s,
     hs_last_latency_ms = mh_last_latency_ms s\<rparr>"

definition checked :: "('a \<Rightarrow> bool) \<Rightarrow> 'a \<Rightarrow> 'a entry_method" where
  "checked ok v = (if ok v then ret v else raise ValueError)"

definition health_snapshot :: "health_env \<Rightarrow> string \<Rightarrow> DeploymentHealthSnapshot health_method" where
  "health_snapshot env d = on_state d (hv_initial env) (\<lambda>p.
     seq (refresh env p) (\<lambda>_. seq get_state (\<lambda>s.
     checked DeploymentHealthSnapshot_ok (snapshot_of d s))))"

text \<open>\<open>health_attempt_id\<close>.\<close>

definition health_attempt_id :: "uuid \<Rightarrow> string option \<Rightarrow> health_failure + string" where
  "health_attempt_id u value = (case value of
      None \<Rightarrow> Inr (uuid_hex u)
    | Some v \<Rightarrow> if \<not> normalized v \<or> 128 < length v then Inl ValueError else Inr v)"

definition claim_probe :: "health_env \<Rightarrow> CircuitBreakerPolicy \<Rightarrow> string \<Rightarrow> DeploymentHealth \<Rightarrow> DeploymentHealth" where
  "claim_probe env p owner s =
     s\<lparr>mh_generation := uuid_hex (hv_claim_uuid env), mh_probe_owner := Some owner,
       mh_probe_expires_at := Some (fadd (hv_claim_now env) (cb_probe_lease_seconds p))\<rparr>"

definition allow_body ::
  "health_env \<Rightarrow> string \<Rightarrow> string \<Rightarrow> CircuitBreakerPolicy \<Rightarrow> HealthAdmission option entry_method" where
  "allow_body env d owner p =
     seq (refresh env p) (\<lambda>_. seq get_state (\<lambda>s.
     if mh_circuit_state s = OPEN then ret None
     else if mh_circuit_state s = CLOSED then
       seq (checked HealthAdmission_ok \<lparr>ha_deployment_id = d, ha_attempt_id = owner,
              ha_generation = mh_generation s, ha_probe_timeout_seconds = None\<rparr>) (\<lambda>a. ret (Some a))
     else if mh_probe_owner s \<noteq> None \<and> mh_probe_owner s \<noteq> Some owner then ret None
     else
       seq (\<lambda>s. (Inr (), if mh_probe_owner s = None then claim_probe env p owner s else s)) (\<lambda>_.
       seq get_state (\<lambda>s.
       case mh_probe_expires_at s of
         None \<Rightarrow> raise RuntimeError
       | Some e \<Rightarrow>
         seq (checked HealthAdmission_ok \<lparr>ha_deployment_id = d, ha_attempt_id = owner,
                ha_generation = mh_generation s,
                ha_probe_timeout_seconds = Some (fsub e (hv_admit_now env))\<rparr>) (\<lambda>a. ret (Some a))))))"

definition health_allow_request ::
  "health_env \<Rightarrow> string \<Rightarrow> string option \<Rightarrow> HealthAdmission option health_method" where
  "health_allow_request env d attempt =
     seq (lift_result (health_attempt_id (hv_owner env) attempt)) (\<lambda>owner.
     on_state d (hv_initial env) (allow_body env d owner))"

definition health_release_request :: "health_env \<Rightarrow> HealthAdmission \<Rightarrow> unit health_method" where
  "health_release_request env a = on_state (ha_deployment_id a) (hv_initial env) (\<lambda>p.
     seq (refresh env p) (\<lambda>_.
     \<lambda>s. (Inr (), if is_probe a \<and> health_matches s a then retire_probe (hv_retire_uuid env) s else s)))"

definition health_is_admitted :: "health_env \<Rightarrow> HealthAdmission \<Rightarrow> bool health_method" where
  "health_is_admitted env a = on_state (ha_deployment_id a) (hv_initial env) (\<lambda>p.
     seq (refresh env p) (\<lambda>_. seq get_state (\<lambda>s. ret (health_matches s a))))"

definition probe_given :: "HealthAdmission option \<Rightarrow> bool" where
  "probe_given adm \<longleftrightarrow> (case adm of None \<Rightarrow> False | Some a \<Rightarrow> is_probe a)"

definition succeed :: "health_env \<Rightarrow> int \<Rightarrow> HealthAdmission option \<Rightarrow> bool \<Rightarrow> DeploymentHealth \<Rightarrow> DeploymentHealth" where
  "succeed env latency adm controls s =
     (let s1 = s\<lparr>mh_request_count := mh_request_count s + 1, mh_success_count := mh_success_count s + 1,
                 mh_last_latency_ms := Some latency\<rparr> in
      if controls then
        (let s2 = s1\<lparr>mh_consecutive_transient_failures := 0, mh_circuit_state := CLOSED,
                     mh_opened_at := None\<rparr> in
         if probe_given adm then retire_probe (hv_retire_uuid env) s2 else s2)
      else s1)"

definition health_record_success ::
  "health_env \<Rightarrow> string \<Rightarrow> int \<Rightarrow> HealthAdmission option \<Rightarrow> bool health_method" where
  "health_record_success env d latency adm = on_state d (hv_initial env) (\<lambda>p.
     seq (refresh env p) (\<lambda>_. seq get_state (\<lambda>s.
     seq (lift_result (controls_circuit d s adm)) (\<lambda>controls.
     if probe_given adm \<and> \<not> controls then ret False
     else (\<lambda>s. (Inr True, succeed env latency adm controls s))))))"

definition fail_permanent ::
  "health_env \<Rightarrow> HealthAdmission option \<Rightarrow> bool \<Rightarrow> DeploymentHealth \<Rightarrow> DeploymentHealth" where
  "fail_permanent env adm controls s =
     (if controls then
        (let s1 = s\<lparr>mh_consecutive_transient_failures := 0\<rparr> in
         if probe_given adm then retire_probe (hv_retire_uuid env) s1 else s1)
      else s)"

definition count_transient :: "ProviderError \<Rightarrow> bool \<Rightarrow> DeploymentHealth \<Rightarrow> DeploymentHealth" where
  "count_transient e controls s =
     s\<lparr>mh_transient_failure_count := mh_transient_failure_count s + 1,
       mh_consecutive_transient_failures :=
         mh_consecutive_transient_failures s + (if controls then 1 else 0),
       mh_timeout_count := mh_timeout_count s + (if pe_code e = TIMEOUT then 1 else 0),
       mh_rate_limit_count := mh_rate_limit_count s + (if pe_code e = RATE_LIMIT then 1 else 0),
       mh_server_error_count := mh_server_error_count s +
         (if pe_code e = UNAVAILABLE \<and>
             (case pe_status_code e of None \<Rightarrow> True | Some c \<Rightarrow> 500 \<le> c) then 1 else 0)\<rparr>"

definition fail_transient ::
  "health_env \<Rightarrow> CircuitBreakerPolicy \<Rightarrow> ProviderError \<Rightarrow> bool \<Rightarrow> DeploymentHealth \<Rightarrow> DeploymentHealth" where
  "fail_transient env p e controls s =
     (let s1 = count_transient e controls s;
          should_open = mh_circuit_state s1 = HALF_OPEN \<or>
            cb_failure_threshold p \<le> mh_consecutive_transient_failures s1
      in if controls \<and> should_open
         then retire_probe (hv_retire_uuid env)
                (s1\<lparr>mh_circuit_state := OPEN, mh_opened_at := Some (hv_open_now env)\<rparr>)
         else s1)"

definition fail ::
  "health_env \<Rightarrow> CircuitBreakerPolicy \<Rightarrow> ProviderError \<Rightarrow> int \<Rightarrow> HealthAdmission option \<Rightarrow> bool \<Rightarrow>
   DeploymentHealth \<Rightarrow> DeploymentHealth" where
  "fail env p e latency adm controls s =
     (let s1 = s\<lparr>mh_request_count := mh_request_count s + 1, mh_last_latency_ms := Some latency\<rparr> in
      if \<not> is_transient_provider_error e then fail_permanent env adm controls s1
      else fail_transient env p e controls s1)"

definition health_record_failure ::
  "health_env \<Rightarrow> string \<Rightarrow> ProviderError \<Rightarrow> int \<Rightarrow> HealthAdmission option \<Rightarrow> unit health_method" where
  "health_record_failure env d e latency adm = on_state d (hv_initial env) (\<lambda>p.
     seq (refresh env p) (\<lambda>_. seq get_state (\<lambda>s.
     seq (lift_result (controls_circuit d s adm)) (\<lambda>controls.
     if probe_given adm \<and> \<not> controls then ret ()
     else (\<lambda>s. (Inr (), fail env p e latency adm controls s))))))"

text \<open>\<open>snapshots\<close>: one snapshot per requested deployment, in order, into a dictionary.\<close>

fun health_snapshots ::
  "(string \<Rightarrow> health_env) \<Rightarrow> string list \<Rightarrow> (string \<times> DeploymentHealthSnapshot) list health_method" where
  "health_snapshots env [] = ret []"
| "health_snapshots env (d # ds) =
     seq (health_snapshot (env d) d) (\<lambda>s. seq (health_snapshots env ds) (\<lambda>rest. ret ((d, s) # rest)))"

end
