(* ===== verification/Health_Properties.thy ===== *)
theory Health_Properties
  imports Health
begin

text \<open>
  The circuit breaker as a state machine: the invariant of a tracked deployment, the abstract
  edges every call respects, exclusivity and fencing of recovery probes, opening at the
  threshold and recovery after the cooldown.
\<close>

subsection \<open>Calls\<close>

datatype health_call =
    Snapshot health_env string
  | AllowRequest health_env string "string option"
  | ReleaseRequest health_env HealthAdmission
  | IsAdmitted health_env HealthAdmission
  | RecordSuccess health_env string int "HealthAdmission option"
  | RecordFailure health_env string ProviderError int "HealthAdmission option"

fun health_step :: "health_call \<Rightarrow> HealthTracker \<Rightarrow> HealthTracker" where
  "health_step (Snapshot env d) tr = snd (health_snapshot env d tr)"
| "health_step (AllowRequest env d attempt) tr = snd (health_allow_request env d attempt tr)"
| "health_step (ReleaseRequest env a) tr = snd (health_release_request env a tr)"
| "health_step (IsAdmitted env a) tr = snd (health_is_admitted env a tr)"
| "health_step (RecordSuccess env d l adm) tr = snd (health_record_success env d l adm tr)"
| "health_step (RecordFailure env d e l adm) tr = snd (health_record_failure env d e l adm tr)"

text \<open>Latencies are nonnegative (\<open>_latency_ms\<close> clamps them).\<close>

fun health_legal :: "health_call \<Rightarrow> bool" where
  "health_legal (RecordSuccess env d l adm) \<longleftrightarrow> 0 \<le> l"
| "health_legal (RecordFailure env d e l adm) \<longleftrightarrow> 0 \<le> l"
| "health_legal _ \<longleftrightarrow> True"

subsection \<open>Invariant of an entry\<close>

definition owner_id_ok :: "string \<Rightarrow> bool" where
  "owner_id_ok v \<longleftrightarrow> normalized v \<and> length v \<le> 128"

definition entry_inv :: "CircuitBreakerPolicy \<Rightarrow> DeploymentHealth \<Rightarrow> bool" where
  "entry_inv p s \<longleftrightarrow>
     0 \<le> mh_success_count s \<and> 0 \<le> mh_timeout_count s \<and> 0 \<le> mh_rate_limit_count s \<and>
     0 \<le> mh_server_error_count s \<and> 0 \<le> mh_consecutive_transient_failures s \<and>
     mh_success_count s + mh_transient_failure_count s \<le> mh_request_count s \<and>
     mh_timeout_count s + mh_rate_limit_count s + mh_server_error_count s \<le> mh_transient_failure_count s \<and>
     mh_consecutive_transient_failures s \<le> mh_transient_failure_count s \<and>
     (\<forall>l. mh_last_latency_ms s = Some l \<longrightarrow> 0 \<le> l) \<and>
     (mh_circuit_state s = OPEN \<longrightarrow> mh_opened_at s \<noteq> None) \<and>
     (mh_circuit_state s = CLOSED \<longrightarrow> mh_consecutive_transient_failures s < cb_failure_threshold p) \<and>
     (mh_probe_owner s = None \<longleftrightarrow> mh_probe_expires_at s = None) \<and>
     (mh_probe_owner s \<noteq> None \<longrightarrow> mh_circuit_state s = HALF_OPEN) \<and>
     owner_id_ok (mh_generation s) \<and> (\<forall>v. mh_probe_owner s = Some v \<longrightarrow> owner_id_ok v)"

definition tracker_inv :: "HealthTracker \<Rightarrow> bool" where
  "tracker_inv tr \<longleftrightarrow> CircuitBreakerPolicy_ok (ht_policy tr) \<and>
     (\<forall>d s. ht_states tr d = Some s \<longrightarrow> normalized d \<and> entry_inv (ht_policy tr) s)"

lemma owner_id_uuid [simp, intro]: "owner_id_ok (uuid_hex u)"
  by (simp add: owner_id_ok_def)

lemma entry_inv_fresh: "0 < cb_failure_threshold p \<Longrightarrow> entry_inv p (fresh_health u)"
  by (simp add: entry_inv_def fresh_health_def)

lemma entry_inv_retire [intro]: "entry_inv p s \<Longrightarrow> entry_inv p (retire_probe u s)"
  by (simp add: entry_inv_def retire_probe_def)

lemma entry_inv_cool_down [intro]: "entry_inv p s \<Longrightarrow> entry_inv p (cool_down p now s)"
  by (auto simp: entry_inv_def cool_down_def)

lemma entry_inv_refresh [intro]: "entry_inv p s \<Longrightarrow> entry_inv p (refresh_circuit p now u s)"
  by (auto simp: refresh_circuit_def Let_def)

lemma entry_inv_claim:
  "entry_inv p s \<Longrightarrow> mh_circuit_state s = HALF_OPEN \<Longrightarrow> owner_id_ok owner \<Longrightarrow>
   entry_inv p (claim_probe env p owner s)"
  by (simp add: entry_inv_def claim_probe_def)

text \<open>Whoever controls the circuit has a closed circuit or owns its probe.\<close>

lemma controls_probe:
  assumes "entry_inv p s" "controls_circuit d s adm = Inr True"
  shows "mh_circuit_state s = CLOSED \<and> \<not> probe_given adm \<and> mh_probe_owner s = None \<or>
    mh_circuit_state s = HALF_OPEN \<and> probe_given adm"
  using assms
  by (auto simp: controls_circuit_def health_matches_def probe_given_def entry_inv_def
      split: option.splits if_splits)

lemma entry_inv_succeed:
  assumes "entry_inv p s" "0 < cb_failure_threshold p" "0 \<le> l" "controls_circuit d s adm = Inr c"
  shows "entry_inv p (succeed env l adm c s)"
proof (cases c)
  case True
  with controls_probe[OF assms(1)] assms show ?thesis
    by (auto simp: succeed_def Let_def entry_inv_def retire_probe_def)
next
  case False
  with assms show ?thesis by (auto simp: succeed_def Let_def entry_inv_def)
qed

lemma entry_inv_fail_permanent:
  assumes "entry_inv p s" "0 < cb_failure_threshold p"
  shows "entry_inv p (fail_permanent env adm c s)"
  using assms by (auto simp: fail_permanent_def Let_def entry_inv_def retire_probe_def)

lemma entry_inv_fail_transient:
  assumes "entry_inv p s" "mh_success_count s + mh_transient_failure_count s < mh_request_count s"
    "is_transient_provider_error e"
  shows "entry_inv p (fail_transient env p e c s)"
  using assms
  by (auto simp: fail_transient_def count_transient_def Let_def entry_inv_def retire_probe_def)

lemma entry_inv_fail:
  assumes "entry_inv p s" "0 < cb_failure_threshold p" "0 \<le> l"
  shows "entry_inv p (fail env p e l adm c s)"
proof -
  let ?s = "s\<lparr>mh_request_count := mh_request_count s + 1, mh_last_latency_ms := Some l\<rparr>"
  have "entry_inv p ?s" "mh_success_count ?s + mh_transient_failure_count ?s < mh_request_count ?s"
    using assms by (auto simp: entry_inv_def)
  with assms(2) show ?thesis
    by (simp add: fail_def Let_def entry_inv_fail_permanent entry_inv_fail_transient)
qed


subsection \<open>What a call does to the entry of its deployment\<close>

fun call_env :: "health_call \<Rightarrow> health_env" where
  "call_env (Snapshot env d) = env"
| "call_env (AllowRequest env d attempt) = env"
| "call_env (ReleaseRequest env a) = env"
| "call_env (IsAdmitted env a) = env"
| "call_env (RecordSuccess env d l adm) = env"
| "call_env (RecordFailure env d e l adm) = env"

fun call_deployment :: "health_call \<Rightarrow> string" where
  "call_deployment (Snapshot env d) = d"
| "call_deployment (AllowRequest env d attempt) = d"
| "call_deployment (ReleaseRequest env a) = ha_deployment_id a"
| "call_deployment (IsAdmitted env a) = ha_deployment_id a"
| "call_deployment (RecordSuccess env d l adm) = d"
| "call_deployment (RecordFailure env d e l adm) = d"

definition refreshed :: "health_call \<Rightarrow> CircuitBreakerPolicy \<Rightarrow> DeploymentHealth \<Rightarrow> DeploymentHealth" where
  "refreshed c p s = refresh_circuit p (hv_now (call_env c)) (hv_refresh_uuid (call_env c)) s"

inductive entry_after ::
  "CircuitBreakerPolicy \<Rightarrow> health_call \<Rightarrow> DeploymentHealth \<Rightarrow> DeploymentHealth \<Rightarrow> bool" for p where
  refreshing: "entry_after p c s (refreshed c p s)"
| claiming: "c = AllowRequest env d attempt \<Longrightarrow> r = refreshed c p s \<Longrightarrow>
    mh_circuit_state r = HALF_OPEN \<Longrightarrow> mh_probe_owner r = None \<Longrightarrow> owner_id_ok owner \<Longrightarrow>
    entry_after p c s (claim_probe env p owner r)"
| releasing: "c = ReleaseRequest env a \<Longrightarrow> r = refreshed c p s \<Longrightarrow> is_probe a \<Longrightarrow> health_matches r a \<Longrightarrow>
    entry_after p c s (retire_probe (hv_retire_uuid env) r)"
| succeeding: "c = RecordSuccess env d l adm \<Longrightarrow> r = refreshed c p s \<Longrightarrow>
    controls_circuit d r adm = Inr k \<Longrightarrow> probe_given adm \<longrightarrow> k \<Longrightarrow>
    entry_after p c s (succeed env l adm k r)"
| failing: "c = RecordFailure env d e l adm \<Longrightarrow> r = refreshed c p s \<Longrightarrow>
    controls_circuit d r adm = Inr k \<Longrightarrow> probe_given adm \<longrightarrow> k \<Longrightarrow>
    entry_after p c s (fail env p e l adm k r)"

inductive_cases entry_afterE: "entry_after p c s t"

lemma seq_refresh [simp]:
  "seq (refresh env p) f s = f () (refresh_circuit p (hv_now env) (hv_refresh_uuid env) s)"
  by (simp add: seq_def refresh_def)

lemma seq_pure [simp]: "seq (\<lambda>s. (Inr x, g s)) f s = f x (g s)"
  by (simp add: seq_def)

lemma checked_state [simp]: "snd (checked ok v s) = s" "snd (seq (checked ok v) (\<lambda>a. ret (f a)) s) = s"
  by (simp_all add: checked_def seq_def)

lemma seq_checked: "ok v \<Longrightarrow> seq (checked ok v) f s = f v s"
  by (simp add: checked_def)

lemma attempt_id_ok: "health_attempt_id u v = Inr owner \<Longrightarrow> owner_id_ok owner"
  by (auto simp: health_attempt_id_def owner_id_ok_def split: option.splits if_splits)

lemma allow_body_after:
  assumes "owner_id_ok owner"
  shows "entry_after p (AllowRequest env d attempt) s (snd (allow_body env d owner p s))"
proof -
  let ?c = "AllowRequest env d attempt"
  let ?r = "refreshed ?c p s"
  show ?thesis
  proof (cases "mh_circuit_state ?r = HALF_OPEN \<and> mh_probe_owner ?r = None")
    case True
    have "snd (allow_body env d owner p s) = claim_probe env p owner ?r"
      using True by (simp add: allow_body_def refreshed_def claim_probe_def)
    with claiming[OF refl refl] True assms show ?thesis by metis
  next
    case False
    have "snd (allow_body env d owner p s) = ?r"
    proof (cases "mh_circuit_state ?r")
      case HALF_OPEN
      with False show ?thesis
        by (auto simp: allow_body_def refreshed_def split: option.splits)
    qed (auto simp: allow_body_def refreshed_def)
    with refreshing show ?thesis by metis
  qed
qed

text \<open>A call is accepted when it passes the checks made before any state is touched.\<close>

fun accepted :: "health_call \<Rightarrow> bool" where
  "accepted (AllowRequest env d attempt) \<longleftrightarrow> normalized d \<and> \<not> isl (health_attempt_id (hv_owner env) attempt)"
| "accepted c \<longleftrightarrow> normalized (call_deployment c)"

lemma health_step_effect:
  obtains (unchanged) "health_step c tr = tr" "\<not> accepted c"
  | (changed) t where
    "health_step c tr = tr\<lparr>ht_states := (ht_states tr)(call_deployment c \<mapsto> t)\<rparr>"
    "normalized (call_deployment c)"
    "entry_after (ht_policy tr) c (entry_of tr (hv_initial (call_env c)) (call_deployment c)) t"
    "accepted c"
proof -
  have on: thesis
    if "health_step c tr = snd (on_state (call_deployment c) (hv_initial (call_env c)) body tr)"
      "\<And>s. entry_after (ht_policy tr) c s (snd (body (ht_policy tr) s))"
      "accepted c \<longleftrightarrow> normalized (call_deployment c)" for body
  proof (cases "normalized (call_deployment c)")
    case True
    let ?b = "body (ht_policy tr) (entry_of tr (hv_initial (call_env c)) (call_deployment c))"
    have "health_step c tr = tr\<lparr>ht_states := (ht_states tr)(call_deployment c \<mapsto> snd ?b)\<rparr>"
      using that(1) True by (simp add: on_state_def split: prod.splits)
    then show ?thesis using changed True that(2,3) by blast
  next
    case False
    with that(1,3) show ?thesis by (intro unchanged) (simp_all add: on_state_def)
  qed
  show ?thesis
  proof (cases c)
    case (Snapshot env d)
    show ?thesis
      by (rule on[of "\<lambda>p. seq (refresh env p) (\<lambda>_. seq get_state (\<lambda>s.
            checked DeploymentHealthSnapshot_ok (snapshot_of d s)))"])
         (use Snapshot refreshing[of _ c] in \<open>simp_all add: health_snapshot_def refreshed_def\<close>)
  next
    case (AllowRequest env d attempt)
    show ?thesis
    proof (cases "health_attempt_id (hv_owner env) attempt")
      case (Inl e)
      with AllowRequest show ?thesis by (intro unchanged) (simp_all add: health_allow_request_def)
    next
      case (Inr owner)
      show ?thesis
        by (rule on[of "allow_body env d owner"])
           (use AllowRequest Inr allow_body_after[OF attempt_id_ok[OF Inr]] in
            \<open>simp_all add: health_allow_request_def\<close>)
    qed
  next
    case (ReleaseRequest env a)
    show ?thesis
      by (rule on[of "\<lambda>p. seq (refresh env p) (\<lambda>_. \<lambda>s. (Inr (),
            if is_probe a \<and> health_matches s a then retire_probe (hv_retire_uuid env) s else s))"])
         (use ReleaseRequest refreshing[of _ c] releasing[OF ReleaseRequest refl] in
          \<open>auto simp: health_release_request_def refreshed_def\<close>)
  next
    case (IsAdmitted env a)
    show ?thesis
      by (rule on[of "\<lambda>p. seq (refresh env p) (\<lambda>_. seq get_state (\<lambda>s. ret (health_matches s a)))"])
         (use IsAdmitted refreshing[of _ c] in \<open>simp_all add: health_is_admitted_def refreshed_def\<close>)
  next
    case (RecordSuccess env d l adm)
    have "entry_after (ht_policy tr) c s (snd (seq (lift_result (controls_circuit d (refreshed c (ht_policy tr) s) adm))
        (\<lambda>k. if probe_given adm \<and> \<not> k then ret False else (\<lambda>s. (Inr True, succeed env l adm k s)))
        (refreshed c (ht_policy tr) s)))" for s
      using succeeding[OF RecordSuccess refl] refreshing[of "ht_policy tr" c s]
      by (cases "controls_circuit d (refreshed c (ht_policy tr) s) adm") auto
    then show ?thesis
      by (intro on[of "\<lambda>p. seq (refresh env p) (\<lambda>_. seq get_state (\<lambda>s.
            seq (lift_result (controls_circuit d s adm)) (\<lambda>controls.
            if probe_given adm \<and> \<not> controls then ret False
            else (\<lambda>s. (Inr True, succeed env l adm controls s)))))"])
         (use RecordSuccess in \<open>simp_all add: health_record_success_def refreshed_def\<close>)
  next
    case (RecordFailure env d e l adm)
    have "entry_after (ht_policy tr) c s (snd (seq (lift_result (controls_circuit d (refreshed c (ht_policy tr) s) adm))
        (\<lambda>k. if probe_given adm \<and> \<not> k then ret () else (\<lambda>s. (Inr (), fail env (ht_policy tr) e l adm k s)))
        (refreshed c (ht_policy tr) s)))" for s
      using failing[OF RecordFailure refl] refreshing[of "ht_policy tr" c s]
      by (cases "controls_circuit d (refreshed c (ht_policy tr) s) adm") auto
    then show ?thesis
      by (intro on[of "\<lambda>p. seq (refresh env p) (\<lambda>_. seq get_state (\<lambda>s.
            seq (lift_result (controls_circuit d s adm)) (\<lambda>controls.
            if probe_given adm \<and> \<not> controls then ret ()
            else (\<lambda>s. (Inr (), fail env p e l adm controls s)))))"])
         (use RecordFailure in \<open>simp_all add: health_record_failure_def refreshed_def\<close>)
  qed
qed


subsection \<open>Invariant and reachable trackers\<close>

lemma entry_after_inv:
  assumes "entry_after p c s t" "entry_inv p s" "0 < cb_failure_threshold p" "health_legal c"
  shows "entry_inv p t"
proof -
  have r: "entry_inv p (refreshed c p s)" using assms(2) by (auto simp: refreshed_def)
  from assms(1) show ?thesis
    by (cases rule: entry_after.cases)
       (use assms(3,4) r in \<open>auto intro: entry_inv_claim entry_inv_succeed entry_inv_fail\<close>)
qed

lemma tracker_entry_inv: "tracker_inv tr \<Longrightarrow> entry_inv (ht_policy tr) (entry_of tr u d)"
  by (auto simp: tracker_inv_def entry_of_def CircuitBreakerPolicy_ok_def split: option.splits
      intro: entry_inv_fresh)

lemma health_step_inv:
  assumes "tracker_inv tr" "health_legal c"
  shows "tracker_inv (health_step c tr)"
proof (cases rule: health_step_effect[of c tr])
  case (changed t)
  have "entry_inv (ht_policy tr) t"
    using entry_after_inv[OF changed(3) tracker_entry_inv[OF assms(1)]] assms
    by (simp add: tracker_inv_def CircuitBreakerPolicy_ok_def)
  with assms(1) changed(1,2) show ?thesis by (auto simp: tracker_inv_def)
qed (use assms in simp)

interpretation health: call_machine health_step health_legal tracker_inv
  by unfold_locales (rule health_step_inv)

inductive tracker_reachable :: "CircuitBreakerPolicy \<Rightarrow> HealthTracker \<Rightarrow> bool" for p where
  start: "CircuitBreakerPolicy_ok p \<Longrightarrow> tracker_reachable p (tracker_init p)"
| call: "tracker_reachable p tr \<Longrightarrow> health_legal c \<Longrightarrow> tracker_reachable p (health_step c tr)"

lemma tracker_reachable_inv: "tracker_reachable p tr \<Longrightarrow> tracker_inv tr"
proof (induction rule: tracker_reachable.induct)
  case start
  then show ?case by (simp add: tracker_inv_def tracker_init_def)
qed (rule health.inv_step)

lemma tracker_reachable_run:
  "tracker_reachable p tr \<Longrightarrow> list_all health_legal cs \<Longrightarrow> tracker_reachable p (run_calls health_step tr cs)"
  by (induction cs arbitrary: tr) (auto intro: tracker_reachable.call)

subsection \<open>The abstract circuit breaker\<close>

inductive circuit_edge ::
  "CircuitBreakerPolicy \<Rightarrow> health_call \<Rightarrow> DeploymentHealth \<Rightarrow> CircuitState \<Rightarrow> CircuitState \<Rightarrow> bool"
  for p c s where
  stay: "circuit_edge p c s x x"
| cooled: "mh_opened_at s = Some opened \<Longrightarrow>
    fle (cb_cooldown_seconds p) (fsub (hv_now (call_env c)) opened) \<Longrightarrow> circuit_edge p c s OPEN HALF_OPEN"
| tripped: "c = RecordFailure env d e l adm \<Longrightarrow> is_transient_provider_error e \<Longrightarrow>
    cb_failure_threshold p \<le> mh_consecutive_transient_failures s + 1 \<Longrightarrow> circuit_edge p c s CLOSED OPEN"
| relapsed: "c = RecordFailure env d e l (Some a) \<Longrightarrow> is_transient_provider_error e \<Longrightarrow> is_probe a \<Longrightarrow>
    health_matches s a \<Longrightarrow> circuit_edge p c s HALF_OPEN OPEN"
| recovered: "c = RecordSuccess env d l (Some a) \<Longrightarrow> is_probe a \<Longrightarrow> health_matches s a \<Longrightarrow>
    circuit_edge p c s HALF_OPEN CLOSED"

lemma refreshed_circuit:
  assumes "entry_inv p s"
  shows "refreshed c p s = s \<or>
    (mh_circuit_state s = OPEN \<and> mh_circuit_state (refreshed c p s) = HALF_OPEN \<and>
      mh_probe_owner (refreshed c p s) = None \<and>
      (\<exists>opened. mh_opened_at s = Some opened \<and> fle (cb_cooldown_seconds p) (fsub (hv_now (call_env c)) opened))) \<or>
    (mh_circuit_state s = HALF_OPEN \<and> mh_circuit_state (refreshed c p s) = HALF_OPEN \<and>
      mh_probe_owner (refreshed c p s) = None)"
proof -
  let ?now = "hv_now (call_env c)" and ?u = "hv_refresh_uuid (call_env c)"
  from assms have i: "mh_probe_owner s = None \<longleftrightarrow> mh_probe_expires_at s = None"
    "mh_circuit_state s \<noteq> HALF_OPEN \<Longrightarrow> mh_probe_owner s = None"
    by (auto simp: entry_inv_def)
  show ?thesis
  proof (cases "mh_circuit_state s = HALF_OPEN")
    case True
    then have "refreshed c p s = s \<or> refreshed c p s = retire_probe ?u s"
      by (simp add: refreshed_def refresh_circuit_def cool_down_def Let_def)
    with True show ?thesis by (auto simp: retire_probe_def)
  next
    case False
    with i have e: "mh_probe_expires_at s = None" "mh_probe_owner s = None" by auto
    then have "refreshed c p s = cool_down p ?now s"
      by (simp add: refreshed_def refresh_circuit_def cool_down_def Let_def)
    with e show ?thesis by (auto simp: cool_down_def split: option.splits if_splits)
  qed
qed

lemma succeed_circuit:
  "mh_circuit_state (succeed env l adm k s) = (if k then CLOSED else mh_circuit_state s)"
  by (simp add: succeed_def Let_def retire_probe_def)

lemma fail_circuit:
  "mh_circuit_state (fail env p e l adm k s) =
     (if k \<and> is_transient_provider_error e \<and> (mh_circuit_state s = HALF_OPEN \<or>
          cb_failure_threshold p \<le> mh_consecutive_transient_failures s + 1)
      then OPEN else mh_circuit_state s)"
  by (auto simp: fail_def fail_permanent_def fail_transient_def count_transient_def Let_def retire_probe_def)

lemma entry_after_edge:
  assumes "entry_inv p s" "entry_after p c s t"
  shows "circuit_edge p c s (mh_circuit_state s) (mh_circuit_state t)"
proof -
  note rc = refreshed_circuit[OF assms(1), of c]
  have rinv: "entry_inv p (refreshed c p s)" using assms(1) by (auto simp: refreshed_def)
  have probe: "refreshed c p s = s \<and> (\<exists>a. adm = Some a \<and> is_probe a \<and> health_matches s a)"
    if "controls_circuit d (refreshed c p s) adm = Inr True" "mh_circuit_state (refreshed c p s) = HALF_OPEN" for d adm
    using that rc by (auto simp: controls_circuit_def health_matches_def split: option.splits if_splits)
  from rc have same: "circuit_edge p c s (mh_circuit_state s) (mh_circuit_state (refreshed c p s))"
    by (auto intro: stay cooled)
  from assms(2) show ?thesis
  proof (cases rule: entry_after.cases)
    case (succeeding env d l adm r k)
    show ?thesis
    proof (cases "k \<and> mh_circuit_state r = HALF_OPEN")
      case True
      with probe[of d adm] succeeding(3,4) obtain a where a: "refreshed c p s = s" "adm = Some a" "is_probe a"
        "health_matches s a" by auto
      with True succeeding recovered[of c env d l a] show ?thesis by (simp add: succeed_circuit)
    next
      case False
      with succeeding controls_probe[OF rinv] have "mh_circuit_state t = mh_circuit_state (refreshed c p s)"
        by (auto simp: succeed_circuit)
      with same show ?thesis by simp
    qed
  next
    case (failing env d e l adm r k)
    show ?thesis
    proof (cases "mh_circuit_state t = mh_circuit_state (refreshed c p s)")
      case False
      then have k: "k" "is_transient_provider_error e" "mh_circuit_state t = OPEN"
        "mh_circuit_state r = HALF_OPEN \<or> cb_failure_threshold p \<le> mh_consecutive_transient_failures r + 1"
        using failing by (auto simp: fail_circuit split: if_splits)
      show ?thesis
      proof (cases "mh_circuit_state r = HALF_OPEN")
        case True
        with probe[of d adm] failing(3,4) k(1) obtain a where a: "refreshed c p s = s" "adm = Some a" "is_probe a"
          "health_matches s a" by auto
        with True failing(1-3) k relapsed[of c env d e l a] show ?thesis by simp
      next
        case nh: False
        with k(1) failing controls_probe[OF rinv] have cl: "mh_circuit_state r = CLOSED" by auto
        with rc failing have "r = s" by auto
        with cl k nh tripped[of c env d e l adm] failing(2) show ?thesis by simp
      qed
    qed (use same in simp)
  qed (use same in \<open>auto simp: claim_probe_def retire_probe_def\<close>)
qed


subsection \<open>Reports on a closed circuit\<close>

lemma closed_refresh:
  "entry_inv p s \<Longrightarrow> mh_circuit_state s = CLOSED \<Longrightarrow> refresh_circuit p now u s = s"
  by (auto simp: refresh_circuit_def cool_down_def entry_inv_def Let_def split: option.splits)

lemma open_refresh:
  "entry_inv p s \<Longrightarrow> mh_circuit_state s = OPEN \<Longrightarrow> mh_opened_at s = Some opened \<Longrightarrow>
   \<not> fle (cb_cooldown_seconds p) (fsub now opened) \<Longrightarrow> refresh_circuit p now u s = s"
  by (auto simp: refresh_circuit_def cool_down_def entry_inv_def Let_def split: option.splits)

lemma open_refuses:
  assumes "tracker_inv tr" "ht_states tr d = Some x" "mh_circuit_state x = OPEN" "mh_opened_at x = Some opened"
    "\<not> fle (cb_cooldown_seconds (ht_policy tr)) (fsub (hv_now env) opened)"
    "health_attempt_id (hv_owner env) attempt = Inr owner"
  shows "health_allow_request env d attempt tr = (Inr None, tr)"
proof -
  have "normalized d" "entry_inv (ht_policy tr) x" using assms(1,2) by (auto simp: tracker_inv_def)
  with open_refresh[OF _ assms(3,4,5)] assms(2,3,6) show ?thesis
    by (simp add: health_allow_request_def on_state_def entry_of_def allow_body_def map_upd_triv)
qed

subsection \<open>Recovery\<close>

lemma cooled_refresh:
  "entry_inv p s \<Longrightarrow> mh_circuit_state s = OPEN \<Longrightarrow> mh_opened_at s = Some opened \<Longrightarrow>
   fle (cb_cooldown_seconds p) (fsub now opened) \<Longrightarrow>
   refresh_circuit p now u s = s\<lparr>mh_circuit_state := HALF_OPEN\<rparr>"
  by (auto simp: refresh_circuit_def cool_down_def entry_inv_def Let_def split: option.splits)

definition recovery_probe :: "health_env \<Rightarrow> CircuitBreakerPolicy \<Rightarrow> string \<Rightarrow> string \<Rightarrow> HealthAdmission" where
  "recovery_probe env p d owner = \<lparr>ha_deployment_id = d, ha_attempt_id = owner,
     ha_generation = uuid_hex (hv_claim_uuid env), ha_probe_timeout_seconds =
       Some (fsub (fadd (hv_claim_now env) (cb_probe_lease_seconds p)) (hv_admit_now env))\<rparr>"

lemma cooled_admits:
  assumes "tracker_inv tr" "ht_states tr d = Some x" "mh_circuit_state x = OPEN" "mh_opened_at x = Some opened"
    "fle (cb_cooldown_seconds (ht_policy tr)) (fsub (hv_now env) opened)"
    "health_attempt_id (hv_owner env) attempt = Inr owner"
    "fin_pos (fsub (fadd (hv_claim_now env) (cb_probe_lease_seconds (ht_policy tr))) (hv_admit_now env))"
  shows "health_allow_request env d attempt tr = (Inr (Some (recovery_probe env (ht_policy tr) d owner)),
    tr\<lparr>ht_states := (ht_states tr)(d \<mapsto>
      claim_probe env (ht_policy tr) owner (x\<lparr>mh_circuit_state := HALF_OPEN\<rparr>))\<rparr>)"
proof -
  have nd: "normalized d" and inv: "entry_inv (ht_policy tr) x" using assms(1,2) by (auto simp: tracker_inv_def)
  have owner: "mh_probe_owner x = None" using inv assms(3) by (auto simp: entry_inv_def)
  have ok: "HealthAdmission_ok (recovery_probe env (ht_policy tr) d owner)"
    using nd assms(7) attempt_id_ok[OF assms(6)] by (simp add: HealthAdmission_ok_def recovery_probe_def owner_id_ok_def)
  show ?thesis
    using nd owner ok assms(2,6) cooled_refresh[OF inv assms(3-5)]
    by (simp add: health_allow_request_def on_state_def entry_of_def allow_body_def claim_probe_def
        seq_checked recovery_probe_def)
qed


subsection \<open>Counting failures\<close>

text \<open>
  A report counts against a closed circuit of generation \<open>g\<close> when it is a transient failure that
  carries no admission, or a plain admission of that generation. Reports with an admission of
  another generation, or of a probe, and calls other than reports do not change a closed circuit.
\<close>

fun counted :: "string \<Rightarrow> string \<Rightarrow> health_call \<Rightarrow> bool" where
  "counted d g (RecordFailure env d' e l adm) \<longleftrightarrow> d' = d \<and> is_transient_provider_error e \<and>
     (case adm of None \<Rightarrow> True | Some a \<Rightarrow> ha_deployment_id a = d \<and> ha_generation a = g \<and> \<not> is_probe a)"
| "counted d g _ \<longleftrightarrow> False"

definition stale :: "string \<Rightarrow> HealthAdmission option \<Rightarrow> bool" where
  "stale g adm \<longleftrightarrow> (case adm of None \<Rightarrow> False | Some a \<Rightarrow> ha_generation a \<noteq> g \<or> is_probe a)"

fun neutral :: "string \<Rightarrow> string \<Rightarrow> health_call \<Rightarrow> bool" where
  "neutral d g (RecordSuccess env d' l adm) \<longleftrightarrow> d' \<noteq> d \<or> stale g adm"
| "neutral d g (RecordFailure env d' e l adm) \<longleftrightarrow> d' \<noteq> d \<or> stale g adm"
| "neutral d g _ \<longleftrightarrow> True"

lemmas health_updates = succeed_def fail_def fail_permanent_def fail_transient_def count_transient_def Let_def
  retire_probe_def claim_probe_def

lemma health_step_policy [simp]: "ht_policy (health_step c tr) = ht_policy tr"
  by (cases rule: health_step_effect[of c tr]) simp_all

lemma closed_refreshed: "entry_inv p s \<Longrightarrow> mh_circuit_state s = CLOSED \<Longrightarrow> refreshed c p s = s"
  by (simp add: refreshed_def closed_refresh)

lemma neutral_step:
  assumes "tracker_inv tr" "ht_states tr d = Some s" "mh_circuit_state s = CLOSED" "neutral d (mh_generation s) c"
  obtains t where "ht_states (health_step c tr) d = Some t" "mh_circuit_state t = CLOSED"
    "mh_generation t = mh_generation s" "mh_consecutive_transient_failures t = mh_consecutive_transient_failures s"
proof (cases rule: health_step_effect[of c tr])
  case (changed t)
  show thesis
  proof (cases "call_deployment c = d")
    case True
    have inv: "entry_inv (ht_policy tr) s" using assms(1,2) by (auto simp: tracker_inv_def)
    note r = closed_refreshed[OF inv assms(3)]
    have off: "\<not> k" if "controls_circuit d s adm = Inr k" "stale (mh_generation s) adm" for adm k
      using that assms(3) by (auto simp: controls_circuit_def health_matches_def stale_def split: option.splits if_splits)
    have "entry_after (ht_policy tr) c s t" using changed(3) True assms(2) by (simp add: entry_of_def)
    then have "mh_circuit_state t = CLOSED \<and> mh_generation t = mh_generation s \<and>
        mh_consecutive_transient_failures t = mh_consecutive_transient_failures s"
    proof (cases rule: entry_after.cases)
      case (succeeding env d' l adm q k)
      with off[of adm k] r assms(3,4) True show ?thesis by (auto simp: health_updates)
    next
      case (failing env d' e l adm q k)
      with off[of adm k] r assms(3,4) True show ?thesis
        by (auto simp: health_updates)
    qed (use r assms(3) in \<open>auto simp: health_matches_def\<close>)
    with changed(1) True that show thesis by simp
  qed (use changed(1) assms(2,3) that in simp)
qed (use assms that in simp)

lemma counted_step:
  assumes "tracker_inv tr" "ht_states tr d = Some s" "mh_circuit_state s = CLOSED" "counted d (mh_generation s) c"
  obtains e l adm where "ht_states (health_step c tr) d = Some (fail (call_env c) (ht_policy tr) e l adm True s)"
    "is_transient_provider_error e" "\<not> probe_given adm"
proof -
  from assms(4) obtain env e l adm where c: "c = RecordFailure env d e l adm" "is_transient_provider_error e"
    "adm = None \<or> (\<exists>a. adm = Some a \<and> ha_deployment_id a = d \<and> ha_generation a = mh_generation s \<and> \<not> is_probe a)"
    by (cases "(d, mh_generation s, c)" rule: counted.cases) (auto split: option.splits)
  have inv: "entry_inv (ht_policy tr) s" and nd: "normalized d" using assms(1,2) by (auto simp: tracker_inv_def)
  have k: "controls_circuit d s adm = Inr True" "\<not> probe_given adm"
    using c(3) assms(3) by (auto simp: controls_circuit_def health_matches_def probe_given_def)
  have "ht_states (health_step c tr) d = Some (fail env (ht_policy tr) e l adm True s)"
    using nd assms(2) k closed_refresh[OF inv assms(3)] c(1)
    by (simp add: health_record_failure_def on_state_def entry_of_def)
  then show thesis using that[of e l adm] c(1,2) k(2) by simp
qed

lemma failure_counts:
  assumes "is_transient_provider_error e" "mh_circuit_state s = CLOSED"
  shows "mh_consecutive_transient_failures (fail env p e l adm True s) =
      mh_consecutive_transient_failures s + 1"
    "mh_circuit_state (fail env p e l adm True s) =
      (if cb_failure_threshold p \<le> mh_consecutive_transient_failures s + 1 then OPEN else CLOSED)"
    "cb_failure_threshold p \<le> mh_consecutive_transient_failures s + 1 \<Longrightarrow>
      mh_opened_at (fail env p e l adm True s) = Some (hv_open_now env)"
    "mh_consecutive_transient_failures s + 1 < cb_failure_threshold p \<Longrightarrow>
      mh_generation (fail env p e l adm True s) = mh_generation s"
  using assms
  by (auto simp: fail_circuit) (auto simp: fail_def fail_transient_def count_transient_def Let_def retire_probe_def)

abbreviation quiet :: "string \<Rightarrow> string \<Rightarrow> health_call \<Rightarrow> bool" where
  "quiet d g c \<equiv> health_legal c \<and> (neutral d g c \<or> counted d g c)"

lemma counted_not_neutral: "counted d g c \<Longrightarrow> \<not> neutral d g c"
  by (cases "(d, g, c)" rule: counted.cases) (auto simp: stale_def split: option.splits)

text \<open>Below the threshold the circuit stays closed, in the same generation, and counts.\<close>

lemma failures_counted:
  assumes "tracker_inv tr" "ht_states tr d = Some s" "mh_circuit_state s = CLOSED"
    "list_all (quiet d (mh_generation s)) cs"
    "mh_consecutive_transient_failures s + int (length (filter (counted d (mh_generation s)) cs)) < cb_failure_threshold (ht_policy tr)"
  shows "\<exists>x. ht_states (run_calls health_step tr cs) d = Some x \<and> mh_circuit_state x = CLOSED \<and>
    mh_generation x = mh_generation s \<and> mh_consecutive_transient_failures x =
      mh_consecutive_transient_failures s + int (length (filter (counted d (mh_generation s)) cs))"
  using assms
proof (induction cs arbitrary: tr s)
  case (Cons c cs)
  have inv: "tracker_inv (health_step c tr)" by (rule health.inv_step[OF Cons.prems(1)]) (use Cons.prems(4) in simp)
  show ?case
  proof (cases "counted d (mh_generation s) c")
    case True
    obtain e l adm where f: "ht_states (health_step c tr) d = Some (fail (call_env c) (ht_policy tr) e l adm True s)"
      "is_transient_provider_error e" by (rule counted_step[OF Cons.prems(1-3) True])
    note fc = failure_counts[OF f(2) Cons.prems(3), where env = "call_env c" and p = "ht_policy tr" and l = l and adm = adm]
    have below: "mh_consecutive_transient_failures s + 1 < cb_failure_threshold (ht_policy tr)"
      using Cons.prems(5) True by simp
    with fc have "mh_circuit_state (fail (call_env c) (ht_policy tr) e l adm True s) = CLOSED"
      "mh_generation (fail (call_env c) (ht_policy tr) e l adm True s) = mh_generation s" by simp_all
    with Cons.IH[OF inv f(1)] Cons.prems(4,5) True fc(1) show ?thesis by (simp add: algebra_simps)
  next
    case False
    then have "neutral d (mh_generation s) c" using Cons.prems(4) by simp
    then obtain t where t: "ht_states (health_step c tr) d = Some t" "mh_circuit_state t = CLOSED"
      "mh_generation t = mh_generation s" "mh_consecutive_transient_failures t = mh_consecutive_transient_failures s"
      by (rule neutral_step[OF Cons.prems(1-3)])
    from Cons.IH[OF inv t(1,2)] Cons.prems(4,5) t(3,4) False show ?thesis by simp
  qed
qed simp

lemma run_policy [simp]: "ht_policy (run_calls health_step tr cs) = ht_policy tr"
  by (induction cs arbitrary: tr) simp_all

text \<open>A closed circuit admits, with its generation and no lease.\<close>

lemma closed_admits:
  assumes "tracker_inv tr" "ht_states tr d = Some s" "mh_circuit_state s = CLOSED"
  shows "\<exists>a. health_allow_request env d None tr = (Inr (Some a), tr) \<and> ha_deployment_id a = d \<and>
    ha_generation a = mh_generation s \<and> \<not> is_probe a"
proof -
  have inv: "entry_inv (ht_policy tr) s" and nd: "normalized d" using assms(1,2) by (auto simp: tracker_inv_def)
  have ok: "HealthAdmission_ok \<lparr>ha_deployment_id = d, ha_attempt_id = uuid_hex (hv_owner env),
      ha_generation = mh_generation s, ha_probe_timeout_seconds = None\<rparr>"
    using nd inv by (simp add: HealthAdmission_ok_def entry_inv_def owner_id_ok_def)
  with nd assms(2,3) closed_refresh[OF inv assms(3)] show ?thesis
    by (simp add: health_allow_request_def health_attempt_id_def on_state_def entry_of_def allow_body_def
        seq_checked is_probe_def map_upd_triv)
qed

lemma prefix_closed:
  assumes "tracker_inv tr" "ht_states tr d = Some s" "mh_circuit_state s = CLOSED"
    "list_all (quiet d (mh_generation s)) pre"
    "mh_consecutive_transient_failures s + int (length (filter (counted d (mh_generation s)) pre)) < cb_failure_threshold (ht_policy tr)"
  shows "tracker_inv (run_calls health_step tr (take k pre))"
    "\<exists>x. ht_states (run_calls health_step tr (take k pre)) d = Some x \<and> mh_circuit_state x = CLOSED \<and>
      mh_generation x = mh_generation s"
proof -
  have q: "list_all (quiet d (mh_generation s)) (take k pre)"
    using assms(4) by (auto simp: list_all_iff dest: in_set_takeD)
  then have "list_all health_legal (take k pre)" by (simp add: list_all_iff)
  then show "tracker_inv (run_calls health_step tr (take k pre))" by (rule health.run_inv[OF assms(1)])
  have "length (filter (counted d (mh_generation s)) (take k pre)) \<le> length (filter (counted d (mh_generation s)) pre)"
    by (metis append_take_drop_id filter_append le_add1 length_append)
  with failures_counted[OF assms(1-3) q] assms(5)
  show "\<exists>x. ht_states (run_calls health_step tr (take k pre)) d = Some x \<and> mh_circuit_state x = CLOSED \<and>
      mh_generation x = mh_generation s" by auto
qed

lemma threshold_trips:
  assumes "tracker_inv tr" "ht_states tr d = Some s" "mh_circuit_state s = CLOSED"
    "list_all (quiet d (mh_generation s)) pre" "counted d (mh_generation s) c" "health_legal c"
    "mh_consecutive_transient_failures s + int (length (filter (counted d (mh_generation s)) pre)) + 1 = cb_failure_threshold (ht_policy tr)"
  shows "\<exists>x. ht_states (run_calls health_step tr (pre @ [c])) d = Some x \<and> mh_circuit_state x = OPEN \<and>
    mh_opened_at x = Some (hv_open_now (call_env c))"
    "tracker_inv (run_calls health_step tr (pre @ [c]))"
proof -
  let ?t = "run_calls health_step tr pre"
  have inv: "tracker_inv ?t" using health.run_inv[OF assms(1)] assms(4) by (simp add: list_all_iff)
  obtain x where x: "ht_states ?t d = Some x" "mh_circuit_state x = CLOSED" "mh_generation x = mh_generation s"
    "mh_consecutive_transient_failures x + 1 = cb_failure_threshold (ht_policy tr)"
    using failures_counted[OF assms(1-4)] assms(7) by auto
  obtain e l adm where f: "ht_states (health_step c ?t) d = Some (fail (call_env c) (ht_policy ?t) e l adm True x)"
    "is_transient_provider_error e"
    by (rule counted_step[OF inv x(1,2) assms(5)[folded x(3)]])
  from failure_counts(2,3)[OF f(2) x(2), where p = "ht_policy tr" and env = "call_env c" and l = l and adm = adm] x(4) f(1)
  show "\<exists>x. ht_states (run_calls health_step tr (pre @ [c])) d = Some x \<and> mh_circuit_state x = OPEN \<and>
    mh_opened_at x = Some (hv_open_now (call_env c))" by simp
  show "tracker_inv (run_calls health_step tr (pre @ [c]))" using health.inv_step[OF inv assms(6)] by simp
qed

subsection \<open>Fencing of recovery probes\<close>

text \<open>
  A probe is identified by its deployment, attempt and generation. It is over once it reports,
  is released, or a later call on its deployment reads a clock at or past its lease.
\<close>

definition same_probe :: "HealthAdmission \<Rightarrow> HealthAdmission \<Rightarrow> bool" where
  "same_probe a b \<longleftrightarrow> is_probe b \<and> ha_deployment_id b = ha_deployment_id a \<and> ha_attempt_id b = ha_attempt_id a \<and>
     ha_generation b = ha_generation a"

fun reports :: "HealthAdmission \<Rightarrow> health_call \<Rightarrow> bool" where
  "reports a (ReleaseRequest env b) \<longleftrightarrow> same_probe a b"
| "reports a (RecordSuccess env d l (Some b)) \<longleftrightarrow> same_probe a b"
| "reports a (RecordFailure env d e l (Some b)) \<longleftrightarrow> same_probe a b"
| "reports a _ \<longleftrightarrow> False"

definition retires :: "HealthAdmission \<Rightarrow> pyfloat \<Rightarrow> health_call \<Rightarrow> bool" where
  "retires a lease c \<longleftrightarrow> accepted c \<and> call_deployment c = ha_deployment_id a \<and>
     (reports a c \<or> fle lease (hv_now (call_env c)))"

text \<open>The generation of a probe is not drawn again (\<open>uuid4\<close> identifiers are unique).\<close>

definition fresh_for :: "HealthAdmission \<Rightarrow> health_env \<Rightarrow> bool" where
  "fresh_for a env \<longleftrightarrow> ha_generation a \<notin>
     {uuid_hex (hv_refresh_uuid env), uuid_hex (hv_claim_uuid env), uuid_hex (hv_retire_uuid env)}"

definition fenced :: "HealthAdmission \<Rightarrow> pyfloat \<Rightarrow> DeploymentHealth \<Rightarrow> bool" where
  "fenced a lease s \<longleftrightarrow> (mh_generation s = ha_generation a \<longrightarrow> mh_circuit_state s = HALF_OPEN \<and>
     mh_probe_owner s = Some (ha_attempt_id a) \<and> mh_probe_expires_at s = Some lease)"

lemma cool_down_keeps [simp]:
  "mh_generation (cool_down p now s) = mh_generation s" "mh_probe_owner (cool_down p now s) = mh_probe_owner s"
  "mh_probe_expires_at (cool_down p now s) = mh_probe_expires_at s"
  "mh_circuit_state s = HALF_OPEN \<Longrightarrow> cool_down p now s = s"
  by (simp_all add: cool_down_def)

lemma fenced_refresh:
  assumes "fenced a lease s" "ha_generation a \<noteq> uuid_hex u"
  shows "fenced a lease (refresh_circuit p now u s)"
    "mh_generation (refresh_circuit p now u s) = ha_generation a \<longleftrightarrow>
      mh_generation s = ha_generation a \<and> \<not> fle lease now"
    "mh_generation (refresh_circuit p now u s) = ha_generation a \<Longrightarrow> refresh_circuit p now u s = s"
  using assms by (auto simp: fenced_def refresh_circuit_def Let_def retire_probe_def)

lemmas fenced_refreshed = fenced_refresh[where now = "hv_now (call_env c)" and u = "hv_refresh_uuid (call_env c)" for c,
  folded refreshed_def]

text \<open>A call keeps the generation it finds, or installs an identifier it draws.\<close>

lemma fenced_after:
  assumes "entry_after p c s t" "entry_inv p s" "fenced a lease s" "fresh_for a (call_env c)"
  shows "fenced a lease t \<and> (mh_generation t = ha_generation a \<longrightarrow> mh_generation (refreshed c p s) = ha_generation a)"
proof -
  let ?r = "refreshed c p s"
  have r: "fenced a lease ?r" using fenced_refreshed(1)[OF assms(3)] assms(4) by (auto simp: fresh_for_def)
  have inv: "entry_inv p ?r" using assms(2) by (auto simp: refreshed_def)
  have fresh: "ha_generation a \<noteq> uuid_hex (hv_claim_uuid (call_env c))" "ha_generation a \<noteq> uuid_hex (hv_retire_uuid (call_env c))"
    using assms(4) by (auto simp: fresh_for_def)
  from assms(1) show ?thesis
  proof (cases rule: entry_after.cases)
    case (succeeding env d l adm q k)
    with controls_probe[OF inv, of d adm] r fresh show ?thesis
      by (cases "k \<and> \<not> probe_given adm") (auto simp: fenced_def health_updates)
  next
    case (failing env d e l adm q k)
    with controls_probe[OF inv, of d adm] r fresh show ?thesis
      by (cases k; cases "probe_given adm") (auto simp: fenced_def health_updates)
  qed (use r fresh in \<open>auto simp: fenced_def health_updates\<close>)
qed

text \<open>Only the probe itself and the clock can end it.\<close>

lemma probe_kept:
  assumes "entry_after p c s t" "fenced a lease s" "mh_generation s = ha_generation a" "ha_deployment_id a = call_deployment c"
    "fresh_for a (call_env c)" "\<not> fle lease (hv_now (call_env c))" "\<not> reports a c"
  shows "mh_generation t = ha_generation a"
proof -
  have gen: "mh_generation (refreshed c p s) = ha_generation a"
    using fenced_refreshed(2)[OF assms(2), of c p] assms(3,5,6) by (auto simp: fresh_for_def)
  then have r: "refreshed c p s = s"
    using fenced_refreshed(3)[OF assms(2), of c p] assms(5) by (auto simp: fresh_for_def)
  have own: "mh_circuit_state s = HALF_OPEN" "mh_probe_owner s = Some (ha_attempt_id a)"
    using assms(2,3) by (auto simp: fenced_def)
  have no: "\<not> k" if "controls_circuit (call_deployment c) s adm = Inr k" "reports a c \<longleftrightarrow> (\<exists>b. adm = Some b \<and> same_probe a b)" for adm k
    using that assms(3,4,7) own
    by (auto simp: controls_circuit_def health_matches_def same_probe_def split: option.splits if_splits)
  from assms(1) show ?thesis
  proof (cases rule: entry_after.cases)
    case (releasing env b q)
    with r assms(3,4,7) own show ?thesis by (auto simp: health_matches_def same_probe_def)
  next
    case (succeeding env d l adm q k)
    with no[of adm k] r have "\<not> k" by (cases adm) auto
    with succeeding r assms(3) show ?thesis by (simp add: health_updates)
  next
    case (failing env d e l adm q k)
    with no[of adm k] r have "\<not> k" by (cases adm) auto
    with failing r assms(3) show ?thesis by (simp add: health_updates)
  qed (use r own assms(3) in auto)
qed

lemma reported_over:
  assumes "normalized d" "ht_states tr d = Some s" "fenced a lease s" "fresh_for a (call_env c)"
    "d = ha_deployment_id a" "call_deployment c = d" "reports a c"
  shows "\<exists>t. ht_states (health_step c tr) d = Some t \<and> mh_generation t \<noteq> ha_generation a"
proof -
  let ?r = "refreshed c (ht_policy tr) s"
  have r: "fenced a lease ?r" using fenced_refreshed(1)[OF assms(3)] assms(4) by (auto simp: fresh_for_def)
  have fresh: "ha_generation a \<noteq> uuid_hex (hv_retire_uuid (call_env c))" using assms(4) by (auto simp: fresh_for_def)
  have m: "health_matches ?r b \<longleftrightarrow> mh_generation ?r = ha_generation a" "mh_generation ?r = ha_generation a \<Longrightarrow> mh_circuit_state ?r = HALF_OPEN"
    if "same_probe a b" for b
    using that r by (auto simp: health_matches_def fenced_def same_probe_def)
  from assms(7) show ?thesis
  proof (cases "(a, c)" rule: reports.cases)
    case (1 a' env b)
    with assms m[of b] fresh show ?thesis
      by (auto simp: health_release_request_def on_state_def entry_of_def refreshed_def same_probe_def retire_probe_def)
  next
    case (2 a' env d' l b)
    with assms m[of b] fresh show ?thesis
      by (auto simp: health_record_success_def on_state_def entry_of_def refreshed_def same_probe_def
          controls_circuit_def probe_given_def health_updates)
  next
    case (3 a' env d' e l b)
    with assms m[of b] fresh show ?thesis
      by (auto simp: health_record_failure_def on_state_def entry_of_def refreshed_def same_probe_def
          controls_circuit_def probe_given_def health_updates)
  qed auto
qed

lemma fenced_step:
  assumes "tracker_inv tr" "ht_states tr d = Some s" "fenced a lease s" "fresh_for a (call_env c)" "d = ha_deployment_id a"
  shows "\<exists>t. ht_states (health_step c tr) d = Some t \<and> fenced a lease t \<and>
    (mh_generation t = ha_generation a \<longleftrightarrow> mh_generation s = ha_generation a \<and> \<not> retires a lease c)"
proof (cases rule: health_step_effect[of c tr])
  case unchanged
  with assms(2,3) show ?thesis by (auto simp: retires_def)
next
  case (changed t)
  show ?thesis
  proof (cases "call_deployment c = d")
    case True
    have inv: "entry_inv (ht_policy tr) s" and nd: "normalized d" using assms(1,2) by (auto simp: tracker_inv_def)
    have ea: "entry_after (ht_policy tr) c s t" using changed(3) True assms(2) by (simp add: entry_of_def)
    have t: "ht_states (health_step c tr) d = Some t" using changed(1) True by simp
    note f = fenced_after[OF ea inv assms(3,4)]
    have lost: "mh_generation (refreshed c (ht_policy tr) s) = ha_generation a \<longleftrightarrow>
        mh_generation s = ha_generation a \<and> \<not> fle lease (hv_now (call_env c))"
      using fenced_refreshed(2)[OF assms(3)] assms(4) by (auto simp: fresh_for_def)
    have "mh_generation t \<noteq> ha_generation a" if "reports a c"
      using reported_over[OF nd assms(2-5) True that] t by simp
    moreover have "mh_generation t = ha_generation a"
      if "mh_generation s = ha_generation a" "\<not> reports a c" "\<not> fle lease (hv_now (call_env c))"
      using probe_kept[OF ea assms(3) that(1) _ assms(4) that(3,2)] True assms(5) by simp
    ultimately show ?thesis using t f lost True assms(5) changed(4) by (auto simp: retires_def)
  next
    case False
    then show ?thesis using changed(1) assms(2,3,5) by (auto simp: retires_def)
  qed
qed

lemma fenced_run:
  assumes "tracker_inv tr" "ht_states tr d = Some s" "fenced a lease s" "d = ha_deployment_id a"
    "list_all (\<lambda>c. health_legal c \<and> fresh_for a (call_env c)) cs"
  shows "\<exists>t. ht_states (run_calls health_step tr cs) d = Some t \<and> fenced a lease t \<and>
    (mh_generation t = ha_generation a \<longleftrightarrow> mh_generation s = ha_generation a \<and> \<not> list_ex (retires a lease) cs)"
  using assms
proof (induction cs arbitrary: tr s)
  case (Cons c cs)
  obtain t where t: "ht_states (health_step c tr) d = Some t" "fenced a lease t"
    "mh_generation t = ha_generation a \<longleftrightarrow> mh_generation s = ha_generation a \<and> \<not> retires a lease c"
    using fenced_step[OF Cons.prems(1-3) _ Cons.prems(4), of c] Cons.prems(5) by auto
  have "tracker_inv (health_step c tr)" by (rule health.inv_step[OF Cons.prems(1)]) (use Cons.prems(5) in simp)
  from Cons.IH[OF this t(1,2) Cons.prems(4)] Cons.prems(5) t(3) show ?case by auto
qed simp

text \<open>The probe that \<open>allow_request\<close> hands out is the one its entry records.\<close>

lemma granted_probe:
  assumes "health_allow_request env d attempt tr = (Inr (Some a), t)" "is_probe a"
  obtains s lease where "ht_states t d = Some s" "mh_probe_expires_at s = Some lease" "fenced a lease s"
    "mh_generation s = ha_generation a" "ha_deployment_id a = d"
proof -
  obtain owner where o: "health_attempt_id (hv_owner env) attempt = Inr owner"
    using assms(1) by (cases "health_attempt_id (hv_owner env) attempt") (auto simp: health_allow_request_def)
  let ?r = "refresh_circuit (ht_policy tr) (hv_now env) (hv_refresh_uuid env) (entry_of tr (hv_initial env) d)"
  let ?s = "if mh_probe_owner ?r = None then claim_probe env (ht_policy tr) owner ?r else ?r"
  have h: "mh_circuit_state ?r = HALF_OPEN" "mh_probe_owner ?r = None \<or> mh_probe_owner ?r = Some owner" "normalized d"
    using assms o by (auto simp: health_allow_request_def on_state_def allow_body_def checked_def is_probe_def
        split: if_splits option.splits prod.splits) (cases "mh_circuit_state ?r"; auto)+
  obtain lease where e: "mh_probe_expires_at ?s = Some lease"
    using assms(1) o h by (cases "mh_probe_expires_at ?s")
      (auto simp: health_allow_request_def on_state_def allow_body_def split: if_splits)
  have "ht_states t d = Some ?s" and "mh_generation ?s = ha_generation a \<and> ha_deployment_id a = d \<and> ha_attempt_id a = owner"
    using assms(1) o h e by (auto simp: health_allow_request_def on_state_def allow_body_def checked_def
        split: if_splits option.splits prod.splits)
  with e h show thesis
    by (intro that[of ?s lease]) (auto simp: fenced_def claim_probe_def)
qed

text \<open>What a late holder can still do: nothing but the refresh every call performs.\<close>

lemma over_is_inert:
  assumes "tracker_inv tr" "ht_states tr d = Some s" "fenced a lease s" "d = ha_deployment_id a" "is_probe a"
    "fresh_for a env" "mh_generation s \<noteq> ha_generation a \<or> fle lease (hv_now env)"
  defines "u \<equiv> snd (health_snapshot env d tr)"
  shows "health_is_admitted env a tr = (Inr False, u)" "health_record_success env d l (Some a) tr = (Inr False, u)"
    "health_record_failure env d e l (Some a) tr = (Inr (), u)" "health_release_request env a tr = (Inr (), u)"
proof -
  have nd: "normalized d" using assms(1,2) by (auto simp: tracker_inv_def)
  have "mh_generation (refresh_circuit (ht_policy tr) (hv_now env) (hv_refresh_uuid env) s) \<noteq> ha_generation a"
    using fenced_refresh(2)[OF assms(3)] assms(6,7) by (auto simp: fresh_for_def)
  then have m: "\<not> health_matches (refresh_circuit (ht_policy tr) (hv_now env) (hv_refresh_uuid env) s) a"
    by (simp add: health_matches_def)
  have u: "u = tr\<lparr>ht_states := (ht_states tr)(d \<mapsto> refresh_circuit (ht_policy tr) (hv_now env) (hv_refresh_uuid env) s)\<rparr>"
    using nd assms(2) by (simp add: u_def health_snapshot_def on_state_def entry_of_def split: prod.splits) (metis checked_state(1) snd_conv)
  show "health_is_admitted env a tr = (Inr False, u)" "health_release_request env a tr = (Inr (), u)"
    using nd m assms(2,4) u by (simp_all add: health_is_admitted_def health_release_request_def on_state_def entry_of_def)
  show "health_record_success env d l (Some a) tr = (Inr False, u)" "health_record_failure env d e l (Some a) tr = (Inr (), u)"
    using nd m assms(2,4,5) u by (simp_all add: health_record_success_def health_record_failure_def on_state_def entry_of_def
        controls_circuit_def probe_given_def)
qed

lemma held_is_exclusive:
  assumes "tracker_inv tr" "ht_states tr d = Some s" "fenced a lease s" "d = ha_deployment_id a" "is_probe a"
    "mh_generation s = ha_generation a" "\<not> fle lease (hv_now env)"
  shows "health_is_admitted env a tr = (Inr True, tr)" "fst (health_record_success env d l (Some a) tr) = Inr True"
    "owner_id_ok other \<Longrightarrow> other \<noteq> ha_attempt_id a \<Longrightarrow> health_allow_request env d (Some other) tr = (Inr None, tr)"
proof -
  have nd: "normalized d" using assms(1,2) by (auto simp: tracker_inv_def)
  have own: "mh_circuit_state s = HALF_OPEN" "mh_probe_owner s = Some (ha_attempt_id a)" "mh_probe_expires_at s = Some lease"
    using assms(3,6) by (auto simp: fenced_def)
  then have r: "refresh_circuit p (hv_now env) u s = s" for p u
    using assms(7) by (simp add: refresh_circuit_def)
  have m: "health_matches s a" using own assms(5,6) by (simp add: health_matches_def)
  show "health_is_admitted env a tr = (Inr True, tr)"
    using nd m r assms(2,4) by (simp add: health_is_admitted_def on_state_def entry_of_def map_upd_triv)
  show "fst (health_record_success env d l (Some a) tr) = Inr True"
    using nd m r assms(2,4) by (simp add: health_record_success_def on_state_def entry_of_def controls_circuit_def)
  show "health_allow_request env d (Some other) tr = (Inr None, tr)" if "owner_id_ok other" "other \<noteq> ha_attempt_id a"
    using that nd own r assms(2) by (simp add: health_allow_request_def health_attempt_id_def owner_id_ok_def on_state_def
        entry_of_def allow_body_def map_upd_triv)
qed

subsection \<open>A concrete breaker\<close>

definition sample_policy :: CircuitBreakerPolicy where
  "sample_policy = \<lparr>cb_failure_threshold = 2, cb_cooldown_seconds = Fin 30, cb_probe_lease_seconds = Fin 60\<rparr>"

definition sample_health_env :: "int \<Rightarrow> health_env" where
  "sample_health_env t = \<lparr>hv_owner = 1, hv_initial = 2, hv_now = Fin t, hv_refresh_uuid = 3, hv_claim_uuid = 4,
     hv_claim_now = Fin t, hv_admit_now = Fin t, hv_open_now = Fin t, hv_retire_uuid = 5\<rparr>"

definition sample_timeout :: ProviderError where
  "sample_timeout = \<lparr>pe_provider = ''vendor'', pe_code = TIMEOUT, pe_retryable = True,
     pe_status_code = None, pe_retry_after_seconds = None\<rparr>"

abbreviation sample_failures :: "nat \<Rightarrow> health_call list" where
  "sample_failures n \<equiv> replicate n (RecordFailure (sample_health_env 10) ''model-a'' sample_timeout 5 None)"

definition tripped_tracker :: HealthTracker where
  "tripped_tracker = run_calls health_step (tracker_init sample_policy) (sample_failures 2)"

definition probing_tracker :: HealthTracker where
  "probing_tracker = health_step (AllowRequest (sample_health_env 50) ''model-a'' (Some ''attempt-1'')) tripped_tracker"

lemma sample_policy_ok: "CircuitBreakerPolicy_ok sample_policy"
  by code_simp

lemma tripped_reachable: "tracker_reachable sample_policy tripped_tracker"
  unfolding tripped_tracker_def
  by (rule tracker_reachable_run[OF tracker_reachable.start[OF sample_policy_ok]]) (simp add: list_all_iff)

lemma probing_reachable: "tracker_reachable sample_policy probing_tracker"
  unfolding probing_tracker_def by (rule tracker_reachable.call[OF tripped_reachable]) simp

subsection \<open>Properties\<close>

text \<open>
  C18. Reading health never raises for a well-formed deployment name: on every reachable
  tracker \<open>snapshot\<close> returns a snapshot that passes its own validation, with successes and
  transient failures together bounded by the requests.
\<close>

theorem health_snapshot_total:
  assumes "tracker_reachable p tr" "normalized d"
  shows "\<exists>snap t. health_snapshot env d tr = (Inr snap, t) \<and> DeploymentHealthSnapshot_ok snap \<and>
    hs_success_count snap + hs_transient_failure_count snap \<le> hs_request_count snap"
proof -
  let ?s = "refresh_circuit (ht_policy tr) (hv_now env) (hv_refresh_uuid env) (entry_of tr (hv_initial env) d)"
  have inv: "entry_inv (ht_policy tr) ?s"
    using tracker_entry_inv[OF tracker_reachable_inv[OF assms(1)]] by blast
  then have ok: "DeploymentHealthSnapshot_ok (snapshot_of d ?s)"
    using assms(2) by (auto simp: DeploymentHealthSnapshot_ok_def snapshot_of_def entry_inv_def split: option.splits)
  with inv assms(2) show ?thesis
    by (simp add: health_snapshot_def on_state_def checked_def) (simp add: snapshot_of_def entry_inv_def)
qed

theorem health_snapshot_total_witness:
  "\<exists>snap t. health_snapshot (sample_health_env 11) ''model-a'' tripped_tracker = (Inr snap, t)"
  using health_snapshot_total[OF tripped_reachable, of "''model-a''" "sample_health_env 11"]
  by (auto simp: normalized_def py_strip_def py_space_def)

text \<open>
  C19. Every call on every reachable tracker implements the abstract circuit
  breaker: entries of other deployments do not change, and the entry of the call's deployment
  follows an edge of the specification (cool-down, trip at the threshold, relapse or recovery by
  the owning probe) or keeps its circuit state.
\<close>

theorem circuit_refines_edges:
  assumes "tracker_reachable p tr" "ht_states tr d = Some s" "ht_states (health_step c tr) d = Some t"
  shows "(d \<noteq> call_deployment c \<longrightarrow> t = s) \<and>
    (d = call_deployment c \<longrightarrow>
      circuit_edge (ht_policy tr) c s (mh_circuit_state s) (mh_circuit_state t))"
proof (cases rule: health_step_effect[of c tr])
  case unchanged
  with assms(2,3) show ?thesis by (auto intro: stay)
next
  case (changed t')
  have "entry_inv (ht_policy tr) s"
    using tracker_reachable_inv[OF assms(1)] assms(2) by (auto simp: tracker_inv_def)
  with changed assms(2,3) entry_after_edge show ?thesis
    by (auto simp: entry_of_def split: if_splits)
qed

theorem circuit_refines_edges_witness:
  "\<exists>s. circuit_edge (ht_policy tripped_tracker)
     (AllowRequest (sample_health_env 50) ''model-a'' (Some ''attempt-1'')) s OPEN HALF_OPEN"
proof -
  let ?c = "AllowRequest (sample_health_env 50) ''model-a'' (Some ''attempt-1'')"
  have "map_option mh_circuit_state (ht_states tripped_tracker ''model-a'') = Some OPEN \<and>
      map_option mh_circuit_state (ht_states probing_tracker ''model-a'') = Some HALF_OPEN" by code_simp
  then obtain s t where st: "ht_states tripped_tracker ''model-a'' = Some s" "mh_circuit_state s = OPEN"
    "ht_states (health_step ?c tripped_tracker) ''model-a'' = Some t" "mh_circuit_state t = HALF_OPEN"
    unfolding probing_tracker_def by auto
  from circuit_refines_edges[OF tripped_reachable st(1,3)] st(2,4) show ?thesis
    by (metis call_deployment.simps(2))
qed

text \<open>
  C20. A recovery probe is exclusive while it runs and fenced off once it is over. After
  \<open>allow_request\<close> granted probe \<open>a\<close>, and after any later calls: if one of them reported or released
  that probe, or a call on its deployment read a clock at or past the lease, or the lease has run
  out now, then \<open>is_admitted\<close>, \<open>record_success\<close>, \<open>record_failure\<close> and \<open>release_request\<close> with \<open>a\<close>
  answer that it is over and do nothing but the refresh of a snapshot, even when the same attempt
  claimed another probe since. Otherwise \<open>a\<close> is admitted, its success counts, and every other
  attempt is refused. Generations are \<open>uuid4\<close> identifiers: the one of \<open>a\<close> is not drawn again.
\<close>

theorem health_probe_fenced:
  assumes "tracker_reachable p tr" "health_allow_request env d attempt tr = (Inr (Some a), t0)" "is_probe a"
    "ht_states t0 d = Some s" "mh_probe_expires_at s = Some lease"
    "list_all (\<lambda>c. health_legal c \<and> fresh_for a (call_env c)) cs" "fresh_for a env'"
  defines "t \<equiv> run_calls health_step t0 cs"
  defines "u \<equiv> snd (health_snapshot env' d t)"
  shows "if list_ex (retires a lease) cs \<or> fle lease (hv_now env')
    then health_is_admitted env' a t = (Inr False, u) \<and> health_record_success env' d l (Some a) t = (Inr False, u) \<and>
      health_record_failure env' d e l (Some a) t = (Inr (), u) \<and> health_release_request env' a t = (Inr (), u)
    else health_is_admitted env' a t = (Inr True, t) \<and> fst (health_record_success env' d l (Some a) t) = Inr True \<and>
      (\<forall>other. owner_id_ok other \<and> other \<noteq> ha_attempt_id a \<longrightarrow>
        health_allow_request env' d (Some other) t = (Inr None, t))"
proof -
  obtain s' lease' where g: "ht_states t0 d = Some s'" "mh_probe_expires_at s' = Some lease'" "fenced a lease' s'"
    "mh_generation s' = ha_generation a" "ha_deployment_id a = d" by (rule granted_probe[OF assms(2,3)])
  with assms(4,5) have s: "fenced a lease s" "mh_generation s = ha_generation a" by simp_all
  have "tracker_inv (health_step (AllowRequest env d attempt) tr)"
    by (rule health.inv_step[OF tracker_reachable_inv[OF assms(1)]]) simp
  then have i0: "tracker_inv t0" by (simp add: assms(2))
  have i: "tracker_inv t" unfolding t_def by (rule health.run_inv[OF i0]) (use assms(6) in \<open>simp add: list_all_iff\<close>)
  obtain x where x: "ht_states t d = Some x" "fenced a lease x"
    "mh_generation x = ha_generation a \<longleftrightarrow> \<not> list_ex (retires a lease) cs"
    using fenced_run[OF i0 assms(4) s(1) g(5)[symmetric] assms(6)] s(2) unfolding t_def by auto
  show ?thesis
    using over_is_inert[OF i x(1,2) g(5)[symmetric] assms(3,7)] held_is_exclusive[OF i x(1,2) g(5)[symmetric] assms(3)] x(3)
    unfolding u_def by auto
qed

definition sample_probe :: HealthAdmission where
  "sample_probe = recovery_probe (sample_health_env 50) sample_policy ''model-a'' ''attempt-1''"

abbreviation later_env :: "int \<Rightarrow> health_env" where
  "later_env t \<equiv> (sample_health_env t)\<lparr>hv_claim_uuid := 9\<rparr>"

text \<open>
  The probe fails, the cooldown passes and the same attempt claims a second probe: its first
  admission is over although attempt and deployment are the same, and only the second may report.
\<close>

definition reclaim :: "health_call list" where
  "reclaim = [RecordFailure (later_env 55) ''model-a'' sample_timeout 5 (Some sample_probe),
     AllowRequest (later_env 90) ''model-a'' (Some ''attempt-1'')]"

theorem health_probe_fenced_witness:
  "fst (health_record_success (later_env 95) ''model-a'' 7 (Some sample_probe) (run_calls health_step probing_tracker reclaim)) =
     Inr False \<and>
   fst (health_record_success (later_env 95) ''model-a'' 7 (Some (sample_probe\<lparr>ha_generation := uuid_hex 9\<rparr>))
     (run_calls health_step probing_tracker reclaim)) = Inr True \<and>
   health_allow_request (later_env 51) ''model-a'' (Some ''attempt-2'') probing_tracker = (Inr None, probing_tracker)"
proof -
  have "fst (health_allow_request (sample_health_env 50) ''model-a'' (Some ''attempt-1'') tripped_tracker) = Inr (Some sample_probe) \<and>
      is_probe sample_probe \<and>
      map_option mh_probe_expires_at (ht_states probing_tracker ''model-a'') = Some (Some (Fin 110))" by code_simp
  then obtain s where g: "health_allow_request (sample_health_env 50) ''model-a'' (Some ''attempt-1'') tripped_tracker =
      (Inr (Some sample_probe), probing_tracker)" "is_probe sample_probe"
    "ht_states probing_tracker ''model-a'' = Some s" "mh_probe_expires_at s = Some (Fin 110)"
    by (auto simp: probing_tracker_def prod_eq_iff)
  have f: "fresh_for sample_probe (later_env n)" for n
    by (simp add: fresh_for_def sample_probe_def recovery_probe_def sample_health_env_def)
  then have l: "list_all (\<lambda>c. health_legal c \<and> fresh_for sample_probe (call_env c)) reclaim" by (simp add: reclaim_def)
  have c: "list_ex (retires sample_probe (Fin 110)) reclaim \<and> \<not> fle (Fin 110) (hv_now (later_env 51)) \<and>
      owner_id_ok ''attempt-2'' \<and> ''attempt-2'' \<noteq> ha_attempt_id sample_probe" by code_simp
  have "fst (health_record_success (later_env 95) ''model-a'' 7 (Some sample_probe)
      (run_calls health_step probing_tracker reclaim)) = Inr False"
    using health_probe_fenced[OF tripped_reachable g l f, of 95 7 undefined] c by simp
  moreover have "fst (health_record_success (later_env 95) ''model-a'' 7 (Some (sample_probe\<lparr>ha_generation := uuid_hex 9\<rparr>))
      (run_calls health_step probing_tracker reclaim)) = Inr True" by code_simp
  moreover have "health_allow_request (later_env 51) ''model-a'' (Some ''attempt-2'') probing_tracker = (Inr None, probing_tracker)"
    using health_probe_fenced[OF tripped_reachable g _ f, of "[]" 51 7 undefined] c by simp
  ultimately show ?thesis by blast
qed

text \<open>
  C21. The breaker opens at its threshold. From a closed circuit, take any calls that
  bring transient failure reports of this deployment, uncorrelated or with a current plain
  admission, interleaved with any other calls but current successes and permanent failures; late
  reports that carry an admission of an earlier generation may be among them. When the last of the calls makes the
  consecutive failures reach the threshold, every later admission request is refused and changes
  nothing until the cooldown has passed; after every earlier call the circuit still admitted, with
  an admission of the same generation.
\<close>

theorem health_threshold_opens:
  assumes "tracker_reachable p tr" "ht_states tr d = Some s" "mh_circuit_state s = CLOSED"
    "list_all (\<lambda>c. health_legal c \<and> (neutral d (mh_generation s) c \<or> counted d (mh_generation s) c)) (pre @ [c])"
    "counted d (mh_generation s) c"
    "mh_consecutive_transient_failures s + int (length (filter (counted d (mh_generation s)) (pre @ [c]))) =
       cb_failure_threshold (ht_policy tr)"
    "\<not> fle (cb_cooldown_seconds (ht_policy tr)) (fsub (hv_now env') (hv_open_now (call_env c)))"
    "health_attempt_id (hv_owner env') attempt = Inr owner"
  shows "health_allow_request env' d attempt (run_calls health_step tr (pre @ [c])) =
      (Inr None, run_calls health_step tr (pre @ [c])) \<and>
    (\<forall>k\<le>length pre. \<forall>env. \<exists>a. health_allow_request env d None (run_calls health_step tr (take k pre)) =
      (Inr (Some a), run_calls health_step tr (take k pre)) \<and>
      ha_deployment_id a = d \<and> ha_generation a = mh_generation s \<and> \<not> is_probe a)"
proof (intro conjI allI impI)
  note inv = tracker_reachable_inv[OF assms(1)]
  have n: "mh_consecutive_transient_failures s + int (length (filter (counted d (mh_generation s)) pre)) + 1 =
      cb_failure_threshold (ht_policy tr)" using assms(5,6) by simp
  have q: "list_all (quiet d (mh_generation s)) pre" "health_legal c" using assms(4) by simp_all
  obtain x where "ht_states (run_calls health_step tr (pre @ [c])) d = Some x" "mh_circuit_state x = OPEN"
    "mh_opened_at x = Some (hv_open_now (call_env c))" using threshold_trips(1)[OF inv assms(2,3) q(1) assms(5) q(2) n] by blast
  with open_refuses[OF threshold_trips(2)[OF inv assms(2,3) q(1) assms(5) q(2) n]] assms(7,8)
  show "health_allow_request env' d attempt (run_calls health_step tr (pre @ [c])) =
      (Inr None, run_calls health_step tr (pre @ [c]))" by (metis run_policy)
  have below: "mh_consecutive_transient_failures s + int (length (filter (counted d (mh_generation s)) pre)) <
      cb_failure_threshold (ht_policy tr)" using n by simp
  fix k env
  show "\<exists>a. health_allow_request env d None (run_calls health_step tr (take k pre)) =
      (Inr (Some a), run_calls health_step tr (take k pre)) \<and>
      ha_deployment_id a = d \<and> ha_generation a = mh_generation s \<and> \<not> is_probe a"
    using prefix_closed[OF inv assms(2,3) q(1) below, of k] closed_admits by metis
qed

definition admitted_tracker :: HealthTracker where
  "admitted_tracker = health_step (AllowRequest (sample_health_env 9) ''model-a'' None) (tracker_init sample_policy)"

definition sample_admission :: HealthAdmission where
  "sample_admission = \<lparr>ha_deployment_id = ''model-a'', ha_attempt_id = uuid_hex 1, ha_generation = uuid_hex 2,
     ha_probe_timeout_seconds = None\<rparr>"

abbreviation sample_report :: "int \<Rightarrow> health_call" where
  "sample_report t \<equiv> RecordFailure (sample_health_env t) ''model-a'' sample_timeout 5 (Some sample_admission)"

abbreviation late_success :: health_call where
  "late_success \<equiv> RecordSuccess (sample_health_env 11) ''model-a'' 5 (Some (sample_admission\<lparr>ha_generation := uuid_hex 7\<rparr>))"

lemma admitted_reachable: "tracker_reachable sample_policy admitted_tracker"
  unfolding admitted_tracker_def
  by (rule tracker_reachable.call[OF tracker_reachable.start[OF sample_policy_ok]]) simp

theorem health_threshold_opens_witness:
  "fst (health_allow_request (sample_health_env 9) ''model-a'' None (tracker_init sample_policy)) = Inr (Some sample_admission) \<and>
   fst (health_allow_request (sample_health_env 20) ''model-a'' None (run_calls health_step admitted_tracker
     [sample_report 10, late_success, sample_report 12])) = Inr None"
proof
  show "fst (health_allow_request (sample_health_env 9) ''model-a'' None (tracker_init sample_policy)) = Inr (Some sample_admission)"
    by code_simp
  let ?pre = "[sample_report 10, late_success]"
  have "ht_policy admitted_tracker = sample_policy \<and>
      map_option (\<lambda>s. (mh_circuit_state s, mh_generation s, mh_consecutive_transient_failures s))
      (ht_states admitted_tracker ''model-a'') = Some (CLOSED, uuid_hex 2, 0)" by code_simp
  then obtain s where s: "ht_states admitted_tracker ''model-a'' = Some s" "mh_circuit_state s = CLOSED"
    "mh_generation s = uuid_hex 2" "mh_consecutive_transient_failures s = 0" "ht_policy admitted_tracker = sample_policy" by auto
  have c: "counted ''model-a'' (uuid_hex 2) (sample_report t)" for t
    by (simp add: sample_admission_def sample_timeout_def is_transient_provider_error_def is_probe_def)
  have n: "stale (uuid_hex 2) (Some (sample_admission\<lparr>ha_generation := uuid_hex 7\<rparr>))" by (simp add: stale_def)
  have "\<not> fle (cb_cooldown_seconds sample_policy) (fsub (hv_now (sample_health_env 20)) (hv_open_now (sample_health_env 12)))"
    by code_simp
  then show "fst (health_allow_request (sample_health_env 20) ''model-a'' None (run_calls health_step admitted_tracker
     [sample_report 10, late_success, sample_report 12])) = Inr None"
    using health_threshold_opens[OF admitted_reachable s(1,2), of ?pre "sample_report 12" "sample_health_env 20" None "uuid_hex 1"]
      c n by (simp add: s(3,4,5) health_attempt_id_def sample_policy_def) (simp add: sample_health_env_def)
qed

text \<open>
  C22. Recovery works: once the cooldown has passed, the next admission request gets
  the recovery probe (given a positive remaining lease), and that probe's success, reported
  before the lease runs out, closes the circuit and resets the failure count.
\<close>

theorem health_recovers:
  assumes "tracker_reachable p tr" "ht_states tr d = Some x" "mh_circuit_state x = OPEN" "mh_opened_at x = Some opened"
    "fle (cb_cooldown_seconds (ht_policy tr)) (fsub (hv_now env) opened)"
    "fin_pos (fsub (fadd (hv_claim_now env) (cb_probe_lease_seconds (ht_policy tr))) (hv_admit_now env))"
    "\<not> fle (fadd (hv_claim_now env) (cb_probe_lease_seconds (ht_policy tr))) (hv_now env')"
  defines "a \<equiv> recovery_probe env (ht_policy tr) d (uuid_hex (hv_owner env))"
  shows "\<exists>t u y. health_allow_request env d None tr = (Inr (Some a), t) \<and>
    health_record_success env' d l (Some a) t = (Inr True, u) \<and> ht_states u d = Some y \<and>
    mh_circuit_state y = CLOSED \<and> mh_consecutive_transient_failures y = 0 \<and> mh_probe_owner y = None"
proof -
  note inv = tracker_reachable_inv[OF assms(1)]
  have nd: "normalized d" using inv assms(2) by (auto simp: tracker_inv_def)
  let ?y = "claim_probe env (ht_policy tr) (uuid_hex (hv_owner env)) (x\<lparr>mh_circuit_state := HALF_OPEN\<rparr>)"
  let ?t = "tr\<lparr>ht_states := (ht_states tr)(d \<mapsto> ?y)\<rparr>"
  have allow: "health_allow_request env d None tr = (Inr (Some a), ?t)"
    unfolding a_def by (rule cooled_admits[OF inv assms(2-5) _ assms(6)]) (simp add: health_attempt_id_def)
  have ref: "refresh_circuit (ht_policy tr) (hv_now env') u ?y = ?y" for u
    using assms(7) by (simp add: refresh_circuit_def cool_down_def claim_probe_def Let_def)
  have m: "health_matches ?y a" "is_probe a" "ha_deployment_id a = d"
    by (simp_all add: health_matches_def a_def recovery_probe_def claim_probe_def is_probe_def)
  have "health_record_success env' d l (Some a) ?t =
      (Inr True, ?t\<lparr>ht_states := (ht_states ?t)(d \<mapsto> succeed env' l (Some a) True ?y)\<rparr>)"
    using nd m ref by (simp add: health_record_success_def on_state_def entry_of_def controls_circuit_def)
  with allow m(2) show ?thesis
    by (simp add: succeed_def Let_def probe_given_def retire_probe_def)
qed

theorem health_recovers_witness:
  "\<exists>t u y. health_allow_request (sample_health_env 50) ''model-a'' None tripped_tracker =
      (Inr (Some (recovery_probe (sample_health_env 50) sample_policy ''model-a'' (uuid_hex 1))), t) \<and>
    health_record_success (sample_health_env 60) ''model-a'' 7
      (Some (recovery_probe (sample_health_env 50) sample_policy ''model-a'' (uuid_hex 1))) t = (Inr True, u) \<and>
    ht_states u ''model-a'' = Some y \<and> mh_circuit_state y = CLOSED"
proof -
  have "map_option (\<lambda>x. (mh_circuit_state x, mh_opened_at x)) (ht_states tripped_tracker ''model-a'') =
      Some (OPEN, Some (Fin 10))" by code_simp
  then obtain x where x: "ht_states tripped_tracker ''model-a'' = Some x" "mh_circuit_state x = OPEN"
    "mh_opened_at x = Some (Fin 10)" by auto
  have p: "ht_policy tripped_tracker = sample_policy" by code_simp
  have "fle (cb_cooldown_seconds sample_policy) (fsub (hv_now (sample_health_env 50)) (Fin 10)) \<and>
      fin_pos (fsub (fadd (hv_claim_now (sample_health_env 50)) (cb_probe_lease_seconds sample_policy))
        (hv_admit_now (sample_health_env 50))) \<and>
      \<not> fle (fadd (hv_claim_now (sample_health_env 50)) (cb_probe_lease_seconds sample_policy))
        (hv_now (sample_health_env 60))" by code_simp
  with health_recovers[OF tripped_reachable x, of "sample_health_env 50" "sample_health_env 60" 7] p
  show ?thesis by (auto simp: sample_health_env_def)
qed

text \<open>
  A live owner that rechecks its admission reads the clock twice; when the lease runs out between
  the two readings, the refresh keeps the probe and the second reading makes the remaining
  lifetime nonpositive, which \<open>HealthAdmission\<close> rejects with \<open>ValueError\<close> instead of a refusal.
\<close>

lemma allow_request_recheck_raises:
  "fst (health_allow_request ((sample_health_env 109)\<lparr>hv_admit_now := Fin 110\<rparr>) ''model-a''
     (Some ''attempt-1'') probing_tracker) = Inl ValueError"
  by code_simp

end
