(* ===== verification/PyDecimal.thy ===== *)
theory PyDecimal
  imports Complex_Main PyFloat
begin

text \<open>
  Python's \<open>decimal.Decimal\<close> under the default context (28 significant digits, ties to even,
  exponents within \<open>999999\<close>, \<open>Overflow\<close> trapped). A finite \<open>Decimal\<close> is the rational number it
  denotes: trailing zeros and the sign of zero are not represented, and no modelled operation
  can observe them. Construction is exact; arithmetic rounds, by at most half a unit in the 28th
  digit, and a rounded value is not rounded again.
\<close>

subsection \<open>Digits\<close>

definition digit_char :: "int \<Rightarrow> char" where
  "digit_char n = ''0123456789'' ! nat n"

definition digit_val :: "char \<Rightarrow> int" where
  "digit_val c = of_char c - 48"

text \<open>\<open>str(n)\<close> of a natural number, and the number a string of digits denotes.\<close>

function nat_digits :: "int \<Rightarrow> string" where
  "nat_digits n = (if n < 10 then [digit_char n] else nat_digits (n div 10) @ [digit_char (n mod 10)])"
  by auto

termination by (relation "measure nat") (auto simp: nat_less_iff)

declare nat_digits.simps [simp del]

definition digits_val :: "string \<Rightarrow> int" where
  "digits_val s = foldl (\<lambda>a c. 10 * a + digit_val c) 0 s"

definition int_str :: "int \<Rightarrow> string" where
  "int_str i = (if i < 0 then CHR ''-'' # nat_digits (- i) else nat_digits i)"

text \<open>The number of decimal digits; zero has one.\<close>

function dec_len :: "int \<Rightarrow> nat" where
  "dec_len n = (if n < 10 then 1 else Suc (dec_len (n div 10)))"
  by auto

termination by (relation "measure nat") (auto simp: nat_less_iff)

declare dec_len.simps [simp del]

subsection \<open>Rounding to the context\<close>

text \<open>The adjusted exponent of \<open>n / d\<close>: the \<open>t\<close> with \<open>10 ^ t \<le> n / d < 10 ^ (t + 1)\<close>.\<close>

definition pow10 :: "int \<Rightarrow> rat" where
  "pow10 t = (if 0 \<le> t then 10 ^ nat t else 1 / 10 ^ nat (- t))"

definition adjusted :: "rat \<Rightarrow> int" where
  "adjusted x = (case quotient_of \<bar>x\<bar> of (n, d) \<Rightarrow>
     (let t = int (dec_len n) - int (dec_len d) in
      if d * 10 ^ nat t \<le> n * 10 ^ nat (- t) then t else t - 1))"

text \<open>\<open>x\<close> to an integral multiple of \<open>10 ^ t\<close>, ties to even.\<close>

definition round_at :: "int \<Rightarrow> rat \<Rightarrow> rat" where
  "round_at t x = (case quotient_of x of (n, d) \<Rightarrow>
     of_int (round_half_even (n * 10 ^ nat (- t)) (d * 10 ^ nat t)) * pow10 t)"

abbreviation d_prec :: int where "d_prec \<equiv> 28"
abbreviation d_emax :: int where "d_emax \<equiv> 999999"
abbreviation d_etiny :: int where "d_etiny \<equiv> - 1000026"

text \<open>The result of an operation whose exact value is \<open>x\<close>; \<open>None\<close> is the trapped overflow.\<close>

definition d_fix :: "rat \<Rightarrow> rat option" where
  "d_fix x = (if x = 0 then Some 0 else
     (let y = round_at (max (adjusted x - (d_prec - 1)) d_etiny) x in
      if y \<noteq> 0 \<and> d_emax < adjusted y then None else Some y))"

definition d_add :: "rat \<Rightarrow> rat \<Rightarrow> rat option" where
  "d_add x y = d_fix (x + y)"

definition d_mul :: "rat \<Rightarrow> rat \<Rightarrow> rat option" where
  "d_mul x y = d_fix (x * y)"

definition d_div :: "rat \<Rightarrow> rat \<Rightarrow> rat option" where
  "d_div x y = d_fix (x / y)"

subsection \<open>Text\<close>

text \<open>The number of decimal places of a terminating fraction with this denominator.\<close>

function places :: "int \<Rightarrow> nat" where
  "places d = (if d \<le> 1 \<or> gcd d 10 = 1 then 0 else Suc (places (d div gcd d 10)))"
  by auto

termination
proof (relation "measure nat")
  fix d :: int
  assume "\<not> (d \<le> 1 \<or> gcd d 10 = 1)"
  moreover have "0 < gcd d 10" by simp
  ultimately have "1 < gcd d 10" "0 < d" by linarith+
  then have "d div gcd d 10 < d" by (intro int_div_less_self) auto
  with \<open>0 < d\<close> show "(d div gcd d 10, d) \<in> measure nat" by simp
qed simp

declare places.simps [simp del]

text \<open>\<open>format(x, "f")\<close> of a non-negative normalised value.\<close>

definition format_f :: "rat \<Rightarrow> string" where
  "format_f x = (case quotient_of \<bar>x\<bar> of (n, d) \<Rightarrow>
     (let k = places d;
          m = n * 10 ^ k div d;
          whole = nat_digits (m div 10 ^ k);
          frac = nat_digits (10 ^ k + m mod 10 ^ k)
      in (if x < 0 then ''-'' else []) @ whole @ (if k = 0 then [] else CHR ''.'' # tl frac)))"

text \<open>\<open>_canonical_decimal\<close>: \<open>normalize\<close> rounds to the context before it is formatted.\<close>

definition canonical_decimal :: "rat \<Rightarrow> string option" where
  "canonical_decimal x = (case d_fix x of None \<Rightarrow> None
     | Some y \<Rightarrow> Some (if y = 0 then ''0'' else format_f y))"

datatype decimal_value = DFinite rat | DInfinity | DNaN

text \<open>
  \<open>Decimal(text)\<close>: blanks around the text and underscores are dropped, then an optional sign, and
  a number with an optional fraction and exponent, or a name of a special value.
\<close>

definition lower :: "string \<Rightarrow> string" where
  "lower s = map (\<lambda>c. if is_upper c then char_of (code_point c + 32) else c) s"

definition span_digits :: "string \<Rightarrow> string \<times> string" where
  "span_digits s = (takeWhile is_digit s, dropWhile is_digit s)"

definition parse_exponent :: "string \<Rightarrow> int option" where
  "parse_exponent s = (case s of
      [] \<Rightarrow> Some 0
    | c # r \<Rightarrow> if c \<noteq> CHR ''e'' \<and> c \<noteq> CHR ''E'' then None
        else (let (neg, ds) = (case r of [] \<Rightarrow> (False, [])
                | x # xs \<Rightarrow> if x = CHR ''-'' then (True, xs) else if x = CHR ''+'' then (False, xs) else (False, r))
              in if ds = [] \<or> \<not> list_all is_digit ds then None
                 else Some (if neg then - digits_val ds else digits_val ds)))"

text \<open>The exact constructor rejects exponents beyond the widest context.\<close>

definition exact_range :: "int \<Rightarrow> int \<Rightarrow> bool" where
  "exact_range c e \<longleftrightarrow> - 1999999999999999997 \<le> e \<and>
     e + int (dec_len c) - 1 \<le> 999999999999999999"

definition parse_number :: "string \<Rightarrow> rat option" where
  "parse_number s = (let (whole, r) = span_digits s;
       (frac, r') = (case r of [] \<Rightarrow> ([], []) | c # cs \<Rightarrow> if c = CHR ''.'' then span_digits cs else ([], r))
     in if whole @ frac = [] then None
        else (case parse_exponent r' of None \<Rightarrow> None
          | Some e \<Rightarrow> (let c = digits_val (whole @ frac); e' = e - int (length frac) in
              if exact_range c e' then Some (of_int c * pow10 e') else None)))"

definition parse_special :: "string \<Rightarrow> decimal_value option" where
  "parse_special s = (let l = lower s in
     if l = ''inf'' \<or> l = ''infinity'' then Some DInfinity
     else if (take 3 l = ''nan'' \<and> list_all is_digit (drop 3 l)) \<or>
             (take 4 l = ''snan'' \<and> list_all is_digit (drop 4 l)) then Some DNaN else None)"

definition parse_decimal :: "string \<Rightarrow> decimal_value option" where
  "parse_decimal text = (let s = filter (\<lambda>c. c \<noteq> CHR ''_'') (py_strip text);
       (neg, body) = (case s of [] \<Rightarrow> (False, [])
          | c # cs \<Rightarrow> if c = CHR ''-'' then (True, cs) else if c = CHR ''+'' then (False, cs) else (False, s))
     in case parse_number body of
          Some x \<Rightarrow> Some (DFinite (if neg then - x else x))
        | None \<Rightarrow> parse_special body)"

subsection \<open>Digits: laws\<close>

lemma less_10_cases:
  "0 \<le> n \<Longrightarrow> n < 10 \<Longrightarrow> n \<in> {0, 1, 2, 3, 4, 5, 6, 7, 8, 9 :: int}"
  by (simp, presburger)

lemma digit_char_is_digit: "0 \<le> n \<Longrightarrow> n < 10 \<Longrightarrow> is_digit (digit_char n)"
  by (drule (1) less_10_cases) (auto simp: digit_char_def is_digit_def)

lemma digit_val_char: "0 \<le> n \<Longrightarrow> n < 10 \<Longrightarrow> digit_val (digit_char n) = n"
  by (drule (1) less_10_cases) (auto simp: digit_char_def digit_val_def)

lemma digits_val_Nil [simp]: "digits_val [] = 0"
  by (simp add: digits_val_def)

lemma digits_val_snoc [simp]: "digits_val (s @ [c]) = 10 * digits_val s + digit_val c"
  by (simp add: digits_val_def)

lemma digits_val_append: "digits_val (s @ t) = digits_val s * 10 ^ length t + digits_val t"
proof (induction t rule: rev_induct)
  case (snoc c t)
  have "digits_val (s @ t @ [c]) = 10 * digits_val (s @ t) + digit_val c"
    using digits_val_snoc[of "s @ t" c] by simp
  with snoc show ?case by (simp add: algebra_simps)
qed simp

lemma nat_digits_not_Nil [simp]: "nat_digits n \<noteq> []"
  by (subst nat_digits.simps) simp

lemma nat_digits_is_digit: "0 \<le> n \<Longrightarrow> list_all is_digit (nat_digits n)"
proof (induction n rule: nat_digits.induct)
  case (1 n)
  then show ?case by (subst nat_digits.simps) (auto intro: digit_char_is_digit)
qed

lemma digits_val_nat_digits [simp]: "0 \<le> n \<Longrightarrow> digits_val (nat_digits n) = n"
proof (induction n rule: nat_digits.induct)
  case (1 n)
  then show ?case
    by (subst nat_digits.simps) (auto simp: digit_val_char digits_val_def[of "[_]"])
qed

lemma length_nat_digits: "0 \<le> n \<Longrightarrow> length (nat_digits n) = dec_len n"
proof (induction n rule: nat_digits.induct)
  case (1 n)
  then show ?case by (subst nat_digits.simps, subst dec_len.simps) auto
qed

text \<open>The digits of \<open>10 ^ k + r\<close> after the first are those of \<open>r\<close>, padded to \<open>k\<close>.\<close>

lemma nat_digits_padded:
  "0 \<le> r \<Longrightarrow> r < 10 ^ k \<Longrightarrow>
   \<exists>w. nat_digits (10 ^ k + r) = CHR ''1'' # w \<and> length w = k \<and> list_all is_digit w \<and> digits_val w = r"
proof (induction k arbitrary: r)
  case 0
  then show ?case by (subst nat_digits.simps) (simp add: digit_char_def)
next
  case (Suc k)
  have q: "0 \<le> r div 10" "r div 10 < 10 ^ k" using Suc.prems by auto
  then obtain w where w: "nat_digits (10 ^ k + r div 10) = CHR ''1'' # w" "length w = k"
    "list_all is_digit w" "digits_val w = r div 10" using Suc.IH by blast
  have "10 ^ Suc k + r = (10 ^ k + r div 10) * 10 + r mod 10" by simp
  then have d: "(10 ^ Suc k + r) div 10 = 10 ^ k + r div 10" "(10 ^ Suc k + r) mod 10 = r mod 10"
    by (simp_all add: mod_mult_self2)
  have big: "\<not> 10 ^ Suc k + r < 10" using Suc.prems by (simp add: not_less add_increasing2)
  have "nat_digits (10 ^ Suc k + r) = CHR ''1'' # (w @ [digit_char (r mod 10)])"
    using big d w(1) by (subst nat_digits.simps) simp
  moreover have "digits_val (w @ [digit_char (r mod 10)]) = r"
    using w(4) by (simp add: digit_val_char)
  ultimately show ?case using w(2,3) by (auto intro: digit_char_is_digit)
qed

subsection \<open>Magnitude: laws\<close>

lemma dec_len_lower: "0 < n \<Longrightarrow> 10 ^ (dec_len n - 1) \<le> n"
proof (induction n rule: dec_len.induct)
  case (1 n)
  show ?case
  proof (cases "n < 10")
    case True
    with 1 show ?thesis by (subst dec_len.simps) simp
  next
    case False
    with 1 have IH: "10 ^ (dec_len (n div 10) - 1) \<le> n div 10" by simp
    have "0 < dec_len (n div 10)" by (subst dec_len.simps) simp
    then have "(10::int) ^ dec_len (n div 10) = 10 ^ (dec_len (n div 10) - 1) * 10"
      by (metis Suc_diff_1 power_Suc2)
    also have "\<dots> \<le> n div 10 * 10" using IH by simp
    also have "\<dots> \<le> n" by simp
    finally show ?thesis using False by (subst dec_len.simps) simp
  qed
qed

lemma dec_len_upper: "n < 10 ^ dec_len n"
proof (induction n rule: dec_len.induct)
  case (1 n)
  show ?case
  proof (cases "n < 10")
    case False
    with 1 have "n div 10 < 10 ^ dec_len (n div 10)" by simp
    then have "n < 10 ^ dec_len (n div 10) * 10" by linarith
    with False show ?thesis by (subst dec_len.simps) (simp add: mult.commute)
  qed (subst dec_len.simps, simp)
qed

lemma dec_len_pos [simp]: "0 < dec_len n"
  by (subst dec_len.simps) simp

lemma pow10_pos [simp]: "0 < pow10 t"
  by (simp add: pow10_def)

lemma pow10_nonneg [simp]: "0 \<le> pow10 t"
  by (simp add: pow10_def)

lemma pow10_nonzero [simp]: "pow10 t \<noteq> 0"
  by (simp add: pow10_def)

lemma pow10_powi: "pow10 t = 10 powi t"
  by (simp add: pow10_def power_int_def divide_simps)

lemma power_int_10_le: "(10::rat) powi s \<le> 10 powi t \<longleftrightarrow> s \<le> t"
proof (cases "s \<le> t")
  case True
  then show ?thesis by (simp add: power_int_increasing)
next
  case False
  then have "(10::rat) powi t < 10 powi s" by (intro power_int_strict_increasing) auto
  with False show ?thesis by simp
qed

lemma pow10_le [simp]: "pow10 s \<le> pow10 t \<longleftrightarrow> s \<le> t"
  by (simp add: pow10_powi power_int_10_le)

lemma pow10_less [simp]: "pow10 s < pow10 t \<longleftrightarrow> s < t"
  using pow10_le[of t s] by linarith

lemma pow10_add: "pow10 (s + t) = pow10 s * pow10 t"
  by (simp add: pow10_powi power_int_add)

lemma pow10_diff: "pow10 (s - t) = pow10 s / pow10 t"
  by (simp add: pow10_powi power_int_diff)

lemma pow10_nat: "pow10 (int k) = 10 ^ k"
  by (simp add: pow10_def)

lemma pow10_neg: "pow10 (- t) = 1 / pow10 t"
  by (simp add: pow10_powi power_int_minus_divide)

text \<open>The adjusted exponent brackets the magnitude.\<close>

lemma cross_le: "0 < d \<Longrightarrow> d * 10 ^ nat t \<le> n * 10 ^ nat (- t) \<longleftrightarrow> pow10 t \<le> of_int n / of_int d"
proof (cases "0 \<le> t")
  case True
  assume "0 < d"
  have "d * 10 ^ nat t \<le> n \<longleftrightarrow> (of_int (d * 10 ^ nat t) :: rat) \<le> of_int n" by (simp only: of_int_le_iff)
  with True \<open>0 < d\<close> show ?thesis by (simp add: pow10_def field_simps)
next
  case False
  assume "0 < d"
  have "d \<le> n * 10 ^ nat (- t) \<longleftrightarrow> (of_int d :: rat) \<le> of_int (n * 10 ^ nat (- t))" by (simp only: of_int_le_iff)
  with False \<open>0 < d\<close> show ?thesis by (simp add: pow10_def field_simps)
qed

lemma int_pow10_bounds:
  assumes "0 < n"
  shows "pow10 (int (dec_len n) - 1) \<le> of_int n" "of_int n < pow10 (int (dec_len n))"
proof -
  have "(of_int (10 ^ (dec_len n - 1)) :: rat) \<le> of_int n"
    using dec_len_lower[OF assms] by (simp only: of_int_le_iff)
  moreover have "int (dec_len n) - 1 = int (dec_len n - 1)" using dec_len_pos[of n] by linarith
  ultimately show "pow10 (int (dec_len n) - 1) \<le> of_int n" by (simp only: pow10_nat of_int_power of_int_numeral)
  have "(of_int n :: rat) < of_int (10 ^ dec_len n)"
    using dec_len_upper[of n] by (simp only: of_int_less_iff)
  then show "of_int n < pow10 (int (dec_len n))" by (simp add: pow10_nat)
qed

lemma adjusted_bounds:
  assumes "x \<noteq> 0"
  shows "pow10 (adjusted x) \<le> \<bar>x\<bar>" "\<bar>x\<bar> < pow10 (adjusted x + 1)"
proof -
  obtain n d where q: "quotient_of \<bar>x\<bar> = (n, d)" by (cases "quotient_of \<bar>x\<bar>")
  have d: "0 < d" using quotient_of_denom_pos[OF q] .
  have eq: "\<bar>x\<bar> = of_int n / of_int d" using quotient_of_div[OF q] .
  have n: "0 < n"
  proof (rule ccontr)
    assume "\<not> 0 < n"
    with d have "(of_int n / of_int d :: rat) \<le> 0" by (simp add: divide_nonpos_pos)
    with eq assms show False by simp
  qed
  define t where "t = int (dec_len n) - int (dec_len d)"
  have up: "\<bar>x\<bar> < pow10 (t + 1)"
  proof -
    have "\<bar>x\<bar> < pow10 (int (dec_len n)) / pow10 (int (dec_len d) - 1)"
      unfolding eq using n d int_pow10_bounds[OF n] int_pow10_bounds[OF d]
      by (intro frac_less) (auto simp: less_imp_le)
    also have "\<dots> = pow10 (t + 1)"
      unfolding pow10_diff[symmetric] t_def by (simp add: algebra_simps)
    finally show ?thesis .
  qed
  have lo: "pow10 (t - 1) \<le> \<bar>x\<bar>"
  proof -
    have "pow10 (t - 1) = pow10 (int (dec_len n) - 1) / pow10 (int (dec_len d))"
      unfolding pow10_diff[symmetric] t_def by (simp add: algebra_simps)
    also have "\<dots> \<le> \<bar>x\<bar>"
      unfolding eq using n d int_pow10_bounds[OF n] int_pow10_bounds[OF d]
      by (intro frac_le) (auto simp: less_imp_le)
    finally show ?thesis .
  qed
  have adj: "adjusted x = (if pow10 t \<le> \<bar>x\<bar> then t else t - 1)"
    unfolding adjusted_def q prod.case Let_def t_def[symmetric] cross_le[OF d] eq[symmetric] ..
  show "pow10 (adjusted x) \<le> \<bar>x\<bar>" "\<bar>x\<bar> < pow10 (adjusted x + 1)"
    using adj lo up by auto
qed

subsection \<open>Rounding: laws\<close>

text \<open>Rounding an integer quotient is monotone and fixes integers.\<close>

lemma round_half_even_exact: "0 < d \<Longrightarrow> round_half_even (q * d) d = q"
  by (simp add: round_half_even_def)

lemma int_le_div_iff: "0 < d \<Longrightarrow> m \<le> n div d \<longleftrightarrow> m * d \<le> (n :: int)"
proof
  assume d: "0 < d" and "m \<le> n div d"
  then have "m * d \<le> n div d * d" by simp
  also have "\<dots> \<le> n" using d by (metis add.right_neutral div_mult_mod_eq le_add_same_cancel1 pos_mod_sign)
  finally show "m * d \<le> n" .
next
  assume d: "0 < d" and "m * d \<le> n"
  then have "m * d div d \<le> n div d" by (intro zdiv_mono1) auto
  with d show "m \<le> n div d" by simp
qed

lemma round_half_even_le: "0 < d \<Longrightarrow> n \<le> m * d \<Longrightarrow> round_half_even n d \<le> m"
proof (cases "n = m * d")
  case False
  moreover assume d: "0 < d" "n \<le> m * d"
  ultimately have "n div d < m" using int_le_div_iff[OF d(1), of m n] by linarith
  then show ?thesis using round_half_even_bounds(2)[of n d] by linarith
qed (simp add: round_half_even_exact)

lemma round_half_even_ge: "0 < d \<Longrightarrow> m * d \<le> n \<Longrightarrow> m \<le> round_half_even n d"
  using int_le_div_iff[of d m n] round_half_even_bounds(1)[of n d] by linarith

lemma round_atE:
  obtains N D where "0 < D" "x = of_int N / of_int D * pow10 t"
    "round_at t x = of_int (round_half_even N D) * pow10 t"
proof -
  obtain n d where q: "quotient_of x = (n, d)" by (cases "quotient_of x")
  have d: "0 < d" using quotient_of_denom_pos[OF q] .
  have eq: "x = of_int n / of_int d" using quotient_of_div[OF q] .
  have "x = of_int (n * 10 ^ nat (- t)) / of_int (d * 10 ^ nat t) * pow10 t"
    using d by (cases "0 \<le> t") (simp_all add: eq pow10_def)
  moreover have "0 < d * 10 ^ nat t" using d by simp
  moreover have "round_at t x = of_int (round_half_even (n * 10 ^ nat (- t)) (d * 10 ^ nat t)) * pow10 t"
    by (simp add: round_at_def q)
  ultimately show thesis using that by blast
qed

lemma quotient_le_multiple: "0 < D \<Longrightarrow> of_int N / of_int D * pow10 t \<le> of_int m * pow10 t \<longleftrightarrow> N \<le> m * D"
proof -
  assume "0 < D"
  then have "of_int N / of_int D * pow10 t \<le> of_int m * pow10 t \<longleftrightarrow> (of_int N :: rat) \<le> of_int (m * D)"
    by (simp add: mult_le_cancel_right divide_le_eq not_less)
  then show ?thesis by (simp only: of_int_le_iff)
qed

lemma multiple_le_quotient: "0 < D \<Longrightarrow> of_int m * pow10 t \<le> of_int N / of_int D * pow10 t \<longleftrightarrow> m * D \<le> N"
proof -
  assume "0 < D"
  then have "of_int m * pow10 t \<le> of_int N / of_int D * pow10 t \<longleftrightarrow> (of_int (m * D) :: rat) \<le> of_int N"
    by (simp add: mult_le_cancel_right le_divide_eq not_less)
  then show ?thesis by (simp only: of_int_le_iff)
qed

lemma round_at_le_multiple:
  assumes "x \<le> of_int m * pow10 t"
  shows "round_at t x \<le> of_int m * pow10 t"
proof -
  obtain N D where nd: "0 < D" "x = of_int N / of_int D * pow10 t"
    "round_at t x = of_int (round_half_even N D) * pow10 t" by (rule round_atE)
  then have "N \<le> m * D" using assms quotient_le_multiple by blast
  with nd show ?thesis using round_half_even_le[of D N m] by simp
qed

lemma round_at_ge_multiple:
  assumes "of_int m * pow10 t \<le> x"
  shows "of_int m * pow10 t \<le> round_at t x"
proof -
  obtain N D where nd: "0 < D" "x = of_int N / of_int D * pow10 t"
    "round_at t x = of_int (round_half_even N D) * pow10 t" by (rule round_atE)
  then have "m * D \<le> N" using assms multiple_le_quotient by blast
  with nd show ?thesis using round_half_even_ge[of D m N] by simp
qed

lemma round_at_multiple: "round_at t (of_int m * pow10 t) = of_int m * pow10 t"
  using round_at_le_multiple[of _ m t] round_at_ge_multiple[of m t] by (intro antisym) auto

text \<open>A power of ten at or above the rounding position is a multiple of it.\<close>

lemma pow10_multiple: "t \<le> s \<Longrightarrow> pow10 s = of_int (10 ^ nat (s - t)) * pow10 t"
proof -
  assume "t \<le> s"
  then have "pow10 (s - t) = of_int (10 ^ nat (s - t))" by (simp add: pow10_def)
  then show ?thesis using pow10_add[of "s - t" t] by simp
qed

lemma round_at_nonneg: "0 \<le> x \<Longrightarrow> 0 \<le> round_at t x"
  using round_at_ge_multiple[of 0 t x] by simp

lemma round_at_le_pow10: "t \<le> s \<Longrightarrow> x \<le> pow10 s \<Longrightarrow> round_at t x \<le> pow10 s"
  using round_at_le_multiple[of x "10 ^ nat (s - t)" t] by (simp add: pow10_multiple[of t s])

lemma round_half_even_ge_iff:
  assumes "0 < d"
  shows "k + 1 \<le> round_half_even n d \<longleftrightarrow> (2 * k + 1) * d < 2 * n \<or> ((2 * k + 1) * d = 2 * n \<and> odd k)"
proof -
  define q r where "q = n div d" and "r = n mod d"
  have r: "0 \<le> r" "r < d" using assms by (simp_all add: r_def)
  have n: "n = q * d + r" by (simp add: q_def r_def)
  have rhe: "round_half_even n d = (if 2 * r < d \<or> (2 * r = d \<and> even q) then q else q + 1)"
    by (simp add: round_half_even_def q_def r_def Let_def)
  consider "k < q" | "k = q" | "q < k" by linarith
  then show ?thesis
  proof cases
    case 1
    then have "(k + 1) * d \<le> q * d" using assms by (intro mult_right_mono) auto
    then have "(2 * k + 1) * d < 2 * n" using r assms unfolding n by (simp add: algebra_simps)
    with 1 show ?thesis by (auto simp: rhe)
  next
    case 2
    then have "(2 * k + 1) * d < 2 * n \<longleftrightarrow> d < 2 * r" "(2 * k + 1) * d = 2 * n \<longleftrightarrow> d = 2 * r"
      unfolding n by (auto simp: algebra_simps)
    with 2 show ?thesis by (auto simp: rhe)
  next
    case 3
    then have "(q + 1) * d \<le> k * d" using assms by (intro mult_right_mono) auto
    then have "2 * n < (2 * k + 1) * d" using r assms unfolding n by (simp add: algebra_simps)
    with 3 show ?thesis by (auto simp: rhe)
  qed
qed

lemma round_half_even_mono:
  assumes "0 < d" "0 < d'" "n * d' \<le> n' * d"
  shows "round_half_even n d \<le> round_half_even n' d'"
proof -
  define k where "k = round_half_even n d - 1"
  have "k + 1 \<le> round_half_even n d" by (simp add: k_def)
  then have c: "(2 * k + 1) * d < 2 * n \<or> ((2 * k + 1) * d = 2 * n \<and> odd k)"
    using round_half_even_ge_iff[OF assms(1)] by blast
  have step: "(2 * k + 1) * d' * d \<le> 2 * n' * d" if "(2 * k + 1) * d \<le> 2 * n"
  proof -
    have "(2 * k + 1) * d * d' \<le> 2 * n * d'" using that assms(2) by (intro mult_right_mono) auto
    with assms(3) show ?thesis by (simp add: algebra_simps)
  qed
  have "(2 * k + 1) * d' < 2 * n' \<or> ((2 * k + 1) * d' = 2 * n' \<and> odd k)"
  proof (cases "odd k")
    case True
    with c step assms(1) have "(2 * k + 1) * d' \<le> 2 * n'" by auto
    with True show ?thesis by linarith
  next
    case False
    with c have "(2 * k + 1) * d < 2 * n" by simp
    then have "(2 * k + 1) * d * d' < 2 * n * d'" using assms(2) by (intro mult_strict_right_mono) auto
    with assms(3) have "(2 * k + 1) * d' * d < 2 * n' * d" by (simp add: algebra_simps)
    with assms(1) show ?thesis by simp
  qed
  then have "k + 1 \<le> round_half_even n' d'" using round_half_even_ge_iff[OF assms(2)] by blast
  then show ?thesis by (simp add: k_def)
qed

lemma round_at_mono:
  assumes "x \<le> y"
  shows "round_at t x \<le> round_at t y"
proof -
  obtain N D where x: "0 < D" "x = of_int N / of_int D * pow10 t"
    "round_at t x = of_int (round_half_even N D) * pow10 t" by (rule round_atE)
  obtain M E where y: "0 < E" "y = of_int M / of_int E * pow10 t"
    "round_at t y = of_int (round_half_even M E) * pow10 t" by (rule round_atE)
  from assms have "(of_int N / of_int D :: rat) \<le> of_int M / of_int E"
    unfolding x(2) y(2) by (rule mult_right_le_imp_le) simp
  then have "(of_int (N * E) :: rat) \<le> of_int (M * D)" using x(1) y(1) by (simp add: field_simps)
  then have "N * E \<le> M * D" by (simp only: of_int_le_iff)
  with x y show ?thesis using round_half_even_mono[of D E N M] by simp
qed

lemma adjusted_mono: "0 < x \<Longrightarrow> x \<le> y \<Longrightarrow> adjusted x \<le> adjusted y"
proof -
  assume "0 < x" "x \<le> y"
  then have "pow10 (adjusted x) < pow10 (adjusted y + 1)"
    using adjusted_bounds(1)[of x] adjusted_bounds(2)[of y] by linarith
  then have "adjusted x < adjusted y + 1" by (simp only: pow10_less)
  then show ?thesis by simp
qed

definition d_round :: "rat \<Rightarrow> rat" where
  "d_round x = (if x = 0 then 0 else round_at (max (adjusted x - (d_prec - 1)) d_etiny) x)"

lemma d_fix_SomeD: "d_fix x = Some y \<Longrightarrow> y = d_round x"
  by (auto simp: d_fix_def d_round_def Let_def split: if_splits)

lemma d_round_mono:
  assumes "0 \<le> x" "x \<le> y"
  shows "d_round x \<le> d_round y"
proof (cases "x = 0")
  case True
  with assms show ?thesis by (simp add: d_round_def round_at_nonneg)
next
  case False
  with assms have pos: "0 < x" "0 < y" by auto
  show ?thesis
  proof (cases "adjusted x = adjusted y")
    case True
    with pos assms show ?thesis by (simp add: d_round_def round_at_mono)
  next
    case False
    define s where "s = adjusted y"
    define tx where "tx = max (adjusted x - 27) d_etiny"
    define ty where "ty = max (adjusted y - 27) d_etiny"
    from False adjusted_mono[OF pos(1) assms(2)] have s: "adjusted x + 1 \<le> s" by (simp add: s_def)
    then have "pow10 (adjusted x + 1) \<le> pow10 s" by (simp only: pow10_le)
    then have x: "x \<le> pow10 s" using adjusted_bounds(2)[of x] pos by linarith
    have y: "pow10 s \<le> y" using adjusted_bounds(1)[of y] pos by (simp add: s_def)
    show ?thesis
    proof (cases "ty \<le> s")
      case True
      then have "tx \<le> s" using s by (auto simp: tx_def ty_def s_def)
      then have "round_at tx x \<le> pow10 s" using x by (rule round_at_le_pow10)
      also have "\<dots> \<le> round_at ty y"
        using round_at_ge_multiple[of "10 ^ nat (s - ty)" ty y] y pow10_multiple[OF True] by simp
      finally show ?thesis using pos by (simp add: d_round_def tx_def ty_def)
    next
      case False
      then have "ty = d_etiny" "tx = d_etiny" using s by (auto simp: tx_def ty_def s_def max_def split: if_splits)
      then show ?thesis using pos assms(2) round_at_mono[OF assms(2), of d_etiny] by (simp add: d_round_def tx_def ty_def)
    qed
  qed
qed

lemma d_fix_nonneg: "d_fix x = Some y \<Longrightarrow> 0 \<le> x \<Longrightarrow> 0 \<le> y"
  by (auto dest!: d_fix_SomeD simp: d_round_def round_at_nonneg)

lemma d_fix_mono: "d_fix x = Some x' \<Longrightarrow> d_fix y = Some y' \<Longrightarrow> 0 \<le> x \<Longrightarrow> x \<le> y \<Longrightarrow> x' \<le> y'"
  by (auto dest!: d_fix_SomeD intro: d_round_mono)

lemma d_round_1 [simp]: "d_round 1 = 1"
proof -
  have "adjusted 1 = 0" by code_simp
  then show ?thesis using round_at_multiple[of "- 27" "10 ^ 27"] by (simp add: d_round_def pow10_def)
qed

text \<open>A result has a finite expansion within the context.\<close>

lemma d_fix_multiple:
  assumes "d_fix x = Some x"
  obtains m k where "x * 10 ^ k = of_int m" "k \<le> 1000026"
proof -
  obtain t m where t: "x = of_int m * pow10 t" "d_etiny \<le> t"
  proof (cases "x = 0")
    case True
    then show thesis using that[of 0 0] by simp
  next
    case False
    define t where "t = max (adjusted x - 27) d_etiny"
    have "x = round_at t x" using d_fix_SomeD[OF assms] False by (simp add: d_round_def t_def)
    then show thesis using that[of _ t] round_atE[of x t] by (metis t_def max.cobounded2)
  qed
  show thesis
  proof (cases "0 \<le> t")
    case True
    with t have "x * 10 ^ 0 = of_int (m * 10 ^ nat t)" by (simp add: pow10_def)
    then show thesis by (rule that) simp
  next
    case False
    with t have "x * 10 ^ nat (- t) = of_int m" by (simp add: pow10_def)
    moreover have "nat (- t) \<le> 1000026" using t(2) by simp
    ultimately show thesis using that by blast
  qed
qed

lemma d_fix_adjusted: "d_fix x = Some x \<Longrightarrow> x \<noteq> 0 \<Longrightarrow> adjusted x \<le> d_emax"
  by (auto simp: d_fix_def Let_def split: if_splits)

subsection \<open>Text: laws\<close>

text \<open>\<open>places\<close> is the least exponent that clears the denominator.\<close>

lemma places_dvd: "0 < d \<Longrightarrow> d dvd 10 ^ k \<Longrightarrow> d dvd 10 ^ places d"
proof (induction d rule: places.induct)
  case (1 d)
  show ?case
  proof (cases "d \<le> 1 \<or> gcd d 10 = 1")
    case True
    then have "d = 1"
    proof
      assume "gcd d 10 = 1"
      then have "coprime d 10" by (simp add: coprime_iff_gcd_eq_1)
      then have "coprime d (10 ^ k)" by simp
      with "1.prems" show ?thesis by (metis coprime_absorb_left zdvd1_eq abs_of_pos)
    qed (use "1.prems" in simp)
    then show ?thesis by simp
  next
    case False
    define e where "e = d div gcd d 10"
    have d: "d = e * gcd d 10" by (simp add: e_def)
    have "0 < e" using "1.prems"(1) by (simp add: e_def pos_imp_zdiv_pos_iff zdvd_imp_le)
    moreover have "e dvd 10 ^ k" using "1.prems"(2) d by (metis dvd_mult_left)
    ultimately have "e dvd 10 ^ places e" using "1.IH"[OF False] by (simp add: e_def)
    then have "e * gcd d 10 dvd 10 ^ places e * 10" by (intro mult_dvd_mono) auto
    then show ?thesis using False d by (subst places.simps) (simp add: e_def mult.commute)
  qed
qed

lemma places_le: "0 < d \<Longrightarrow> d dvd 10 ^ k \<Longrightarrow> places d \<le> k"
proof (induction d arbitrary: k rule: places.induct)
  case (1 d)
  show ?case
  proof (cases "d \<le> 1 \<or> gcd d 10 = 1")
    case True
    then show ?thesis by (subst places.simps) simp
  next
    case False
    define g e h where "g = gcd d 10" and "e = d div g" and "h = 10 div g"
    have g: "d = e * g" "10 = h * g" by (simp_all add: e_def h_def g_def)
    have "0 < g" by (simp add: g_def)
    have "0 < e" using "1.prems"(1) \<open>0 < g\<close> g(1) by (metis zero_less_mult_pos2)
    have "coprime e h" unfolding e_def h_def g_def by (rule div_gcd_coprime) simp
    obtain j where k: "k = Suc j"
      using "1.prems" False by (cases k) auto
    have "e * g dvd (h * 10 ^ j) * g" using "1.prems"(2) g k by (metis mult.assoc mult.commute power_Suc)
    then have "e dvd h * 10 ^ j" using \<open>0 < g\<close> by simp
    with \<open>coprime e h\<close> have "e dvd 10 ^ j" by (simp add: coprime_dvd_mult_right_iff)
    then have "places e \<le> j" using "1.IH"[OF False] \<open>0 < e\<close> by (simp add: e_def g_def)
    then show ?thesis using False k by (subst places.simps) (simp add: e_def g_def)
  qed
qed

lemma takeWhile_digits: "list_all is_digit w \<Longrightarrow> takeWhile is_digit w = w \<and> dropWhile is_digit w = []"
  by (induction w) auto

lemma span_digits_all: "list_all is_digit w \<Longrightarrow> span_digits w = (w, [])"
  by (simp add: span_digits_def takeWhile_digits)

lemma span_digits_dot: "list_all is_digit w \<Longrightarrow> span_digits (w @ CHR ''.'' # v) = (w, CHR ''.'' # v)"
  by (induction w) (auto simp: span_digits_def is_digit_def)

lemma is_digit_plain:
  "is_digit c \<Longrightarrow> c \<noteq> CHR ''_'' \<and> c \<noteq> CHR ''-'' \<and> c \<noteq> CHR ''+'' \<and> \<not> py_space c"
  by (auto simp: is_digit_def py_space_def Let_def)

text \<open>Text made of digits and at most one inner point is read as it stands.\<close>

lemma parse_decimal_plain:
  assumes "w \<noteq> []" "list_all is_digit w" "list_all is_digit v"
    and "s = w @ (if v = [] then [] else CHR ''.'' # v)"
    and "parse_number s = Some x"
  shows "parse_decimal s = Some (DFinite x)"
proof -
  obtain c cs where w: "w = c # cs" using assms(1) by (cases w) auto
  have c: "is_digit c" using assms(2) w by simp
  have l: "is_digit (last s)"
    using assms(1-4) by (auto simp: list_all_iff)
  have s: "s \<noteq> []" "hd s = c" "\<exists>r. s = c # r" using w assms(4) by auto
  have "py_strip s = s"
    using s c l is_digit_plain by (intro py_strip_ends) auto
  moreover have "filter (\<lambda>c. c \<noteq> CHR ''_'') s = s"
    using assms(2-4) is_digit_plain by (intro filter_True) (auto simp: list_all_iff)
  ultimately show ?thesis
    using assms(5) s(3) is_digit_plain[OF c] by (auto simp: parse_decimal_def)
qed

lemma parse_number_plain:
  assumes "w \<noteq> []" "list_all is_digit w" "list_all is_digit v"
    and "s = w @ (if v = [] then [] else CHR ''.'' # v)"
    and "exact_range (digits_val (w @ v)) (- int (length v))"
  shows "parse_number s = Some (of_int (digits_val (w @ v)) * pow10 (- int (length v)))"
  using assms
  by (cases "v = []")
     (auto simp: parse_number_def Let_def span_digits_all span_digits_dot parse_exponent_def)

lemma terminating_expansion:
  assumes "0 \<le> x" "d_fix x = Some x" "quotient_of x = (n, d)"
  shows "x = of_int (n * 10 ^ places d div d) * pow10 (- int (places d))"
    and "0 \<le> n * 10 ^ places d div d" and "places d \<le> 1000026"
proof -
  note q = assms(3)
  have d: "0 < d" using quotient_of_denom_pos[OF q] .
  have eq: "x = of_int n / of_int d" using quotient_of_div[OF q] .
  have n: "0 \<le> n" using assms(1) d unfolding eq by (simp add: zero_le_divide_iff)
  obtain m k where mk: "x * 10 ^ k = of_int m" "k \<le> 1000026" using d_fix_multiple[OF assms(2)] .
  then have "(of_int (n * 10 ^ k) :: rat) = of_int (m * d)" using d unfolding eq by (simp add: field_simps)
  then have "n * 10 ^ k = m * d" by (simp only: of_int_eq_iff)
  then have "d dvd n * 10 ^ k" by simp
  moreover have "coprime d n" using quotient_of_coprime[OF q] by (simp add: coprime_commute)
  ultimately have dvd: "d dvd 10 ^ k" by (simp add: coprime_dvd_mult_right_iff)
  show "places d \<le> 1000026" using places_le[OF d dvd] mk(2) by simp
  show "0 \<le> n * 10 ^ places d div d" using n d by (simp add: pos_imp_zdiv_nonneg_iff)
  have "n * 10 ^ places d div d * d = n * 10 ^ places d" using places_dvd[OF d dvd] by simp
  then have "(of_int (n * 10 ^ places d div d * d) :: rat) = of_int (n * 10 ^ places d)" by (simp only:)
  then show "x = of_int (n * 10 ^ places d div d) * pow10 (- int (places d))"
    using d unfolding eq pow10_neg pow10_nat by (simp add: field_simps)
qed

lemma exact_range_expansion:
  assumes "d_fix x = Some x" "x = of_int M * pow10 (- int p)" "0 \<le> M" "p \<le> 1000026"
  shows "exact_range M (- int p)"
proof (cases "M = 0")
  case True
  then show ?thesis using assms(4) by (simp add: exact_range_def dec_len.simps)
next
  case False
  then have "0 < M" using assms(3) by simp
  then have "pow10 (int (dec_len M) - 1 - int p) \<le> x"
    unfolding assms(2) diff_conv_add_uminus[of _ "int p"] pow10_add
    by (intro mult_right_mono int_pow10_bounds(1)) (simp_all add: less_imp_le)
  moreover have "x \<noteq> 0" "0 \<le> x" using False assms(2,3) by simp_all
  then have "x < pow10 (adjusted x + 1)" "adjusted x + 1 \<le> d_emax + 1"
    using adjusted_bounds(2)[of x] d_fix_adjusted[OF assms(1)] by simp_all
  then have "x < pow10 (d_emax + 1)" by (meson order_less_le_trans pow10_le)
  ultimately have "pow10 (int (dec_len M) - 1 - int p) < pow10 (d_emax + 1)" by linarith
  then have "int (dec_len M) - 1 - int p < d_emax + 1" by (simp only: pow10_less)
  then show ?thesis using assms(4) by (simp add: exact_range_def)
qed

text \<open>Printing and parsing are inverse on every value the context holds exactly.\<close>

lemma parse_format:
  assumes "0 \<le> x" "d_fix x = Some x"
  shows "parse_decimal (format_f x) = Some (DFinite x)"
proof -
  obtain n d where q: "quotient_of x = (n, d)" by (cases "quotient_of x")
  define p M where "p = places d" and "M = n * 10 ^ p div d"
  note exp = terminating_expansion[OF assms q, folded p_def, folded M_def]
  define w where "w = nat_digits (M div 10 ^ p)"
  obtain v where v: "nat_digits (10 ^ p + M mod 10 ^ p) = CHR ''1'' # v" "length v = p"
    "list_all is_digit v" "digits_val v = M mod 10 ^ p"
    using nat_digits_padded[of "M mod 10 ^ p" p] by auto
  have w: "w \<noteq> []" "list_all is_digit w" "digits_val w = M div 10 ^ p"
    using exp(2) by (simp_all add: w_def nat_digits_is_digit pos_imp_zdiv_nonneg_iff)
  have f: "format_f x = w @ (if v = [] then [] else CHR ''.'' # v)"
    using assms(1) v q by (auto simp: format_f_def Let_def p_def[symmetric] M_def[symmetric] w_def[symmetric])
  have wv: "digits_val (w @ v) = M" unfolding digits_val_append w(3) v(2,4) by (rule div_mult_mod_eq)
  have "exact_range M (- int p)" using exact_range_expansion[OF assms(2) exp] .
  then have "parse_number (format_f x) = Some x"
    using parse_number_plain[OF w(1,2) v(3) f] exp(1) by (simp add: wv v(2))
  then show ?thesis by (rule parse_decimal_plain[OF w(1,2) v(3) f])
qed

lemma parse_canonical_decimal:
  assumes "0 \<le> x" "d_fix x = Some x" "canonical_decimal x = Some s"
  shows "parse_decimal s = Some (DFinite x)"
proof (cases "x = 0")
  case True
  with assms have "s = ''0''" by (simp add: canonical_decimal_def)
  moreover have "parse_decimal ''0'' = Some (DFinite 0)" by code_simp
  ultimately show ?thesis using True by simp
next
  case False
  with assms show ?thesis using parse_format[OF assms(1,2)] by (simp add: canonical_decimal_def)
qed

subsection \<open>Rounding error\<close>

lemma round_half_even_error: "0 < d \<Longrightarrow> \<bar>2 * (round_half_even n d * d - n)\<bar> \<le> d"
proof -
  assume d: "0 < d"
  define q r where "q = n div d" and "r = n mod d"
  have r: "0 \<le> r" "r < d" using d by (simp_all add: r_def)
  have n: "n = q * d + r" by (simp add: q_def r_def)
  have rhe: "round_half_even n d = (if 2 * r < d \<or> (2 * r = d \<and> even q) then q else q + 1)"
    by (simp add: round_half_even_def q_def r_def Let_def)
  show ?thesis unfolding rhe using r by (auto simp: n algebra_simps)
qed

lemma round_at_error: "\<bar>round_at t x - x\<bar> \<le> pow10 t / 2"
proof -
  obtain N D where nd: "0 < D" "x = of_int N / of_int D * pow10 t"
    "round_at t x = of_int (round_half_even N D) * pow10 t" by (rule round_atE)
  have "(of_int \<bar>2 * (round_half_even N D * D - N)\<bar> :: rat) \<le> of_int D"
    using round_half_even_error[OF nd(1), of N] by (simp only: of_int_le_iff)
  moreover have "(of_int \<bar>2 * (round_half_even N D * D - N)\<bar> :: rat) =
      2 * \<bar>of_int (round_half_even N D) * of_int D - of_int N\<bar>" unfolding of_int_abs of_int_mult abs_mult by simp
  ultimately have b: "2 * \<bar>of_int (round_half_even N D) * of_int D - of_int N\<bar> \<le> (of_int D :: rat)" by simp
  have "of_int (round_half_even N D) - of_int N / of_int D =
      (of_int (round_half_even N D) * of_int D - of_int N) / (of_int D :: rat)" using nd(1) by (simp add: field_simps)
  then have e: "\<bar>of_int (round_half_even N D) - of_int N / of_int D\<bar> \<le> (1 / 2 :: rat)"
    using b nd(1) by (simp add: abs_divide divide_simps)
  have "round_at t x - x = (of_int (round_half_even N D) - of_int N / of_int D) * pow10 t"
    using nd(3) by (subst nd(3), subst nd(2)) (simp add: left_diff_distrib)
  then have "\<bar>round_at t x - x\<bar> = \<bar>of_int (round_half_even N D) - of_int N / of_int D\<bar> * pow10 t"
    by (simp add: abs_mult)
  also have "\<dots> \<le> 1 / 2 * pow10 t" using e by (intro mult_right_mono) auto
  finally show ?thesis by simp
qed

text \<open>Rounding to the context changes a value by less than one unit in its 28th digit.\<close>

lemma d_round_error: "\<bar>d_round x - x\<bar> \<le> max 1 \<bar>x\<bar> / (2 * 10 ^ 27)"
proof (cases "x = 0")
  case False
  define t where "t = max (adjusted x - 27) d_etiny"
  have "pow10 t \<le> max 1 \<bar>x\<bar> / 10 ^ 27"
  proof (cases "adjusted x - 27 \<le> d_etiny")
    case True
    then have "t \<le> - 27" by (simp add: t_def)
    then have "pow10 t \<le> pow10 (- 27)" by (simp only: pow10_le)
    also have "\<dots> = 1 / 10 ^ 27" by (simp add: pow10_def)
    also have "\<dots> \<le> max 1 \<bar>x\<bar> / 10 ^ 27" by (intro divide_right_mono) auto
    finally show ?thesis .
  next
    case f: False
    then have "pow10 t = pow10 (adjusted x) / pow10 27" by (simp add: t_def pow10_diff[symmetric])
    also have "\<dots> \<le> \<bar>x\<bar> / pow10 27" using adjusted_bounds(1)[OF False] by (intro divide_right_mono) auto
    also have "\<dots> \<le> max 1 \<bar>x\<bar> / 10 ^ 27" by (auto simp: pow10_def intro: divide_right_mono)
    finally show ?thesis .
  qed
  with round_at_error[of t x] False show ?thesis by (simp add: d_round_def t_def)
qed (simp add: d_round_def)

lemma round_at_idem: "t' \<le> t \<Longrightarrow> round_at t' (round_at t x) = round_at t x"
proof -
  assume t: "t' \<le> t"
  obtain N D where "round_at t x = of_int (round_half_even N D) * pow10 t" by (rule round_atE)
  then have "round_at t x = of_int (round_half_even N D * 10 ^ nat (t - t')) * pow10 t'"
    using pow10_multiple[OF t] by simp
  then show ?thesis by (metis round_at_multiple)
qed

text \<open>A rounded value is a value of the context.\<close>

lemma d_round_idem:
  assumes "0 \<le> x"
  shows "d_round (d_round x) = d_round x"
proof (cases "x = 0 \<or> d_round x = 0")
  case False
  then have x: "0 < x" "d_round x \<noteq> 0" using assms by auto
  define t where "t = max (adjusted x - 27) d_etiny"
  define y where "y = d_round x"
  have y: "y = round_at t x" "0 < y" using x d_round_mono[of 0 x] by (auto simp: y_def d_round_def t_def)
  define t' where "t' = max (adjusted y - 27) d_etiny"
  have "round_at t' y = y"
  proof (cases "t' \<le> t")
    case False
    then have a: "t' = adjusted y - 27" "t < adjusted y - 27" "adjusted x + 1 \<le> adjusted y"
      by (auto simp: t'_def t_def)
    have "x < pow10 (adjusted x + 1)" using adjusted_bounds(2)[of x] x by simp
    also have "\<dots> \<le> pow10 (adjusted y)" using a(3) by (simp only: pow10_le)
    finally have "round_at t x \<le> pow10 (adjusted y)" using a(2) by (intro round_at_le_pow10) auto
    then have "y \<le> pow10 (adjusted y)" by (simp add: y(1)[symmetric])
    then have e: "y = pow10 (adjusted y)" using adjusted_bounds(1)[of y] y(2) by simp
    have "pow10 (adjusted y) = of_int (10 ^ nat (adjusted y - t')) * pow10 t'"
      using a(1) by (intro pow10_multiple) simp
    with e show ?thesis by (metis round_at_multiple)
  qed (simp add: y(1) round_at_idem)
  then show ?thesis using y(2) by (simp add: y_def[symmetric] t'_def) (simp add: d_round_def)
qed (auto simp: d_round_def)

lemma d_fix_idem: "d_fix x = Some y \<Longrightarrow> 0 \<le> x \<Longrightarrow> d_fix y = Some y"
proof -
  assume a: "d_fix x = Some y" "0 \<le> x"
  then have y: "y = d_round x" "d_round y = y" using d_round_idem d_fix_SomeD by auto
  have "\<not> (y \<noteq> 0 \<and> d_emax < adjusted y)" using a(1) by (auto simp: d_fix_def Let_def split: if_splits)
  with y(2) show ?thesis by (cases "y = 0") (auto simp: d_fix_def d_round_def Let_def)
qed


lemma adjusted_eq: "pow10 a \<le> x \<Longrightarrow> x < pow10 (a + 1) \<Longrightarrow> adjusted x = a"
proof -
  assume a: "pow10 a \<le> x" "x < pow10 (a + 1)"
  have x: "0 < x" using a(1) pow10_pos[of a] by linarith
  then have "pow10 (adjusted x) < pow10 (a + 1)" "pow10 a < pow10 (adjusted x + 1)"
    using adjusted_bounds[of x] a by linarith+
  then have "adjusted x < a + 1" "a < adjusted x + 1" by (simp_all only: pow10_less)
  then show ?thesis by simp
qed

lemma round_at_eq:
  assumes "2 * \<bar>x - of_int m * pow10 t\<bar> < pow10 t \<or> 2 * \<bar>x - of_int m * pow10 t\<bar> = pow10 t \<and> even m"
  shows "round_at t x = of_int m * pow10 t"
proof -
  obtain N D where nd: "0 < D" "x = of_int N / of_int D * pow10 t"
    "round_at t x = of_int (round_half_even N D) * pow10 t" by (rule round_atE)
  have "x - of_int m * pow10 t = of_int (N - m * D) / of_int D * pow10 t"
    using nd(1) by (simp add: nd(2) left_diff_distrib diff_divide_distrib)
  then have a: "2 * \<bar>x - of_int m * pow10 t\<bar> = of_int (2 * \<bar>N - m * D\<bar>) / of_int D * pow10 t"
    using nd(1) by (simp add: abs_mult)
  have "2 * \<bar>x - of_int m * pow10 t\<bar> < pow10 t \<longleftrightarrow> (of_int (2 * \<bar>N - m * D\<bar>) :: rat) < of_int D"
    "2 * \<bar>x - of_int m * pow10 t\<bar> = pow10 t \<longleftrightarrow> (of_int (2 * \<bar>N - m * D\<bar>) :: rat) = of_int D"
    unfolding a using nd(1) pow10_pos[of t] by (simp_all add: divide_less_eq mult_less_cancel_right2 nonzero_divide_eq_eq)
  with assms have c: "2 * \<bar>N - m * D\<bar> < D \<or> 2 * \<bar>N - m * D\<bar> = D \<and> even m" by (simp only: of_int_less_iff of_int_eq_iff)
  define e where "e = N - m * D"
  have eq: "(2 * (m - 1) + 1) * D = 2 * N - 2 * e - D" "(2 * m + 1) * D = 2 * N - 2 * e + D"
    by (simp_all add: e_def algebra_simps)
  have "odd (m - 1) \<and> even m \<and> - D \<le> 2 * e \<and> 2 * e \<le> D \<or> - D < 2 * e \<and> 2 * e < D"
    using c by (simp add: e_def[symmetric]) linarith
  then have "(2 * (m - 1) + 1) * D < 2 * N \<or> (2 * (m - 1) + 1) * D = 2 * N \<and> odd (m - 1)"
    "\<not> ((2 * m + 1) * D < 2 * N \<or> (2 * m + 1) * D = 2 * N \<and> odd m)"
    unfolding eq by linarith+
  then have "m - 1 + 1 \<le> round_half_even N D" "\<not> m + 1 \<le> round_half_even N D"
    using round_half_even_ge_iff[OF nd(1), of _ N] by blast+
  then have "round_half_even N D = m" by linarith
  with nd(3) show ?thesis by simp
qed

text \<open>Rounding to 28 digits, decided by the neighbouring value.\<close>

lemma d_fix_eq:
  assumes "pow10 a \<le> x" "x < pow10 (a + 1)" "\<bar>a\<bar> \<le> 900000"
    "2 * \<bar>x - of_int m * pow10 (a - 27)\<bar> < pow10 (a - 27) \<or>
     2 * \<bar>x - of_int m * pow10 (a - 27)\<bar> = pow10 (a - 27) \<and> even m"
    "pow10 a \<le> of_int m * pow10 (a - 27)" "of_int m * pow10 (a - 27) < pow10 (a + 2)"
  shows "d_fix x = Some (of_int m * pow10 (a - 27))"
proof -
  let ?y = "of_int m * pow10 (a - 27)"
  have "0 < x" using assms(1) pow10_pos[of a] by linarith
  then have x: "adjusted x = a" "x \<noteq> 0" using adjusted_eq[OF assms(1,2)] by simp_all
  have "0 < ?y" using assms(5) pow10_pos[of a] by linarith
  then have "?y \<noteq> 0" "\<bar>?y\<bar> = ?y" by auto
  then have "pow10 (adjusted ?y) < pow10 (a + 2)" using adjusted_bounds(1)[of ?y] assms(6) by linarith
  then have "adjusted ?y < a + 2" by (simp only: pow10_less)
  moreover have "max (a - 27) d_etiny = a - 27" using assms(3) by simp
  moreover have "a + 2 \<le> d_emax" using assms(3) by simp
  ultimately show ?thesis using x round_at_eq[OF assms(4)] by (simp add: d_fix_def Let_def)
qed

lemma d_mul_near: "d_mul x y = Some z \<Longrightarrow> \<bar>z - x * y\<bar> \<le> max 1 \<bar>x * y\<bar> / (2 * 10 ^ 27)"
  using d_round_error[of "x * y"] by (auto simp: d_mul_def dest!: d_fix_SomeD)

end
