(* ===== verification/PyData.thy ===== *)
theory PyData
  imports PyDecimal
begin

text \<open>
  Data of unknown shape: the values a configuration document is parsed into, ISO dates, the JSON
  text of a canonical payload and its SHA-256 digest.
\<close>

subsection \<open>Parsed documents\<close>

text \<open>
  What the YAML and JSON readers produce. A float is represented by the decimal value its
  \<open>repr\<close> denotes, which is all \<open>Decimal(str(x))\<close> uses of it. A mapping keeps its items in
  insertion order.
\<close>

datatype pyobj =
    PNone
  | PBool bool
  | PInt int
  | PFloat decimal_value
  | PDecimal decimal_value
  | PStr string
  | PBytes string
  | PDate date
  | PDatetime instant
  | PList "pyobj list"
  | PDict "(pyobj \<times> pyobj) list"

text \<open>\<open>mapping[key]\<close> and \<open>mapping.get(key)\<close> for a string key.\<close>

definition py_get :: "(pyobj \<times> pyobj) list \<Rightarrow> string \<Rightarrow> pyobj option" where
  "py_get kvs k = map_of kvs (PStr k)"

subsection \<open>Calendar dates\<close>

definition leap_year :: "int \<Rightarrow> bool" where
  "leap_year y \<longleftrightarrow> y mod 4 = 0 \<and> (y mod 100 \<noteq> 0 \<or> y mod 400 = 0)"

definition month_len :: "int \<Rightarrow> int \<Rightarrow> int" where
  "month_len y m = (if m = 2 then (if leap_year y then 29 else 28)
     else if m \<in> {4, 6, 9, 11} then 30 else 31)"

definition valid_date :: "date \<Rightarrow> bool" where
  "valid_date d \<longleftrightarrow> 1 \<le> year d \<and> year d \<le> 9999 \<and> 1 \<le> month d \<and> month d \<le> 12 \<and>
     1 \<le> day d \<and> day d \<le> month_len (year d) (month d)"

definition mk_date :: "int \<Rightarrow> int \<Rightarrow> int \<Rightarrow> date option" where
  "mk_date y m d = (if valid_date (Date y m d) then Some (Date y m d) else None)"

definition pad2 :: "int \<Rightarrow> string" where
  "pad2 n = [digit_char (n div 10 mod 10), digit_char (n mod 10)]"

text \<open>\<open>date.isoformat\<close>.\<close>

definition isoformat :: "date \<Rightarrow> string" where
  "isoformat d = pad2 (year d div 100) @ pad2 (year d mod 100) @ ''-'' @ pad2 (month d) @ ''-'' @ pad2 (day d)"

text \<open>Monday is \<open>0\<close>.\<close>

definition weekday_jan1 :: "int \<Rightarrow> int" where
  "weekday_jan1 y = (let p = y - 1 in (p * 365 + p div 4 - p div 100 + p div 400) mod 7)"

fun day_of_year :: "int \<Rightarrow> int list \<Rightarrow> int \<Rightarrow> date option" where
  "day_of_year y [] k = mk_date (y + 1) 1 (k + 1)"
| "day_of_year y (m # ms) k =
     (if k < month_len y m then mk_date y m (k + 1) else day_of_year y ms (k - month_len y m))"

definition from_isoweek :: "int \<Rightarrow> int \<Rightarrow> int \<Rightarrow> date option" where
  "from_isoweek y w d =
     (let first = weekday_jan1 y;
          k = (w - 1) * 7 + (d - 1) - first + (if 3 < first then 7 else 0)
      in if \<not> (1 \<le> y \<and> y \<le> 9999) \<or> \<not> (1 \<le> d \<and> d \<le> 7) \<or>
            \<not> ((1 \<le> w \<and> w \<le> 52) \<or> (w = 53 \<and> (first = 3 \<or> (first = 2 \<and> leap_year y)))) then None
         else if k < 0 then mk_date (y - 1) 12 (32 + k)
         else day_of_year y [1, 2, 3, 4, 5, 6, 7, 8, 9, 10, 11, 12] k)"

text \<open>The digits at positions \<open>i\<close> to \<open>i + n\<close>.\<close>

definition digits_at :: "nat \<Rightarrow> nat \<Rightarrow> string \<Rightarrow> int option" where
  "digits_at i n s = (let w = take n (drop i s) in
     if length w = n \<and> list_all is_digit w then Some (digits_val w) else None)"

definition ymd :: "nat \<Rightarrow> nat \<Rightarrow> string \<Rightarrow> date option" where
  "ymd i j s = (case (digits_at 0 4 s, digits_at i 2 s, digits_at j 2 s) of
      (Some y, Some m, Some d) \<Rightarrow> mk_date y m d | _ \<Rightarrow> None)"

definition ywd :: "nat \<Rightarrow> nat option \<Rightarrow> string \<Rightarrow> date option" where
  "ywd i j s = (case (digits_at 0 4 s, digits_at i 2 s, case j of None \<Rightarrow> Some 1 | Some k \<Rightarrow> digits_at k 1 s) of
      (Some y, Some w, Some d) \<Rightarrow> from_isoweek y w d | _ \<Rightarrow> None)"

text \<open>\<open>date.fromisoformat\<close>: calendar and week dates, with or without separators.\<close>

definition fromisoformat :: "string \<Rightarrow> date option" where
  "fromisoformat s =
     (let n = length s; ch = (\<lambda>i c. i < n \<and> s ! i = c) in
      if n = 10 then
        (if ch 4 CHR ''-'' \<and> ch 7 CHR ''-'' then ymd 5 8 s
         else if ch 4 CHR ''-'' \<and> ch 5 CHR ''W'' \<and> ch 8 CHR ''-'' then ywd 6 (Some 9) s else None)
      else if n = 8 then
        (if ch 4 CHR ''-'' \<and> ch 5 CHR ''W'' then ywd 6 None s
         else if ch 4 CHR ''W'' then ywd 5 (Some 7) s else ymd 4 6 s)
      else if n = 7 \<and> ch 4 CHR ''W'' then ywd 5 None s
      else None)"

subsection \<open>Canonical JSON text\<close>

datatype json = JNull | JBool bool | JInt int | JStr string | JList "json list" | JObj "(string \<times> json) list"

text \<open>How a payload reads back as a parsed document.\<close>

fun py_of_json :: "json \<Rightarrow> pyobj" where
  "py_of_json JNull = PNone"
| "py_of_json (JBool b) = PBool b"
| "py_of_json (JInt i) = PInt i"
| "py_of_json (JStr s) = PStr s"
| "py_of_json (JList xs) = PList (map py_of_json xs)"
| "py_of_json (JObj kvs) = PDict (map (\<lambda>(k, v). (PStr k, py_of_json v)) kvs)"

definition json_char :: "bool \<Rightarrow> char \<Rightarrow> string" where
  "json_char ascii c = (let n = code_point c in
     if c = CHR 0x22 then [CHR 0x5C, CHR 0x22]
     else if c = CHR 0x5C then [CHR 0x5C, CHR 0x5C]
     else if n = 8 then [CHR 0x5C, CHR ''b''] else if n = 9 then [CHR 0x5C, CHR ''t'']
     else if n = 10 then [CHR 0x5C, CHR ''n''] else if n = 12 then [CHR 0x5C, CHR ''f'']
     else if n = 13 then [CHR 0x5C, CHR ''r'']
     else if n < 32 \<or> (ascii \<and> 126 < n) then CHR 0x5C # CHR ''u'' # hex_digits 4 n
     else [c])"

definition json_string :: "bool \<Rightarrow> string \<Rightarrow> string" where
  "json_string ascii s = CHR 0x22 # concat (map (json_char ascii) s) @ [CHR 0x22]"

text \<open>\<open>json.dumps(payload, sort_keys=True, separators=(",", ":"), ensure_ascii=ascii)\<close>.\<close>

fun json_dumps :: "bool \<Rightarrow> json \<Rightarrow> string" where
  "json_dumps ascii JNull = ''null''"
| "json_dumps ascii (JBool b) = (if b then ''true'' else ''false'')"
| "json_dumps ascii (JInt i) = int_str i"
| "json_dumps ascii (JStr s) = json_string ascii s"
| "json_dumps ascii (JList xs) = ''['' @ py_join '','' (map (json_dumps ascii) xs) @ '']''"
| "json_dumps ascii (JObj kvs) = ''{'' @ py_join '',''
     (map snd (sort_key fst (map (\<lambda>(k, v). (k, json_string ascii k @ '':'' @ json_dumps ascii v)) kvs))) @ ''}''"

text \<open>The number of bytes of the UTF-8 encoding.\<close>

definition utf8_len :: "string \<Rightarrow> int" where
  "utf8_len s = sum_list (map (\<lambda>c. if code_point c < (128 :: nat) then 1 else 2) s)"

subsection \<open>SHA-256\<close>

type_synonym w32 = "32 word"

text \<open>
  The constants of the standard: the first 32 bits of the fractional parts of the square and cube
  roots of the first primes, here by bisection on the integer roots.
\<close>

fun int_root :: "nat \<Rightarrow> nat \<Rightarrow> int \<Rightarrow> int \<Rightarrow> int" where
  "int_root k 0 n r = r"
| "int_root k (Suc b) n r = int_root k b n (if (r + 2 ^ b) ^ k \<le> n then r + 2 ^ b else r)"

definition root_fraction :: "nat \<Rightarrow> int \<Rightarrow> w32" where
  "root_fraction k p = of_int (int_root k 36 (p * 2 ^ (32 * k)) 0)"

definition sha_primes :: "int list" where
  "sha_primes = [2, 3, 5, 7, 11, 13, 17, 19, 23, 29, 31, 37, 41, 43, 47, 53,
    59, 61, 67, 71, 73, 79, 83, 89, 97, 101, 103, 107, 109, 113, 127, 131,
    137, 139, 149, 151, 157, 163, 167, 173, 179, 181, 191, 193, 197, 199, 211, 223,
    227, 229, 233, 239, 241, 251, 257, 263, 269, 271, 277, 281, 283, 293, 307, 311]"

definition sha_k :: "w32 list" where
  "sha_k = map (root_fraction 3) sha_primes"

definition sha_init :: "w32 list" where
  "sha_init = map (root_fraction 2) (take 8 sha_primes)"

unbundle bit_operations_syntax

definition sha_round :: "w32 \<times> w32 \<Rightarrow> w32 list \<Rightarrow> w32 list" where
  "sha_round kw v = (case v of [a, b, c, d, e, f, g, h] \<Rightarrow>
     (let s1 = word_rotr 6 e XOR word_rotr 11 e XOR word_rotr 25 e;
          ch = (e AND f) XOR (NOT e AND g);
          t1 = h + s1 + ch + fst kw + snd kw;
          s0 = word_rotr 2 a XOR word_rotr 13 a XOR word_rotr 22 a;
          maj = (a AND b) XOR (a AND c) XOR (b AND c)
      in [t1 + s0 + maj, a, b, c, d + t1, e, f, g])
    | _ \<Rightarrow> v)"

fun sha_extend :: "nat \<Rightarrow> w32 list \<Rightarrow> w32 list" where
  "sha_extend 0 w = w"
| "sha_extend (Suc n) w =
     (let i = length w; x = w ! (i - 15); y = w ! (i - 2);
          s0 = word_rotr 7 x XOR word_rotr 18 x XOR drop_bit 3 x;
          s1 = word_rotr 17 y XOR word_rotr 19 y XOR drop_bit 10 y
      in sha_extend n (w @ [w ! (i - 16) + s0 + w ! (i - 7) + s1]))"

definition sha_block :: "w32 list \<Rightarrow> w32 list \<Rightarrow> w32 list" where
  "sha_block v w = map2 (+) v (fold sha_round (zip sha_k (sha_extend 48 w)) v)"

definition be_word :: "int list \<Rightarrow> w32" where
  "be_word bs = of_int (foldl (\<lambda>a b. a * 256 + b) 0 bs)"

fun chunks :: "nat \<Rightarrow> 'a list \<Rightarrow> 'a list list" where
  "chunks n [] = []"
| "chunks n (x # xs) = take (Suc n) (x # xs) # chunks n (drop n xs)"

definition sha_pad :: "int list \<Rightarrow> int list" where
  "sha_pad bs = (let n = length bs in
     bs @ [128] @ replicate ((55 + 64 - n mod 64) mod 64) 0 @
     map (\<lambda>i. (8 * int n) div 256 ^ i mod 256) (rev [0..<8]))"

text \<open>\<open>hashlib.sha256(data).hexdigest()\<close>, on the bytes of the text.\<close>

definition sha256 :: "string \<Rightarrow> string" where
  "sha256 s = concat (map (\<lambda>w. hex_loop 8 (uint w) [])
     (foldl sha_block sha_init (map (map be_word \<circ> chunks 3) (chunks 63 (sha_pad (map of_char s))))))"

text \<open>The digest of canonical content.\<close>

definition json_digest :: "json \<Rightarrow> string" where
  "json_digest j = sha256 (json_dumps True j)"

end
