(* ===== verification/Contracts.thy ===== *)
theory Contracts
  imports PyData
begin

text \<open>
  The provider-neutral contracts (\<open>gateway-contracts\<close>): the controlled vocabularies of
  \<open>enums.py\<close> and the request, message, usage and event values of \<open>contracts.py\<close>. The check a
  dataclass runs in \<open>__post_init__\<close> is a predicate \<open>X_ok\<close>; a value that fails it is never
  constructed. JSON schemas and tool arguments are JSON objects.
\<close>

subsection \<open>Controlled vocabularies\<close>

datatype DataClassification = PUBLIC | INTERNAL | CONFIDENTIAL | RESTRICTED

datatype RiskLevel = LOW | MEDIUM | HIGH | CRITICAL

datatype MessageRole = SYSTEM | USER | ASSISTANT | TOOL

datatype ClientProtocol = NATIVE | ANTHROPIC_MESSAGES | OPENAI_RESPONSES

datatype ExecutionStatus = SUCCEEDED | FAILED | REJECTED

datatype StreamEventType =
    RESPONSE_STARTED | CONTENT_DELTA | TOOL_CALL_STARTED | TOOL_CALL_ARGUMENTS_DELTA
  | TOOL_CALL_COMPLETED | USAGE_COMPLETED | RESPONSE_COMPLETED | RESPONSE_FAILED

datatype RejectionReason =
    WRONG_MODEL_GROUP | DEPLOYMENT_DISABLED | MISSING_CAPABILITY | CONTEXT_TOO_SMALL
  | PROVIDER_NOT_AUTHORIZED | PRICING_UNAVAILABLE | RANKING_SCORE_UNAVAILABLE
  | DEPLOYMENT_UNHEALTHY | CIRCUIT_BREAKER_OPEN | COST_LIMIT_EXCEEDED | LATENCY_LIMIT_EXCEEDED

datatype Capability =
    TEXT | VISION | TOOL_CALLING | STRUCTURED_OUTPUT | STREAMING | AUDIO | DOCUMENT
  | PARALLEL_TOOL_CALLING

datatype Modality = TEXT_INPUT | IMAGE_INPUT | AUDIO_INPUT | DOCUMENT_INPUT

datatype ImageMediaType = JPEG | PNG | WEBP
datatype AudioMediaType = MPEG | WAV | OGG | WEBM
datatype DocumentMediaType = PDF | PLAIN_TEXT | JSON_DOCUMENT

fun classification_value :: "DataClassification \<Rightarrow> string" where
  "classification_value PUBLIC = ''public''"
| "classification_value INTERNAL = ''internal''"
| "classification_value CONFIDENTIAL = ''confidential''"
| "classification_value RESTRICTED = ''restricted''"

fun capability_value :: "Capability \<Rightarrow> string" where
  "capability_value TEXT = ''text''"
| "capability_value VISION = ''vision''"
| "capability_value TOOL_CALLING = ''tool_calling''"
| "capability_value STRUCTURED_OUTPUT = ''structured_output''"
| "capability_value STREAMING = ''streaming''"
| "capability_value AUDIO = ''audio''"
| "capability_value DOCUMENT = ''document''"
| "capability_value PARALLEL_TOOL_CALLING = ''parallel_tool_calling''"

fun modality_value :: "Modality \<Rightarrow> string" where
  "modality_value TEXT_INPUT = ''text''"
| "modality_value IMAGE_INPUT = ''image''"
| "modality_value AUDIO_INPUT = ''audio''"
| "modality_value DOCUMENT_INPUT = ''document''"

fun rejection_value :: "RejectionReason \<Rightarrow> string" where
  "rejection_value WRONG_MODEL_GROUP = ''wrong_model_group''"
| "rejection_value DEPLOYMENT_DISABLED = ''deployment_disabled''"
| "rejection_value MISSING_CAPABILITY = ''missing_capability''"
| "rejection_value CONTEXT_TOO_SMALL = ''context_too_small''"
| "rejection_value PROVIDER_NOT_AUTHORIZED = ''provider_not_authorized''"
| "rejection_value PRICING_UNAVAILABLE = ''pricing_unavailable''"
| "rejection_value RANKING_SCORE_UNAVAILABLE = ''ranking_score_unavailable''"
| "rejection_value DEPLOYMENT_UNHEALTHY = ''deployment_unhealthy''"
| "rejection_value CIRCUIT_BREAKER_OPEN = ''circuit_breaker_open''"
| "rejection_value COST_LIMIT_EXCEEDED = ''cost_limit_exceeded''"
| "rejection_value LATENCY_LIMIT_EXCEEDED = ''latency_limit_exceeded''"

text \<open>The members of the enumerations in definition order, as iterating over the class yields them.\<close>

definition all_capabilities :: "Capability list" where
  "all_capabilities = [TEXT, VISION, TOOL_CALLING, STRUCTURED_OUTPUT, STREAMING, AUDIO, DOCUMENT,
     PARALLEL_TOOL_CALLING]"

definition all_modalities :: "Modality list" where
  "all_modalities = [TEXT_INPUT, IMAGE_INPUT, AUDIO_INPUT, DOCUMENT_INPUT]"

definition all_classifications :: "DataClassification list" where
  "all_classifications = [PUBLIC, INTERNAL, CONFIDENTIAL, RESTRICTED]"

text \<open>\<open>enum_type(value)\<close>: the member with this value.\<close>

definition enum_of :: "('a \<Rightarrow> string) \<Rightarrow> 'a list \<Rightarrow> string \<Rightarrow> 'a option" where
  "enum_of val members s = find (\<lambda>m. val m = s) members"

subsection \<open>Names\<close>

text \<open>\<open>[A-Za-z_][A-Za-z0-9_-]{0,n}\<close>, matched in full.\<close>

definition name_pattern :: "nat \<Rightarrow> string \<Rightarrow> bool" where
  "name_pattern n s \<longleftrightarrow> (case s of [] \<Rightarrow> False
     | c # cs \<Rightarrow> (is_lower c \<or> is_upper c \<or> c = CHR ''_'') \<and> length cs \<le> n \<and>
         list_all (\<lambda>d. is_alnum d \<or> d = CHR ''_'' \<or> d = CHR ''-'') cs)"

definition tool_name_ok :: "string \<Rightarrow> bool" where
  "tool_name_ok = name_pattern 127"

definition schema_name_ok :: "string \<Rightarrow> bool" where
  "schema_name_ok = name_pattern 63"

definition trace_id_ok :: "string \<Rightarrow> bool" where
  "trace_id_ok s \<longleftrightarrow> length s = 32 \<and> list_all is_hex s"

text \<open>\<open>str.isalnum\<close> on one code point below 256.\<close>

definition py_alnum :: "char \<Rightarrow> bool" where
  "py_alnum c \<longleftrightarrow> is_alnum c \<or> (let n = code_point c in
     n \<in> {170, 178, 179, 181, 185, 186, 188, 189, 190} \<or> (192 \<le> n \<and> n \<noteq> 215 \<and> n \<noteq> 247))"

text \<open>The dotted workload identifier: at least two segments, each alphanumeric up to hyphens.\<close>

definition workload_ok :: "string \<Rightarrow> bool" where
  "workload_ok w \<longleftrightarrow> normalized w \<and> 2 \<le> length (py_split CHR ''.'' w) \<and>
     list_all (\<lambda>seg. let r = filter (\<lambda>c. c \<noteq> CHR ''-'') seg in r \<noteq> [] \<and> list_all py_alnum r)
       (py_split CHR ''.'' w)"

subsection \<open>Content\<close>

text \<open>
  A media source. \<open>_validate_https_url\<close> runs when an \<open>HttpsUrlSource\<close> or \<open>ImageInput\<close> is
  constructed; the model takes URL sources that have been constructed.
\<close>

datatype MediaSource = HttpsUrlSource string | Base64Source string

definition is_base64 :: "char \<Rightarrow> bool" where
  "is_base64 c \<longleftrightarrow> is_alnum c \<or> c = CHR ''+'' \<or> c = CHR ''/''"

text \<open>\<open>base64.b64decode(data, validate=True)\<close> succeeds, and the number of bytes it yields.\<close>

definition base64_size :: "string \<Rightarrow> int option" where
  "base64_size s =
     (let body = takeWhile is_base64 s; pad = drop (length body) s; n = int (length body) in
      if pad = [] \<and> n mod 4 = 0 then Some (3 * (n div 4))
      else if pad = ''='' \<and> n mod 4 = 3 then Some (3 * (n div 4) + 2)
      else if pad = ''=='' \<and> n mod 4 = 2 then Some (3 * (n div 4) + 1)
      else None)"

definition Base64Source_ok :: "string \<Rightarrow> bool" where
  "Base64Source_ok s \<longleftrightarrow> normalized s \<and> int (length s) \<le> 6291456 \<and>
     (case base64_size s of None \<Rightarrow> False | Some n \<Rightarrow> n \<le> 4194304)"

record ImageInput =
  im_media_type :: ImageMediaType
  im_url :: string

record ToolCall =
  tc_call_id :: string
  tc_name :: string
  tc_arguments :: "(string \<times> json) list"

definition ToolCall_ok :: "ToolCall \<Rightarrow> bool" where
  "ToolCall_ok c \<longleftrightarrow> normalized (tc_call_id c) \<and> tool_name_ok (tc_name c)"

record ToolResult =
  tr_call_id :: string
  tr_content :: string
  tr_is_error :: bool

definition ToolResult_ok :: "ToolResult \<Rightarrow> bool" where
  "ToolResult_ok r \<longleftrightarrow> normalized (tr_call_id r)"

datatype ContentBlock =
    TextBlock string
  | ImageBlock "ImageMediaType option" MediaSource
  | AudioBlock AudioMediaType MediaSource
  | DocumentBlock DocumentMediaType MediaSource "string option"
  | ToolUseBlock ToolCall
  | ToolResultBlock ToolResult

fun source_ok :: "MediaSource \<Rightarrow> bool" where
  "source_ok (HttpsUrlSource _) = True"
| "source_ok (Base64Source s) = Base64Source_ok s"

fun is_inline :: "MediaSource \<Rightarrow> bool" where
  "is_inline (HttpsUrlSource _) = False"
| "is_inline (Base64Source _) = True"

definition filename_ok :: "string \<Rightarrow> bool" where
  "filename_ok f \<longleftrightarrow> normalized f \<and> CHR ''/'' \<notin> set f \<and> CHR 0x5C \<notin> set f"

fun ContentBlock_ok :: "ContentBlock \<Rightarrow> bool" where
  "ContentBlock_ok (TextBlock t) \<longleftrightarrow> t \<noteq> []"
| "ContentBlock_ok (ImageBlock m s) \<longleftrightarrow> source_ok s \<and> (is_inline s \<longrightarrow> m \<noteq> None)"
| "ContentBlock_ok (AudioBlock m s) \<longleftrightarrow> source_ok s \<and> is_inline s"
| "ContentBlock_ok (DocumentBlock m s f) \<longleftrightarrow> source_ok s \<and> is_inline s \<and>
     (case f of None \<Rightarrow> True | Some n \<Rightarrow> filename_ok n)"
| "ContentBlock_ok (ToolUseBlock c) \<longleftrightarrow> ToolCall_ok c"
| "ContentBlock_ok (ToolResultBlock r) \<longleftrightarrow> ToolResult_ok r"

fun is_image :: "ContentBlock \<Rightarrow> bool" where
  "is_image (ImageBlock _ _) = True"
| "is_image _ = False"

fun is_audio :: "ContentBlock \<Rightarrow> bool" where
  "is_audio (AudioBlock _ _) = True"
| "is_audio _ = False"

fun is_document :: "ContentBlock \<Rightarrow> bool" where
  "is_document (DocumentBlock _ _ _) = True"
| "is_document _ = False"

fun is_tool_use :: "ContentBlock \<Rightarrow> bool" where
  "is_tool_use (ToolUseBlock _) = True"
| "is_tool_use _ = False"

fun is_tool_result :: "ContentBlock \<Rightarrow> bool" where
  "is_tool_result (ToolResultBlock _) = True"
| "is_tool_result _ = False"

record Message =
  msg_role :: MessageRole
  msg_content :: string
  msg_images :: "ImageInput list"
  msg_blocks :: "ContentBlock list"

definition Message_ok :: "Message \<Rightarrow> bool" where
  "Message_ok m \<longleftrightarrow>
     \<not> (msg_blocks m \<noteq> [] \<and> (msg_content m \<noteq> [] \<or> msg_images m \<noteq> [])) \<and>
     length (msg_images m) \<le> 8 \<and>
     (msg_images m \<noteq> [] \<longrightarrow> msg_role m = USER) \<and>
     (list_ex (\<lambda>b. is_image b \<or> is_audio b \<or> is_document b) (msg_blocks m) \<longrightarrow> msg_role m = USER) \<and>
     (list_ex is_tool_use (msg_blocks m) \<longrightarrow> msg_role m = ASSISTANT) \<and>
     (list_ex is_tool_result (msg_blocks m) \<longrightarrow> msg_role m = USER \<or> msg_role m = TOOL)"

definition canonical_blocks :: "Message \<Rightarrow> ContentBlock list" where
  "canonical_blocks m = (if msg_blocks m \<noteq> [] then msg_blocks m
     else map (\<lambda>i. ImageBlock (Some (im_media_type i)) (HttpsUrlSource (im_url i))) (msg_images m) @
          (if msg_content m \<noteq> [] then [TextBlock (msg_content m)] else []))"

fun block_text :: "ContentBlock \<Rightarrow> string list" where
  "block_text (TextBlock t) = [t]"
| "block_text _ = []"

definition text_content :: "Message \<Rightarrow> string" where
  "text_content m = py_join [CHR 10] (concat (map block_text (canonical_blocks m)))"

subsection \<open>Requests\<close>

record WorkloadRequirements =
  rq_tool_calling :: bool
  rq_structured_output :: bool
  rq_vision :: bool
  rq_streaming :: bool
  rq_audio :: bool
  rq_document :: bool
  rq_parallel_tool_calling :: bool
  rq_min_context_tokens :: int

definition WorkloadRequirements_ok :: "WorkloadRequirements \<Rightarrow> bool" where
  "WorkloadRequirements_ok r \<longleftrightarrow> 0 \<le> rq_min_context_tokens r \<and>
     (rq_parallel_tool_calling r \<longrightarrow> rq_tool_calling r)"

record RequestLimits =
  lm_max_latency_ms :: "int option"
  lm_max_cost_usd :: "rat option"

definition RequestLimits_ok :: "RequestLimits \<Rightarrow> bool" where
  "RequestLimits_ok l \<longleftrightarrow> (case lm_max_latency_ms l of None \<Rightarrow> True | Some v \<Rightarrow> 0 < v) \<and>
     (case lm_max_cost_usd l of None \<Rightarrow> True | Some v \<Rightarrow> 0 \<le> v)"

record StructuredOutputSchema =
  so_name :: string
  so_schema :: "(string \<times> json) list"

definition StructuredOutputSchema_ok :: "StructuredOutputSchema \<Rightarrow> bool" where
  "StructuredOutputSchema_ok s \<longleftrightarrow> schema_name_ok (so_name s) \<and> so_schema s \<noteq> []"

record ToolDefinition =
  td_name :: string
  td_description :: string
  td_input_schema :: "(string \<times> json) list"
  td_strict :: bool

definition ToolDefinition_ok :: "ToolDefinition \<Rightarrow> bool" where
  "ToolDefinition_ok t \<longleftrightarrow> tool_name_ok (td_name t) \<and> normalized (td_description t) \<and>
     map_of (td_input_schema t) ''type'' = Some (JStr ''object'')"

record GatewayRequest =
  gr_schema_version :: string
  gr_request_id :: uuid
  gr_workload :: string
  gr_risk_level :: RiskLevel
  gr_data_classification :: DataClassification
  gr_requirements :: WorkloadRequirements
  gr_limits :: RequestLimits
  gr_messages :: "Message list"
  gr_agent_identity :: "string option"
  gr_tools :: "ToolDefinition list"
  gr_structured_output :: "StructuredOutputSchema option"
  gr_client_protocol :: ClientProtocol

text \<open>The transcript loop: tool-use identifiers and result identifiers seen so far.\<close>

fun blocks_step :: "ContentBlock list \<Rightarrow> string list \<Rightarrow> string list \<Rightarrow> (string list \<times> string list) option" where
  "blocks_step [] uses results = Some (uses, results)"
| "blocks_step (ToolUseBlock c # bs) uses results =
     (if tc_call_id c \<in> set uses then None else blocks_step bs (tc_call_id c # uses) results)"
| "blocks_step (ToolResultBlock r # bs) uses results =
     (if tr_call_id r \<notin> set uses then None
      else if tr_call_id r \<in> set results then None
      else blocks_step bs uses (tr_call_id r # results))"
| "blocks_step (b # bs) uses results = blocks_step bs uses results"

fun transcript_ok :: "bool \<Rightarrow> Message list \<Rightarrow> string list \<Rightarrow> string list \<Rightarrow> bool" where
  "transcript_ok par [] uses results = True"
| "transcript_ok par (m # ms) uses results =
     (if 1 < length (filter is_tool_use (canonical_blocks m)) \<and> \<not> par then False
      else case blocks_step (canonical_blocks m) uses results of
        None \<Rightarrow> False
      | Some (us, rs) \<Rightarrow> transcript_ok par ms us rs)"

definition request_blocks :: "GatewayRequest \<Rightarrow> ContentBlock list" where
  "request_blocks r = concat (map canonical_blocks (gr_messages r))"

definition GatewayRequest_ok :: "GatewayRequest \<Rightarrow> bool" where
  "GatewayRequest_ok r \<longleftrightarrow>
     (let q = gr_requirements r; bs = request_blocks r; images = length (filter is_image bs) in
      gr_schema_version r = ''1.0'' \<and> workload_ok (gr_workload r) \<and>
      distinct (map td_name (gr_tools r)) \<and>
      (gr_tools r \<noteq> [] \<longrightarrow> rq_tool_calling q) \<and>
      (gr_structured_output r \<noteq> None \<longrightarrow> rq_structured_output q) \<and>
      images \<le> 16 \<and> (images \<noteq> 0 \<longrightarrow> rq_vision q) \<and>
      (list_ex is_audio bs \<longrightarrow> rq_audio q) \<and> (list_ex is_document bs \<longrightarrow> rq_document q) \<and>
      (list_ex (\<lambda>b. is_tool_use b \<or> is_tool_result b) bs \<longrightarrow> rq_tool_calling q) \<and>
      transcript_ok (rq_parallel_tool_calling q) (gr_messages r) [] [])"

subsection \<open>Usage, provenance and execution evidence\<close>

record Usage =
  ug_input_tokens :: int
  ug_output_tokens :: int
  ug_total_tokens :: "int option"
  ug_cache_read_input_tokens :: "int option"
  ug_cache_write_input_tokens :: "int option"
  ug_total_cost_usd :: "rat option"

definition Usage_ok :: "Usage \<Rightarrow> bool" where
  "Usage_ok u \<longleftrightarrow> 0 \<le> ug_input_tokens u \<and> 0 \<le> ug_output_tokens u \<and>
     (case ug_total_tokens u of None \<Rightarrow> True
      | Some t \<Rightarrow> 0 \<le> t \<and> t = ug_input_tokens u + ug_output_tokens u) \<and>
     (case ug_cache_read_input_tokens u of None \<Rightarrow> True | Some v \<Rightarrow> 0 \<le> v) \<and>
     (case ug_cache_write_input_tokens u of None \<Rightarrow> True | Some v \<Rightarrow> 0 \<le> v) \<and>
     (case ug_total_cost_usd u of None \<Rightarrow> True | Some v \<Rightarrow> 0 \<le> v)"

record PolicyProvenance =
  pp_decision_id :: string
  pp_policy_id :: string
  pp_policy_version :: string
  pp_policy_digest :: string

record CandidateRejection =
  cr_deployment :: string
  cr_reason :: RejectionReason
  cr_detail :: "string option"

record RoutingProvenance =
  rp_routing_decision_id :: string
  rp_policy :: PolicyProvenance
  rp_authorized_model_group :: string
  rp_model_registry_digest :: string
  rp_ranking_policy_version :: string
  rp_ranking_policy_digest :: "string option"
  rp_score_snapshot_id :: "string option"
  rp_benchmark_snapshot_id :: "string option"
  rp_score_provenance_mode :: "string option"
  rp_manual_override_id :: "string option"
  rp_provider :: "string option"
  rp_model :: "string option"
  rp_deployment :: "string option"
  rp_rejected_candidates :: "CandidateRejection list"
  rp_fallback_sequence :: "string list"

record ProviderExecution =
  px_provider :: string
  px_model :: string
  px_deployment :: string
  px_status :: ExecutionStatus
  px_latency_ms :: int
  px_usage :: "Usage option"
  px_provider_request_id :: "string option"
  px_finish_reason :: "string option"
  px_attempt_number :: int
  px_fallback_index :: int
  px_api_family :: "string option"
  px_max_output_tokens :: "int option"
  px_trace_id :: "string option"
  px_cached :: bool

definition opt_all :: "('a \<Rightarrow> bool) \<Rightarrow> 'a option \<Rightarrow> bool" where
  "opt_all P x \<longleftrightarrow> (case x of None \<Rightarrow> True | Some v \<Rightarrow> P v)"

definition ProviderExecution_ok :: "ProviderExecution \<Rightarrow> bool" where
  "ProviderExecution_ok e \<longleftrightarrow>
     list_all (\<lambda>v. py_strip v \<noteq> []) [px_provider e, px_model e, px_deployment e] \<and>
     0 \<le> px_latency_ms e \<and>
     list_all (opt_all normalized) [px_provider_request_id e, px_finish_reason e, px_api_family e] \<and>
     0 < px_attempt_number e \<and> 0 \<le> px_fallback_index e \<and>
     opt_all (\<lambda>n. 0 < n) (px_max_output_tokens e) \<and> opt_all trace_id_ok (px_trace_id e)"

subsection \<open>Stream events and responses\<close>

record GatewayError =
  ge_code :: string
  ge_message :: string
  ge_retryable :: bool

record GatewayStreamEvent =
  ev_event_type :: StreamEventType
  ev_request_id :: uuid
  ev_sequence_number :: int
  ev_routing :: "RoutingProvenance option"
  ev_delta :: "string option"
  ev_tool_call_id :: "string option"
  ev_tool_name :: "string option"
  ev_tool_call :: "ToolCall option"
  ev_usage :: "Usage option"
  ev_execution :: "ProviderExecution option"
  ev_finish_reason :: "string option"
  ev_error :: "GatewayError option"
  ev_partial :: bool

text \<open>\<open>_require\<close>: fields that only some events may carry.\<close>

definition event_require :: "bool \<Rightarrow> GatewayStreamEvent \<Rightarrow> bool" where
  "event_require routing e \<longleftrightarrow>
     (routing \<longrightarrow> ev_routing e \<noteq> None) \<and>
     (ev_finish_reason e \<noteq> None \<longrightarrow> ev_event_type e = RESPONSE_COMPLETED) \<and>
     (ev_partial e \<longrightarrow> ev_event_type e = RESPONSE_FAILED) \<and>
     (ev_error e \<noteq> None \<longrightarrow> ev_event_type e = RESPONSE_FAILED) \<and>
     (ev_execution e \<noteq> None \<longrightarrow> ev_event_type e \<in> {RESPONSE_COMPLETED, RESPONSE_FAILED})"

text \<open>\<open>_validate_execution\<close> with \<open>required=False\<close>, as both callers pass it.\<close>

definition validate_execution :: "ExecutionStatus \<Rightarrow> GatewayStreamEvent \<Rightarrow> bool" where
  "validate_execution status e \<longleftrightarrow> (case ev_execution e of None \<Rightarrow> True
     | Some x \<Rightarrow> px_status x = status \<and> (case ev_routing e of None \<Rightarrow> False
         | Some r \<Rightarrow> (Some (px_provider x), Some (px_model x), Some (px_deployment x)) =
             (rp_provider r, rp_model r, rp_deployment r)))"

definition has_text :: "string option \<Rightarrow> bool" where
  "has_text d \<longleftrightarrow> (case d of None \<Rightarrow> False | Some t \<Rightarrow> t \<noteq> [])"

definition has_call_id :: "string option \<Rightarrow> bool" where
  "has_call_id d \<longleftrightarrow> (case d of None \<Rightarrow> False | Some t \<Rightarrow> py_strip t \<noteq> [])"

definition event_payload_ok :: "GatewayStreamEvent \<Rightarrow> bool" where
  "event_payload_ok e = (case ev_event_type e of
      RESPONSE_STARTED \<Rightarrow> event_require True e
    | CONTENT_DELTA \<Rightarrow> has_text (ev_delta e) \<and> event_require False e
    | TOOL_CALL_STARTED \<Rightarrow> has_call_id (ev_tool_call_id e) \<and>
        (case ev_tool_name e of None \<Rightarrow> False | Some n \<Rightarrow> tool_name_ok n) \<and> event_require False e
    | TOOL_CALL_ARGUMENTS_DELTA \<Rightarrow> has_call_id (ev_tool_call_id e) \<and> has_text (ev_delta e) \<and>
        event_require False e
    | TOOL_CALL_COMPLETED \<Rightarrow> ev_tool_call e \<noteq> None \<and> event_require False e
    | USAGE_COMPLETED \<Rightarrow> ev_usage e \<noteq> None \<and> event_require False e
    | RESPONSE_COMPLETED \<Rightarrow> event_require True e \<and> validate_execution SUCCEEDED e
    | RESPONSE_FAILED \<Rightarrow> ev_error e \<noteq> None \<and> event_require True e \<and> validate_execution FAILED e)"

definition GatewayStreamEvent_ok :: "GatewayStreamEvent \<Rightarrow> bool" where
  "GatewayStreamEvent_ok e \<longleftrightarrow> 0 < ev_sequence_number e \<and> event_payload_ok e"

record GatewayResponse =
  gs_request_id :: uuid
  gs_status :: ExecutionStatus
  gs_content :: "string option"
  gs_routing :: RoutingProvenance
  gs_execution :: "ProviderExecution option"
  gs_error :: "GatewayError option"
  gs_structured_output :: "json option"
  gs_tool_calls :: "ToolCall list"

end
