(* ===== verification/Registry.thy ===== *)
theory Registry
  imports Contracts
begin

text \<open>
  The model registry (\<open>domain/model_registry.py\<close>): the validated deployment catalogue, the
  builder that parses a document into it, its canonical payload and digest. Errors carry the
  location the message of the source names.
\<close>

subsection \<open>Errors and readers\<close>

datatype config_error =
    NonStringField string
  | UnknownFields string "string list"
  | MissingFields string "string list"
  | BadValue string
  | DuplicateName string string
  | EmptyField string
  | Inconsistent string
  | KeyMissing string
  | DecimalOverflow

type_synonym 'a parsed = "config_error + 'a"
type_synonym items = "(pyobj \<times> pyobj) list"

definition of_overflow :: "'a option \<Rightarrow> 'a parsed" where
  "of_overflow x = (case x of None \<Rightarrow> Inl DecimalOverflow | Some v \<Rightarrow> Inr v)"

definition field_name :: "string \<Rightarrow> pyobj \<Rightarrow> string parsed" where
  "field_name location k = (case k of PStr s \<Rightarrow> Inr s | _ \<Rightarrow> Inl (NonStringField location))"

definition require_fields :: "items \<Rightarrow> string list \<Rightarrow> string list \<Rightarrow> string \<Rightarrow> unit parsed" where
  "require_fields payload allowed required location =
     ebind (emap (\<lambda>kv. field_name location (fst kv)) payload) (\<lambda>keys.
     let unknown = sorted_list_of_set (set keys - set allowed);
         missing = sorted_list_of_set (set required - set keys)
     in if unknown \<noteq> [] then Inl (UnknownFields location unknown)
        else if missing \<noteq> [] then Inl (MissingFields location missing)
        else Inr ())"

definition item :: "items \<Rightarrow> string \<Rightarrow> pyobj parsed" where
  "item payload k = (case py_get payload k of None \<Rightarrow> Inl (KeyMissing k) | Some v \<Rightarrow> Inr v)"

definition require_mapping :: "string \<Rightarrow> pyobj \<Rightarrow> items parsed" where
  "require_mapping field v = (case v of PDict kvs \<Rightarrow> Inr kvs | _ \<Rightarrow> Inl (BadValue field))"

definition require_sequence :: "string \<Rightarrow> pyobj \<Rightarrow> pyobj list parsed" where
  "require_sequence field v = (case v of PList xs \<Rightarrow> Inr xs | _ \<Rightarrow> Inl (BadValue field))"

definition require_string :: "string \<Rightarrow> pyobj \<Rightarrow> string parsed" where
  "require_string field v = (case v of PStr s \<Rightarrow> Inr s | _ \<Rightarrow> Inl (BadValue field))"

definition require_normalized_string :: "nat \<Rightarrow> string \<Rightarrow> pyobj \<Rightarrow> string parsed" where
  "require_normalized_string max_length field v =
     ebind (require_string field v) (\<lambda>text.
     if \<not> normalized text \<or> max_length < length text then Inl (BadValue field) else Inr text)"

definition require_identifier :: "string \<Rightarrow> pyobj \<Rightarrow> string parsed" where
  "require_identifier field v =
     ebind (require_normalized_string 128 field v) (\<lambda>text.
     if \<not> registry_identifier text then Inl (BadValue field) else Inr text)"

definition require_date :: "string \<Rightarrow> pyobj \<Rightarrow> date parsed" where
  "require_date field v = (case v of
      PDate d \<Rightarrow> Inr d
    | _ \<Rightarrow> ebind (require_string field v) (\<lambda>text.
        case fromisoformat text of None \<Rightarrow> Inl (BadValue field) | Some d \<Rightarrow> Inr d))"

definition require_bool :: "string \<Rightarrow> pyobj \<Rightarrow> bool parsed" where
  "require_bool field v = (case v of PBool b \<Rightarrow> Inr b | _ \<Rightarrow> Inl (BadValue field))"

definition require_positive_int :: "string \<Rightarrow> pyobj \<Rightarrow> int parsed" where
  "require_positive_int field v =
     (case v of PInt i \<Rightarrow> if i \<le> 0 then Inl (BadValue field) else Inr i | _ \<Rightarrow> Inl (BadValue field))"

text \<open>\<open>Decimal(str(value))\<close> of a string, integer, float or \<open>Decimal\<close>; booleans are refused.\<close>

definition decimal_of :: "string \<Rightarrow> pyobj \<Rightarrow> decimal_value parsed" where
  "decimal_of field v = (case v of
      PStr s \<Rightarrow> (case parse_decimal s of None \<Rightarrow> Inl (BadValue field) | Some d \<Rightarrow> Inr d)
    | PInt i \<Rightarrow> Inr (DFinite (of_int i))
    | PFloat d \<Rightarrow> Inr d
    | PDecimal d \<Rightarrow> Inr d
    | _ \<Rightarrow> Inl (BadValue field))"

definition require_non_negative_decimal :: "string \<Rightarrow> pyobj \<Rightarrow> rat parsed" where
  "require_non_negative_decimal field v =
     ebind (decimal_of field v) (\<lambda>d.
     case d of DFinite x \<Rightarrow> if x < 0 then Inl (BadValue field) else Inr x | _ \<Rightarrow> Inl (BadValue field))"

definition require_enum :: "('a \<Rightarrow> string) \<Rightarrow> 'a list \<Rightarrow> string \<Rightarrow> pyobj \<Rightarrow> 'a parsed" where
  "require_enum val members field v = ebind (require_string field v) (\<lambda>s.
     case enum_of val members s of None \<Rightarrow> Inl (BadValue field) | Some m \<Rightarrow> Inr m)"

text \<open>A loop that reads items, refuses a repeated one and collects the rest in order.\<close>

fun collect :: "(pyobj \<Rightarrow> 'a parsed) \<Rightarrow> ('a \<Rightarrow> config_error) \<Rightarrow> pyobj list \<Rightarrow> 'a list \<Rightarrow> 'a list parsed" where
  "collect f dup [] seen = Inr seen"
| "collect f dup (x # xs) seen =
     ebind (f x) (\<lambda>y. if y \<in> set seen then Inl (dup y) else collect f dup xs (seen @ [y]))"

subsection \<open>Deployments\<close>

record PricingMetadata =
  pr_input_usd_per_million_tokens :: rat
  pr_output_usd_per_million_tokens :: rat
  pr_source_date :: date
  pr_snapshot_version :: string

text \<open>\<open>estimated_cost_usd\<close>: four rounded operations; \<open>None\<close> without pricing.\<close>

definition price_part :: "rat \<Rightarrow> int \<Rightarrow> rat parsed" where
  "price_part rate tokens =
     ebind (of_overflow (d_mul rate (of_int tokens))) (\<lambda>p. of_overflow (d_div p 1000000))"

definition estimated_cost_usd :: "PricingMetadata option \<Rightarrow> int \<Rightarrow> int \<Rightarrow> rat option parsed" where
  "estimated_cost_usd pricing input_tokens output_tokens = (case pricing of
      None \<Rightarrow> Inr None
    | Some p \<Rightarrow>
        ebind (price_part (pr_input_usd_per_million_tokens p) input_tokens) (\<lambda>i.
        ebind (price_part (pr_output_usd_per_million_tokens p) output_tokens) (\<lambda>u.
        ebind (of_overflow (d_add i u)) (\<lambda>c. Inr (Some c)))))"

record ModelDeployment =
  md_deployment_id :: string
  md_provider :: string
  md_model_id :: string
  md_model_group :: string
  md_api_family :: string
  md_capabilities :: "Capability set"
  md_context_tokens :: int
  md_modalities :: "Modality set"
  md_pricing :: "PricingMetadata option"
  md_max_data_classification :: DataClassification
  md_allowed_environments :: "string set"
  md_enabled :: bool
  md_source_date :: date
  md_catalog_version :: string

record ModelRegistry =
  mr_schema_version :: string
  mr_catalog_version :: string
  mr_source_date :: date
  mr_deployments :: "ModelDeployment list"

definition by_id :: "ModelRegistry \<Rightarrow> string \<Rightarrow> ModelDeployment parsed" where
  "by_id r i = (case find (\<lambda>d. md_deployment_id d = i) (mr_deployments r) of
      None \<Rightarrow> Inl (KeyMissing i) | Some d \<Rightarrow> Inr d)"

subsection \<open>Parsing\<close>

definition root_fields :: "string list" where
  "root_fields = [''schema_version'', ''catalog_version'', ''source_date'', ''deployments'']"

definition deployment_fields :: "string list" where
  "deployment_fields = [''provider'', ''model_id'', ''model_group'', ''api_family'', ''capabilities'',
     ''context_tokens'', ''modalities'', ''pricing'', ''max_data_classification'',
     ''allowed_environments'', ''enabled'', ''source_date'', ''catalog_version'']"

definition capability_fields :: "string list" where
  "capability_fields = map capability_value all_capabilities"

definition required_capabilities :: "Capability list" where
  "required_capabilities = [TEXT, VISION, TOOL_CALLING, STRUCTURED_OUTPUT, STREAMING]"

definition pricing_fields :: "string list" where
  "pricing_fields = [''input_usd_per_million_tokens'', ''output_usd_per_million_tokens'',
     ''source_date'', ''snapshot_version'']"

definition parse_capabilities :: "string \<Rightarrow> pyobj \<Rightarrow> Capability set parsed" where
  "parse_capabilities did v =
     ebind (require_mapping (did @ ''.capabilities'') v) (\<lambda>payload.
     ebind (require_fields payload capability_fields (map capability_value required_capabilities)
              (did @ ''.capabilities'')) (\<lambda>_.
     ebind (emap (\<lambda>c. require_bool (did @ ''.capabilities.'' @ capability_value c)
              (case py_get payload (capability_value c) of None \<Rightarrow> PBool False | Some x \<Rightarrow> x))
              all_capabilities) (\<lambda>flags.
     Inr (set (map fst (filter snd (zip all_capabilities flags)))))))"

definition parse_modalities :: "string \<Rightarrow> pyobj \<Rightarrow> Modality set parsed" where
  "parse_modalities did v =
     ebind (require_sequence (did @ ''.modalities'') v) (\<lambda>xs.
     ebind (collect (require_enum modality_value all_modalities (did @ ''.modalities''))
              (\<lambda>m. DuplicateName did (modality_value m)) xs []) (\<lambda>ms.
     if ms = [] then Inl (EmptyField (did @ ''.modalities'')) else Inr (set ms)))"

definition parse_pricing :: "string \<Rightarrow> pyobj \<Rightarrow> PricingMetadata option parsed" where
  "parse_pricing did v = (if v = PNone then Inr None else
     ebind (require_mapping (did @ ''.pricing'') v) (\<lambda>payload.
     ebind (require_fields payload pricing_fields pricing_fields (did @ ''.pricing'')) (\<lambda>_.
     ebind (ebind (item payload ''input_usd_per_million_tokens'')
              (require_non_negative_decimal (did @ ''.pricing.input_usd_per_million_tokens''))) (\<lambda>i.
     ebind (ebind (item payload ''output_usd_per_million_tokens'')
              (require_non_negative_decimal (did @ ''.pricing.output_usd_per_million_tokens''))) (\<lambda>u.
     ebind (ebind (item payload ''source_date'') (require_date (did @ ''.pricing.source_date''))) (\<lambda>sd.
     ebind (ebind (item payload ''snapshot_version'')
              (require_identifier (did @ ''.pricing.snapshot_version''))) (\<lambda>sv.
     Inr (Some \<lparr>pr_input_usd_per_million_tokens = i, pr_output_usd_per_million_tokens = u,
       pr_source_date = sd, pr_snapshot_version = sv\<rparr>))))))))"

definition parse_identifiers :: "string \<Rightarrow> pyobj \<Rightarrow> string set parsed" where
  "parse_identifiers field v =
     ebind (require_sequence field v) (\<lambda>xs.
     ebind (collect (require_identifier field) (DuplicateName field) xs []) (\<lambda>ids.
     if ids = [] then Inl (EmptyField field) else Inr (set ids)))"

definition validate_capability_combination ::
  "string \<Rightarrow> Capability set \<Rightarrow> Modality set \<Rightarrow> unit parsed" where
  "validate_capability_combination did caps mods =
     (if TEXT \<notin> caps then Inl (Inconsistent (did @ '' text capability''))
      else if TEXT_INPUT \<notin> mods then Inl (Inconsistent (did @ '' text modality''))
      else if (VISION \<in> caps) \<noteq> (IMAGE_INPUT \<in> mods) then Inl (Inconsistent (did @ '' vision''))
      else if (AUDIO \<in> caps) \<noteq> (AUDIO_INPUT \<in> mods) then Inl (Inconsistent (did @ '' audio''))
      else if (DOCUMENT \<in> caps) \<noteq> (DOCUMENT_INPUT \<in> mods) then Inl (Inconsistent (did @ '' document''))
      else if PARALLEL_TOOL_CALLING \<in> caps \<and> TOOL_CALLING \<notin> caps
        then Inl (Inconsistent (did @ '' parallel_tool_calling''))
      else Inr ())"

definition parse_deployment :: "string \<Rightarrow> date \<Rightarrow> string \<Rightarrow> items \<Rightarrow> ModelDeployment parsed" where
  "parse_deployment catalog_version registry_source_date did payload =
     ebind (require_fields payload deployment_fields deployment_fields (''deployment '' @ did)) (\<lambda>_.
     ebind (ebind (item payload ''provider'') (require_identifier (did @ ''.provider''))) (\<lambda>provider.
     ebind (ebind (item payload ''model_id'')
              (require_normalized_string 256 (did @ ''.model_id''))) (\<lambda>model_id.
     ebind (ebind (item payload ''model_group'') (require_identifier (did @ ''.model_group''))) (\<lambda>group.
     ebind (ebind (item payload ''api_family'') (require_identifier (did @ ''.api_family''))) (\<lambda>family.
     ebind (ebind (item payload ''capabilities'') (parse_capabilities did)) (\<lambda>caps.
     ebind (ebind (item payload ''context_tokens'')
              (require_positive_int (did @ ''.context_tokens''))) (\<lambda>tokens.
     ebind (ebind (item payload ''modalities'') (parse_modalities did)) (\<lambda>mods.
     ebind (ebind (item payload ''pricing'') (parse_pricing did)) (\<lambda>pricing.
     ebind (ebind (item payload ''max_data_classification'')
              (require_enum classification_value all_classifications
                (did @ ''.max_data_classification''))) (\<lambda>cls.
     ebind (ebind (item payload ''allowed_environments'')
              (parse_identifiers (did @ ''.allowed_environments''))) (\<lambda>envs.
     ebind (ebind (item payload ''enabled'') (require_bool (did @ ''.enabled''))) (\<lambda>enabled.
     ebind (ebind (item payload ''source_date'') (require_date (did @ ''.source_date''))) (\<lambda>sd.
     ebind (ebind (item payload ''catalog_version'')
              (require_identifier (did @ ''.catalog_version''))) (\<lambda>cat.
     if sd \<noteq> registry_source_date then Inl (Inconsistent (did @ ''.source_date''))
     else if cat \<noteq> catalog_version then Inl (Inconsistent (did @ ''.catalog_version''))
     else ebind (validate_capability_combination did caps mods) (\<lambda>_.
     Inr \<lparr>md_deployment_id = did, md_provider = provider, md_model_id = model_id,
       md_model_group = group, md_api_family = family, md_capabilities = caps,
       md_context_tokens = tokens, md_modalities = mods, md_pricing = pricing,
       md_max_data_classification = cls, md_allowed_environments = envs, md_enabled = enabled,
       md_source_date = sd, md_catalog_version = cat\<rparr>)))))))))))))))"

text \<open>The loop over the deployments; \<open>seen\<close> holds the identifiers read so far.\<close>

fun parse_deployments ::
  "string \<Rightarrow> date \<Rightarrow> items \<Rightarrow> string list \<Rightarrow> ModelDeployment list parsed" where
  "parse_deployments cat sd [] seen = Inr []"
| "parse_deployments cat sd ((raw_id, raw_spec) # rest) seen =
     ebind (require_identifier ''deployment_id'' raw_id) (\<lambda>did.
     if did \<in> set seen then Inl (DuplicateName ''deployment_id'' did)
     else ebind (require_mapping (''deployment '' @ did) raw_spec) (\<lambda>spec.
     ebind (parse_deployment cat sd did spec) (\<lambda>d.
     ebind (parse_deployments cat sd rest (did # seen)) (\<lambda>ds. Inr (d # ds)))))"

definition build_model_registry :: "items \<Rightarrow> ModelRegistry parsed" where
  "build_model_registry payload =
     ebind (require_fields payload root_fields root_fields ''registry'') (\<lambda>_.
     ebind (ebind (item payload ''schema_version'') (require_string ''schema_version'')) (\<lambda>sv.
     if sv \<noteq> ''1.0'' then Inl (BadValue ''schema_version'')
     else
     ebind (ebind (item payload ''catalog_version'') (require_identifier ''catalog_version'')) (\<lambda>cat.
     ebind (ebind (item payload ''source_date'') (require_date ''source_date'')) (\<lambda>sd.
     ebind (ebind (item payload ''deployments'') (require_mapping ''deployments'')) (\<lambda>deps.
     ebind (parse_deployments cat sd deps []) (\<lambda>ds.
     Inr \<lparr>mr_schema_version = sv, mr_catalog_version = cat, mr_source_date = sd,
       mr_deployments = sort_key md_deployment_id ds\<rparr>))))))"

subsection \<open>Canonical payload and digest\<close>

definition registry_decimal :: "rat \<Rightarrow> json parsed" where
  "registry_decimal x = ebind (of_overflow (canonical_decimal x)) (\<lambda>s. Inr (JStr s))"

definition canonical_pricing :: "PricingMetadata option \<Rightarrow> json parsed" where
  "canonical_pricing pricing = (case pricing of None \<Rightarrow> Inr JNull | Some p \<Rightarrow>
     ebind (registry_decimal (pr_input_usd_per_million_tokens p)) (\<lambda>i.
     ebind (registry_decimal (pr_output_usd_per_million_tokens p)) (\<lambda>u.
     Inr (JObj [(''input_usd_per_million_tokens'', i), (''output_usd_per_million_tokens'', u),
       (''source_date'', JStr (isoformat (pr_source_date p))),
       (''snapshot_version'', JStr (pr_snapshot_version p))]))))"

definition canonical_capabilities :: "Capability set \<Rightarrow> json" where
  "canonical_capabilities caps =
     JObj (map (\<lambda>c. (capability_value c, JBool (c \<in> caps))) required_capabilities @
           map (\<lambda>c. (capability_value c, JBool True))
             (filter (\<lambda>c. c \<in> caps) [AUDIO, DOCUMENT, PARALLEL_TOOL_CALLING]))"

definition canonical_deployment :: "ModelDeployment \<Rightarrow> json parsed" where
  "canonical_deployment d =
     ebind (canonical_pricing (md_pricing d)) (\<lambda>pricing.
     Inr (JObj [
       (''provider'', JStr (md_provider d)), (''model_id'', JStr (md_model_id d)),
       (''model_group'', JStr (md_model_group d)), (''api_family'', JStr (md_api_family d)),
       (''capabilities'', canonical_capabilities (md_capabilities d)),
       (''context_tokens'', JInt (md_context_tokens d)),
       (''modalities'', JList (map JStr (sorted_list_of_set (modality_value ` md_modalities d)))),
       (''pricing'', pricing),
       (''max_data_classification'', JStr (classification_value (md_max_data_classification d))),
       (''allowed_environments'', JList (map JStr (sorted_list_of_set (md_allowed_environments d)))),
       (''enabled'', JBool (md_enabled d)), (''source_date'', JStr (isoformat (md_source_date d))),
       (''catalog_version'', JStr (md_catalog_version d))]))"

definition registry_payload :: "ModelRegistry \<Rightarrow> (string \<times> json) list parsed" where
  "registry_payload r =
     ebind (emap (\<lambda>d. ebind (canonical_deployment d) (\<lambda>j. Inr (md_deployment_id d, j)))
              (sort_key md_deployment_id (mr_deployments r))) (\<lambda>ds.
     Inr [(''schema_version'', JStr (mr_schema_version r)),
       (''catalog_version'', JStr (mr_catalog_version r)),
       (''source_date'', JStr (isoformat (mr_source_date r))), (''deployments'', JObj ds)])"

definition registry_digest :: "ModelRegistry \<Rightarrow> string parsed" where
  "registry_digest r = ebind (registry_payload r) (\<lambda>p. Inr (json_digest (JObj p)))"

end
