(* ===== verification/Registry_Laws.thy ===== *)
theory Registry_Laws imports Registry begin

text \<open>
  Laws of the registry: a document that builds gives a well-formed registry, and the canonical
  payload of a well-formed registry builds that registry with its prices rounded to the decimal
  context.
\<close>

subsection \<open>Dates\<close>

lemma fromisoformat_valid: "fromisoformat s = Some d \<Longrightarrow> valid_date d"
proof -
  have mk: "mk_date y m k = Some d \<Longrightarrow> valid_date d" for y m k d
    by (auto simp: mk_date_def split: if_splits)
  have doy: "day_of_year y ms k = Some d \<Longrightarrow> valid_date d" for y ms k d
    by (induction y ms k rule: day_of_year.induct) (auto intro: mk split: if_splits)
  have "ymd i j s = Some d \<Longrightarrow> valid_date d" for i j
    by (auto simp: ymd_def intro: mk split: option.splits)
  moreover have "ywd i j s = Some d \<Longrightarrow> valid_date d" for i j
    by (auto simp: ywd_def from_isoweek_def Let_def intro: mk doy split: option.splits if_splits)
  ultimately show "fromisoformat s = Some d \<Longrightarrow> valid_date d"
    by (auto simp: fromisoformat_def Let_def split: if_splits)
qed

lemma pad2_digits: "list_all is_digit (pad2 n)"
  by (simp add: pad2_def digit_char_is_digit)

lemma pad2_val: "0 \<le> n \<Longrightarrow> n < 100 \<Longrightarrow> digits_val (pad2 n) = n"
proof -
  assume "0 \<le> n" "n < 100"
  then have "n div 10 mod 10 = n div 10" by simp
  then show ?thesis
    using digits_val_snoc[of "[digit_char (n div 10 mod 10)]" "digit_char (n mod 10)"]
    by (simp add: pad2_def digits_val_def digit_val_char)
qed

lemma length_pad2 [simp]: "length (pad2 n) = 2"
  by (simp add: pad2_def)

lemma month_len_le: "month_len y m \<le> 31"
  by (simp add: month_len_def)

lemma fromisoformat_isoformat:
  assumes "valid_date d"
  shows "fromisoformat (isoformat d) = Some d"
proof -
  define a b m k where "a = pad2 (year d div 100)" and "b = pad2 (year d mod 100)"
    and "m = pad2 (month d)" and "k = pad2 (day d)"
  note parts = a_def b_def m_def k_def
  have eq: "isoformat d = a @ b @ ''-'' @ m @ ''-'' @ k" by (simp add: isoformat_def parts)
  have r: "0 \<le> year d" "year d div 100 < 100" "0 \<le> month d" "month d < 100" "0 \<le> day d" "day d < 100"
    using assms month_len_le[of "year d" "month d"] by (auto simp: valid_date_def)
  have len: "length a = 2" "length b = 2" "length m = 2" "length k = 2" by (simp_all add: parts)
  have y: "digits_at 0 4 (isoformat d) = Some (year d)"
    using len r pad2_digits by (simp add: digits_at_def Let_def eq parts digits_val_append pad2_val)
  have mo: "digits_at 5 2 (isoformat d) = Some (month d)"
    using len r pad2_digits by (simp add: digits_at_def Let_def eq m_def pad2_val)
  have da: "digits_at 8 2 (isoformat d) = Some (day d)"
    using len r pad2_digits by (simp add: digits_at_def Let_def eq k_def pad2_val)
  have "isoformat d ! 4 = CHR ''-''" "isoformat d ! 7 = CHR ''-''" "length (isoformat d) = 10"
    using len by (simp_all add: eq nth_append)
  then have "fromisoformat (isoformat d) = ymd 5 8 (isoformat d)"
    by (simp add: fromisoformat_def Let_def)
  also have "\<dots> = Some d" using assms by (simp add: ymd_def y mo da mk_date_def)
  finally show ?thesis .
qed

subsection \<open>Readers\<close>

lemma if_raise_Inr [simp]: "(if c then Inl e else m) = Inr y \<longleftrightarrow> \<not> c \<and> m = Inr y"
  by simp

lemma require_string_Inr: "require_string f v = Inr s \<longleftrightarrow> v = PStr s"
  by (auto simp: require_string_def split: pyobj.splits)

lemma require_normalized_string_Inr:
  "require_normalized_string n f v = Inr s \<longleftrightarrow> v = PStr s \<and> normalized s \<and> length s \<le> n"
  by (auto simp: require_normalized_string_def require_string_Inr)

lemma require_identifier_Inr: "require_identifier f v = Inr s \<longleftrightarrow> v = PStr s \<and> registry_identifier s"
proof -
  have "registry_identifier s \<Longrightarrow> normalized s \<and> length s \<le> 128"
    using registry_identifier_normalized[of s] by (simp add: registry_identifier_def)
  then show ?thesis by (auto simp: require_identifier_def require_normalized_string_Inr)
qed

lemma require_bool_Inr: "require_bool f v = Inr b \<longleftrightarrow> v = PBool b"
  by (auto simp: require_bool_def split: pyobj.splits)

lemma require_positive_int_Inr: "require_positive_int f v = Inr i \<longleftrightarrow> v = PInt i \<and> 0 < i"
  by (auto simp: require_positive_int_def split: pyobj.splits if_splits)

lemma require_mapping_Inr: "require_mapping f v = Inr kvs \<longleftrightarrow> v = PDict kvs"
  by (auto simp: require_mapping_def split: pyobj.splits)

lemma require_sequence_Inr: "require_sequence f v = Inr xs \<longleftrightarrow> v = PList xs"
  by (auto simp: require_sequence_def split: pyobj.splits)

lemma require_non_negative_decimal_nonneg: "require_non_negative_decimal f v = Inr x \<Longrightarrow> 0 \<le> x"
  unfolding require_non_negative_decimal_def ebind_Inr_iff
  by (elim exE conjE) (auto split: decimal_value.splits)

lemmas require_Inr = require_identifier_Inr require_normalized_string_Inr require_string_Inr
  require_bool_Inr require_positive_int_Inr require_mapping_Inr require_sequence_Inr

text \<open>Python's dates are calendar dates; the readers keep that.\<close>

fun py_wf :: "pyobj \<Rightarrow> bool" where
  "py_wf (PDate d) = valid_date d"
| "py_wf (PList xs) = (\<forall>x\<in>set xs. py_wf x)"
| "py_wf (PDict kvs) = (\<forall>kv\<in>set kvs. py_wf (snd kv))"
| "py_wf _ = True"

lemma require_date_valid: "require_date f v = Inr d \<Longrightarrow> py_wf v \<Longrightarrow> valid_date d"
  by (cases v) (auto simp: require_date_def require_string_def dest: fromisoformat_valid split: option.splits)

lemma require_date_isoformat: "valid_date d \<Longrightarrow> require_date f (PStr (isoformat d)) = Inr d"
  by (simp add: require_date_def require_string_def fromisoformat_isoformat)

lemma item_wf: "item kvs k = Inr v \<Longrightarrow> \<forall>kv\<in>set kvs. py_wf (snd kv) \<Longrightarrow> py_wf v"
  by (auto simp: item_def py_get_def dest!: map_of_SomeD split: option.splits)

text \<open>\<open>collect\<close> reads every item and keeps them distinct.\<close>

lemma collect_Inr:
  "distinct seen \<Longrightarrow> collect f dup xs seen = Inr zs \<longleftrightarrow>
   (\<exists>ys. emap f xs = Inr ys \<and> zs = seen @ ys \<and> distinct zs)"
proof (induction xs arbitrary: seen)
  case (Cons x xs)
  show ?case
  proof (cases "f x")
    case (Inr y)
    show ?thesis
    proof (cases "y \<in> set seen")
      case False
      with Cons.prems have "distinct (seen @ [y])" by simp
      from Cons.IH[OF this] Inr False show ?thesis by auto
    qed (use Inr in auto)
  qed simp
qed auto

lemma emap_map: "emap f (map g xs) = emap (f \<circ> g) xs"
  by (induction xs) auto

lemma enum_of_value:
  "enum_of modality_value all_modalities (modality_value m) = Some m"
  "enum_of classification_value all_classifications (classification_value c) = Some c"
  by (cases m; simp add: enum_of_def all_modalities_def)
     (cases c; simp add: enum_of_def all_classifications_def)

lemma modality_value_inj: "inj modality_value"
  by (rule injI, metis enum_of_value(1) option.inject)

subsection \<open>Well-formed registries\<close>

definition pricing_ok :: "PricingMetadata \<Rightarrow> bool" where
  "pricing_ok p \<longleftrightarrow> 0 \<le> pr_input_usd_per_million_tokens p \<and> 0 \<le> pr_output_usd_per_million_tokens p \<and>
     valid_date (pr_source_date p) \<and> registry_identifier (pr_snapshot_version p)"

definition capabilities_ok :: "Capability set \<Rightarrow> Modality set \<Rightarrow> bool" where
  "capabilities_ok caps mods \<longleftrightarrow> TEXT \<in> caps \<and> TEXT_INPUT \<in> mods \<and>
     (VISION \<in> caps \<longleftrightarrow> IMAGE_INPUT \<in> mods) \<and> (AUDIO \<in> caps \<longleftrightarrow> AUDIO_INPUT \<in> mods) \<and>
     (DOCUMENT \<in> caps \<longleftrightarrow> DOCUMENT_INPUT \<in> mods) \<and>
     (PARALLEL_TOOL_CALLING \<in> caps \<longrightarrow> TOOL_CALLING \<in> caps)"

definition deployment_ok :: "string \<Rightarrow> date \<Rightarrow> ModelDeployment \<Rightarrow> bool" where
  "deployment_ok cat sd d \<longleftrightarrow> registry_identifier (md_deployment_id d) \<and>
     registry_identifier (md_provider d) \<and> normalized (md_model_id d) \<and> length (md_model_id d) \<le> 256 \<and>
     registry_identifier (md_model_group d) \<and> registry_identifier (md_api_family d) \<and>
     0 < md_context_tokens d \<and> capabilities_ok (md_capabilities d) (md_modalities d) \<and>
     opt_all pricing_ok (md_pricing d) \<and>
     finite (md_allowed_environments d) \<and> md_allowed_environments d \<noteq> {} \<and>
     (\<forall>e\<in>md_allowed_environments d. registry_identifier e) \<and>
     md_source_date d = sd \<and> md_catalog_version d = cat"

definition registry_ok :: "ModelRegistry \<Rightarrow> bool" where
  "registry_ok r \<longleftrightarrow> mr_schema_version r = ''1.0'' \<and> registry_identifier (mr_catalog_version r) \<and>
     valid_date (mr_source_date r) \<and> sorted (map md_deployment_id (mr_deployments r)) \<and>
     distinct (map md_deployment_id (mr_deployments r)) \<and>
     list_all (deployment_ok (mr_catalog_version r) (mr_source_date r)) (mr_deployments r)"

lemma validate_capability_combination_Inr:
  "validate_capability_combination did caps mods = Inr u \<longleftrightarrow> capabilities_ok caps mods"
  by (auto simp: validate_capability_combination_def capabilities_ok_def)

lemma parse_identifiers_ok:
  "parse_identifiers f v = Inr S \<Longrightarrow> finite S \<and> S \<noteq> {} \<and> (\<forall>e\<in>S. registry_identifier e)"
  by (auto simp: parse_identifiers_def collect_Inr require_identifier_Inr dest: emap_Inr_set)

lemma item_Inr_mem: "item kvs k = Inr v \<Longrightarrow> v \<in> snd ` set kvs"
  by (auto simp: item_def py_get_def dest!: map_of_SomeD split: option.splits intro: rev_image_eqI)

lemma parse_pricing_ok: "parse_pricing did v = Inr p \<Longrightarrow> py_wf v \<Longrightarrow> opt_all pricing_ok p"
proof (cases "v = PNone")
  case False
  assume "parse_pricing did v = Inr p" "py_wf v"
  with False obtain kvs i u sd sv vi vo vd where "v = PDict kvs"
    and "item kvs ''source_date'' = Inr vd" "require_date (did @ ''.pricing.source_date'') vd = Inr sd"
    and "require_non_negative_decimal (did @ ''.pricing.input_usd_per_million_tokens'') vi = Inr i"
    and "require_non_negative_decimal (did @ ''.pricing.output_usd_per_million_tokens'') vo = Inr u"
    and "registry_identifier sv"
    and "p = Some \<lparr>pr_input_usd_per_million_tokens = i, pr_output_usd_per_million_tokens = u,
       pr_source_date = sd, pr_snapshot_version = sv\<rparr>"
    by (auto simp: parse_pricing_def require_Inr)
  with \<open>py_wf v\<close> show ?thesis
    by (auto simp: opt_all_def pricing_ok_def dest: require_non_negative_decimal_nonneg
        intro: require_date_valid item_wf)
qed (simp add: parse_pricing_def opt_all_def)

lemma parse_deployment_ok:
  assumes "parse_deployment cat sd did kvs = Inr d" "registry_identifier did" "\<forall>kv\<in>set kvs. py_wf (snd kv)"
  shows "deployment_ok cat sd d \<and> md_deployment_id d = did"
  using assms(1,2) unfolding parse_deployment_def
  by (auto simp: require_Inr validate_capability_combination_Inr deployment_ok_def
      dest: parse_identifiers_ok intro: parse_pricing_ok item_wf[OF _ assms(3)])

lemma parse_deployments_ok:
  assumes "parse_deployments cat sd kvs seen = Inr ds" "\<forall>kv\<in>set kvs. py_wf (snd kv)"
  shows "list_all (deployment_ok cat sd) ds \<and> distinct (map md_deployment_id ds) \<and>
    md_deployment_id ` set ds \<inter> set seen = {}"
  using assms
proof (induction cat sd kvs seen arbitrary: ds rule: parse_deployments.induct)
  case (2 cat sd raw_id raw_spec rest seen)
  from "2.prems"(1) obtain did spec d es where raw: "raw_id = PStr did" "registry_identifier did" "did \<notin> set seen"
    "raw_spec = PDict spec" "parse_deployment cat sd did spec = Inr d"
    "parse_deployments cat sd rest (did # seen) = Inr es" and ds: "ds = d # es"
    by (auto simp: require_Inr)
  have "deployment_ok cat sd d \<and> md_deployment_id d = did"
    using raw "2.prems"(2) by (intro parse_deployment_ok) auto
  moreover have "list_all (deployment_ok cat sd) es \<and> distinct (map md_deployment_id es) \<and>
      md_deployment_id ` set es \<inter> set (did # seen) = {}"
    using raw "2.prems"(2) by (intro "2.IH") (auto simp: require_Inr)
  ultimately show ?case using raw(3) ds by auto
qed simp

lemma build_model_registry_ok:
  assumes "build_model_registry p = Inr r" "py_wf (PDict p)"
  shows "registry_ok r"
proof -
  have wf: "\<forall>kv\<in>set p. py_wf (snd kv)" using assms(2) by simp
  from assms(1) obtain vsd vdeps cat sd deps ds where
    b: "registry_identifier cat" "item p ''source_date'' = Inr vsd" "require_date ''source_date'' vsd = Inr sd"
    "item p ''deployments'' = Inr (PDict deps)" "parse_deployments cat sd deps [] = Inr ds" and
    r: "r = \<lparr>mr_schema_version = ''1.0'', mr_catalog_version = cat, mr_source_date = sd,
       mr_deployments = sort_key md_deployment_id ds\<rparr>"
    unfolding build_model_registry_def by (auto simp: require_Inr)
  have "py_wf (PDict deps)" using item_wf[OF b(4) wf] .
  then have "list_all (deployment_ok cat sd) ds \<and> distinct (map md_deployment_id ds)"
    using parse_deployments_ok[OF b(5)] by auto
  moreover have "valid_date sd" using require_date_valid[OF b(3) item_wf[OF b(2) wf]] .
  ultimately show ?thesis
    using b(1) by (auto simp: registry_ok_def r list_all_iff distinct_map)
qed
subsection \<open>Reading a canonical payload back\<close>

definition py_items :: "(string \<times> json) list \<Rightarrow> items" where
  "py_items kvs = map (\<lambda>kv. (PStr (fst kv), py_of_json (snd kv))) kvs"

lemma py_of_json_JObj [simp]: "py_of_json (JObj kvs) = PDict (py_items kvs)"
  by (simp add: py_items_def case_prod_beta)

declare py_of_json.simps(6) [simp del]

lemma item_py_items [simp]:
  "item (py_items ((k, j) # kvs)) k' = (if k = k' then Inr (py_of_json j) else item (py_items kvs) k')"
  by (simp add: item_def py_items_def py_get_def)

lemma py_get_py_items: "py_get (py_items kvs) k = map_option py_of_json (map_of kvs k)"
  by (induction kvs) (auto simp: py_items_def py_get_def)

lemma require_fields_py_items:
  assumes "set (map fst kvs) \<subseteq> set allowed" "set required \<subseteq> set (map fst kvs)"
  shows "require_fields (py_items kvs) allowed required loc = Inr ()"
proof -
  have "emap (\<lambda>kv. field_name loc (fst kv)) (py_items kvs) = Inr (map fst kvs)"
    by (induction kvs) (auto simp: py_items_def field_name_def)
  moreover have "set (map fst kvs) - set allowed = {}" "set required - set (map fst kvs) = {}"
    using assms by auto
  ultimately show ?thesis unfolding require_fields_def by (simp only: ebind_simps) simp
qed

lemma capability_value_inj: "capability_value c = capability_value d \<longleftrightarrow> c = d"
  by (cases c; cases d) auto

lemma parse_canonical_capabilities:
  "parse_capabilities did (py_of_json (canonical_capabilities caps)) = Inr caps"
proof -
  define kvs where "kvs = map (\<lambda>c. (capability_value c, JBool (c \<in> caps))) required_capabilities @
           map (\<lambda>c. (capability_value c, JBool True))
             (filter (\<lambda>c. c \<in> caps) [AUDIO, DOCUMENT, PARALLEL_TOOL_CALLING])"
  have fields: "require_fields (py_items kvs) capability_fields
      (map capability_value required_capabilities) loc = Inr ()" for loc
    by (rule require_fields_py_items)
       (auto simp: kvs_def capability_fields_def all_capabilities_def required_capabilities_def)
  have get: "(case py_get (py_items kvs) (capability_value c) of None \<Rightarrow> PBool False | Some x \<Rightarrow> x) = PBool (c \<in> caps)" for c
    by (cases c) (auto simp: py_get_py_items kvs_def required_capabilities_def map_of_append)
  have "emap (\<lambda>c. require_bool (did @ ''.capabilities.'' @ capability_value c)
      (case py_get (py_items kvs) (capability_value c) of None \<Rightarrow> PBool False | Some x \<Rightarrow> x)) all_capabilities =
      Inr (map (\<lambda>c. c \<in> caps) all_capabilities)"
    by (rule emap_total) (simp add: get require_bool_def)
  moreover have "set (map fst (filter snd (zip all_capabilities (map (\<lambda>c. c \<in> caps) all_capabilities)))) = caps"
  proof -
    have "c \<in> set all_capabilities" for c by (cases c) (simp_all add: all_capabilities_def)
    moreover have "map fst (filter snd (zip xs (map (\<lambda>c. c \<in> caps) xs))) = filter (\<lambda>c. c \<in> caps) xs" for xs
      by (induction xs) auto
    ultimately show ?thesis by auto
  qed
  moreover have "canonical_capabilities caps = JObj kvs"
    by (simp only: canonical_capabilities_def kvs_def)
  ultimately show ?thesis
    by (simp only: parse_capabilities_def py_of_json_JObj require_mapping_def pyobj.case ebind_simps fields)
qed

lemma finite_modalities [simp]: "finite (M :: Modality set)"
proof -
  have "M \<subseteq> set all_modalities"
  proof
    fix m show "m \<in> set all_modalities" by (cases m) (simp_all add: all_modalities_def)
  qed
  then show ?thesis using finite_subset by blast
qed

lemma parse_canonical_modalities:
  assumes "M \<noteq> {}"
  shows "parse_modalities did (PList (map PStr (sorted_list_of_set (modality_value ` M)))) = Inr M"
proof -
  define vs where "vs = sorted_list_of_set (modality_value ` M)"
  define dec where "dec = (\<lambda>v. the (enum_of modality_value all_modalities v))"
  have vs: "set vs = modality_value ` M" "distinct vs" by (simp_all add: vs_def)
  have dec: "v \<in> set vs \<Longrightarrow> enum_of modality_value all_modalities v = Some (dec v)" for v
    using vs(1) enum_of_value(1) by (auto simp: dec_def)
  have "emap (require_enum modality_value all_modalities (did @ ''.modalities'')) (map PStr vs) = Inr (map dec vs)"
    unfolding emap_map by (rule emap_total) (simp add: require_enum_def require_string_def dec)
  moreover have "inj_on dec (set vs)"
    using dec by (auto simp: inj_on_def vs(1) dec_def enum_of_value(1))
  then have "distinct (map dec vs)" using vs(2) by (simp add: distinct_map)
  moreover have "set (map dec vs) = M" by (auto simp: vs(1) dec_def enum_of_value(1) image_image)
  moreover have "vs \<noteq> []" using assms vs(1) by auto
  ultimately show ?thesis
    by (simp add: parse_modalities_def require_sequence_def collect_Inr vs_def[symmetric])
qed

lemma parse_canonical_identifiers:
  assumes "finite S" "S \<noteq> {}" "\<forall>e\<in>S. registry_identifier e"
  shows "parse_identifiers f (PList (map PStr (sorted_list_of_set S))) = Inr S"
proof -
  have "emap (require_identifier f) (map PStr (sorted_list_of_set S)) = Inr (map id (sorted_list_of_set S))"
    unfolding emap_map using assms by (intro emap_total) (simp add: require_identifier_Inr)
  moreover have "sorted_list_of_set S \<noteq> []" using assms by simp
  ultimately show ?thesis
    using assms by (simp add: parse_identifiers_def require_sequence_def collect_Inr)
qed

text \<open>The prices the context holds exactly.\<close>

definition exact_price :: "PricingMetadata \<Rightarrow> bool" where
  "exact_price p \<longleftrightarrow> d_fix (pr_input_usd_per_million_tokens p) = Some (pr_input_usd_per_million_tokens p) \<and>
     d_fix (pr_output_usd_per_million_tokens p) = Some (pr_output_usd_per_million_tokens p)"

definition exact_prices :: "ModelRegistry \<Rightarrow> bool" where
  "exact_prices r \<longleftrightarrow> list_all (\<lambda>d. opt_all exact_price (md_pricing d)) (mr_deployments r)"

lemma registry_decimal_exact:
  assumes "0 \<le> x" "d_fix x = Some x"
  obtains s where "registry_decimal x = Inr (JStr s)" "\<And>f. require_non_negative_decimal f (PStr s) = Inr x"
proof -
  obtain s where s: "canonical_decimal x = Some s" using assms(2) by (simp add: canonical_decimal_def)
  then have "parse_decimal s = Some (DFinite x)" using parse_canonical_decimal[OF assms] by simp
  with s assms(1) that[of s] show thesis
    by (simp add: registry_decimal_def of_overflow_def require_non_negative_decimal_def decimal_of_def)
qed

lemma parse_canonical_pricing:
  assumes "opt_all pricing_ok p" "opt_all exact_price p"
  obtains j where "canonical_pricing p = Inr j" "\<And>did. parse_pricing did (py_of_json j) = Inr p"
proof (cases p)
  case None
  then show thesis using that[of JNull] by (simp add: canonical_pricing_def parse_pricing_def)
next
  case (Some q)
  with assms have q: "pricing_ok q" "exact_price q" by (simp_all add: opt_all_def)
  obtain i where i: "registry_decimal (pr_input_usd_per_million_tokens q) = Inr (JStr i)"
    "\<And>f. require_non_negative_decimal f (PStr i) = Inr (pr_input_usd_per_million_tokens q)"
    using q registry_decimal_exact by (auto simp: pricing_ok_def exact_price_def)
  obtain u where u: "registry_decimal (pr_output_usd_per_million_tokens q) = Inr (JStr u)"
    "\<And>f. require_non_negative_decimal f (PStr u) = Inr (pr_output_usd_per_million_tokens q)"
    using q registry_decimal_exact by (auto simp: pricing_ok_def exact_price_def)
  define kvs where "kvs = [(''input_usd_per_million_tokens'', JStr i), (''output_usd_per_million_tokens'', JStr u),
       (''source_date'', JStr (isoformat (pr_source_date q))),
       (''snapshot_version'', JStr (pr_snapshot_version q))]"
  have fields: "require_fields (py_items kvs) pricing_fields pricing_fields loc = Inr ()" for loc
    by (rule require_fields_py_items) (auto simp: kvs_def pricing_fields_def)
  have items: "item (py_items kvs) ''input_usd_per_million_tokens'' = Inr (PStr i)"
    "item (py_items kvs) ''output_usd_per_million_tokens'' = Inr (PStr u)"
    "item (py_items kvs) ''source_date'' = Inr (PStr (isoformat (pr_source_date q)))"
    "item (py_items kvs) ''snapshot_version'' = Inr (PStr (pr_snapshot_version q))"
    by (simp_all add: kvs_def)
  have id: "require_identifier f (PStr (pr_snapshot_version q)) = Inr (pr_snapshot_version q)"
    "require_date f (PStr (isoformat (pr_source_date q))) = Inr (pr_source_date q)" for f
    using q(1) by (simp_all add: require_identifier_Inr pricing_ok_def require_date_isoformat)
  have "canonical_pricing p = Inr (JObj kvs)" by (simp add: canonical_pricing_def Some i(1) u(1) kvs_def)
  moreover have "parse_pricing did (py_of_json (JObj kvs)) = Inr p" for did
    by (simp add: parse_pricing_def require_mapping_def fields items i(2) u(2) id Some)
  ultimately show thesis using that by blast
qed

lemma capabilities_ok_modalities: "capabilities_ok caps mods \<Longrightarrow> mods \<noteq> {}"
  by (auto simp: capabilities_ok_def)

lemma parse_canonical_deployment:
  assumes ok: "deployment_ok cat sd d" and exact: "opt_all exact_price (md_pricing d)" and sd: "valid_date sd" and cat: "registry_identifier cat"
  obtains kvs where "canonical_deployment d = Inr (JObj kvs)"
    "parse_deployment cat sd (md_deployment_id d) (py_items kvs) = Inr d"
proof -
  obtain pj where pj: "canonical_pricing (md_pricing d) = Inr pj"
    "\<And>did. parse_pricing did (py_of_json pj) = Inr (md_pricing d)"
    using parse_canonical_pricing[OF _ exact] ok by (auto simp: deployment_ok_def)
  define kvs where "kvs = [
       (''provider'', JStr (md_provider d)), (''model_id'', JStr (md_model_id d)),
       (''model_group'', JStr (md_model_group d)), (''api_family'', JStr (md_api_family d)),
       (''capabilities'', canonical_capabilities (md_capabilities d)),
       (''context_tokens'', JInt (md_context_tokens d)),
       (''modalities'', JList (map JStr (sorted_list_of_set (modality_value ` md_modalities d)))),
       (''pricing'', pj),
       (''max_data_classification'', JStr (classification_value (md_max_data_classification d))),
       (''allowed_environments'', JList (map JStr (sorted_list_of_set (md_allowed_environments d)))),
       (''enabled'', JBool (md_enabled d)), (''source_date'', JStr (isoformat (md_source_date d))),
       (''catalog_version'', JStr (md_catalog_version d))]"
  have fields: "require_fields (py_items kvs) deployment_fields deployment_fields loc = Inr ()" for loc
    by (rule require_fields_py_items) (simp_all add: kvs_def deployment_fields_def)
  have items:
    "item (py_items kvs) ''provider'' = Inr (PStr (md_provider d))"
    "item (py_items kvs) ''model_id'' = Inr (PStr (md_model_id d))"
    "item (py_items kvs) ''model_group'' = Inr (PStr (md_model_group d))"
    "item (py_items kvs) ''api_family'' = Inr (PStr (md_api_family d))"
    "item (py_items kvs) ''capabilities'' = Inr (py_of_json (canonical_capabilities (md_capabilities d)))"
    "item (py_items kvs) ''context_tokens'' = Inr (PInt (md_context_tokens d))"
    "item (py_items kvs) ''modalities'' = Inr (PList (map PStr (sorted_list_of_set (modality_value ` md_modalities d))))"
    "item (py_items kvs) ''pricing'' = Inr (py_of_json pj)"
    "item (py_items kvs) ''max_data_classification'' = Inr (PStr (classification_value (md_max_data_classification d)))"
    "item (py_items kvs) ''allowed_environments'' = Inr (PList (map PStr (sorted_list_of_set (md_allowed_environments d))))"
    "item (py_items kvs) ''enabled'' = Inr (PBool (md_enabled d))"
    "item (py_items kvs) ''source_date'' = Inr (PStr (isoformat (md_source_date d)))"
    "item (py_items kvs) ''catalog_version'' = Inr (PStr (md_catalog_version d))"
    by (simp_all add: kvs_def comp_def)
  have ids: "require_identifier f (PStr (md_provider d)) = Inr (md_provider d)"
    "require_identifier f (PStr (md_model_group d)) = Inr (md_model_group d)"
    "require_identifier f (PStr (md_api_family d)) = Inr (md_api_family d)"
    "require_identifier f (PStr (md_catalog_version d)) = Inr (md_catalog_version d)"
    "require_normalized_string 256 f (PStr (md_model_id d)) = Inr (md_model_id d)"
    "require_positive_int f (PInt (md_context_tokens d)) = Inr (md_context_tokens d)"
    "require_date f (PStr (isoformat (md_source_date d))) = Inr (md_source_date d)"
    "require_enum classification_value all_classifications f
       (PStr (classification_value (md_max_data_classification d))) = Inr (md_max_data_classification d)" for f
    using ok sd cat by (simp_all add: require_Inr deployment_ok_def require_date_isoformat
        require_enum_def require_string_def enum_of_value)
  have sets: "parse_modalities did (PList (map PStr (sorted_list_of_set (modality_value ` md_modalities d)))) = Inr (md_modalities d)"
    "parse_identifiers f (PList (map PStr (sorted_list_of_set (md_allowed_environments d)))) = Inr (md_allowed_environments d)" for did f
    using ok by (auto simp: deployment_ok_def intro!: parse_canonical_modalities parse_canonical_identifiers
        dest: capabilities_ok_modalities)
  have "canonical_deployment d = Inr (JObj kvs)" by (simp add: canonical_deployment_def pj(1) kvs_def)
  moreover have "parse_deployment cat sd (md_deployment_id d) (py_items kvs) = Inr d"
    using ok sd cat unfolding parse_deployment_def
    by (simp add: require_date_isoformat require_identifier_Inr fields items ids sets pj(2) parse_canonical_capabilities require_bool_def
        deployment_ok_def validate_capability_combination_Inr)
  ultimately show thesis using that by blast
qed

lemma py_items_Cons: "py_items ((k, j) # kvs) = (PStr k, py_of_json j) # py_items kvs"
  by (simp add: py_items_def)

lemma parse_canonical_deployments:
  assumes "list_all (deployment_ok cat sd) ds" "list_all (\<lambda>d. opt_all exact_price (md_pricing d)) ds"
    and "valid_date sd" "registry_identifier cat"
    and "distinct (map md_deployment_id ds)" "md_deployment_id ` set ds \<inter> set seen = {}"
  shows "\<exists>kvs. emap (\<lambda>d. ebind (canonical_deployment d) (\<lambda>j. Inr (md_deployment_id d, j))) ds = Inr kvs \<and>
    parse_deployments cat sd (py_items kvs) seen = Inr ds"
  using assms
proof (induction ds arbitrary: seen)
  case Nil
  then show ?case by (simp add: py_items_def)
next
  case (Cons d ds)
  have "md_deployment_id ` set ds \<inter> set (md_deployment_id d # seen) = {}"
    using Cons.prems(5,6) by auto
  with Cons.prems obtain kvs where kvs: "emap (\<lambda>d. ebind (canonical_deployment d) (\<lambda>j. Inr (md_deployment_id d, j))) ds = Inr kvs"
    "parse_deployments cat sd (py_items kvs) (md_deployment_id d # seen) = Inr ds"
    using Cons.IH[of "md_deployment_id d # seen"] by fastforce
  obtain dk where dk: "canonical_deployment d = Inr (JObj dk)"
    "parse_deployment cat sd (md_deployment_id d) (py_items dk) = Inr d"
    using Cons.prems by (auto intro: parse_canonical_deployment)
  have "registry_identifier (md_deployment_id d)" "md_deployment_id d \<notin> set seen"
    using Cons.prems by (auto simp: deployment_ok_def)
  then have "parse_deployments cat sd (py_items ((md_deployment_id d, JObj dk) # kvs)) seen = Inr (d # ds)"
    using kvs(2) dk(2) by (simp add: py_items_Cons require_mapping_def require_identifier_Inr)
  with kvs(1) dk(1) show ?case by auto
qed

lemma registry_roundtrip:
  assumes "registry_ok r" "exact_prices r"
  shows "\<exists>p. registry_payload r = Inr p \<and> build_model_registry (py_items p) = Inr r"
proof -
  let ?cat = "mr_catalog_version r" and ?sd = "mr_source_date r" and ?ds = "mr_deployments r"
  have sorted: "sort_key md_deployment_id ?ds = ?ds"
    using assms(1) by (intro sort_key_id_if_sorted) (simp add: registry_ok_def)
  obtain kvs where kvs: "emap (\<lambda>d. ebind (canonical_deployment d) (\<lambda>j. Inr (md_deployment_id d, j))) ?ds = Inr kvs"
    "parse_deployments ?cat ?sd (py_items kvs) [] = Inr ?ds"
    using parse_canonical_deployments[of ?cat ?sd ?ds "[]"] assms by (auto simp: registry_ok_def exact_prices_def)
  define p where "p = [(''schema_version'', JStr (mr_schema_version r)),
       (''catalog_version'', JStr ?cat), (''source_date'', JStr (isoformat ?sd)), (''deployments'', JObj kvs)]"
  have "registry_payload r = Inr p" by (simp add: registry_payload_def sorted kvs(1) p_def)
  moreover have "require_fields (py_items p) root_fields root_fields ''registry'' = Inr ()"
    by (rule require_fields_py_items) (simp_all add: p_def root_fields_def)
  moreover have "item (py_items p) ''schema_version'' = Inr (PStr (mr_schema_version r))"
    "item (py_items p) ''catalog_version'' = Inr (PStr ?cat)"
    "item (py_items p) ''source_date'' = Inr (PStr (isoformat ?sd))"
    "item (py_items p) ''deployments'' = Inr (PDict (py_items kvs))"
    by (simp_all add: p_def)
  moreover have "require_identifier f (PStr ?cat) = Inr ?cat" "require_date f (PStr (isoformat ?sd)) = Inr ?sd"
    "mr_schema_version r = ''1.0''" for f
    using assms(1) by (simp_all add: registry_ok_def require_identifier_Inr require_date_isoformat)
  ultimately show ?thesis
    by (simp add: build_model_registry_def require_string_def require_mapping_def kvs(2) sorted)
qed

subsection \<open>Rounding of prices\<close>

text \<open>A registry with every price rounded to the decimal context.\<close>

definition context_price :: "PricingMetadata \<Rightarrow> PricingMetadata" where
  "context_price p = p\<lparr>pr_input_usd_per_million_tokens := d_round (pr_input_usd_per_million_tokens p),
     pr_output_usd_per_million_tokens := d_round (pr_output_usd_per_million_tokens p)\<rparr>"

definition context_deployment :: "ModelDeployment \<Rightarrow> ModelDeployment" where
  "context_deployment d = d\<lparr>md_pricing := map_option context_price (md_pricing d)\<rparr>"

definition context_registry :: "ModelRegistry \<Rightarrow> ModelRegistry" where
  "context_registry r = r\<lparr>mr_deployments := map context_deployment (mr_deployments r)\<rparr>"

lemma context_deployment_simps [simp]:
  "md_deployment_id (context_deployment d) = md_deployment_id d"
  "md_pricing (context_deployment d) = map_option context_price (md_pricing d)"
  by (simp_all add: context_deployment_def)

lemma registry_decimal_round:
  assumes "0 \<le> x" "registry_decimal x = Inr j"
  shows "registry_decimal (d_round x) = Inr j" "d_fix (d_round x) = Some (d_round x)"
proof -
  from assms(2) obtain y where y: "d_fix x = Some y"
    by (auto simp: registry_decimal_def canonical_decimal_def of_overflow_def split: option.splits)
  with d_fix_SomeD have r: "y = d_round x" by simp
  with d_fix_idem[OF y assms(1)] y assms(2) show "registry_decimal (d_round x) = Inr j" "d_fix (d_round x) = Some (d_round x)"
    by (simp_all add: registry_decimal_def canonical_decimal_def)
qed

lemma canonical_pricing_round:
  assumes "opt_all pricing_ok p" "canonical_pricing p = Inr j"
  shows "canonical_pricing (map_option context_price p) = Inr j \<and> opt_all exact_price (map_option context_price p) \<and>
    opt_all pricing_ok (map_option context_price p)"
proof (cases p)
  case (Some q)
  with assms obtain i u where d: "registry_decimal (pr_input_usd_per_million_tokens q) = Inr i"
    "registry_decimal (pr_output_usd_per_million_tokens q) = Inr u"
    "0 \<le> pr_input_usd_per_million_tokens q" "0 \<le> pr_output_usd_per_million_tokens q"
    by (auto simp: canonical_pricing_def opt_all_def pricing_ok_def)
  have n: "0 \<le> d_round (pr_input_usd_per_million_tokens q)" "0 \<le> d_round (pr_output_usd_per_million_tokens q)"
    using d_round_mono[of 0] d(3,4) by (simp_all add: d_round_def round_at_nonneg)
  show ?thesis
    using assms Some d n registry_decimal_round[OF d(3,1)] registry_decimal_round[OF d(4,2)]
    by (simp add: canonical_pricing_def context_price_def opt_all_def pricing_ok_def exact_price_def)
qed (use assms in \<open>simp add: canonical_pricing_def opt_all_def\<close>)

lemma canonical_deployment_round:
  assumes "deployment_ok cat sd d" "canonical_deployment d = Inr j"
  shows "canonical_deployment (context_deployment d) = Inr j \<and> deployment_ok cat sd (context_deployment d) \<and>
    opt_all exact_price (md_pricing (context_deployment d))"
proof -
  from assms obtain pj where pj: "canonical_pricing (md_pricing d) = Inr pj" "opt_all pricing_ok (md_pricing d)"
    by (auto simp: canonical_deployment_def deployment_ok_def)
  from canonical_pricing_round[OF pj(2,1)] pj assms show ?thesis
    by (simp add: canonical_deployment_def deployment_ok_def) (simp add: context_deployment_def)
qed

lemma list_all2_ex: "list_all2 P xs ys \<Longrightarrow> x \<in> set xs \<Longrightarrow> \<exists>y. P x y"
  by (induction xs ys rule: list_all2_induct) auto

text \<open>The payload is that of the rounded registry.\<close>

lemma registry_payload_round:
  assumes "registry_ok r" "registry_payload r = Inr q"
  shows "registry_payload (context_registry r) = Inr q \<and> registry_ok (context_registry r) \<and> exact_prices (context_registry r)"
proof -
  let ?e = "\<lambda>d. ebind (canonical_deployment d) (\<lambda>j. Inr (md_deployment_id d, j))"
  let ?ds = "mr_deployments r"
  have ok: "list_all (deployment_ok (mr_catalog_version r) (mr_source_date r)) ?ds"
    "sorted (map md_deployment_id ?ds)" using assms(1) by (simp_all add: registry_ok_def)
  then have sorted: "sort_key md_deployment_id ?ds = ?ds" by (intro sort_key_id_if_sorted) simp
  have sorted': "sort_key md_deployment_id (map context_deployment ?ds) = map context_deployment ?ds"
    using ok(2) by (intro sort_key_id_if_sorted) (simp add: comp_def)
  from assms(2) obtain kvs where kvs: "emap ?e ?ds = Inr kvs" by (auto simp: registry_payload_def sorted)
  have each: "?e (context_deployment d) = Inr x \<and>
      deployment_ok (mr_catalog_version r) (mr_source_date r) (context_deployment d) \<and>
      opt_all exact_price (md_pricing (context_deployment d))" if d: "?e d = Inr x" "d \<in> set ?ds" for d x
  proof -
    from d(1) obtain j where j: "canonical_deployment d = Inr j" "x = (md_deployment_id d, j)" by auto
    have "deployment_ok (mr_catalog_version r) (mr_source_date r) d" using ok(1) d(2) by (simp add: list_all_iff)
    from canonical_deployment_round[OF this j(1)] j(2) show ?thesis by (simp del: context_deployment_simps(2))
  qed
  have all: "list_all2 (\<lambda>d x. ?e d = Inr x) ?ds kvs" using kvs by (simp only: emap_Inr_all2)
  have "list_all2 (\<lambda>d x. ?e (context_deployment d) = Inr x) ?ds kvs"
    by (rule list.rel_mono_strong[OF all]) (use each in blast)
  then have "emap ?e (map context_deployment ?ds) = Inr kvs" by (simp only: emap_Inr_all2 list_all2_map1)
  moreover have "\<forall>d\<in>set ?ds. \<exists>x. ?e d = Inr x" using list_all2_ex[OF all] by blast
  then have "\<forall>d\<in>set ?ds. deployment_ok (mr_catalog_version r) (mr_source_date r) (context_deployment d) \<and>
      opt_all exact_price (md_pricing (context_deployment d))" using each by blast
  ultimately show ?thesis
    using assms ok kvs by (simp add: registry_payload_def context_registry_def sorted sorted' registry_ok_def exact_prices_def list_all_iff comp_def)
qed

lemma context_registry_id: "exact_prices r \<Longrightarrow> context_registry r = r"
proof -
  assume e: "exact_prices r"
  have "context_price p = p" if "exact_price p" for p
    using that by (auto simp: exact_price_def context_price_def dest!: d_fix_SomeD)
  then have "context_deployment d = d" if "d \<in> set (mr_deployments r)" for d
    using e that by (cases "md_pricing d") (auto simp: exact_prices_def list_all_iff opt_all_def context_deployment_def)
  then show ?thesis by (simp add: context_registry_def map_idI)
qed

lemma registry_rounds:
  assumes "build_model_registry p = Inr r" "py_wf (PDict p)"
  shows "(\<forall>q. registry_payload r = Inr q \<longrightarrow> build_model_registry (py_items q) = Inr (context_registry r)) \<and>
    (exact_prices r \<longleftrightarrow> (\<exists>q. registry_payload r = Inr q) \<and> context_registry r = r)"
proof -
  note ok = build_model_registry_ok[OF assms]
  have round: "build_model_registry (py_items q) = Inr (context_registry r) \<and> exact_prices (context_registry r)"
    if q: "registry_payload r = Inr q" for q
    using registry_payload_round[OF ok q] registry_roundtrip[of "context_registry r"] by auto
  moreover have "exact_prices r \<Longrightarrow> (\<exists>q. registry_payload r = Inr q) \<and> context_registry r = r"
    using registry_roundtrip[OF ok] context_registry_id by blast
  ultimately show ?thesis by metis
qed

end
