(* ===== verification/Ranking_Policy.thy ===== *)
theory Ranking_Policy
  imports Registry_Laws
begin

text \<open>
  The ranking policy (\<open>domain/ranking.py\<close>, with the provenance accessors of
  \<open>domain/evidence_ranking.py\<close>): workload weights and static deployment scores, the builder
  that parses them, and the canonical payload. The readers \<open>_require_fields\<close>,
  \<open>_require_mapping\<close>, \<open>_require_string\<close>, \<open>_require_date\<close> and \<open>_require_positive_int\<close> are the
  same code as in the registry and are shared.
\<close>

subsection \<open>Values\<close>

datatype RankingDimension = QUALITY | RELIABILITY | LATENCY | COST | AVAILABILITY

fun dimension_value :: "RankingDimension \<Rightarrow> string" where
  "dimension_value QUALITY = ''quality''"
| "dimension_value RELIABILITY = ''reliability''"
| "dimension_value LATENCY = ''latency''"
| "dimension_value COST = ''cost''"
| "dimension_value AVAILABILITY = ''availability''"

record RankingWeights =
  rw_quality :: rat
  rw_reliability :: rat
  rw_latency :: rat
  rw_cost :: rat
  rw_availability :: rat

definition weights_mapping :: "RankingWeights \<Rightarrow> (string \<times> rat) list" where
  "weights_mapping w = [(dimension_value QUALITY, rw_quality w), (dimension_value RELIABILITY, rw_reliability w),
     (dimension_value LATENCY, rw_latency w), (dimension_value COST, rw_cost w),
     (dimension_value AVAILABILITY, rw_availability w)]"

text \<open>\<open>sum(values, start=Decimal(0))\<close>, rounded at every addition.\<close>

fun d_sum :: "rat \<Rightarrow> rat list \<Rightarrow> rat parsed" where
  "d_sum acc [] = Inr acc"
| "d_sum acc (x # xs) = ebind (of_overflow (d_add acc x)) (\<lambda>s. d_sum s xs)"

definition unit_values :: "string \<Rightarrow> (string \<times> rat) list \<Rightarrow> unit parsed" where
  "unit_values location kvs = (case find (\<lambda>kv. snd kv < 0 \<or> 1 < snd kv) kvs of
      None \<Rightarrow> Inr () | Some kv \<Rightarrow> Inl (BadValue (location @ fst kv)))"

definition RankingWeights_check :: "RankingWeights \<Rightarrow> RankingWeights parsed" where
  "RankingWeights_check w =
     ebind (unit_values ''ranking weight '' (weights_mapping w)) (\<lambda>_.
     ebind (d_sum 0 (map snd (weights_mapping w))) (\<lambda>s.
     if s \<noteq> 1 then Inl (Inconsistent ''ranking weights'') else Inr w))"

record StaticDeploymentScore =
  sd_deployment_id :: string
  sd_quality :: rat
  sd_reliability :: rat
  sd_latency :: rat
  sd_cost :: rat
  sd_availability :: rat
  sd_expected_latency_ms :: int

definition score_mapping :: "StaticDeploymentScore \<Rightarrow> (string \<times> rat) list" where
  "score_mapping s = [(dimension_value QUALITY, sd_quality s), (dimension_value RELIABILITY, sd_reliability s),
     (dimension_value LATENCY, sd_latency s), (dimension_value COST, sd_cost s),
     (dimension_value AVAILABILITY, sd_availability s)]"

definition StaticDeploymentScore_check :: "StaticDeploymentScore \<Rightarrow> StaticDeploymentScore parsed" where
  "StaticDeploymentScore_check s =
     ebind (unit_values (sd_deployment_id s @ '' score '') (score_mapping s)) (\<lambda>_.
     if sd_expected_latency_ms s \<le> 0 then Inl (BadValue (sd_deployment_id s @ '' expected_latency_ms''))
     else Inr s)"

record WorkloadRankingPolicy =
  wp_workload :: string
  wp_weights :: RankingWeights
  wp_deployments :: "StaticDeploymentScore list"

definition score_for :: "WorkloadRankingPolicy \<Rightarrow> string \<Rightarrow> StaticDeploymentScore option" where
  "score_for p i = find (\<lambda>s. sd_deployment_id s = i) (wp_deployments p)"

datatype ScoreProvenanceMode = BENCHMARK_HYBRID | MANUAL_OVERRIDE

fun mode_value :: "ScoreProvenanceMode \<Rightarrow> string" where
  "mode_value BENCHMARK_HYBRID = ''benchmark_hybrid''"
| "mode_value MANUAL_OVERRIDE = ''manual_override''"

text \<open>The fields \<open>EvidenceDrivenRankingPolicy\<close> adds to \<open>RankingPolicy\<close>.\<close>

record RankingEvidence =
  re_score_provenance_mode :: ScoreProvenanceMode
  re_benchmark_snapshot_id :: string
  re_promotion_evidence_id :: string
  re_manual_override_id :: "string option"

record RankingPolicy =
  rk_schema_version :: string
  rk_policy_version :: string
  rk_score_snapshot_id :: string
  rk_source_date :: date
  rk_workloads :: "WorkloadRankingPolicy list"
  rk_evidence :: "RankingEvidence option"

definition benchmark_snapshot_id :: "RankingPolicy \<Rightarrow> string option" where
  "benchmark_snapshot_id p = map_option re_benchmark_snapshot_id (rk_evidence p)"

definition score_provenance_mode :: "RankingPolicy \<Rightarrow> string option" where
  "score_provenance_mode p = map_option (\<lambda>e. mode_value (re_score_provenance_mode e)) (rk_evidence p)"

definition manual_override_id :: "RankingPolicy \<Rightarrow> string option" where
  "manual_override_id p = Option.bind (rk_evidence p) re_manual_override_id"

definition for_workload :: "RankingPolicy \<Rightarrow> string \<Rightarrow> WorkloadRankingPolicy parsed" where
  "for_workload p w = (case find (\<lambda>x. wp_workload x = w) (rk_workloads p) of
      None \<Rightarrow> Inl (KeyMissing w) | Some x \<Rightarrow> Inr x)"

subsection \<open>Parsing\<close>

definition ranking_root_fields :: "string list" where
  "ranking_root_fields = [''schema_version'', ''policy_version'', ''score_snapshot_id'', ''source_date'', ''workloads'']"

definition workload_fields :: "string list" where
  "workload_fields = [''weights'', ''deployments'']"

definition weight_fields :: "string list" where
  "weight_fields = [''quality'', ''reliability'', ''latency'', ''cost'', ''availability'']"

definition score_fields :: "string list" where
  "score_fields = weight_fields @ [''expected_latency_ms'']"

definition ranking_identifier :: "string \<Rightarrow> pyobj \<Rightarrow> string parsed" where
  "ranking_identifier field v = ebind (require_string field v) (\<lambda>text.
     if \<not> normalized text \<or> \<not> registry_identifier text then Inl (BadValue field) else Inr text)"

definition workload_identifier :: "string \<Rightarrow> pyobj \<Rightarrow> string parsed" where
  "workload_identifier field v = ebind (ranking_identifier field v) (\<lambda>text.
     if CHR ''.'' \<notin> set text then Inl (BadValue field) else Inr text)"

definition ranking_decimal :: "string \<Rightarrow> pyobj \<Rightarrow> rat parsed" where
  "ranking_decimal field v = ebind (decimal_of field v) (\<lambda>d.
     case d of DFinite x \<Rightarrow> Inr x | _ \<Rightarrow> Inl (BadValue field))"

definition dimension_at :: "string \<Rightarrow> items \<Rightarrow> RankingDimension \<Rightarrow> rat parsed" where
  "dimension_at location payload d = ebind (item payload (dimension_value d))
     (ranking_decimal (location @ ''.'' @ dimension_value d))"

definition parse_weights :: "string \<Rightarrow> items \<Rightarrow> RankingWeights parsed" where
  "parse_weights location payload =
     ebind (require_fields payload weight_fields weight_fields location) (\<lambda>_.
     ebind (dimension_at location payload QUALITY) (\<lambda>q.
     ebind (dimension_at location payload RELIABILITY) (\<lambda>r.
     ebind (dimension_at location payload LATENCY) (\<lambda>l.
     ebind (dimension_at location payload COST) (\<lambda>c.
     ebind (dimension_at location payload AVAILABILITY) (\<lambda>a.
     RankingWeights_check \<lparr>rw_quality = q, rw_reliability = r, rw_latency = l, rw_cost = c,
       rw_availability = a\<rparr>))))))"

definition parse_score :: "string \<Rightarrow> string \<Rightarrow> items \<Rightarrow> StaticDeploymentScore parsed" where
  "parse_score location did payload =
     ebind (require_fields payload score_fields score_fields location) (\<lambda>_.
     ebind (dimension_at did payload QUALITY) (\<lambda>q.
     ebind (dimension_at did payload RELIABILITY) (\<lambda>r.
     ebind (dimension_at did payload LATENCY) (\<lambda>l.
     ebind (dimension_at did payload COST) (\<lambda>c.
     ebind (dimension_at did payload AVAILABILITY) (\<lambda>a.
     ebind (ebind (item payload ''expected_latency_ms'')
              (require_positive_int (did @ ''.expected_latency_ms''))) (\<lambda>e.
     StaticDeploymentScore_check \<lparr>sd_deployment_id = did, sd_quality = q, sd_reliability = r,
       sd_latency = l, sd_cost = c, sd_availability = a, sd_expected_latency_ms = e\<rparr>)))))))"

fun parse_scores :: "string \<Rightarrow> items \<Rightarrow> string list \<Rightarrow> StaticDeploymentScore list parsed" where
  "parse_scores workload [] seen = Inr []"
| "parse_scores workload ((raw_id, raw_score) # rest) seen =
     ebind (ranking_identifier ''deployment_id'' raw_id) (\<lambda>did.
     if did \<in> set seen then Inl (DuplicateName workload did)
     else ebind (require_mapping (workload @ ''.deployments.'' @ did) raw_score) (\<lambda>payload.
     ebind (parse_score (workload @ ''.deployments.'' @ did) did payload) (\<lambda>s.
     ebind (parse_scores workload rest (did # seen)) (\<lambda>ss. Inr (s # ss)))))"

definition parse_workload :: "string \<Rightarrow> items \<Rightarrow> WorkloadRankingPolicy parsed" where
  "parse_workload workload payload =
     ebind (require_fields payload workload_fields workload_fields (''workload '' @ workload)) (\<lambda>_.
     ebind (ebind (item payload ''weights'') (require_mapping (workload @ ''.weights''))) (\<lambda>wp.
     ebind (parse_weights (workload @ ''.weights'') wp) (\<lambda>weights.
     ebind (ebind (item payload ''deployments'') (require_mapping (workload @ ''.deployments''))) (\<lambda>dp.
     ebind (parse_scores workload dp []) (\<lambda>ss.
     Inr \<lparr>wp_workload = workload, wp_weights = weights,
       wp_deployments = sort_key sd_deployment_id ss\<rparr>)))))"

fun parse_workloads :: "items \<Rightarrow> string list \<Rightarrow> WorkloadRankingPolicy list parsed" where
  "parse_workloads [] seen = Inr []"
| "parse_workloads ((raw_workload, raw_config) # rest) seen =
     ebind (workload_identifier ''workload'' raw_workload) (\<lambda>w.
     if w \<in> set seen then Inl (DuplicateName ''workload'' w)
     else ebind (require_mapping w raw_config) (\<lambda>payload.
     ebind (parse_workload w payload) (\<lambda>p.
     ebind (parse_workloads rest (w # seen)) (\<lambda>ps. Inr (p # ps)))))"

definition build_ranking_policy :: "items \<Rightarrow> RankingPolicy parsed" where
  "build_ranking_policy payload =
     ebind (require_fields payload ranking_root_fields ranking_root_fields ''ranking policy'') (\<lambda>_.
     ebind (ebind (item payload ''schema_version'') (require_string ''schema_version'')) (\<lambda>sv.
     if sv \<noteq> ''1.0'' then Inl (BadValue ''schema_version'')
     else
     ebind (ebind (item payload ''policy_version'') (ranking_identifier ''policy_version'')) (\<lambda>pv.
     ebind (ebind (item payload ''score_snapshot_id'') (ranking_identifier ''score_snapshot_id'')) (\<lambda>si.
     ebind (ebind (item payload ''source_date'') (require_date ''source_date'')) (\<lambda>sd.
     ebind (ebind (item payload ''workloads'') (require_mapping ''workloads'')) (\<lambda>ws.
     ebind (parse_workloads ws []) (\<lambda>ps.
     Inr \<lparr>rk_schema_version = sv, rk_policy_version = pv, rk_score_snapshot_id = si,
       rk_source_date = sd, rk_workloads = sort_key wp_workload ps, rk_evidence = None\<rparr>)))))))"

subsection \<open>Canonical payload and digest\<close>

definition canonical_dimensions :: "(string \<times> rat) list \<Rightarrow> (string \<times> json) list parsed" where
  "canonical_dimensions kvs = emap (\<lambda>kv. ebind (registry_decimal (snd kv)) (\<lambda>j. Inr (fst kv, j))) kvs"

definition canonical_workload :: "WorkloadRankingPolicy \<Rightarrow> json parsed" where
  "canonical_workload w =
     ebind (emap (\<lambda>s. ebind (canonical_dimensions (score_mapping s)) (\<lambda>dims.
              Inr (sd_deployment_id s, JObj (dims @ [(''expected_latency_ms'', JInt (sd_expected_latency_ms s))]))))
            (sort_key sd_deployment_id (wp_deployments w))) (\<lambda>deps.
     ebind (canonical_dimensions (weights_mapping (wp_weights w))) (\<lambda>ws.
     Inr (JObj [(''weights'', JObj ws), (''deployments'', JObj deps)])))"

definition evidence_payload :: "RankingEvidence \<Rightarrow> (string \<times> json) list" where
  "evidence_payload e =
     [(''score_provenance_mode'', JStr (mode_value (re_score_provenance_mode e))),
      (''benchmark_snapshot_id'', JStr (re_benchmark_snapshot_id e)),
      (''promotion_evidence_id'', JStr (re_promotion_evidence_id e))] @
     (case re_manual_override_id e of None \<Rightarrow> [] | Some i \<Rightarrow> [(''manual_override_id'', JStr i)])"

definition ranking_payload :: "RankingPolicy \<Rightarrow> (string \<times> json) list parsed" where
  "ranking_payload p =
     ebind (emap (\<lambda>w. ebind (canonical_workload w) (\<lambda>j. Inr (wp_workload w, j)))
              (sort_key wp_workload (rk_workloads p))) (\<lambda>ws.
     Inr ([(''schema_version'', JStr (rk_schema_version p)), (''policy_version'', JStr (rk_policy_version p)),
       (''score_snapshot_id'', JStr (rk_score_snapshot_id p)),
       (''source_date'', JStr (isoformat (rk_source_date p))), (''workloads'', JObj ws)] @
       (case rk_evidence p of None \<Rightarrow> [] | Some e \<Rightarrow> evidence_payload e)))"

definition ranking_digest :: "RankingPolicy \<Rightarrow> string parsed" where
  "ranking_digest p = ebind (ranking_payload p) (\<lambda>j. Inr (json_digest (JObj j)))"

end
