(* ===== verification/Governance.thy ===== *)
theory Governance
  imports Registry_Laws
begin

text \<open>
  Authorization boundaries: the PDP authorization and the subset rule of
  \<open>domain/authorization.py\<close>, the trust types of \<open>domain/trust.py\<close>, and the signed governance
  authorization of \<open>domain/governance.py\<close> with its fail-closed enforcement.
\<close>

subsection \<open>PDP authorization\<close>

record PolicyAuthorization =
  pa_decision_id :: string
  pa_authorized_model_groups :: "string set"

definition PolicyAuthorization_ok :: "PolicyAuthorization \<Rightarrow> bool" where
  "PolicyAuthorization_ok a \<longleftrightarrow> normalized (pa_decision_id a) \<and> pa_authorized_model_groups a \<noteq> {} \<and>
     (\<forall>g\<in>pa_authorized_model_groups a. normalized g)"

datatype boundary_violation = AuthorizationBoundaryViolation

definition enforce_allowed_subset :: "string set \<Rightarrow> string set \<Rightarrow> boundary_violation + unit" where
  "enforce_allowed_subset gateway_allowed policy_authorized =
     (if \<not> gateway_allowed \<subseteq> policy_authorized then Inl AuthorizationBoundaryViolation else Inr ())"

definition enforce_selected_group :: "string \<Rightarrow> PolicyAuthorization \<Rightarrow> boundary_violation + unit" where
  "enforce_selected_group selected a =
     (if selected \<notin> pa_authorized_model_groups a then Inl AuthorizationBoundaryViolation else Inr ())"

definition authorized_registry_candidates ::
  "ModelRegistry \<Rightarrow> PolicyAuthorization \<Rightarrow> boundary_violation + ModelDeployment list" where
  "authorized_registry_candidates r a =
     (let candidates = filter (\<lambda>d. md_model_group d \<in> pa_authorized_model_groups a) (mr_deployments r)
      in ebind (enforce_allowed_subset (set (map md_model_group candidates)) (pa_authorized_model_groups a))
           (\<lambda>_. Inr candidates))"

subsection \<open>Trusted context\<close>

record AuthenticatedWorkloadIdentity =
  wi_client_id :: string
  wi_environment :: string
  wi_minimum_data_classification :: DataClassification
  wi_maximum_risk_level :: RiskLevel
  wi_allowed_workloads :: "string set"

record EffectivePolicyContext =
  ec_client_id :: string
  ec_environment :: string
  ec_workload :: string
  ec_risk_level :: RiskLevel
  ec_data_classification :: DataClassification

subsection \<open>Signed governance authorization\<close>

text \<open>A \<open>datetime\<close>: naive, or aware with its UTC instant in microseconds.\<close>

datatype datetime = Naive int | Aware (utc_micros: int)

definition is_aware :: "datetime \<Rightarrow> bool" where
  "is_aware t \<longleftrightarrow> (case t of Naive _ \<Rightarrow> False | Aware _ \<Rightarrow> True)"

text \<open>\<open>str(uuid)\<close>.\<close>

definition uuid_str :: "uuid \<Rightarrow> string" where
  "uuid_str u = (let h = uuid_hex u in
     take 8 h @ ''-'' @ take 4 (drop 8 h) @ ''-'' @ take 4 (drop 12 h) @ ''-'' @ take 4 (drop 16 h) @
     ''-'' @ drop 20 h)"

datatype GovernanceDenialReason =
    INVALID_CLOCK | INVALID_AUDIENCE_CONFIGURATION | AUDIENCE_MISMATCH | NOT_ACTIVE | EXPIRED
  | WORKLOAD_MISMATCH | RISK_LEVEL_MISMATCH | DATA_CLASSIFICATION_MISMATCH
  | CONTEXT_TOKENS_MISMATCH | OUTPUT_TOKENS_MISMATCH | STRUCTURED_OUTPUT_MISMATCH
  | LATENCY_CEILING_MISMATCH | COST_CEILING_MISMATCH | NO_MODEL_GROUP_INTERSECTION
  | SELECTED_MODEL_GROUP_MISMATCH

datatype governance_error =
    GovernanceAuthorizationViolation GovernanceDenialReason
  | BoundaryError
  | CostOverflow

record GovernancePolicyProvenance =
  gp_policy_id :: string
  gp_policy_version :: string
  gp_policy_digest :: string
  gp_control_catalog_id :: string
  gp_control_catalog_version :: string
  gp_control_catalog_digest :: string

record GovernanceRequestBinding =
  gb_workflow_id :: string
  gb_task_id :: string
  gb_workload :: string
  gb_context_tokens_estimated :: int
  gb_max_output_tokens_estimated :: int
  gb_structured_output_required :: bool
  gb_max_latency_ms :: int
  gb_max_cost_usd_micros :: int

record VerifiedGovernanceAuthorization =
  va_authorization_id :: uuid
  va_issuer :: string
  va_audience :: "string list"
  va_key_id :: string
  va_signing_digest :: string
  va_issued_at :: datetime
  va_not_before :: datetime
  va_expires_at :: datetime
  va_initiative_id :: uuid
  va_ai_system_id :: uuid
  va_agent_id :: uuid
  va_agent_review_digest :: string
  va_request :: GovernanceRequestBinding
  va_risk_level :: RiskLevel
  va_data_classification :: DataClassification
  va_scope_digest :: string
  va_authorized_model_groups :: "string set"
  va_policy :: GovernancePolicyProvenance

definition VerifiedGovernanceAuthorization_ok :: "VerifiedGovernanceAuthorization \<Rightarrow> bool" where
  "VerifiedGovernanceAuthorization_ok a \<longleftrightarrow> va_authorization_id a \<noteq> 0 \<and>
     list_all normalized [va_issuer a, va_key_id a, va_signing_digest a, va_agent_review_digest a,
       va_scope_digest a] \<and>
     va_audience a \<noteq> [] \<and> list_all normalized (va_audience a) \<and>
     is_aware (va_issued_at a) \<and> is_aware (va_not_before a) \<and>
     utc_micros (va_issued_at a) \<le> utc_micros (va_not_before a) \<and>
     is_aware (va_expires_at a) \<and> utc_micros (va_not_before a) < utc_micros (va_expires_at a) \<and>
     va_authorized_model_groups a \<noteq> {} \<and> (\<forall>g\<in>va_authorized_model_groups a. normalized g)"

record ForwardableGovernanceAuthorization =
  fa_authorization :: VerifiedGovernanceAuthorization
  fa_document :: "(string \<times> json) list"

definition ForwardableGovernanceAuthorization_ok :: "ForwardableGovernanceAuthorization \<Rightarrow> bool" where
  "ForwardableGovernanceAuthorization_ok f \<longleftrightarrow>
     set (map fst (fa_document f)) = {''protected'', ''claims'', ''signature''} \<and>
     (case map_of (fa_document f) ''claims'' of
        Some (JObj claims) \<Rightarrow>
          map_of claims ''authorization_id'' = Some (JStr (uuid_str (va_authorization_id (fa_authorization f))))
      | _ \<Rightarrow> False)"

record GovernanceRuntimeRequest =
  rt_workload :: string
  rt_risk_level :: RiskLevel
  rt_data_classification :: DataClassification
  rt_context_tokens_estimated :: int
  rt_max_output_tokens_estimated :: int
  rt_structured_output_required :: bool
  rt_max_latency_ms :: int
  rt_max_cost_usd :: rat

text \<open>The tuple of checks: each with the reason of its failure; the first failing one is raised.\<close>

definition binding_checks ::
  "VerifiedGovernanceAuthorization \<Rightarrow> GovernanceRuntimeRequest \<Rightarrow> rat \<Rightarrow> (bool \<times> GovernanceDenialReason) list" where
  "binding_checks a rt cost_micros = (let signed = va_request a in
     [(rt_workload rt = gb_workload signed, WORKLOAD_MISMATCH),
      (rt_risk_level rt = va_risk_level a, RISK_LEVEL_MISMATCH),
      (rt_data_classification rt = va_data_classification a, DATA_CLASSIFICATION_MISMATCH),
      (rt_context_tokens_estimated rt = gb_context_tokens_estimated signed, CONTEXT_TOKENS_MISMATCH),
      (rt_max_output_tokens_estimated rt = gb_max_output_tokens_estimated signed, OUTPUT_TOKENS_MISMATCH),
      (rt_structured_output_required rt = gb_structured_output_required signed, STRUCTURED_OUTPUT_MISMATCH),
      (rt_max_latency_ms rt = gb_max_latency_ms signed, LATENCY_CEILING_MISMATCH),
      (cost_micros = of_int (gb_max_cost_usd_micros signed), COST_CEILING_MISMATCH)])"

definition first_mismatch :: "(bool \<times> GovernanceDenialReason) list \<Rightarrow> governance_error + unit" where
  "first_mismatch checks = (case find (\<lambda>c. \<not> fst c) checks of
      None \<Rightarrow> Inr () | Some c \<Rightarrow> Inl (GovernanceAuthorizationViolation (snd c)))"

definition enforce_governance_authorization ::
  "VerifiedGovernanceAuthorization \<Rightarrow> GovernanceRuntimeRequest \<Rightarrow> string \<Rightarrow> datetime \<Rightarrow> governance_error + unit" where
  "enforce_governance_authorization a rt expected_audience now =
     (if \<not> is_aware now then Inl (GovernanceAuthorizationViolation INVALID_CLOCK)
      else if \<not> normalized expected_audience then Inl (GovernanceAuthorizationViolation INVALID_AUDIENCE_CONFIGURATION)
      else if expected_audience \<notin> set (va_audience a) then Inl (GovernanceAuthorizationViolation AUDIENCE_MISMATCH)
      else if utc_micros now < utc_micros (va_not_before a) then Inl (GovernanceAuthorizationViolation NOT_ACTIVE)
      else if utc_micros (va_expires_at a) \<le> utc_micros now then Inl (GovernanceAuthorizationViolation EXPIRED)
      else case d_mul (rt_max_cost_usd rt) 1000000 of
        None \<Rightarrow> Inl CostOverflow
      | Some cost_micros \<Rightarrow> first_mismatch (binding_checks a rt cost_micros))"

definition governance_authorized_candidates ::
  "ModelDeployment list \<Rightarrow> PolicyAuthorization \<Rightarrow> VerifiedGovernanceAuthorization \<Rightarrow>
   governance_error + ModelDeployment list" where
  "governance_authorized_candidates candidates pa ga =
     (let effective = va_authorized_model_groups ga \<inter> pa_authorized_model_groups pa;
          narrowed = filter (\<lambda>d. md_model_group d \<in> effective) candidates
      in case enforce_allowed_subset effective (pa_authorized_model_groups pa) of
           Inl _ \<Rightarrow> Inl BoundaryError
         | Inr _ \<Rightarrow> if narrowed = [] then Inl (GovernanceAuthorizationViolation NO_MODEL_GROUP_INTERSECTION)
                    else Inr narrowed)"

definition enforce_governance_selected_group ::
  "VerifiedGovernanceAuthorization \<Rightarrow> string \<Rightarrow> governance_error + unit" where
  "enforce_governance_selected_group a selected =
     (if \<not> normalized selected then Inl (GovernanceAuthorizationViolation SELECTED_MODEL_GROUP_MISMATCH)
      else if selected \<notin> va_authorized_model_groups a
        then Inl (GovernanceAuthorizationViolation SELECTED_MODEL_GROUP_MISMATCH)
      else Inr ())"

end
