(* ===== verification/Structured.thy ===== *)
theory Structured
  imports Contracts
begin

text \<open>
  Schema safety (\<open>domain/structured.py\<close>): the bounded walk over a caller's JSON Schema and the
  validation of tool definitions and tool calls. The JSON Schema library and the \<open>regex\<close>
  compiler are third-party code: they are the fields of \<open>schema_lib\<close>.
\<close>

datatype schema_error = InvalidSchemaError string | ToolCallValidationError string

record schema_lib =
  sl_pattern_compiles :: "string \<Rightarrow> bool"
  sl_check_schema :: "(string \<times> json) list \<Rightarrow> bool"
  sl_validates :: "(string \<times> json) list \<Rightarrow> json \<Rightarrow> bool"

abbreviation max_schema_bytes :: int where "max_schema_bytes \<equiv> 65536"
abbreviation max_schema_depth :: nat where "max_schema_depth \<equiv> 32"
abbreviation max_pattern_length :: nat where "max_pattern_length \<equiv> 512"

definition schema_map_keywords :: "string list" where
  "schema_map_keywords = [''$defs'', ''definitions'', ''properties'', ''dependentSchemas'']"

definition schema_list_keywords :: "string list" where
  "schema_list_keywords = [''allOf'', ''anyOf'', ''oneOf'', ''prefixItems'']"

definition schema_single_keywords :: "string list" where
  "schema_single_keywords = [''additionalProperties'', ''unevaluatedProperties'', ''propertyNames'',
     ''contains'', ''items'', ''not'', ''if'', ''then'', ''else'', ''unevaluatedItems'', ''contentSchema'']"

text \<open>The checks of one mapping before its children are visited.\<close>

definition remote_ref :: "(string \<times> json) list \<Rightarrow> string \<Rightarrow> bool" where
  "remote_ref kvs keyword \<longleftrightarrow> (case map_of kvs keyword of
      Some (JStr ref) \<Rightarrow> \<not> (\<exists>r. ref = CHR ''#'' # r) | _ \<Rightarrow> False)"

lemma remote_ref_code [code]:
  "remote_ref kvs keyword = (case map_of kvs keyword of
      Some (JStr ref) \<Rightarrow> (case ref of [] \<Rightarrow> True | c # r \<Rightarrow> c \<noteq> CHR ''#'') | _ \<Rightarrow> False)"
  by (auto simp: remote_ref_def split: option.splits json.splits list.splits)

definition node_checks :: "schema_lib \<Rightarrow> (string \<times> json) list \<Rightarrow> bool" where
  "node_checks lib kvs \<longleftrightarrow> \<not> remote_ref kvs ''$ref'' \<and> \<not> remote_ref kvs ''$dynamicRef'' \<and>
     (case map_of kvs ''pattern'' of
        Some (JStr p) \<Rightarrow> length p \<le> max_pattern_length \<and> sl_pattern_compiles lib p | _ \<Rightarrow> True) \<and>
     map_of kvs ''patternProperties'' = None \<and>
     (case map_of kvs ''format'' of Some (JStr f) \<Rightarrow> f = ''uri'' | _ \<Rightarrow> True)"

text \<open>The sub-schemas a keyword holds.\<close>

fun subschemas :: "string \<times> json \<Rightarrow> json list" where
  "subschemas (k, JObj cs) =
     (if k \<in> set schema_map_keywords then map snd cs
      else if k \<in> set schema_single_keywords then [JObj cs] else [])"
| "subschemas (k, JList cs) =
     (if k \<in> set schema_list_keywords then cs
      else if k \<in> set schema_single_keywords then [JList cs] else [])"
| "subschemas (k, j) = (if k \<in> set schema_single_keywords then [j] else [])"

text \<open>The depth bound ends the recursion.\<close>

function validate_schema_node :: "schema_lib \<Rightarrow> nat \<Rightarrow> json \<Rightarrow> bool" where
  "validate_schema_node lib depth v =
     (if max_schema_depth < depth then False
      else case v of
        JObj kvs \<Rightarrow> node_checks lib kvs \<and>
          (\<forall>kv\<in>set kvs. \<forall>j\<in>set (subschemas kv). validate_schema_node lib (Suc depth) j)
      | _ \<Rightarrow> True)"
  by pat_completeness auto

termination
proof (relation "measure (\<lambda>(lib, depth, v). Suc max_schema_depth - depth)")
qed auto

declare validate_schema_node.simps [simp del]

definition validate_schema_document :: "schema_lib \<Rightarrow> string \<Rightarrow> (string \<times> json) list \<Rightarrow> schema_error + unit" where
  "validate_schema_document lib label schema =
     (if max_schema_bytes < utf8_len (json_dumps False (JObj schema)) then Inl (InvalidSchemaError label)
      else if \<not> validate_schema_node lib 0 (JObj schema) then Inl (InvalidSchemaError label)
      else if \<not> sl_check_schema lib schema then Inl (InvalidSchemaError label)
      else Inr ())"

definition validate_structured_output_schema :: "schema_lib \<Rightarrow> StructuredOutputSchema \<Rightarrow> schema_error + unit" where
  "validate_structured_output_schema lib s = validate_schema_document lib ''structured output'' (so_schema s)"

fun tool_definitions_from :: "schema_lib \<Rightarrow> string list \<Rightarrow> ToolDefinition list \<Rightarrow> schema_error + unit" where
  "tool_definitions_from lib names [] = Inr ()"
| "tool_definitions_from lib names (t # ts) =
     (if td_name t \<in> set names then Inl (InvalidSchemaError (td_name t))
      else ebind (validate_schema_document lib (''tool '' @ td_name t) (td_input_schema t)) (\<lambda>_.
           tool_definitions_from lib (td_name t # names) ts))"

definition validate_tool_definitions :: "schema_lib \<Rightarrow> ToolDefinition list \<Rightarrow> schema_error + unit" where
  "validate_tool_definitions lib tools = tool_definitions_from lib [] tools"

definition validate_tool_call :: "schema_lib \<Rightarrow> ToolCall \<Rightarrow> ToolDefinition list \<Rightarrow> schema_error + unit" where
  "validate_tool_call lib call tools =
     (case py_dict (map (\<lambda>t. (td_name t, t)) tools) (tc_name call) of
        None \<Rightarrow> Inl (ToolCallValidationError (tc_name call))
      | Some t \<Rightarrow> ebind (validate_schema_document lib (''tool '' @ td_name t) (td_input_schema t)) (\<lambda>_.
          if \<not> sl_validates lib (td_input_schema t) (JObj (tc_arguments call))
          then Inl (ToolCallValidationError (td_name t)) else Inr ()))"

end
