(* ===== verification/Provider_Request.thy ===== *)
theory Provider_Request
  imports Structured Provider
begin

text \<open>
  Provider requests, responses and stream events (\<open>application/provider.py\<close>).
\<close>

record ProviderRequest =
  pq_model :: string
  pq_messages :: "Message list"
  pq_max_output_tokens :: int
  pq_timeout_seconds :: pyfloat
  pq_structured_output :: "StructuredOutputSchema option"
  pq_tools :: "ToolDefinition list"
  pq_parallel_tool_calling :: bool

text \<open>Every failure of the constructor is a \<open>ValueError\<close>.\<close>

definition tool_message_correlated :: "Message \<Rightarrow> bool" where
  "tool_message_correlated m \<longleftrightarrow> (msg_role m = TOOL \<longrightarrow> list_ex is_tool_result (msg_blocks m))"

definition is_Inr :: "'e + 'a \<Rightarrow> bool" where
  "is_Inr r \<longleftrightarrow> (case r of Inl _ \<Rightarrow> False | Inr _ \<Rightarrow> True)"

definition ProviderRequest_ok :: "schema_lib \<Rightarrow> ProviderRequest \<Rightarrow> bool" where
  "ProviderRequest_ok lib q \<longleftrightarrow> normalized (pq_model q) \<and> pq_messages q \<noteq> [] \<and>
     list_all tool_message_correlated (pq_messages q) \<and> 0 < pq_max_output_tokens q \<and>
     \<not> fle (pq_timeout_seconds q) fzero \<and>
     (case pq_structured_output q of None \<Rightarrow> True
      | Some s \<Rightarrow> is_Inr (validate_structured_output_schema lib s)) \<and>
     (pq_tools q = [] \<or> is_Inr (validate_tool_definitions lib (pq_tools q))) \<and>
     (pq_parallel_tool_calling q \<longrightarrow> pq_tools q \<noteq> [])"

definition provider_blocks :: "ProviderRequest \<Rightarrow> ContentBlock list" where
  "provider_blocks q = concat (map canonical_blocks (pq_messages q))"

fun is_inline_image :: "ContentBlock \<Rightarrow> bool" where
  "is_inline_image (ImageBlock _ s) = is_inline s"
| "is_inline_image _ = False"

definition has_image_input :: "ProviderRequest \<Rightarrow> bool" where
  "has_image_input q = list_ex is_image (provider_blocks q)"

definition has_inline_image_input :: "ProviderRequest \<Rightarrow> bool" where
  "has_inline_image_input q = list_ex is_inline_image (provider_blocks q)"

definition has_audio_input :: "ProviderRequest \<Rightarrow> bool" where
  "has_audio_input q = list_ex is_audio (provider_blocks q)"

definition has_document_input :: "ProviderRequest \<Rightarrow> bool" where
  "has_document_input q = list_ex is_document (provider_blocks q)"

definition has_tool_results :: "ProviderRequest \<Rightarrow> bool" where
  "has_tool_results q = list_ex is_tool_result (provider_blocks q)"

record ProviderResponse =
  ps_text :: "string option"
  ps_usage :: ProviderUsage
  ps_response_id :: "string option"
  ps_finish_reason :: "string option"
  ps_structured_output :: "json option"
  ps_tool_calls :: "ToolCall list"

definition ProviderResponse_ok :: "ProviderResponse \<Rightarrow> bool" where
  "ProviderResponse_ok r \<longleftrightarrow> opt_all (\<lambda>t. py_strip t \<noteq> []) (ps_text r) \<and>
     \<not> (ps_text r = None \<and> ps_structured_output r = None \<and> ps_tool_calls r = [])"

datatype ProviderStreamEvent =
    ProviderResponseStarted "string option"
  | ProviderContentDelta string
  | ProviderToolCallStarted string string
  | ProviderToolCallArgumentsDelta string string
  | ProviderToolCallCompleted ToolCall
  | ProviderUsageCompleted ProviderUsage
  | ProviderResponseCompleted "string option" "string option"

fun ProviderStreamEvent_ok :: "ProviderStreamEvent \<Rightarrow> bool" where
  "ProviderStreamEvent_ok (ProviderContentDelta d) \<longleftrightarrow> d \<noteq> []"
| "ProviderStreamEvent_ok (ProviderToolCallStarted i n) \<longleftrightarrow> py_strip i \<noteq> [] \<and> py_strip n \<noteq> []"
| "ProviderStreamEvent_ok (ProviderToolCallArgumentsDelta i d) \<longleftrightarrow> py_strip i \<noteq> [] \<and> d \<noteq> []"
| "ProviderStreamEvent_ok _ \<longleftrightarrow> True"

end
