(* ===== verification/Policy.thy ===== *)
theory Policy
  imports Governance Provider_Request
begin

text \<open>
  Policy projection and enforcement (\<open>application/policy.py\<close>). The Policy Model Router is a
  remote service: \<open>PolicyDecisionPort.authorize\<close> is the argument \<open>authorize\<close>, a function of the
  prompt-free metadata it is sent. Telemetry spans around the call change no result and are not
  modelled.
\<close>

subsection \<open>Errors\<close>

datatype PolicyDecisionErrorCode =
    PD_REJECTED | PD_INVALID_REQUEST | PD_AUTHENTICATION | PD_AUTHORIZATION | PD_RATE_LIMIT
  | PD_TIMEOUT | PD_MISCONFIGURED | PD_UNAVAILABLE | PD_TRANSPORT | PD_INVALID_RESPONSE

record PolicyDecisionError =
  pd_code :: PolicyDecisionErrorCode
  pd_retryable :: bool
  pd_status_code :: "int option"
  pd_provenance :: "PolicyProvenance option"
  pd_reason_code :: "string option"

datatype policy_failure =
    PolicyProjectionError string
  | PolicyValueError string
  | PolicyDecisionFailed PolicyDecisionError
  | BoundaryViolation
  | RegistryFailure config_error
  | ProviderFailed ProviderError

definition boundary :: "boundary_violation + 'a \<Rightarrow> policy_failure + 'a" where
  "boundary r = (case r of Inl _ \<Rightarrow> Inl BoundaryViolation | Inr x \<Rightarrow> Inr x)"

definition config :: "'a parsed \<Rightarrow> policy_failure + 'a" where
  "config r = (case r of Inl e \<Rightarrow> Inl (RegistryFailure e) | Inr x \<Rightarrow> Inr x)"

subsection \<open>Values\<close>

record PolicyProjectionDefaults =
  df_max_latency_ms :: int
  df_max_cost_usd :: rat

definition PolicyProjectionDefaults_ok :: "PolicyProjectionDefaults \<Rightarrow> bool" where
  "PolicyProjectionDefaults_ok d \<longleftrightarrow> 0 < df_max_latency_ms d \<and> 0 < df_max_cost_usd d"

record PolicyRequestMetadata =
  pm_request_id :: uuid
  pm_client_id :: string
  pm_environment :: string
  pm_workload :: string
  pm_risk_level :: RiskLevel
  pm_data_classification :: DataClassification
  pm_context_tokens_estimated :: int
  pm_max_output_tokens_estimated :: int
  pm_structured_output_required :: bool
  pm_max_latency_ms :: int
  pm_max_cost_usd :: rat
  pm_runtime_authorization :: "ForwardableGovernanceAuthorization option"

text \<open>\<open>_require_signed_binding_agreement\<close>; the names of the disagreeing fields.\<close>

definition signed_binding_checks ::
  "PolicyRequestMetadata \<Rightarrow> ForwardableGovernanceAuthorization \<Rightarrow> rat \<Rightarrow> (string \<times> bool) list" where
  "signed_binding_checks m f cost_micros =
     (let a = fa_authorization f; signed = va_request a in
     [(''workload'', gb_workload signed = pm_workload m),
      (''risk_level'', va_risk_level a = pm_risk_level m),
      (''data_classification'', va_data_classification a = pm_data_classification m),
      (''context_tokens_estimated'', gb_context_tokens_estimated signed = pm_context_tokens_estimated m),
      (''max_output_tokens_estimated'', gb_max_output_tokens_estimated signed = pm_max_output_tokens_estimated m),
      (''structured_output_required'', gb_structured_output_required signed = pm_structured_output_required m),
      (''max_latency_ms'', gb_max_latency_ms signed = pm_max_latency_ms m),
      (''max_cost_usd'', cost_micros = of_int (gb_max_cost_usd_micros signed))])"

definition require_signed_binding_agreement ::
  "PolicyRequestMetadata \<Rightarrow> ForwardableGovernanceAuthorization \<Rightarrow> policy_failure + unit" where
  "require_signed_binding_agreement m f =
     (case d_mul (pm_max_cost_usd m) 1000000 of
        None \<Rightarrow> Inl (RegistryFailure DecimalOverflow)
      | Some cost_micros \<Rightarrow>
          (let mismatched = map fst (filter (\<lambda>c. \<not> snd c) (signed_binding_checks m f cost_micros)) in
           if mismatched \<noteq> [] then Inl (PolicyValueError (py_join '', '' mismatched)) else Inr ()))"

definition PolicyRequestMetadata_check :: "PolicyRequestMetadata \<Rightarrow> policy_failure + PolicyRequestMetadata" where
  "PolicyRequestMetadata_check m =
     (if \<not> normalized (pm_client_id m) then Inl (PolicyValueError ''client_id'')
      else if \<not> normalized (pm_environment m) then Inl (PolicyValueError ''environment'')
      else if \<not> normalized (pm_workload m) then Inl (PolicyValueError ''workload'')
      else if pm_context_tokens_estimated m < 0 then Inl (PolicyValueError ''context_tokens_estimated'')
      else if pm_max_output_tokens_estimated m \<le> 0 then Inl (PolicyValueError ''max_output_tokens_estimated'')
      else if pm_max_latency_ms m \<le> 0 then Inl (PolicyValueError ''max_latency_ms'')
      else if pm_max_cost_usd m \<le> 0 then Inl (PolicyValueError ''max_cost_usd'')
      else case pm_runtime_authorization m of
        None \<Rightarrow> Inr m
      | Some f \<Rightarrow> ebind (require_signed_binding_agreement m f) (\<lambda>_. Inr m))"

record PolicyAuthorizationDecision =
  ad_authorization :: PolicyAuthorization
  ad_provenance :: PolicyProvenance
  ad_decided_at :: datetime
  ad_reason :: string
  ad_service_version :: string
  ad_environment :: string

definition PolicyAuthorizationDecision_ok :: "PolicyAuthorizationDecision \<Rightarrow> bool" where
  "PolicyAuthorizationDecision_ok d \<longleftrightarrow>
     pa_decision_id (ad_authorization d) = pp_decision_id (ad_provenance d) \<and>
     is_aware (ad_decided_at d) \<and> ad_reason d \<noteq> [] \<and> ad_service_version d \<noteq> [] \<and> ad_environment d \<noteq> []"

record AuthorizedCandidateSet =
  ac_policy :: PolicyAuthorizationDecision
  ac_registry_digest :: string
  ac_candidates :: "ModelDeployment list"

record PolicyEnforcedExecution =
  pe_policy :: PolicyAuthorizationDecision
  pe_registry_digest :: string
  pe_deployment :: ModelDeployment
  pe_response :: ProviderResponse

subsection \<open>Projection\<close>

definition project_policy_request ::
  "GatewayRequest \<Rightarrow> EffectivePolicyContext \<Rightarrow> int \<Rightarrow> int \<Rightarrow> PolicyProjectionDefaults \<Rightarrow>
   ForwardableGovernanceAuthorization option \<Rightarrow> policy_failure + PolicyRequestMetadata" where
  "project_policy_request r ctx context_tokens max_output defaults runtime_authorization =
     (if gr_request_id r = 0 then Inl (PolicyProjectionError ''request_id'')
      else if ec_workload ctx \<noteq> gr_workload r then Inl (PolicyProjectionError ''workload'')
      else if \<not> normalized (ec_client_id ctx) then Inl (PolicyProjectionError ''client_id'')
      else if \<not> normalized (ec_environment ctx) then Inl (PolicyProjectionError ''environment'')
      else if context_tokens < 0 then Inl (PolicyProjectionError ''context_tokens_estimated'')
      else if max_output \<le> 0 then Inl (PolicyProjectionError ''max_output_tokens_estimated'')
      else
        (let max_latency = (case lm_max_latency_ms (gr_limits r) of
               None \<Rightarrow> df_max_latency_ms defaults | Some l \<Rightarrow> min l (df_max_latency_ms defaults));
             caller_cost = lm_max_cost_usd (gr_limits r)
         in if (case caller_cost of None \<Rightarrow> False | Some c \<Rightarrow> c \<le> 0)
            then Inl (PolicyProjectionError ''max_cost_usd'')
            else PolicyRequestMetadata_check
              \<lparr>pm_request_id = gr_request_id r, pm_client_id = ec_client_id ctx,
               pm_environment = ec_environment ctx, pm_workload = ec_workload ctx,
               pm_risk_level = ec_risk_level ctx, pm_data_classification = ec_data_classification ctx,
               pm_context_tokens_estimated = context_tokens, pm_max_output_tokens_estimated = max_output,
               pm_structured_output_required = rq_structured_output (gr_requirements r),
               pm_max_latency_ms = max_latency,
               pm_max_cost_usd = (case caller_cost of None \<Rightarrow> df_max_cost_usd defaults
                 | Some c \<Rightarrow> min c (df_max_cost_usd defaults)),
               pm_runtime_authorization = runtime_authorization\<rparr>))"

subsection \<open>Enforcement\<close>

type_synonym pdp = "PolicyRequestMetadata \<Rightarrow> PolicyDecisionError + PolicyAuthorizationDecision"

definition ask_pdp :: "pdp \<Rightarrow> PolicyRequestMetadata \<Rightarrow> policy_failure + PolicyAuthorizationDecision" where
  "ask_pdp authorize m = (case authorize m of Inl e \<Rightarrow> Inl (PolicyDecisionFailed e) | Inr d \<Rightarrow> Inr d)"

definition authorize_candidates ::
  "pdp \<Rightarrow> GatewayRequest \<Rightarrow> EffectivePolicyContext \<Rightarrow> ModelRegistry \<Rightarrow> int \<Rightarrow> int \<Rightarrow>
   PolicyProjectionDefaults \<Rightarrow> ForwardableGovernanceAuthorization option \<Rightarrow>
   policy_failure + AuthorizedCandidateSet" where
  "authorize_candidates authorize r ctx registry context_tokens max_output defaults ra =
     ebind (project_policy_request r ctx context_tokens max_output defaults ra) (\<lambda>m.
     ebind (ask_pdp authorize m) (\<lambda>d.
     ebind (boundary (authorized_registry_candidates registry (ad_authorization d))) (\<lambda>cs.
     ebind (config (registry_digest registry)) (\<lambda>digest.
     Inr \<lparr>ac_policy = d, ac_registry_digest = digest, ac_candidates = cs\<rparr>))))"

text \<open>
  The provider port. A call is an event: the state of \<open>execute_selected\<close> is the list of requests
  the provider has been sent, and its answer may depend on them.
\<close>

type_synonym provider_port = "ProviderRequest list \<Rightarrow> ProviderRequest \<Rightarrow> ProviderError + ProviderResponse"
type_synonym 'a provider_method = "(ProviderRequest list, policy_failure, 'a) pymethod"

definition mk_provider_request ::
  "GatewayRequest \<Rightarrow> ModelDeployment \<Rightarrow> int \<Rightarrow> pyfloat \<Rightarrow> ProviderRequest" where
  "mk_provider_request r d max_output timeout =
     \<lparr>pq_model = md_model_id d, pq_messages = gr_messages r, pq_max_output_tokens = max_output,
      pq_timeout_seconds = timeout, pq_structured_output = gr_structured_output r,
      pq_tools = gr_tools r, pq_parallel_tool_calling = rq_parallel_tool_calling (gr_requirements r)\<rparr>"

definition provider_generate :: "provider_port \<Rightarrow> ProviderRequest \<Rightarrow> ProviderResponse provider_method" where
  "provider_generate generate q sent =
     (case generate sent q of Inl e \<Rightarrow> Inl (ProviderFailed e) | Inr resp \<Rightarrow> Inr resp, sent @ [q])"

definition execute_selected ::
  "schema_lib \<Rightarrow> pdp \<Rightarrow> provider_port \<Rightarrow> GatewayRequest \<Rightarrow> EffectivePolicyContext \<Rightarrow> ModelRegistry \<Rightarrow>
   string \<Rightarrow> int \<Rightarrow> int \<Rightarrow> PolicyProjectionDefaults \<Rightarrow> pyfloat \<Rightarrow>
   ForwardableGovernanceAuthorization option \<Rightarrow> PolicyEnforcedExecution provider_method" where
  "execute_selected lib authorize generate r ctx registry selected_id context_tokens max_output
     defaults timeout ra =
     seq (lift_result (authorize_candidates authorize r ctx registry context_tokens max_output defaults ra)) (\<lambda>ac.
     seq (lift_result (case by_id registry selected_id of Inl _ \<Rightarrow> Inl BoundaryViolation | Inr d \<Rightarrow> Inr d)) (\<lambda>d.
     seq (lift_result (boundary (enforce_selected_group (md_model_group d) (ad_authorization (ac_policy ac))))) (\<lambda>_.
     seq (require (d \<in> set (ac_candidates ac)) BoundaryViolation) (\<lambda>_.
     let q = mk_provider_request r d max_output timeout in
     seq (require (ProviderRequest_ok lib q) (PolicyValueError ''provider request'')) (\<lambda>_.
     seq (provider_generate generate q) (\<lambda>resp.
     ret \<lparr>pe_policy = ac_policy ac, pe_registry_digest = ac_registry_digest ac,
       pe_deployment = d, pe_response = resp\<rparr>))))))"

end
