(* ===== verification/Ranking.thy ===== *)
theory Ranking
  imports Ranking_Policy Policy Health
begin

text \<open>
  Operational ranking (\<open>application/ranking.py\<close>): eligibility, scoring, selection and the
  reconstruction evidence of one routing decision.
\<close>

subsection \<open>Values\<close>

datatype ranking_failure = RankingInvariantViolation string | RankingConfigError config_error

definition of_config :: "'a parsed \<Rightarrow> ranking_failure + 'a" where
  "of_config r = (case r of Inl e \<Rightarrow> Inl (RankingConfigError e) | Inr x \<Rightarrow> Inr x)"

record ScoreBreakdown =
  sb_quality :: rat
  sb_reliability :: rat
  sb_latency :: rat
  sb_cost :: rat
  sb_availability :: rat
  sb_total :: rat

record RankedCandidate =
  rc_deployment :: ModelDeployment
  rc_score :: ScoreBreakdown
  rc_estimated_cost_usd :: rat

record RankingDecision =
  rd_routing :: RoutingProvenance
  rd_ranking_policy_digest :: string
  rd_score_snapshot_id :: string
  rd_selected :: "RankedCandidate option"
  rd_alternatives :: "RankedCandidate list"
  rd_rejected_candidates :: "CandidateRejection list"

fun classification_order :: "DataClassification \<Rightarrow> int" where
  "classification_order PUBLIC = 0"
| "classification_order INTERNAL = 1"
| "classification_order CONFIDENTIAL = 2"
| "classification_order RESTRICTED = 3"

subsection \<open>Eligibility\<close>

type_synonym health_view = "(string \<rightharpoonup> DeploymentHealthSnapshot) option"

definition reject :: "ModelDeployment \<Rightarrow> RejectionReason \<Rightarrow> string option \<Rightarrow> CandidateRejection" where
  "reject d reason detail =
     \<lparr>cr_deployment = md_deployment_id d, cr_reason = reason, cr_detail = detail\<rparr>"

definition runtime_health_rejection ::
  "ModelDeployment \<Rightarrow> health_view \<Rightarrow> ranking_failure + CandidateRejection option" where
  "runtime_health_rejection d runtime_health = (case runtime_health of
      None \<Rightarrow> Inr None
    | Some view \<Rightarrow> (case view (md_deployment_id d) of
        None \<Rightarrow> Inr (Some (reject d DEPLOYMENT_UNHEALTHY (Some ''runtime_health_unavailable'')))
      | Some h \<Rightarrow>
          if hs_deployment_id h \<noteq> md_deployment_id d
          then Inl (RankingInvariantViolation ''runtime health snapshot deployment identity mismatch'')
          else if hs_circuit_state h = OPEN then Inr (Some (reject d CIRCUIT_BREAKER_OPEN None))
          else if hs_status h = UNHEALTHY then Inr (Some (reject d DEPLOYMENT_UNHEALTHY None))
          else Inr None))"

definition required_by :: "WorkloadRequirements \<Rightarrow> Capability list" where
  "required_by q = [TEXT] @ (if rq_vision q then [VISION] else []) @
     (if rq_tool_calling q then [TOOL_CALLING] else []) @
     (if rq_structured_output q then [STRUCTURED_OUTPUT] else []) @
     (if rq_streaming q then [STREAMING] else []) @
     (if rq_audio q then [AUDIO] else []) @ (if rq_document q then [DOCUMENT] else []) @
     (if rq_parallel_tool_calling q then [PARALLEL_TOOL_CALLING] else [])"

definition missing_capabilities :: "GatewayRequest \<Rightarrow> ModelDeployment \<Rightarrow> Capability list" where
  "missing_capabilities r d = filter (\<lambda>c. c \<notin> md_capabilities d) (required_by (gr_requirements r))"

definition required_context :: "GatewayRequest \<Rightarrow> PolicyRequestMetadata \<Rightarrow> int" where
  "required_context r pm = max (rq_min_context_tokens (gr_requirements r))
     (pm_context_tokens_estimated pm + pm_max_output_tokens_estimated pm)"

definition cost_detail :: "rat \<Rightarrow> rat \<Rightarrow> string parsed" where
  "cost_detail estimated limit =
     ebind (of_overflow (canonical_decimal estimated)) (\<lambda>e.
     ebind (of_overflow (canonical_decimal limit)) (\<lambda>l.
     Inr (''estimated='' @ e @ '';limit='' @ l)))"

text \<open>The tail of \<open>_eligibility_rejection\<close>: static score, cost and latency ceilings.\<close>

definition limits_rejection ::
  "PolicyRequestMetadata \<Rightarrow> ModelDeployment \<Rightarrow> StaticDeploymentScore option \<Rightarrow>
   ranking_failure + CandidateRejection option" where
  "limits_rejection pm d static_score = (case static_score of
      None \<Rightarrow> Inr (Some (reject d RANKING_SCORE_UNAVAILABLE None))
    | Some s \<Rightarrow>
        ebind (of_config (estimated_cost_usd (md_pricing d) (pm_context_tokens_estimated pm)
                 (pm_max_output_tokens_estimated pm))) (\<lambda>cost.
        case cost of
          None \<Rightarrow> Inr (Some (reject d PRICING_UNAVAILABLE None))
        | Some c \<Rightarrow>
            if pm_max_cost_usd pm < c then
              ebind (of_config (cost_detail c (pm_max_cost_usd pm))) (\<lambda>detail.
              Inr (Some (reject d COST_LIMIT_EXCEEDED (Some detail))))
            else if pm_max_latency_ms pm < sd_expected_latency_ms s then
              Inr (Some (reject d LATENCY_LIMIT_EXCEEDED (Some (''expected_ms='' @
                int_str (sd_expected_latency_ms s) @ '';limit_ms='' @ int_str (pm_max_latency_ms pm)))))
            else Inr None))"

definition eligibility_rejection ::
  "GatewayRequest \<Rightarrow> EffectivePolicyContext \<Rightarrow> PolicyRequestMetadata \<Rightarrow> ModelDeployment \<Rightarrow>
   StaticDeploymentScore option \<Rightarrow> health_view \<Rightarrow> ranking_failure + CandidateRejection option" where
  "eligibility_rejection r ctx pm d static_score runtime_health =
     (if \<not> md_enabled d then Inr (Some (reject d DEPLOYMENT_DISABLED None))
      else ebind (runtime_health_rejection d runtime_health) (\<lambda>health_rejection.
      if health_rejection \<noteq> None then Inr health_rejection
      else if ec_environment ctx \<notin> md_allowed_environments d then
        Inr (Some (reject d PROVIDER_NOT_AUTHORIZED (Some ''environment_not_allowed'')))
      else if classification_order (md_max_data_classification d)
              < classification_order (ec_data_classification ctx) then
        Inr (Some (reject d PROVIDER_NOT_AUTHORIZED (Some ''data_classification_exceeds_deployment_max'')))
      else if missing_capabilities r d \<noteq> [] then
        Inr (Some (reject d MISSING_CAPABILITY
          (Some (py_join '','' (map capability_value (missing_capabilities r d))))))
      else if md_context_tokens d < required_context r pm then
        Inr (Some (reject d CONTEXT_TOO_SMALL (Some (''required='' @ int_str (required_context r pm) @
          '';available='' @ int_str (md_context_tokens d)))))
      else limits_rejection pm d static_score))"

subsection \<open>Scoring\<close>

definition weighted :: "rat \<Rightarrow> rat \<Rightarrow> rat parsed" where
  "weighted w s = of_overflow (d_mul w s)"

definition score :: "RankingWeights \<Rightarrow> StaticDeploymentScore \<Rightarrow> ScoreBreakdown parsed" where
  "score w s =
     ebind (weighted (rw_quality w) (sd_quality s)) (\<lambda>q.
     ebind (weighted (rw_reliability w) (sd_reliability s)) (\<lambda>r.
     ebind (weighted (rw_latency w) (sd_latency s)) (\<lambda>l.
     ebind (weighted (rw_cost w) (sd_cost s)) (\<lambda>c.
     ebind (weighted (rw_availability w) (sd_availability s)) (\<lambda>a.
     ebind (d_sum q [r, l, c, a]) (\<lambda>total.
     Inr \<lparr>sb_quality = q, sb_reliability = r, sb_latency = l, sb_cost = c, sb_availability = a,
       sb_total = total\<rparr>))))))"

subsection \<open>The ranking service\<close>

definition validate_boundary ::
  "GatewayRequest \<Rightarrow> EffectivePolicyContext \<Rightarrow> ModelRegistry \<Rightarrow> AuthorizedCandidateSet \<Rightarrow>
   PolicyRequestMetadata \<Rightarrow> ranking_failure + unit" where
  "validate_boundary r ctx registry authorized pm =
     ebind (of_config (registry_digest registry)) (\<lambda>digest.
     if digest \<noteq> ac_registry_digest authorized then Inl (RankingInvariantViolation ''registry changed'')
     else if gr_workload r \<noteq> ec_workload ctx then Inl (RankingInvariantViolation ''request workload'')
     else if pm_workload pm \<noteq> ec_workload ctx then Inl (RankingInvariantViolation ''policy workload'')
     else if pm_environment pm \<noteq> ec_environment ctx then Inl (RankingInvariantViolation ''policy environment'')
     else if ad_environment (ac_policy authorized) \<noteq> ec_environment ctx
       then Inl (RankingInvariantViolation ''decision environment'')
     else if card (pa_authorized_model_groups (ad_authorization (ac_policy authorized))) \<noteq> 1
       then Inl (RankingInvariantViolation ''one model group'')
     else Inr ())"

text \<open>The body of the loop: a rejection, or a ranked candidate.\<close>

definition evaluate ::
  "GatewayRequest \<Rightarrow> EffectivePolicyContext \<Rightarrow> PolicyRequestMetadata \<Rightarrow> WorkloadRankingPolicy \<Rightarrow>
   string set \<Rightarrow> health_view \<Rightarrow> ModelDeployment \<Rightarrow> ranking_failure + (CandidateRejection + RankedCandidate)" where
  "evaluate r ctx pm wp groups runtime_health d =
     (if md_model_group d \<notin> groups then Inl (RankingInvariantViolation ''outside PDP authorization'')
      else
        (let static_score = score_for wp (md_deployment_id d) in
         ebind (eligibility_rejection r ctx pm d static_score runtime_health) (\<lambda>rejection.
         case rejection of
           Some x \<Rightarrow> Inr (Inl x)
         | None \<Rightarrow> (case static_score of
             None \<Rightarrow> Inl (RankingInvariantViolation ''no static ranking inputs'')
           | Some s \<Rightarrow>
               ebind (of_config (estimated_cost_usd (md_pricing d) (pm_context_tokens_estimated pm)
                        (pm_max_output_tokens_estimated pm))) (\<lambda>cost.
               case cost of
                 None \<Rightarrow> Inl (RankingInvariantViolation ''no pricing metadata'')
               | Some c \<Rightarrow>
                   ebind (of_config (score (wp_weights wp) s)) (\<lambda>sb.
                   Inr (Inr \<lparr>rc_deployment = d, rc_score = sb, rc_estimated_cost_usd = c\<rparr>)))))))"

definition lefts :: "('a + 'b) list \<Rightarrow> 'a list" where
  "lefts xs = concat (map (\<lambda>x. case x of Inl a \<Rightarrow> [a] | Inr _ \<Rightarrow> []) xs)"

definition rights :: "('a + 'b) list \<Rightarrow> 'b list" where
  "rights xs = concat (map (\<lambda>x. case x of Inl _ \<Rightarrow> [] | Inr b \<Rightarrow> [b]) xs)"

definition rank_key :: "RankedCandidate \<Rightarrow> rat \<times> string" where
  "rank_key c = (- sb_total (rc_score c), md_deployment_id (rc_deployment c))"

definition rank_order :: "RankedCandidate list \<Rightarrow> RankedCandidate list" where
  "rank_order cs = sort_key rank_key cs"

definition jopt :: "string option \<Rightarrow> json" where
  "jopt x = (case x of None \<Rightarrow> JNull | Some s \<Rightarrow> JStr s)"

definition ranked_json :: "RankedCandidate \<Rightarrow> json parsed" where
  "ranked_json c =
     ebind (registry_decimal (sb_total (rc_score c))) (\<lambda>s.
     ebind (registry_decimal (rc_estimated_cost_usd c)) (\<lambda>e.
     Inr (JObj [(''deployment'', JStr (md_deployment_id (rc_deployment c))), (''score'', s),
       (''estimated_cost_usd'', e)])))"

definition rejected_json :: "CandidateRejection \<Rightarrow> json" where
  "rejected_json x = JObj [(''deployment'', JStr (cr_deployment x)),
     (''reason'', JStr (rejection_value (cr_reason x))), (''detail'', jopt (cr_detail x))]"

definition decision_id ::
  "GatewayRequest \<Rightarrow> AuthorizedCandidateSet \<Rightarrow> PolicyRequestMetadata \<Rightarrow> RankingPolicy \<Rightarrow>
   RankedCandidate list \<Rightarrow> CandidateRejection list \<Rightarrow> string parsed" where
  "decision_id r authorized pm rp ranked rejected =
     ebind (ranking_digest rp) (\<lambda>digest.
     ebind (registry_decimal (pm_max_cost_usd pm)) (\<lambda>cost.
     ebind (emap ranked_json ranked) (\<lambda>rs.
     Inr (''sha256:'' @ json_digest (JObj [
       (''request_id'', JStr (uuid_str (gr_request_id r))),
       (''policy_decision_id'', JStr (pp_decision_id (ad_provenance (ac_policy authorized)))),
       (''policy_digest'', JStr (pp_policy_digest (ad_provenance (ac_policy authorized)))),
       (''authorized_model_groups'', JList (map JStr (sorted_list_of_set
          (pa_authorized_model_groups (ad_authorization (ac_policy authorized)))))),
       (''registry_digest'', JStr (ac_registry_digest authorized)),
       (''ranking_policy_version'', JStr (rk_policy_version rp)),
       (''ranking_policy_digest'', JStr digest),
       (''score_snapshot_id'', JStr (rk_score_snapshot_id rp)),
       (''benchmark_snapshot_id'', jopt (benchmark_snapshot_id rp)),
       (''score_provenance_mode'', jopt (score_provenance_mode rp)),
       (''manual_override_id'', jopt (manual_override_id rp)),
       (''max_latency_ms'', JInt (pm_max_latency_ms pm)),
       (''max_cost_usd'', cost),
       (''context_tokens_estimated'', JInt (pm_context_tokens_estimated pm)),
       (''max_output_tokens_estimated'', JInt (pm_max_output_tokens_estimated pm)),
       (''ranked'', JList rs), (''rejected'', JList (map rejected_json rejected))])))))"

definition mk_decision ::
  "AuthorizedCandidateSet \<Rightarrow> RankingPolicy \<Rightarrow> string \<Rightarrow> string \<Rightarrow> RankedCandidate list \<Rightarrow>
   CandidateRejection list \<Rightarrow> RankingDecision" where
  "mk_decision authorized rp decision digest ranked rejections =
     (let selected = (case ranked of [] \<Rightarrow> None | c # _ \<Rightarrow> Some c);
          dep = map_option rc_deployment selected;
          groups = pa_authorized_model_groups (ad_authorization (ac_policy authorized))
      in \<lparr>rd_routing = \<lparr>rp_routing_decision_id = decision,
            rp_policy = ad_provenance (ac_policy authorized),
            rp_authorized_model_group = hd (sorted_list_of_set groups),
            rp_model_registry_digest = ac_registry_digest authorized,
            rp_ranking_policy_version = rk_policy_version rp,
            rp_ranking_policy_digest = Some digest,
            rp_score_snapshot_id = Some (rk_score_snapshot_id rp),
            rp_benchmark_snapshot_id = benchmark_snapshot_id rp,
            rp_score_provenance_mode = score_provenance_mode rp,
            rp_manual_override_id = manual_override_id rp,
            rp_provider = map_option md_provider dep, rp_model = map_option md_model_id dep,
            rp_deployment = map_option md_deployment_id dep,
            rp_rejected_candidates = rejections, rp_fallback_sequence = []\<rparr>,
          rd_ranking_policy_digest = digest, rd_score_snapshot_id = rk_score_snapshot_id rp,
          rd_selected = selected, rd_alternatives = drop 1 ranked,
          rd_rejected_candidates = rejections\<rparr>)"

definition rank ::
  "GatewayRequest \<Rightarrow> EffectivePolicyContext \<Rightarrow> ModelRegistry \<Rightarrow> AuthorizedCandidateSet \<Rightarrow>
   PolicyRequestMetadata \<Rightarrow> RankingPolicy \<Rightarrow> health_view \<Rightarrow> ranking_failure + RankingDecision" where
  "rank r ctx registry authorized pm rp runtime_health =
     ebind (validate_boundary r ctx registry authorized pm) (\<lambda>_.
     ebind (of_config (for_workload rp (gr_workload r))) (\<lambda>wp.
     ebind (emap (evaluate r ctx pm wp (pa_authorized_model_groups (ad_authorization (ac_policy authorized)))
              runtime_health) (sort_key md_deployment_id (ac_candidates authorized))) (\<lambda>outcomes.
     let ranked = rank_order (rights outcomes);
         rejections = sort_key cr_deployment (lefts outcomes)
     in ebind (of_config (decision_id r authorized pm rp ranked rejections)) (\<lambda>decision.
        ebind (of_config (ranking_digest rp)) (\<lambda>digest.
        Inr (mk_decision authorized rp decision digest ranked rejections))))))"

text \<open>\<open>RouteExplainService.explain\<close>: authorize, then rank; no provider is called.\<close>

datatype explain_failure = ExplainPolicy policy_failure | ExplainRanking ranking_failure

definition lift_policy :: "policy_failure + 'a \<Rightarrow> explain_failure + 'a" where
  "lift_policy x = (case x of Inl e \<Rightarrow> Inl (ExplainPolicy e) | Inr y \<Rightarrow> Inr y)"

definition lift_ranking :: "ranking_failure + 'a \<Rightarrow> explain_failure + 'a" where
  "lift_ranking x = (case x of Inl e \<Rightarrow> Inl (ExplainRanking e) | Inr y \<Rightarrow> Inr y)"

definition explain ::
  "pdp \<Rightarrow> GatewayRequest \<Rightarrow> EffectivePolicyContext \<Rightarrow> ModelRegistry \<Rightarrow> RankingPolicy \<Rightarrow> int \<Rightarrow> int \<Rightarrow>
   PolicyProjectionDefaults \<Rightarrow> health_view \<Rightarrow> ForwardableGovernanceAuthorization option \<Rightarrow>
   explain_failure + RankingDecision" where
  "explain authorize r ctx registry rp context_tokens max_output defaults runtime_health ra =
     ebind (lift_policy (project_policy_request r ctx context_tokens max_output defaults ra)) (\<lambda>pm.
     ebind (lift_policy (authorize_candidates authorize r ctx registry context_tokens max_output defaults ra))
       (\<lambda>authorized.
     lift_ranking (rank r ctx registry authorized pm rp runtime_health)))"

text \<open>The selected candidate followed by the alternatives.\<close>

definition ranked_candidates :: "RankingDecision \<Rightarrow> RankedCandidate list" where
  "ranked_candidates d = (case rd_selected d of None \<Rightarrow> [] | Some c \<Rightarrow> c # rd_alternatives d)"

end
