(* ===== verification/Ranking_Laws.thy ===== *)
theory Ranking_Laws imports Ranking begin
text \<open>
  Laws of operational ranking: what a decision contains, in terms of a declarative notion of
  eligibility; its order and its independence of the order of its input; the bounds of a score and its distance from the exact weighted mean.
\<close>

subsection \<open>Eligibility\<close>

definition health_admits :: "ModelDeployment \<Rightarrow> health_view \<Rightarrow> bool" where
  "health_admits d hv \<longleftrightarrow> (case hv of None \<Rightarrow> True
     | Some view \<Rightarrow> (case view (md_deployment_id d) of None \<Rightarrow> False
         | Some h \<Rightarrow> hs_circuit_state h \<noteq> OPEN \<and> hs_status h \<noteq> UNHEALTHY))"

definition within_limits :: "PolicyRequestMetadata \<Rightarrow> WorkloadRankingPolicy \<Rightarrow> ModelDeployment \<Rightarrow> bool" where
  "within_limits pm wp d \<longleftrightarrow> (\<exists>s c. score_for wp (md_deployment_id d) = Some s \<and>
     estimated_cost_usd (md_pricing d) (pm_context_tokens_estimated pm) (pm_max_output_tokens_estimated pm) = Inr (Some c) \<and>
     c \<le> pm_max_cost_usd pm \<and> sd_expected_latency_ms s \<le> pm_max_latency_ms pm)"

definition eligible ::
  "GatewayRequest \<Rightarrow> EffectivePolicyContext \<Rightarrow> PolicyRequestMetadata \<Rightarrow> WorkloadRankingPolicy \<Rightarrow>
   health_view \<Rightarrow> ModelDeployment \<Rightarrow> bool" where
  "eligible r ctx pm wp hv d \<longleftrightarrow> md_enabled d \<and> health_admits d hv \<and>
     ec_environment ctx \<in> md_allowed_environments d \<and>
     classification_order (ec_data_classification ctx) \<le> classification_order (md_max_data_classification d) \<and>
     set (required_by (gr_requirements r)) \<subseteq> md_capabilities d \<and>
     required_context r pm \<le> md_context_tokens d \<and> within_limits pm wp d"

lemma of_config_Inr [simp]: "of_config x = Inr y \<longleftrightarrow> x = Inr y"
  by (cases x) (simp_all add: of_config_def)

lemma runtime_health_rejection_None:
  "runtime_health_rejection d hv = Inr None \<Longrightarrow> health_admits d hv"
  by (auto simp: runtime_health_rejection_def health_admits_def split: option.splits if_splits)

lemma runtime_health_rejection_Some:
  "runtime_health_rejection d hv = Inr (Some x) \<Longrightarrow> \<not> health_admits d hv \<and> cr_deployment x = md_deployment_id d"
  by (auto simp: runtime_health_rejection_def health_admits_def reject_def split: option.splits if_splits)

lemma limits_rejection_None:
  "limits_rejection pm d (score_for wp (md_deployment_id d)) = Inr None \<Longrightarrow> within_limits pm wp d"
  by (auto simp: limits_rejection_def within_limits_def not_less split: option.splits if_splits)

lemma limits_rejection_Some:
  "limits_rejection pm d (score_for wp (md_deployment_id d)) = Inr (Some x) \<Longrightarrow>
   \<not> within_limits pm wp d \<and> cr_deployment x = md_deployment_id d"
  by (auto simp: limits_rejection_def within_limits_def reject_def split: option.splits if_splits)

lemma missing_capabilities_Nil:
  "missing_capabilities r d = [] \<longleftrightarrow> set (required_by (gr_requirements r)) \<subseteq> md_capabilities d"
  by (auto simp: missing_capabilities_def filter_empty_conv)

lemma eligibility_rejection_None:
  "eligibility_rejection r ctx pm d (score_for wp (md_deployment_id d)) hv = Inr None \<Longrightarrow> eligible r ctx pm wp hv d"
  by (auto simp: eligibility_rejection_def eligible_def missing_capabilities_Nil not_less
      dest: runtime_health_rejection_None limits_rejection_None split: if_splits)

lemma eligibility_rejection_Some:
  "eligibility_rejection r ctx pm d (score_for wp (md_deployment_id d)) hv = Inr (Some x) \<Longrightarrow>
   \<not> eligible r ctx pm wp hv d \<and> cr_deployment x = md_deployment_id d"
  by (auto simp: eligibility_rejection_def eligible_def missing_capabilities_Nil reject_def
      dest: runtime_health_rejection_Some limits_rejection_Some split: if_splits)

lemma evaluateE:
  assumes "evaluate r ctx pm wp groups hv d = Inr out"
  obtains (rejected) x where "out = Inl x" "md_model_group d \<in> groups"
      "eligibility_rejection r ctx pm d (score_for wp (md_deployment_id d)) hv = Inr (Some x)"
  | (ranked) s c sb where "out = Inr \<lparr>rc_deployment = d, rc_score = sb, rc_estimated_cost_usd = c\<rparr>"
      "md_model_group d \<in> groups"
      "eligibility_rejection r ctx pm d (score_for wp (md_deployment_id d)) hv = Inr None"
      "score_for wp (md_deployment_id d) = Some s" "score (wp_weights wp) s = Inr sb"
      "estimated_cost_usd (md_pricing d) (pm_context_tokens_estimated pm) (pm_max_output_tokens_estimated pm) = Inr (Some c)"
proof -
  from assms obtain rej where g: "md_model_group d \<in> groups"
    and rej: "eligibility_rejection r ctx pm d (score_for wp (md_deployment_id d)) hv = Inr rej"
    by (auto simp only: evaluate_def Let_def if_raise_Inr ebind_Inr_iff not_not)
  show thesis
  proof (cases rej)
    case (Some x)
    with assms g rej have "out = Inl x" by (simp only: evaluate_def Let_def ebind_simps not_not simp_thms if_False option.case sum.inject)
    with g rej Some show thesis by (intro rejected) simp_all
  next
    case None
    have ev: "evaluate r ctx pm wp groups hv d = (case score_for wp (md_deployment_id d) of
        None \<Rightarrow> Inl (RankingInvariantViolation ''no static ranking inputs'')
      | Some s \<Rightarrow> ebind (of_config (estimated_cost_usd (md_pricing d) (pm_context_tokens_estimated pm)
          (pm_max_output_tokens_estimated pm))) (\<lambda>cost. case cost of
            None \<Rightarrow> Inl (RankingInvariantViolation ''no pricing metadata'')
          | Some c \<Rightarrow> ebind (of_config (score (wp_weights wp) s)) (\<lambda>sb.
              Inr (Inr \<lparr>rc_deployment = d, rc_score = sb, rc_estimated_cost_usd = c\<rparr>))))"
      using g rej None by (simp only: evaluate_def Let_def ebind_simps not_not simp_thms if_False option.case)
    obtain s where s: "score_for wp (md_deployment_id d) = Some s"
      using assms unfolding ev by (cases "score_for wp (md_deployment_id d)") simp_all
    obtain cost where cost: "estimated_cost_usd (md_pricing d) (pm_context_tokens_estimated pm)
        (pm_max_output_tokens_estimated pm) = Inr cost"
      using assms unfolding ev s by auto
    obtain c where c: "cost = Some c"
      using assms unfolding ev s cost by (cases cost) (simp_all add: of_config_def)
    from assms obtain sb where "score (wp_weights wp) s = Inr sb"
      "out = Inr \<lparr>rc_deployment = d, rc_score = sb, rc_estimated_cost_usd = c\<rparr>"
      unfolding ev s cost c by (auto simp: of_config_def split: sum.splits)
    with g rej None s cost c show thesis by (intro ranked) simp_all
  qed
qed

lemma evaluate_ranked:
  assumes "evaluate r ctx pm wp groups hv d = Inr (Inr c)"
  shows "rc_deployment c = d" "md_model_group d \<in> groups" "eligible r ctx pm wp hv d"
    "\<exists>s. score_for wp (md_deployment_id d) = Some s \<and> score (wp_weights wp) s = Inr (rc_score c)"
    "rc_estimated_cost_usd c \<le> pm_max_cost_usd pm"
  using assms by (auto elim!: evaluateE dest!: eligibility_rejection_None simp: eligible_def within_limits_def)

lemma evaluate_rejected:
  assumes "evaluate r ctx pm wp groups hv d = Inr (Inl x)"
  shows "cr_deployment x = md_deployment_id d" "\<not> eligible r ctx pm wp hv d"
  using assms by (auto elim!: evaluateE dest!: eligibility_rejection_Some)

subsection \<open>Shape of a decision\<close>

lemma rankE:
  assumes "rank r ctx registry authorized pm rp hv = Inr dec"
  obtains wp outcomes decision digest where
    "validate_boundary r ctx registry authorized pm = Inr ()"
    "for_workload rp (gr_workload r) = Inr wp"
    "emap (evaluate r ctx pm wp (pa_authorized_model_groups (ad_authorization (ac_policy authorized))) hv)
       (sort_key md_deployment_id (ac_candidates authorized)) = Inr outcomes"
    "dec = mk_decision authorized rp decision digest (rank_order (rights outcomes))
       (sort_key cr_deployment (lefts outcomes))"
  using assms by (auto simp: rank_def Let_def)

lemma ranked_mk_decision [simp]: "ranked_candidates (mk_decision a rp i dg ranked rej) = ranked"
  by (cases ranked) (simp_all add: ranked_candidates_def mk_decision_def Let_def)

lemma rejected_mk_decision [simp]: "rd_rejected_candidates (mk_decision a rp i dg ranked rej) = rej"
  by (simp add: mk_decision_def Let_def)

lemma set_rights: "c \<in> set (rights xs) \<longleftrightarrow> Inr c \<in> set xs"
  by (force simp: rights_def split: sum.splits)

lemma set_lefts: "c \<in> set (lefts xs) \<longleftrightarrow> Inl c \<in> set xs"
  by (force simp: lefts_def split: sum.splits)

lemma length_lefts_rights: "length (lefts xs) + length (rights xs) = length xs"
  by (induction xs) (auto simp: lefts_def rights_def split: sum.splits)

definition outcome_id :: "CandidateRejection + RankedCandidate \<Rightarrow> string" where
  "outcome_id x = (case x of Inl j \<Rightarrow> cr_deployment j | Inr c \<Rightarrow> md_deployment_id (rc_deployment c))"

lemma emap_evaluate_ids:
  "emap (evaluate r ctx pm wp groups hv) ds = Inr outs \<Longrightarrow> map outcome_id outs = map md_deployment_id ds"
proof (induction ds arbitrary: outs)
  case (Cons d ds)
  then obtain x xs where x: "evaluate r ctx pm wp groups hv d = Inr x"
    "emap (evaluate r ctx pm wp groups hv) ds = Inr xs" "outs = x # xs" by auto
  then have "outcome_id x = md_deployment_id d"
    by (cases x) (auto simp: outcome_id_def dest: evaluate_ranked(1) evaluate_rejected(1))
  with Cons.IH x show ?case by simp
qed simp

lemma mset_outcome_ids:
  "mset (map outcome_id outs) =
   mset (map (\<lambda>c. md_deployment_id (rc_deployment c)) (rights outs)) + mset (map cr_deployment (lefts outs))"
  by (induction outs) (auto simp: outcome_id_def lefts_def rights_def split: sum.splits)

lemma emap_evaluate_mem:
  assumes "emap (evaluate r ctx pm wp groups hv) ds = Inr outs"
  shows "c \<in> set (rights outs) \<Longrightarrow> rc_deployment c \<in> set ds \<and> evaluate r ctx pm wp groups hv (rc_deployment c) = Inr (Inr c)"
    and "d \<in> set ds \<Longrightarrow> \<exists>x\<in>set outs. evaluate r ctx pm wp groups hv d = Inr x"
proof -
  show "rc_deployment c \<in> set ds \<and> evaluate r ctx pm wp groups hv (rc_deployment c) = Inr (Inr c)"
    if "c \<in> set (rights outs)"
  proof -
    from that have "Inr c \<in> set outs" by (simp add: set_rights)
    then obtain d where "d \<in> set ds" "evaluate r ctx pm wp groups hv d = Inr (Inr c)"
      using emap_Inr_set[OF assms] by blast
    then show ?thesis using evaluate_ranked(1) by blast
  qed
  show "\<exists>x\<in>set outs. evaluate r ctx pm wp groups hv d = Inr x" if "d \<in> set ds"
    using assms that by (auto simp: emap_Inr_all2 list_all2_conv_all_nth in_set_conv_nth)
qed

text \<open>A sort on distinct keys does not depend on the order of its input.\<close>

lemma sort_key_perm:
  assumes "mset xs = mset ys" "distinct (map f xs)"
  shows "sort_key f xs = sort_key f ys"
proof (rule properties_for_sort_key)
  show "mset (sort_key f ys) = mset xs" using assms(1) by simp
  show "sorted (map f (sort_key f ys))" by simp
  have d: "distinct (map f ys)" using assms
    by (metis distinct_map mset_eq_setD mset_eq_imp_distinct_iff)
  have single: "distinct (map f zs) \<Longrightarrow> k \<in> set zs \<Longrightarrow> filter (\<lambda>x. f k = f x) zs = [k]" for zs k
  proof (induction zs)
    case (Cons z zs)
    show ?case
    proof (cases "k = z")
      case True
      with Cons.prems have "filter (\<lambda>x. f k = f x) zs = []" by (auto simp: filter_empty_conv)
      with True show ?thesis by simp
    next
      case False
      with Cons.prems have "k \<in> set zs" "f z \<notin> f ` set zs" by auto
      then have "f k \<noteq> f z" by (metis image_eqI)
      with Cons \<open>k \<in> set zs\<close> show ?thesis by simp
    qed
  qed simp
  fix k assume "k \<in> set (sort_key f ys)"
  moreover have "distinct (map f (sort_key f ys))" using d by (simp add: distinct_map)
  moreover have "k \<in> set xs" using calculation(1) assms(1) by (metis set_sort mset_eq_setD)
  ultimately show "filter (\<lambda>x. f k = f x) (sort_key f ys) = filter (\<lambda>x. f k = f x) xs"
    using single assms(2) by metis
qed

lemma rank_order_independent_lemma:
  assumes "mset cs = mset (ac_candidates a)" "distinct (map md_deployment_id cs)"
  shows "rank r ctx registry (a\<lparr>ac_candidates := cs\<rparr>) pm rp hv = rank r ctx registry a pm rp hv"
proof -
  have "sort_key md_deployment_id cs = sort_key md_deployment_id (ac_candidates a)"
    using assms by (rule sort_key_perm)
  then show ?thesis
    by (simp add: rank_def validate_boundary_def decision_id_def mk_decision_def)
qed

subsection \<open>Bounds of a score\<close>

lemma d_fix_below:
  assumes "d_fix y = Some y'" "0 \<le> x" "x \<le> y"
  obtains x' where "d_fix x = Some x'" "0 \<le> x'" "x' \<le> y'"
proof -
  have le: "d_round x \<le> y'" "0 \<le> d_round x"
    using d_round_mono[OF assms(2,3)] d_fix_SomeD[OF assms(1)] d_round_mono[of 0 x] assms(2)
    by (simp_all add: d_round_def)
  have "d_fix x = Some (d_round x)"
  proof (cases "d_round x = 0 \<or> x = 0")
    case False
    then have pos: "0 < d_round x" "0 < y'" using le by auto
    have "adjusted y' \<le> d_emax"
      using assms(1) pos(2) by (auto simp: d_fix_def Let_def split: if_splits)
    then have "adjusted (d_round x) \<le> d_emax" using adjusted_mono[OF pos(1) le(1)] by linarith
    with False show ?thesis by (simp add: d_fix_def d_round_def Let_def)
  next
    case True
    then show ?thesis by (cases "x = 0") (simp_all add: d_fix_def d_round_def)
  qed
  with le show thesis by (intro that) auto
qed

lemma d_sum_below:
  assumes "d_sum acc' ys = Inr t'" "0 \<le> acc" "acc \<le> acc'" "list_all2 (\<lambda>x y. 0 \<le> x \<and> x \<le> y) xs ys"
  shows "\<exists>t. d_sum acc xs = Inr t \<and> 0 \<le> t \<and> t \<le> t'"
  using assms
proof (induction xs arbitrary: ys acc acc')
  case (Cons x xs)
  then obtain y zs where ys: "ys = y # zs" "0 \<le> x" "x \<le> y" "list_all2 (\<lambda>x y. 0 \<le> x \<and> x \<le> y) xs zs"
    by (auto simp: list_all2_Cons1)
  with Cons.prems(1) obtain s' where s': "d_fix (acc' + y) = Some s'" "d_sum s' zs = Inr t'"
    by (auto simp: d_add_def of_overflow_def split: option.splits)
  obtain s where s: "d_fix (acc + x) = Some s" "0 \<le> s" "s \<le> s'"
    using d_fix_below[OF s'(1)] ys Cons.prems(2,3) by (metis add_mono add_nonneg_nonneg)
  then show ?case using Cons.IH[OF s'(2) s(2,3) ys(4)] by (simp add: d_add_def of_overflow_def)
qed simp

definition exact_weights :: "RankingWeights \<Rightarrow> bool" where
  "exact_weights w \<longleftrightarrow> list_all (\<lambda>kv. d_fix (snd kv) = Some (snd kv)) (weights_mapping w)"

lemma unit_values_Inr: "unit_values loc kvs = Inr u \<longleftrightarrow> (\<forall>kv\<in>set kvs. 0 \<le> snd kv \<and> snd kv \<le> 1)"
proof (cases "find (\<lambda>kv. snd kv < 0 \<or> 1 < snd kv) kvs")
  case None
  moreover from None have "\<forall>kv\<in>set kvs. \<not> (snd kv < 0 \<or> 1 < snd kv)" by (auto dest: find_NoneD)
  ultimately show ?thesis by (simp add: unit_values_def not_less)
next
  case (Some kv)
  with find_SomeD[OF Some] show ?thesis by (auto simp: unit_values_def not_le intro!: bexI[of _ kv])
qed

lemma weighted_below:
  assumes "d_fix w = Some w" "0 \<le> w" "0 \<le> s" "s \<le> 1"
  obtains p where "weighted w s = Inr p" "0 \<le> p" "p \<le> w"
proof -
  have "0 \<le> w * s" "w * s \<le> w" using assms by (auto simp: mult_left_le)
  then obtain p where "d_fix (w * s) = Some p" "0 \<le> p" "p \<le> w" using d_fix_below[OF assms(1)] by blast
  then show thesis by (intro that) (simp_all add: weighted_def d_mul_def of_overflow_def)
qed

lemma score_bounds:
  assumes w: "RankingWeights_check w = Inr w'" "exact_weights w" and s: "StaticDeploymentScore_check s = Inr s'"
  shows "\<exists>sb. score w s = Inr sb \<and> 0 \<le> sb_total sb \<and> sb_total sb \<le> 1"
proof -
  have nn: "0 \<le> rw_quality w" "0 \<le> rw_reliability w" "0 \<le> rw_latency w" "0 \<le> rw_cost w" "0 \<le> rw_availability w"
    using w(1) by (auto simp: RankingWeights_check_def unit_values_Inr weights_mapping_def)
  have sum: "d_sum 0 [rw_quality w, rw_reliability w, rw_latency w, rw_cost w, rw_availability w] = Inr 1"
    using w(1) by (auto simp: RankingWeights_check_def weights_mapping_def)
  have ex: "d_fix (rw_quality w) = Some (rw_quality w)" "d_fix (rw_reliability w) = Some (rw_reliability w)"
    "d_fix (rw_latency w) = Some (rw_latency w)" "d_fix (rw_cost w) = Some (rw_cost w)"
    "d_fix (rw_availability w) = Some (rw_availability w)"
    using w(2) by (simp_all add: exact_weights_def weights_mapping_def)
  have u: "0 \<le> sd_quality s" "sd_quality s \<le> 1" "0 \<le> sd_reliability s" "sd_reliability s \<le> 1"
    "0 \<le> sd_latency s" "sd_latency s \<le> 1" "0 \<le> sd_cost s" "sd_cost s \<le> 1"
    "0 \<le> sd_availability s" "sd_availability s \<le> 1"
    using s by (auto simp: StaticDeploymentScore_check_def unit_values_Inr score_mapping_def)
  obtain q r l c a where p: "weighted (rw_quality w) (sd_quality s) = Inr q" "0 \<le> q" "q \<le> rw_quality w"
    "weighted (rw_reliability w) (sd_reliability s) = Inr r" "0 \<le> r" "r \<le> rw_reliability w"
    "weighted (rw_latency w) (sd_latency s) = Inr l" "0 \<le> l" "l \<le> rw_latency w"
    "weighted (rw_cost w) (sd_cost s) = Inr c" "0 \<le> c" "c \<le> rw_cost w"
    "weighted (rw_availability w) (sd_availability s) = Inr a" "0 \<le> a" "a \<le> rw_availability w"
    using weighted_below[OF ex(1) nn(1) u(1,2)] weighted_below[OF ex(2) nn(2) u(3,4)]
      weighted_below[OF ex(3) nn(3) u(5,6)] weighted_below[OF ex(4) nn(4) u(7,8)]
      weighted_below[OF ex(5) nn(5) u(9,10)] by metis
  have "d_sum (rw_quality w) [rw_reliability w, rw_latency w, rw_cost w, rw_availability w] = Inr 1"
    using sum ex(1) by (simp add: d_add_def of_overflow_def)
  moreover have "list_all2 (\<lambda>x y. 0 \<le> x \<and> x \<le> y) [r, l, c, a]
      [rw_reliability w, rw_latency w, rw_cost w, rw_availability w]" using p by simp
  ultimately obtain t where "d_sum q [r, l, c, a] = Inr t" "0 \<le> t" "t \<le> 1"
    using d_sum_below p(2,3) by blast
  then have "score w s = Inr \<lparr>sb_quality = q, sb_reliability = r, sb_latency = l, sb_cost = c,
      sb_availability = a, sb_total = t\<rparr>"
    unfolding score_def p(1,4,7,10,13) ebind_simps by (simp only: ebind_simps)
  with \<open>0 \<le> t\<close> \<open>t \<le> 1\<close> show ?thesis by simp
qed

subsection \<open>Rounding of scores\<close>

text \<open>The rounding error of one operation on values up to ten.\<close>

definition ulp :: rat where
  "ulp = 1 / (2 * 10 ^ 26)"

lemma ulp_bounds: "0 \<le> ulp" "ulp \<le> 1 / 100"
  by (simp_all add: ulp_def)

lemma d_fix_near:
  assumes "0 \<le> x" "x \<le> 10"
  obtains y where "d_fix x = Some y" "0 \<le> y" "\<bar>y - x\<bar> \<le> ulp"
proof -
  have "d_fix 10 = Some 10" by code_simp
  then obtain y where y: "d_fix x = Some y" "0 \<le> y" by (rule d_fix_below[OF _ assms])
  have "max 1 \<bar>x\<bar> / (2 * 10 ^ 27) \<le> 10 / (2 * 10 ^ 27)" using assms by (intro divide_right_mono) auto
  with d_round_error[of x] d_fix_SomeD[OF y(1)] have "\<bar>y - x\<bar> \<le> ulp" by (simp add: ulp_def)
  with y that show thesis by blast
qed

lemma d_sum_near:
  assumes "0 \<le> acc" "\<forall>x\<in>set xs. 0 \<le> x" "acc + sum_list xs + of_nat (length xs) * ulp \<le> 10"
  shows "\<exists>t. d_sum acc xs = Inr t \<and> 0 \<le> t \<and> \<bar>t - (acc + sum_list xs)\<bar> \<le> of_nat (length xs) * ulp"
  using assms
proof (induction xs arbitrary: acc)
  case (Cons x xs)
  have nn: "0 \<le> sum_list xs" using Cons.prems(2) by (intro sum_list_nonneg) auto
  have len: "of_nat (length (x # xs)) * ulp = ulp + of_nat (length xs) * ulp" "0 \<le> of_nat (length xs) * ulp"
    using ulp_bounds by (simp_all add: algebra_simps)
  with nn Cons.prems(3) ulp_bounds have "acc + x \<le> 10" unfolding sum_list.Cons by linarith
  with Cons.prems(1,2) have b: "0 \<le> acc + x" "acc + x \<le> 10" by simp_all
  then obtain s where s: "d_fix (acc + x) = Some s" "0 \<le> s" "\<bar>s - (acc + x)\<bar> \<le> ulp" by (rule d_fix_near)
  have "s + sum_list xs + of_nat (length xs) * ulp \<le> 10"
    using s(3) Cons.prems(3) len unfolding sum_list.Cons by linarith
  then obtain t where t: "d_sum s xs = Inr t" "0 \<le> t" "\<bar>t - (s + sum_list xs)\<bar> \<le> of_nat (length xs) * ulp"
    using Cons.IH[OF s(2)] Cons.prems(2) by auto
  have "\<bar>t - (acc + sum_list (x # xs))\<bar> \<le> of_nat (length (x # xs)) * ulp"
    using s(3) t(3) len unfolding sum_list.Cons by linarith
  with s t show ?case by (simp add: d_add_def of_overflow_def)
qed simp

lemma weighted_near:
  assumes "0 \<le> w" "w \<le> 1" "0 \<le> s" "s \<le> 1"
  obtains p where "weighted w s = Inr p" "0 \<le> p" "\<bar>p - w * s\<bar> \<le> ulp" "w * s \<le> w"
proof -
  have "0 \<le> w * s" "w * s \<le> w" using assms by (auto simp: mult_left_le)
  moreover from this assms have "w * s \<le> 10" by linarith
  ultimately obtain p where "d_fix (w * s) = Some p" "0 \<le> p" "\<bar>p - w * s\<bar> \<le> ulp" by (metis d_fix_near)
  with \<open>w * s \<le> w\<close> show thesis by (intro that) (simp_all add: weighted_def d_mul_def of_overflow_def)
qed

text \<open>The weighted mean the score stands for, computed exactly.\<close>

definition weighted_mean :: "RankingWeights \<Rightarrow> StaticDeploymentScore \<Rightarrow> rat" where
  "weighted_mean w s = rw_quality w * sd_quality s + rw_reliability w * sd_reliability s +
     rw_latency w * sd_latency s + rw_cost w * sd_cost s + rw_availability w * sd_availability s"

lemma score_near:
  assumes w: "RankingWeights_check w = Inr w'" and s: "StaticDeploymentScore_check s = Inr s'"
  shows "\<exists>sb. score w s = Inr sb \<and> 0 \<le> sb_total sb \<and> \<bar>sb_total sb - weighted_mean w s\<bar> \<le> 9 * ulp \<and>
    weighted_mean w s \<le> 1 + 5 * ulp"
proof -
  let ?ws = "[rw_quality w, rw_reliability w, rw_latency w, rw_cost w, rw_availability w]"
  have nn: "0 \<le> rw_quality w" "rw_quality w \<le> 1" "0 \<le> rw_reliability w" "rw_reliability w \<le> 1"
    "0 \<le> rw_latency w" "rw_latency w \<le> 1" "0 \<le> rw_cost w" "rw_cost w \<le> 1" "0 \<le> rw_availability w" "rw_availability w \<le> 1"
    using w(1) by (auto simp: RankingWeights_check_def unit_values_Inr weights_mapping_def)
  have u: "0 \<le> sd_quality s" "sd_quality s \<le> 1" "0 \<le> sd_reliability s" "sd_reliability s \<le> 1"
    "0 \<le> sd_latency s" "sd_latency s \<le> 1" "0 \<le> sd_cost s" "sd_cost s \<le> 1"
    "0 \<le> sd_availability s" "sd_availability s \<le> 1"
    using s by (auto simp: StaticDeploymentScore_check_def unit_values_Inr score_mapping_def)
  have one: "d_sum 0 ?ws = Inr 1" using w(1) by (auto simp: RankingWeights_check_def weights_mapping_def)
  have "\<bar>1 - sum_list ?ws\<bar> \<le> 5 * ulp" using d_sum_near[of 0 ?ws] nn one by fastforce
  then have sum: "sum_list ?ws \<le> 1 + 5 * ulp" by linarith
  obtain q where q: "weighted (rw_quality w) (sd_quality s) = Inr q" "0 \<le> q"
    "\<bar>q - rw_quality w * sd_quality s\<bar> \<le> ulp" "rw_quality w * sd_quality s \<le> rw_quality w"
    using weighted_near[OF nn(1,2) u(1,2)] .
  obtain r where r: "weighted (rw_reliability w) (sd_reliability s) = Inr r" "0 \<le> r"
    "\<bar>r - rw_reliability w * sd_reliability s\<bar> \<le> ulp" "rw_reliability w * sd_reliability s \<le> rw_reliability w"
    using weighted_near[OF nn(3,4) u(3,4)] .
  obtain l where l: "weighted (rw_latency w) (sd_latency s) = Inr l" "0 \<le> l"
    "\<bar>l - rw_latency w * sd_latency s\<bar> \<le> ulp" "rw_latency w * sd_latency s \<le> rw_latency w"
    using weighted_near[OF nn(5,6) u(5,6)] .
  obtain c where c: "weighted (rw_cost w) (sd_cost s) = Inr c" "0 \<le> c"
    "\<bar>c - rw_cost w * sd_cost s\<bar> \<le> ulp" "rw_cost w * sd_cost s \<le> rw_cost w"
    using weighted_near[OF nn(7,8) u(7,8)] .
  obtain a where a: "weighted (rw_availability w) (sd_availability s) = Inr a" "0 \<le> a"
    "\<bar>a - rw_availability w * sd_availability s\<bar> \<le> ulp" "rw_availability w * sd_availability s \<le> rw_availability w"
    using weighted_near[OF nn(9,10) u(9,10)] .
  have mean: "weighted_mean w s \<le> 1 + 5 * ulp"
    using sum q(4) r(4) l(4) c(4) a(4) by (simp add: weighted_mean_def)
  have near: "\<bar>q + (r + l + c + a) - weighted_mean w s\<bar> \<le> 5 * ulp"
    using q(3) r(3) l(3) c(3) a(3) unfolding weighted_mean_def by linarith
  have "q + sum_list [r, l, c, a] + of_nat (length [r, l, c, a]) * ulp \<le> 10"
    using near mean ulp_bounds by simp
  then obtain t where t: "d_sum q [r, l, c, a] = Inr t" "0 \<le> t" "\<bar>t - (q + (r + l + c + a))\<bar> \<le> 4 * ulp"
    using d_sum_near[OF q(2), of "[r, l, c, a]"] r(2) l(2) c(2) a(2) by auto
  have "score w s = Inr \<lparr>sb_quality = q, sb_reliability = r, sb_latency = l, sb_cost = c,
      sb_availability = a, sb_total = t\<rparr>"
    unfolding score_def q(1) r(1) l(1) c(1) a(1) t(1) ebind_simps by (rule refl)
  moreover have "\<bar>t - weighted_mean w s\<bar> \<le> 9 * ulp" using t(3) near by linarith
  ultimately show ?thesis using t(2) mean by simp
qed

lemma score_bounded:
  assumes "RankingWeights_check w = Inr w'" "StaticDeploymentScore_check s = Inr s'"
  shows "\<exists>sb. score w s = Inr sb \<and> 0 \<le> sb_total sb \<and> sb_total sb \<le> 1 + 1 / 10 ^ 25 \<and>
    \<bar>sb_total sb - weighted_mean w s\<bar> \<le> 1 / 10 ^ 25 \<and> (exact_weights w \<longrightarrow> sb_total sb \<le> 1)"
proof -
  obtain sb where sb: "score w s = Inr sb" "0 \<le> sb_total sb" "\<bar>sb_total sb - weighted_mean w s\<bar> \<le> 9 * ulp"
    "weighted_mean w s \<le> 1 + 5 * ulp" using score_near[OF assms] by blast
  have "9 * ulp \<le> 1 / 10 ^ 25" "14 * ulp \<le> 1 / 10 ^ 25" by (simp_all add: ulp_def)
  then have "\<bar>sb_total sb - weighted_mean w s\<bar> \<le> 1 / 10 ^ 25" "sb_total sb \<le> 1 + 1 / 10 ^ 25"
    using sb(3,4) by linarith+
  moreover have "exact_weights w \<Longrightarrow> sb_total sb \<le> 1" using score_bounds[OF assms(1) _ assms(2)] sb(1) by auto
  ultimately show ?thesis using sb(1,2) by blast
qed

end
