(* ===== verification/Demo.thy ===== *)
theory Demo
  imports Ranking_Laws
begin
text \<open>
  A concrete catalogue, ranking policy and request, used by the witnesses of the routing
  properties.
\<close>

definition demo_deployment :: "string \<Rightarrow> rat \<Rightarrow> ModelDeployment" where
  "demo_deployment i rate = \<lparr>md_deployment_id = i, md_provider = ''p'', md_model_id = ''m'',
     md_model_group = ''g'', md_api_family = ''f'', md_capabilities = {TEXT}, md_context_tokens = 1000,
     md_modalities = {TEXT_INPUT},
     md_pricing = Some \<lparr>pr_input_usd_per_million_tokens = rate, pr_output_usd_per_million_tokens = 2,
       pr_source_date = Date 2025 1 2, pr_snapshot_version = ''s''\<rparr>,
     md_max_data_classification = INTERNAL, md_allowed_environments = {''e''}, md_enabled = True,
     md_source_date = Date 2025 1 2, md_catalog_version = ''c''\<rparr>"

definition demo_registry :: ModelRegistry where
  "demo_registry = \<lparr>mr_schema_version = ''1.0'', mr_catalog_version = ''c'',
     mr_source_date = Date 2025 1 2,
     mr_deployments = [demo_deployment ''a'' (1 / 2), demo_deployment ''b'' 1]\<rparr>"

definition demo_entry :: "string \<Rightarrow> (string \<times> json)" where
  "demo_entry rate = (''pricing'', JObj [(''input_usd_per_million_tokens'', JStr rate),
     (''output_usd_per_million_tokens'', JInt 2), (''source_date'', JStr ''2025-01-02''),
     (''snapshot_version'', JStr ''s'')])"

definition demo_spec :: "string \<Rightarrow> json" where
  "demo_spec rate = JObj [(''provider'', JStr ''p''), (''model_id'', JStr ''m''),
     (''model_group'', JStr ''g''), (''api_family'', JStr ''f''),
     (''capabilities'', JObj [(''text'', JBool True), (''vision'', JBool False),
       (''tool_calling'', JBool False), (''structured_output'', JBool False), (''streaming'', JBool False)]),
     (''context_tokens'', JInt 1000), (''modalities'', JList [JStr ''text'']), demo_entry rate,
     (''max_data_classification'', JStr ''internal''), (''allowed_environments'', JList [JStr ''e'']),
     (''enabled'', JBool True), (''source_date'', JStr ''2025-01-02''), (''catalog_version'', JStr ''c'')]"

definition demo_document :: items where
  "demo_document = py_items [(''schema_version'', JStr ''1.0''), (''catalog_version'', JStr ''c''),
     (''source_date'', JStr ''2025-01-02''),
     (''deployments'', JObj [(''b'', demo_spec ''1''), (''a'', demo_spec ''0.50'')])]"

lemma demo_builds: "build_model_registry demo_document = Inr demo_registry"
  by code_simp
lemma demo_wf: "py_wf (PDict demo_document)" by code_simp
lemma demo_exact: "exact_prices demo_registry" by code_simp
definition demo_weights :: RankingWeights where
  "demo_weights = \<lparr>rw_quality = 1 / 2, rw_reliability = 1 / 2, rw_latency = 0, rw_cost = 0,
     rw_availability = 0\<rparr>"

definition demo_score :: "string \<Rightarrow> rat \<Rightarrow> int \<Rightarrow> StaticDeploymentScore" where
  "demo_score i q latency = \<lparr>sd_deployment_id = i, sd_quality = q, sd_reliability = 1, sd_latency = 1,
     sd_cost = 1, sd_availability = 1, sd_expected_latency_ms = latency\<rparr>"

definition demo_policy :: RankingPolicy where
  "demo_policy = \<lparr>rk_schema_version = ''1.0'', rk_policy_version = ''v'', rk_score_snapshot_id = ''n'',
     rk_source_date = Date 2025 1 2,
     rk_workloads = [\<lparr>wp_workload = ''x.y'', wp_weights = demo_weights,
       wp_deployments = [demo_score ''a'' (1 / 2) 10, demo_score ''b'' 1 900]\<rparr>], rk_evidence = None\<rparr>"

definition demo_request :: GatewayRequest where
  "demo_request = \<lparr>gr_schema_version = ''1.0'', gr_request_id = 7, gr_workload = ''x.y'',
     gr_risk_level = LOW, gr_data_classification = PUBLIC,
     gr_requirements = \<lparr>rq_tool_calling = False, rq_structured_output = False, rq_vision = False,
       rq_streaming = False, rq_audio = False, rq_document = False, rq_parallel_tool_calling = False,
       rq_min_context_tokens = 0\<rparr>,
     gr_limits = \<lparr>lm_max_latency_ms = Some 100, lm_max_cost_usd = None\<rparr>,
     gr_messages = [\<lparr>msg_role = USER, msg_content = ''hi'', msg_images = [], msg_blocks = []\<rparr>],
     gr_agent_identity = None, gr_tools = [], gr_structured_output = None, gr_client_protocol = NATIVE\<rparr>"

definition demo_context :: EffectivePolicyContext where
  "demo_context = \<lparr>ec_client_id = ''k'', ec_environment = ''e'', ec_workload = ''x.y'',
     ec_risk_level = LOW, ec_data_classification = INTERNAL\<rparr>"

definition demo_defaults :: PolicyProjectionDefaults where
  "demo_defaults = \<lparr>df_max_latency_ms = 500, df_max_cost_usd = 3\<rparr>"

definition demo_decision :: PolicyAuthorizationDecision where
  "demo_decision = \<lparr>ad_authorization = \<lparr>pa_decision_id = ''d'', pa_authorized_model_groups = {''g''}\<rparr>,
     ad_provenance = \<lparr>pp_decision_id = ''d'', pp_policy_id = ''i'', pp_policy_version = ''1'', pp_policy_digest = ''z''\<rparr>,
     ad_decided_at = Aware 0, ad_reason = ''ok'', ad_service_version = ''1'', ad_environment = ''e''\<rparr>"

definition demo_metadata :: PolicyRequestMetadata where
  "demo_metadata = \<lparr>pm_request_id = 7, pm_client_id = ''k'', pm_environment = ''e'', pm_workload = ''x.y'',
     pm_risk_level = LOW, pm_data_classification = INTERNAL, pm_context_tokens_estimated = 10,
     pm_max_output_tokens_estimated = 20, pm_structured_output_required = False, pm_max_latency_ms = 100,
     pm_max_cost_usd = 3, pm_runtime_authorization = None\<rparr>"

lemma demo_projects:
  "project_policy_request demo_request demo_context 10 20 demo_defaults None = Inr demo_metadata"
  by code_simp

definition demo_digest :: string where
  "demo_digest = (case registry_payload demo_registry of Inr p \<Rightarrow> json_digest (JObj p) | Inl _ \<Rightarrow> [])"

lemma demo_payload: "\<exists>p. registry_payload demo_registry = Inr p"
proof -
  have "(case registry_payload demo_registry of Inr _ \<Rightarrow> True | Inl _ \<Rightarrow> False)" by code_simp
  then show ?thesis by (auto split: sum.splits)
qed

lemma demo_registry_digest: "registry_digest demo_registry = Inr demo_digest"
  using demo_payload by (auto simp: registry_digest_def demo_digest_def)

definition demo_authorized :: AuthorizedCandidateSet where
  "demo_authorized = \<lparr>ac_policy = demo_decision, ac_registry_digest = demo_digest,
     ac_candidates = mr_deployments demo_registry\<rparr>"

lemma demo_authorizes:
  "authorize_candidates (\<lambda>_. Inr demo_decision) demo_request demo_context demo_registry 10 20 demo_defaults None =
   Inr demo_authorized"
proof -
  have "authorized_registry_candidates demo_registry (ad_authorization demo_decision) =
      Inr (mr_deployments demo_registry)" by code_simp
  then show ?thesis
    by (simp add: authorize_candidates_def demo_projects ask_pdp_def boundary_def config_def
        demo_registry_digest demo_authorized_def)
qed

lemma demo_policy_payload: "\<exists>p. ranking_payload demo_policy = Inr p"
proof -
  have "(case ranking_payload demo_policy of Inr _ \<Rightarrow> True | Inl _ \<Rightarrow> False)" by code_simp
  then show ?thesis by (auto split: sum.splits)
qed

definition demo_workload :: WorkloadRankingPolicy where
  "demo_workload = hd (rk_workloads demo_policy)"

definition demo_outcomes :: "(CandidateRejection + RankedCandidate) list" where
  "demo_outcomes =
     [Inr \<lparr>rc_deployment = demo_deployment ''a'' (1 / 2),
        rc_score = \<lparr>sb_quality = 1 / 4, sb_reliability = 1 / 2, sb_latency = 0, sb_cost = 0,
          sb_availability = 0, sb_total = 3 / 4\<rparr>, rc_estimated_cost_usd = 9 / 200000\<rparr>,
      Inl \<lparr>cr_deployment = ''b'', cr_reason = LATENCY_LIMIT_EXCEEDED,
        cr_detail = Some ''expected_ms=900;limit_ms=100''\<rparr>]"

lemma demo_evaluates:
  "emap (evaluate demo_request demo_context demo_metadata demo_workload {''g''} None)
     (sort_key md_deployment_id (mr_deployments demo_registry)) = Inr demo_outcomes"
  by code_simp
lemma demo_decision_id:
  "\<exists>i. decision_id demo_request demo_authorized demo_metadata demo_policy (rank_order (rights demo_outcomes))
     (sort_key cr_deployment (lefts demo_outcomes)) = Inr i"
proof -
  obtain p where p: "ranking_payload demo_policy = Inr p" using demo_policy_payload by blast
  have "(case registry_decimal (pm_max_cost_usd demo_metadata) of Inr _ \<Rightarrow> True | Inl _ \<Rightarrow> False)" by code_simp
  then obtain c where c: "registry_decimal (pm_max_cost_usd demo_metadata) = Inr c" by (auto split: sum.splits)
  have "(case emap ranked_json (rank_order (rights demo_outcomes)) of Inr _ \<Rightarrow> True | Inl _ \<Rightarrow> False)" by code_simp
  then obtain rs where "emap ranked_json (rank_order (rights demo_outcomes)) = Inr rs" by (auto split: sum.splits)
  with p c show ?thesis by (simp add: decision_id_def ranking_digest_def)
qed

lemma demo_boundary: "validate_boundary demo_request demo_context demo_registry demo_authorized demo_metadata = Inr ()"
  by (simp add: validate_boundary_def demo_registry_digest demo_authorized_def of_config_def demo_request_def
      demo_context_def demo_metadata_def demo_decision_def)

lemma demo_rank:
  "\<exists>i g. rank demo_request demo_context demo_registry demo_authorized demo_metadata demo_policy None =
     Inr (mk_decision demo_authorized demo_policy i g (rank_order (rights demo_outcomes))
       (sort_key cr_deployment (lefts demo_outcomes)))"
proof -
  obtain i where "decision_id demo_request demo_authorized demo_metadata demo_policy (rank_order (rights demo_outcomes))
     (sort_key cr_deployment (lefts demo_outcomes)) = Inr i" using demo_decision_id by blast
  moreover obtain g where "ranking_digest demo_policy = Inr g"
    using demo_policy_payload by (auto simp: ranking_digest_def)
  moreover have "for_workload demo_policy (gr_workload demo_request) = Inr demo_workload"
    by (simp add: for_workload_def demo_policy_def demo_request_def demo_workload_def)
  moreover have "pa_authorized_model_groups (ad_authorization (ac_policy demo_authorized)) = {''g''}"
    "ac_candidates demo_authorized = mr_deployments demo_registry"
    by (simp_all add: demo_authorized_def demo_decision_def)
  ultimately show ?thesis
    by (auto simp: rank_def demo_boundary demo_evaluates of_config_def)
qed

end
