(* ===== verification/Routing_Properties.thy ===== *)
theory Routing_Properties
  imports Demo
begin

text \<open>
  The properties of the model registry and of operational ranking.
\<close>

subsection \<open>Registry\<close>

text \<open>
  C23. A document that builds yields a well-formed registry: identifiers match their pattern and
  are unique and sorted, every deployment agrees with the catalogue's version and date, prices
  are non-negative, and capabilities agree with modalities.
\<close>

theorem registry_build_wellformed:
  assumes "build_model_registry p = Inr r" "py_wf (PDict p)"
  shows "registry_ok r"
  using assms by (rule build_model_registry_ok)

theorem registry_build_wellformed_witness: "registry_ok demo_registry"
  using registry_build_wellformed[OF demo_builds demo_wf] .

text \<open>
  C24. The canonical payload of a registry built from a document, read back, builds that registry
  with every price rounded to the decimal context. The registry has a payload and comes back
  unchanged exactly when its prices fit the context (28 significant digits).
\<close>

theorem registry_canonical_roundtrip:
  assumes "build_model_registry p = Inr r" "py_wf (PDict p)"
  shows "(\<forall>q. registry_payload r = Inr q \<longrightarrow> build_model_registry (py_items q) = Inr (context_registry r)) \<and>
    (exact_prices r \<longleftrightarrow> (\<exists>q. registry_payload r = Inr q) \<and> context_registry r = r)"
  using assms by (rule registry_rounds)

theorem registry_canonical_roundtrip_witness:
  "\<exists>q. registry_payload demo_registry = Inr q \<and> build_model_registry (py_items q) = Inr demo_registry"
  using registry_canonical_roundtrip[OF demo_builds demo_wf] demo_exact by auto

definition priced_document :: "string \<Rightarrow> items" where
  "priced_document rate = py_items [(''schema_version'', JStr ''1.0''), (''catalog_version'', JStr ''c''),
     (''source_date'', JStr ''2025-01-02''), (''deployments'', JObj [(''a'', demo_spec rate)])]"

lemma inexact_price: "d_fix (1 + 1 / 10 ^ 29) = Some 1"
  using d_fix_eq[of 0 "1 + 1 / 10 ^ 29" "10 ^ 27"] by (simp add: pow10_def)

text \<open>Two catalogues that differ beyond the 28th digit of a price share a digest.\<close>

lemma registry_digest_ignores_tail:
  "\<exists>p r q r'. build_model_registry p = Inr r \<and> registry_payload r = Inr q \<and>
     build_model_registry (py_items q) = Inr r' \<and> r' \<noteq> r \<and> registry_digest r' = registry_digest r"
proof -
  let ?p = "priced_document ''1.00000000000000000000000000001''"
  have "py_wf (PDict ?p) \<and> (case build_model_registry ?p of Inl _ \<Rightarrow> False | Inr r \<Rightarrow>
      map (\<lambda>d. map_option pr_input_usd_per_million_tokens (md_pricing d)) (mr_deployments r) = [Some (1 + 1 / 10 ^ 29)] \<and>
      map (\<lambda>d. map_option pr_output_usd_per_million_tokens (md_pricing d)) (mr_deployments r) = [Some 2])" by code_simp
  then obtain r where r: "py_wf (PDict ?p)" "build_model_registry ?p = Inr r"
    "map (\<lambda>d. map_option pr_input_usd_per_million_tokens (md_pricing d)) (mr_deployments r) = [Some (1 + 1 / 10 ^ 29)]"
    "map (\<lambda>d. map_option pr_output_usd_per_million_tokens (md_pricing d)) (mr_deployments r) = [Some 2]"
    by (auto split: sum.splits)
  then obtain d pr where d: "mr_deployments r = [d]" "md_pricing d = Some pr"
    "pr_input_usd_per_million_tokens pr = 1 + 1 / 10 ^ 29" "pr_output_usd_per_million_tokens pr = 2" by auto
  have two: "d_fix 2 = Some 2" by code_simp
  have "\<exists>q. registry_payload r = Inr q"
    by (simp add: registry_payload_def d canonical_deployment_def canonical_pricing_def registry_decimal_def
        canonical_decimal_def of_overflow_def inexact_price two del: power_numeral)
  then obtain q where q: "registry_payload r = Inr q" ..
  have "\<not> exact_prices r" using inexact_price unfolding exact_prices_def d(1)
    by (auto simp: opt_all_def exact_price_def d(2) d(3) simp del: power_numeral)
  with registry_rounds[OF r(2,1)] q have "build_model_registry (py_items q) = Inr (context_registry r)" "context_registry r \<noteq> r"
    by auto
  moreover have "registry_digest (context_registry r) = registry_digest r"
    using registry_payload_round[OF build_model_registry_ok[OF r(2,1)] q] q by (simp add: registry_digest_def)
  ultimately show ?thesis using r(2) q by blast
qed

subsection \<open>Ranking\<close>

text \<open>
  C25. Every ranked candidate, the selected one included, is one of the candidates the policy
  authorized, in an authorized model group, and eligible: enabled, healthy, allowed in the
  environment and for the data classification, with every required capability, enough context,
  and within the cost and latency ceilings. And every eligible candidate is ranked.
\<close>

theorem ranking_exactly_eligible:
  assumes "rank r ctx registry authorized pm rp hv = Inr dec"
  shows "\<exists>wp. for_workload rp (gr_workload r) = Inr wp \<and>
    (\<forall>d. (\<exists>c. c \<in> set (ranked_candidates dec) \<and> rc_deployment c = d) \<longleftrightarrow>
      d \<in> set (ac_candidates authorized) \<and>
      md_model_group d \<in> pa_authorized_model_groups (ad_authorization (ac_policy authorized)) \<and>
      eligible r ctx pm wp hv d)"
proof -
  define G where "G = pa_authorized_model_groups (ad_authorization (ac_policy authorized))"
  from assms obtain wp outs i g where wp: "for_workload rp (gr_workload r) = Inr wp"
    and outs: "emap (evaluate r ctx pm wp G hv) (sort_key md_deployment_id (ac_candidates authorized)) = Inr outs"
    and dec: "dec = mk_decision authorized rp i g (rank_order (rights outs)) (sort_key cr_deployment (lefts outs))"
    unfolding G_def by (rule rankE)
  have ranked: "set (ranked_candidates dec) = set (rights outs)" by (simp add: dec rank_order_def)
  have "(\<exists>c. c \<in> set (ranked_candidates dec) \<and> rc_deployment c = d) \<longleftrightarrow>
      d \<in> set (ac_candidates authorized) \<and> md_model_group d \<in> G \<and> eligible r ctx pm wp hv d" for d
  proof
    assume "\<exists>c. c \<in> set (ranked_candidates dec) \<and> rc_deployment c = d"
    then obtain c where "c \<in> set (rights outs)" "rc_deployment c = d" using ranked by blast
    then have "d \<in> set (ac_candidates authorized)" "evaluate r ctx pm wp G hv d = Inr (Inr c)"
      using emap_evaluate_mem(1)[OF outs] by auto
    then show "d \<in> set (ac_candidates authorized) \<and> md_model_group d \<in> G \<and> eligible r ctx pm wp hv d"
      using evaluate_ranked(2,3) by simp
  next
    assume d: "d \<in> set (ac_candidates authorized) \<and> md_model_group d \<in> G \<and> eligible r ctx pm wp hv d"
    then obtain x where x: "x \<in> set outs" "evaluate r ctx pm wp G hv d = Inr x"
      using emap_evaluate_mem(2)[OF outs, of d] by auto
    with d obtain c where c: "x = Inr c" using evaluate_rejected(2) by (cases x) blast+
    have "rc_deployment c = d" using x(2) c evaluate_ranked(1) by simp
    moreover have "c \<in> set (rights outs)" using x(1) c by (simp add: set_rights)
    ultimately show "\<exists>c. c \<in> set (ranked_candidates dec) \<and> rc_deployment c = d" using ranked by blast
  qed
  with wp show ?thesis unfolding G_def by blast
qed

theorem ranking_exactly_eligible_witness:
  "\<exists>dec wp. rank demo_request demo_context demo_registry demo_authorized demo_metadata demo_policy None = Inr dec \<and>
    for_workload demo_policy (gr_workload demo_request) = Inr wp \<and>
    (\<exists>c. c \<in> set (ranked_candidates dec) \<and> rc_deployment c = demo_deployment ''a'' (1 / 2)) \<and>
    eligible demo_request demo_context demo_metadata wp None (demo_deployment ''a'' (1 / 2))"
proof -
  obtain i g where r: "rank demo_request demo_context demo_registry demo_authorized demo_metadata demo_policy None =
     Inr (mk_decision demo_authorized demo_policy i g (rank_order (rights demo_outcomes))
       (sort_key cr_deployment (lefts demo_outcomes)))" using demo_rank by blast
  have "\<exists>c. c \<in> set (rank_order (rights demo_outcomes)) \<and> rc_deployment c = demo_deployment ''a'' (1 / 2)"
    by (simp add: rank_order_def rights_def demo_outcomes_def)
  with r ranking_exactly_eligible[OF r] show ?thesis by fastforce
qed

definition ranks_before :: "RankedCandidate \<Rightarrow> RankedCandidate \<Rightarrow> bool" where
  "ranks_before c c' \<longleftrightarrow> sb_total (rc_score c') < sb_total (rc_score c) \<or>
     sb_total (rc_score c) = sb_total (rc_score c') \<and>
     md_deployment_id (rc_deployment c) \<le> md_deployment_id (rc_deployment c')"

lemma ranks_before_iff: "ranks_before = (\<lambda>c c'. rank_key c \<le> rank_key c')"
  by (auto simp: fun_eq_iff ranks_before_def rank_key_def less_eq_prod_simp)

text \<open>
  C26. A decision accounts for every authorized candidate exactly once: it is ranked or rejected,
  never both and never lost, and the ranked candidates are ordered by descending score with ties
  broken by deployment id, the first being the selected one.
\<close>

theorem ranking_partition_ordered:
  assumes "rank r ctx registry authorized pm rp hv = Inr dec"
  shows "mset (map (\<lambda>c. md_deployment_id (rc_deployment c)) (ranked_candidates dec)) +
      mset (map cr_deployment (rd_rejected_candidates dec)) = mset (map md_deployment_id (ac_candidates authorized)) \<and>
    sorted_wrt ranks_before (ranked_candidates dec) \<and>
    rd_selected dec = (case ranked_candidates dec of [] \<Rightarrow> None | c # _ \<Rightarrow> Some c)"
proof -
  from assms obtain wp outs i g where
    outs: "emap (evaluate r ctx pm wp (pa_authorized_model_groups (ad_authorization (ac_policy authorized))) hv)
      (sort_key md_deployment_id (ac_candidates authorized)) = Inr outs"
    and dec: "dec = mk_decision authorized rp i g (rank_order (rights outs)) (sort_key cr_deployment (lefts outs))"
    by (rule rankE)
  have "mset (map outcome_id outs) = mset (map md_deployment_id (ac_candidates authorized))"
    unfolding emap_evaluate_ids[OF outs] by simp
  moreover have "sorted_wrt ranks_before (rank_order (rights outs))"
    unfolding ranks_before_iff sorted_wrt_map[symmetric] by (simp add: rank_order_def)
  moreover have "rd_selected dec = (case rank_order (rights outs) of [] \<Rightarrow> None | c # _ \<Rightarrow> Some c)"
    by (simp add: dec mk_decision_def Let_def)
  ultimately show ?thesis unfolding mset_outcome_ids by (simp add: dec rank_order_def)
qed

theorem ranking_partition_ordered_witness:
  "\<exists>dec. rank demo_request demo_context demo_registry demo_authorized demo_metadata demo_policy None = Inr dec \<and>
    mset (map (\<lambda>c. md_deployment_id (rc_deployment c)) (ranked_candidates dec)) +
      mset (map cr_deployment (rd_rejected_candidates dec)) = {#''a'', ''b''#} \<and>
    sorted_wrt ranks_before (ranked_candidates dec)"
proof -
  obtain dec where r: "rank demo_request demo_context demo_registry demo_authorized demo_metadata demo_policy None = Inr dec"
    using demo_rank by blast
  have "mset (map md_deployment_id (ac_candidates demo_authorized)) = {#''a'', ''b''#}"
    by (simp add: demo_authorized_def demo_registry_def demo_deployment_def)
  with r ranking_partition_ordered[OF r] show ?thesis by auto
qed

text \<open>
  C27. The decision, its identifier included, does not depend on the order in which the authorized
  candidates are listed.
\<close>

theorem ranking_order_independent:
  assumes "mset cs = mset (ac_candidates authorized)" "distinct (map md_deployment_id cs)"
  shows "rank r ctx registry (authorized\<lparr>ac_candidates := cs\<rparr>) pm rp hv =
    rank r ctx registry authorized pm rp hv"
  using assms by (rule rank_order_independent_lemma)

theorem ranking_order_independent_witness:
  "rank demo_request demo_context demo_registry
     (demo_authorized\<lparr>ac_candidates := [demo_deployment ''b'' 1, demo_deployment ''a'' (1 / 2)]\<rparr>)
     demo_metadata demo_policy None =
   rank demo_request demo_context demo_registry demo_authorized demo_metadata demo_policy None"
  by (rule ranking_order_independent)
     (simp_all add: demo_authorized_def demo_registry_def demo_deployment_def)

text \<open>
  C28. The score of a deployment is always computed, is not negative, and differs from the exact
  weighted mean of the deployment's static scores by at most \<open>10\<^sup>-\<^sup>2\<^sup>5\<close>, for weights and scores the
  policy accepts. It is at most \<open>1 + 10\<^sup>-\<^sup>2\<^sup>5\<close>, and at most 1 when every weight fits the
  decimal context.
\<close>

theorem ranking_score_bounded:
  assumes "RankingWeights_check w = Inr w'" "StaticDeploymentScore_check s = Inr s'"
  shows "\<exists>sb. score w s = Inr sb \<and> 0 \<le> sb_total sb \<and> sb_total sb \<le> 1 + 1 / 10 ^ 25 \<and>
    \<bar>sb_total sb - weighted_mean w s\<bar> \<le> 1 / 10 ^ 25 \<and> (exact_weights w \<longrightarrow> sb_total sb \<le> 1)"
  using assms by (rule score_bounded)

theorem ranking_score_bounded_witness:
  "\<exists>sb. score demo_weights (demo_score ''a'' 1 10) = Inr sb \<and> 0 \<le> sb_total sb \<and> sb_total sb \<le> 1"
proof -
  have "RankingWeights_check demo_weights = Inr demo_weights" by code_simp
  moreover have "exact_weights demo_weights" by code_simp
  moreover have "StaticDeploymentScore_check (demo_score ''a'' 1 10) = Inr (demo_score ''a'' 1 10)" by code_simp
  ultimately show ?thesis using ranking_score_bounded by blast
qed

text \<open>Weights that add up to more than one, accepted by the rounded sum, and a score above one.\<close>

definition excess_weights :: RankingWeights where
  "excess_weights = \<lparr>rw_quality = 5000000000000000000000000001 / 10 ^ 28,
     rw_reliability = 39999999999999999999999999995 / 10 ^ 29,
     rw_latency = 1000000000000000000000000005 / 10 ^ 28, rw_cost = 0, rw_availability = 0\<rparr>"

lemma excess_roundings:
  "d_fix (5000000000000000000000000001 / 10 ^ 28) = Some (5000000000000000000000000001 / 10 ^ 28)"
  "d_fix (90000000000000000000000000005 / 10 ^ 29) = Some (9 / 10)"
  "d_fix (39999999999999999999999999995 / 10 ^ 29) = Some (4 / 10)"
  "d_fix (10000000000000000000000000005 / 10 ^ 28) = Some 1"
  "d_fix (1000000000000000000000000005 / 10 ^ 28) = Some (1000000000000000000000000005 / 10 ^ 28)"
  "d_fix (9000000000000000000000000001 / 10 ^ 28) = Some (9000000000000000000000000001 / 10 ^ 28)"
  "d_fix (10000000000000000000000000006 / 10 ^ 28) = Some (1000000000000000000000000001 / 10 ^ 27)"
  using d_fix_eq[of "- 1" "5000000000000000000000000001 / 10 ^ 28" 5000000000000000000000000001]
    d_fix_eq[of "- 1" "90000000000000000000000000005 / 10 ^ 29" "9 * 10 ^ 27"]
    d_fix_eq[of "- 1" "39999999999999999999999999995 / 10 ^ 29" "4 * 10 ^ 27"]
    d_fix_eq[of 0 "10000000000000000000000000005 / 10 ^ 28" "10 ^ 27"]
    d_fix_eq[of "- 1" "1000000000000000000000000005 / 10 ^ 28" 1000000000000000000000000005]
    d_fix_eq[of "- 1" "9000000000000000000000000001 / 10 ^ 28" 9000000000000000000000000001]
    d_fix_eq[of 0 "10000000000000000000000000006 / 10 ^ 28" 1000000000000000000000000001]
  by (simp_all add: pow10_def)

lemma excess_sums:
  "0 + 5000000000000000000000000001 / 10 ^ 28 = (5000000000000000000000000001 / 10 ^ 28 :: rat)"
  "5000000000000000000000000001 / 10 ^ 28 + 39999999999999999999999999995 / 10 ^ 29 =
    (90000000000000000000000000005 / 10 ^ 29 :: rat)"
  "9 / 10 + 1000000000000000000000000005 / 10 ^ 28 = (10000000000000000000000000005 / 10 ^ 28 :: rat)"
  "5000000000000000000000000001 / 10 ^ 28 + 4 / 10 = (9000000000000000000000000001 / 10 ^ 28 :: rat)"
  "9000000000000000000000000001 / 10 ^ 28 + 1000000000000000000000000005 / 10 ^ 28 =
    (10000000000000000000000000006 / 10 ^ 28 :: rat)"
  by simp_all

lemma d_sum_step: "x + y = v \<Longrightarrow> d_fix v = Some z \<Longrightarrow> d_sum x (y # ys) = d_sum z ys"
  by (simp add: d_add_def of_overflow_def)

lemma weighted_one: "d_fix w = Some p \<Longrightarrow> weighted w 1 = Inr p"
  by (simp add: weighted_def d_mul_def of_overflow_def)

lemma d_sum_zeros: "d_fix z = Some z \<Longrightarrow> d_sum z [0, 0] = Inr z"
  by (simp add: d_add_def of_overflow_def)

lemma score_above_one:
  "RankingWeights_check excess_weights = Inr excess_weights"
  "StaticDeploymentScore_check (demo_score ''a'' 1 10) = Inr (demo_score ''a'' 1 10)"
  "\<exists>sb. score excess_weights (demo_score ''a'' 1 10) = Inr sb \<and> sb_total sb = 1 + 1 / 10 ^ 27"
proof -
  note r = excess_roundings and s = excess_sums
  have one: "d_fix 1 = Some 1" by code_simp
  have top: "d_fix (1000000000000000000000000001 / 10 ^ 27) = Some (1000000000000000000000000001 / 10 ^ 27)"
    by (rule d_fix_idem[OF r(7)]) simp
  have excess_mapping: "map snd (weights_mapping excess_weights) = [5000000000000000000000000001 / 10 ^ 28,
      39999999999999999999999999995 / 10 ^ 29, 1000000000000000000000000005 / 10 ^ 28, 0, 0]"
    by (simp add: weights_mapping_def excess_weights_def)
  have "d_sum 0 (map snd (weights_mapping excess_weights)) = Inr 1"
    unfolding excess_mapping by (simp only: d_sum_step[OF s(1) r(1)]
        d_sum_step[OF s(2) r(2)] d_sum_step[OF s(3) r(4)] d_sum_zeros[OF one])
  moreover have "unit_values ''ranking weight '' (weights_mapping excess_weights) = Inr ()"
    by (simp add: unit_values_Inr weights_mapping_def excess_weights_def)
  ultimately show "RankingWeights_check excess_weights = Inr excess_weights" by (simp add: RankingWeights_check_def)
  show "StaticDeploymentScore_check (demo_score ''a'' 1 10) = Inr (demo_score ''a'' 1 10)" by code_simp
  have zero: "d_fix 0 = Some 0" by (simp add: d_fix_def)
  have excess_fields: "rw_quality excess_weights = 5000000000000000000000000001 / 10 ^ 28"
    "rw_reliability excess_weights = 39999999999999999999999999995 / 10 ^ 29"
    "rw_latency excess_weights = 1000000000000000000000000005 / 10 ^ 28"
    "rw_cost excess_weights = 0" "rw_availability excess_weights = 0"
    by (simp_all add: excess_weights_def)
  have w: "weighted (rw_quality excess_weights) 1 = Inr (5000000000000000000000000001 / 10 ^ 28)"
    "weighted (rw_reliability excess_weights) 1 = Inr (4 / 10)"
    "weighted (rw_latency excess_weights) 1 = Inr (1000000000000000000000000005 / 10 ^ 28)"
    "weighted (rw_cost excess_weights) 1 = Inr 0" "weighted (rw_availability excess_weights) 1 = Inr 0"
    unfolding excess_fields by (intro weighted_one r zero)+
  have t: "d_sum (5000000000000000000000000001 / 10 ^ 28) [4 / 10, 1000000000000000000000000005 / 10 ^ 28, 0, 0] =
      Inr (1000000000000000000000000001 / 10 ^ 27)"
    by (simp only: d_sum_step[OF s(4) r(6)] d_sum_step[OF s(5) r(7)] d_sum_zeros[OF top])
  have u: "sd_quality (demo_score ''a'' 1 10) = 1" "sd_reliability (demo_score ''a'' 1 10) = 1"
    "sd_latency (demo_score ''a'' 1 10) = 1" "sd_cost (demo_score ''a'' 1 10) = 1" "sd_availability (demo_score ''a'' 1 10) = 1"
    by (simp_all add: demo_score_def)
  show "\<exists>sb. score excess_weights (demo_score ''a'' 1 10) = Inr sb \<and> sb_total sb = 1 + 1 / 10 ^ 27"
    unfolding score_def u w ebind_simps t by simp
qed

end
