(* ===== verification/Contract_Laws.thy ===== *)
theory Contract_Laws
  imports Structured
begin

text \<open>
  Laws of the request contract and of the schema walk: the transcript loop accepts exactly the
  correlated transcripts, and the walk accepts exactly the documents whose every sub-schema is
  safe and shallow. Where a schema lies inside a schema is read from the keywords of Draft 2020-12.
\<close>

subsection \<open>Tool transcripts\<close>

fun use_ids :: "ContentBlock list \<Rightarrow> string list" where
  "use_ids [] = []"
| "use_ids (ToolUseBlock c # bs) = tc_call_id c # use_ids bs"
| "use_ids (_ # bs) = use_ids bs"

fun result_ids :: "ContentBlock list \<Rightarrow> string list" where
  "result_ids [] = []"
| "result_ids (ToolResultBlock r # bs) = tr_call_id r # result_ids bs"
| "result_ids (_ # bs) = result_ids bs"

definition results_follow :: "string set \<Rightarrow> ContentBlock list \<Rightarrow> bool" where
  "results_follow U bs \<longleftrightarrow> (\<forall>xs r ys. bs = xs @ ToolResultBlock r # ys \<longrightarrow> tr_call_id r \<in> U \<union> set (use_ids xs))"

definition correlated :: "ContentBlock list \<Rightarrow> bool" where
  "correlated bs \<longleftrightarrow> distinct (use_ids bs) \<and> distinct (result_ids bs) \<and> results_follow {} bs"

lemma results_follow_Nil [simp]: "results_follow U []"
  by (simp add: results_follow_def)

lemma use_ids_Cons: "use_ids (b # bs) = use_ids [b] @ use_ids bs"
  by (cases b) auto

lemma results_follow_Cons:
  "results_follow U (b # bs) \<longleftrightarrow> (\<forall>r. b = ToolResultBlock r \<longrightarrow> tr_call_id r \<in> U) \<and>
     results_follow (U \<union> set (use_ids [b])) bs" (is "?l \<longleftrightarrow> ?h \<and> ?t")
proof (intro iffI conjI)
  assume l: ?l
  show ?h
  proof (intro allI impI)
    fix r assume "b = ToolResultBlock r"
    then have "b # bs = [] @ ToolResultBlock r # bs" by simp
    with l have "tr_call_id r \<in> U \<union> set (use_ids [])" unfolding results_follow_def by blast
    then show "tr_call_id r \<in> U" by simp
  qed
  show ?t
    unfolding results_follow_def
  proof (intro allI impI)
    fix zs r ys assume "bs = zs @ ToolResultBlock r # ys"
    then have "b # bs = (b # zs) @ ToolResultBlock r # ys" by simp
    with l have "tr_call_id r \<in> U \<union> set (use_ids (b # zs))" unfolding results_follow_def by blast
    then show "tr_call_id r \<in> U \<union> set (use_ids [b]) \<union> set (use_ids zs)"
      using use_ids_Cons[of b zs] by auto
  qed
next
  assume r: "?h \<and> ?t"
  show ?l
    unfolding results_follow_def
  proof (intro allI impI)
    fix xs s ys assume eq: "b # bs = xs @ ToolResultBlock s # ys"
    show "tr_call_id s \<in> U \<union> set (use_ids xs)"
    proof (cases xs)
      case Nil
      with eq r show ?thesis by simp
    next
      case (Cons z zs)
      with eq have "z = b" "bs = zs @ ToolResultBlock s # ys" by auto
      with r have "tr_call_id s \<in> U \<union> set (use_ids [b]) \<union> set (use_ids zs)"
        unfolding results_follow_def by blast
      with Cons \<open>z = b\<close> show ?thesis using use_ids_Cons[of b zs] by auto
    qed
  qed
qed

text \<open>The loop accepts exactly when the blocks extend what was seen consistently.\<close>

lemma blocks_step_iff:
  "blocks_step bs us rs \<noteq> None \<longleftrightarrow> distinct (use_ids bs) \<and> set (use_ids bs) \<inter> set us = {} \<and>
     distinct (result_ids bs) \<and> set (result_ids bs) \<inter> set rs = {} \<and> results_follow (set us) bs"
  by (induction bs us rs rule: blocks_step.induct) (auto simp: results_follow_Cons)

lemma blocks_step_append:
  "blocks_step (bs @ cs) us rs = (case blocks_step bs us rs of None \<Rightarrow> None | Some (u, r) \<Rightarrow> blocks_step cs u r)"
  by (induction bs us rs rule: blocks_step.induct) auto

lemma transcript_ok_iff:
  "transcript_ok par ms us rs \<longleftrightarrow>
   (par \<or> (\<forall>m\<in>set ms. length (filter is_tool_use (canonical_blocks m)) \<le> 1)) \<and>
   blocks_step (concat (map canonical_blocks ms)) us rs \<noteq> None"
proof (induction par ms us rs rule: transcript_ok.induct)
  case (2 par m ms us rs)
  show ?case
  proof (cases "1 < length (filter is_tool_use (canonical_blocks m)) \<and> \<not> par")
    case True
    then show ?thesis by auto
  next
    case False
    show ?thesis
    proof (cases "blocks_step (canonical_blocks m) us rs")
      case None
      with False show ?thesis by (auto simp: blocks_step_append)
    next
      case (Some p)
      with 2 False show ?thesis by (cases p) (auto simp: blocks_step_append)
    qed
  qed
qed simp

subsection \<open>Schema walk\<close>

text \<open>The nodes the walk visits, with their depth.\<close>

inductive sub_schema :: "json \<Rightarrow> nat \<Rightarrow> json \<Rightarrow> bool" for doc where
  itself: "sub_schema doc 0 doc"
| child: "sub_schema doc n (JObj kvs) \<Longrightarrow> kv \<in> set kvs \<Longrightarrow> j \<in> set (subschemas kv) \<Longrightarrow> sub_schema doc (Suc n) j"

definition node_ok :: "schema_lib \<Rightarrow> json \<Rightarrow> bool" where
  "node_ok lib v \<longleftrightarrow> (\<forall>kvs. v = JObj kvs \<longrightarrow> node_checks lib kvs)"

lemma validate_schema_node_unfold:
  "validate_schema_node lib depth v \<longleftrightarrow> depth \<le> max_schema_depth \<and> node_ok lib v \<and>
   (\<forall>kvs kv j. v = JObj kvs \<longrightarrow> kv \<in> set kvs \<longrightarrow> j \<in> set (subschemas kv) \<longrightarrow> validate_schema_node lib (Suc depth) j)"
  by (subst validate_schema_node.simps) (auto simp: node_ok_def split: json.splits)

lemma validate_schema_node_reaches:
  assumes "sub_schema v n u" "validate_schema_node lib 0 v"
  shows "validate_schema_node lib n u"
  using assms
proof (induction)
  case (child n kvs kv j)
  then show ?case using validate_schema_node_unfold[of lib n "JObj kvs"] by blast
qed

lemma validate_schema_node_complete:
  assumes "\<And>n u. sub_schema doc n u \<Longrightarrow> n \<le> max_schema_depth \<and> node_ok lib u"
  shows "sub_schema doc depth v \<Longrightarrow> validate_schema_node lib depth v"
proof (induction "Suc max_schema_depth - depth" arbitrary: depth v rule: less_induct)
  case less
  then have ok: "depth \<le> max_schema_depth" "node_ok lib v" using assms by auto
  moreover have "validate_schema_node lib (Suc depth) j"
    if "v = JObj kvs" "kv \<in> set kvs" "j \<in> set (subschemas kv)" for kvs kv j
    using that less.prems ok(1) by (intro less.hyps) (auto intro: sub_schema.child)
  ultimately show ?case using validate_schema_node_unfold[of lib depth v] by blast
qed

lemma validate_schema_node_iff:
  "validate_schema_node lib 0 doc \<longleftrightarrow> (\<forall>n u. sub_schema doc n u \<longrightarrow> n \<le> max_schema_depth \<and> node_ok lib u)"
proof
  assume v: "validate_schema_node lib 0 doc"
  show "\<forall>n u. sub_schema doc n u \<longrightarrow> n \<le> max_schema_depth \<and> node_ok lib u"
  proof (intro allI impI)
    fix n u assume "sub_schema doc n u"
    then have "validate_schema_node lib n u" using v by (rule validate_schema_node_reaches)
    then show "n \<le> max_schema_depth \<and> node_ok lib u" using validate_schema_node_unfold by blast
  qed
next
  assume "\<forall>n u. sub_schema doc n u \<longrightarrow> n \<le> max_schema_depth \<and> node_ok lib u"
  then show "validate_schema_node lib 0 doc"
    using validate_schema_node_complete[of doc lib 0 doc] sub_schema.itself by blast
qed

subsection \<open>Schemas inside a schema\<close>

text \<open>
  Where Draft 2020-12 puts a schema inside a schema: the values of a keyword that maps names to
  schemas, the elements of a keyword that lists schemas, and the value of a keyword that holds one.
  \<open>nested n doc u\<close> says that \<open>u\<close> lies \<open>n\<close> such steps below \<open>doc\<close>.
\<close>

inductive nested :: "nat \<Rightarrow> json \<Rightarrow> json \<Rightarrow> bool" where
  root: "nested 0 doc doc"
| named: "nested n doc (JObj kvs) \<Longrightarrow> (k, JObj cs) \<in> set kvs \<Longrightarrow> (name, u) \<in> set cs \<Longrightarrow>
    k \<in> {''$defs'', ''definitions'', ''properties'', ''dependentSchemas''} \<Longrightarrow> nested (Suc n) doc u"
| listed: "nested n doc (JObj kvs) \<Longrightarrow> (k, JList us) \<in> set kvs \<Longrightarrow> u \<in> set us \<Longrightarrow>
    k \<in> {''allOf'', ''anyOf'', ''oneOf'', ''prefixItems''} \<Longrightarrow> nested (Suc n) doc u"
| held: "nested n doc (JObj kvs) \<Longrightarrow> (k, u) \<in> set kvs \<Longrightarrow>
    k \<in> {''additionalProperties'', ''unevaluatedProperties'', ''propertyNames'', ''contains'', ''items'', ''not'',
      ''if'', ''then'', ''else'', ''unevaluatedItems'', ''contentSchema''} \<Longrightarrow> nested (Suc n) doc u"

lemma keyword_sets:
  "{''$defs'', ''definitions'', ''properties'', ''dependentSchemas''} = set schema_map_keywords"
  "{''allOf'', ''anyOf'', ''oneOf'', ''prefixItems''} = set schema_list_keywords"
  "{''additionalProperties'', ''unevaluatedProperties'', ''propertyNames'', ''contains'', ''items'', ''not'',
      ''if'', ''then'', ''else'', ''unevaluatedItems'', ''contentSchema''} = set schema_single_keywords"
  by (simp_all only: schema_map_keywords_def schema_list_keywords_def schema_single_keywords_def list.set)

lemma keywords_disjoint:
  "k \<in> set schema_single_keywords \<Longrightarrow> k \<notin> set schema_map_keywords \<and> k \<notin> set schema_list_keywords"
proof -
  have "list_all (\<lambda>k. k \<notin> set schema_map_keywords \<and> k \<notin> set schema_list_keywords) schema_single_keywords"
    by code_simp
  then show "k \<in> set schema_single_keywords \<Longrightarrow> ?thesis" by (simp add: list_all_iff)
qed

lemmas nested_intros = nested.named[unfolded keyword_sets] nested.listed[unfolded keyword_sets]
  nested.held[unfolded keyword_sets]

lemma sub_schema_nested: "sub_schema doc n u \<Longrightarrow> nested n doc u"
proof (induction rule: sub_schema.induct)
  case (child n kvs kv j)
  obtain k v where kv: "kv = (k, v)" by (cases kv)
  with child.IH child.hyps(2,3) show ?case
    by (cases v) (auto split: if_splits intro: nested_intros)
qed (rule root)

lemma nested_sub_schema: "nested n doc u \<Longrightarrow> sub_schema doc n u"
proof (induction rule: nested.induct)
  case (named n doc kvs k cs name u)
  have "u \<in> set (subschemas (k, JObj cs))"
    using named.hyps(3,4) unfolding keyword_sets by (force simp: image_iff)
  with named.IH named.hyps(2) show ?case by (rule sub_schema.child)
next
  case (listed n doc kvs k us u)
  have "u \<in> set (subschemas (k, JList us))" using listed.hyps(3,4) unfolding keyword_sets by simp
  with listed.IH listed.hyps(2) show ?case by (rule sub_schema.child)
next
  case (held n doc kvs k u)
  have "u \<in> set (subschemas (k, u))"
    using held.hyps(3) keywords_disjoint[of k] unfolding keyword_sets by (cases u) auto
  with held.IH held.hyps(2) show ?case by (rule sub_schema.child)
qed (rule sub_schema.itself)

lemma nested_iff: "nested n doc u \<longleftrightarrow> sub_schema doc n u"
  using sub_schema_nested nested_sub_schema by blast

lemma node_checks_iff:
  "node_checks lib kvs \<longleftrightarrow>
     (\<forall>ref. map_of kvs ''$ref'' = Some (JStr ref) \<longrightarrow> take 1 ref = ''#'') \<and>
     (\<forall>ref. map_of kvs ''$dynamicRef'' = Some (JStr ref) \<longrightarrow> take 1 ref = ''#'') \<and>
     (\<forall>p. map_of kvs ''pattern'' = Some (JStr p) \<longrightarrow> length p \<le> 512 \<and> sl_pattern_compiles lib p) \<and>
     ''patternProperties'' \<notin> fst ` set kvs \<and>
     (\<forall>f. map_of kvs ''format'' = Some (JStr f) \<longrightarrow> f = ''uri'')"
proof -
  have ref: "\<not> remote_ref kvs k \<longleftrightarrow> (\<forall>ref. map_of kvs k = Some (JStr ref) \<longrightarrow> take 1 ref = ''#'')" for k
  proof -
    have "(\<exists>r. ref = CHR ''#'' # r) \<longleftrightarrow> take 1 ref = ''#''" for ref by (cases ref) auto
    then show ?thesis by (auto simp: remote_ref_def split: option.splits json.splits)
  qed
  have str: "(case v of Some (JStr s) \<Rightarrow> P s | _ \<Rightarrow> True) \<longleftrightarrow> (\<forall>s. v = Some (JStr s) \<longrightarrow> P s)" for v P
    by (auto split: option.splits json.splits)
  show ?thesis unfolding node_checks_def ref str map_of_eq_None_iff ..
qed

end
