(* ===== verification/Boundary_Properties.thy ===== *)
theory Boundary_Properties
  imports Demo Contract_Laws
begin

text \<open>
  The properties of the request contract, schema safety, policy projection and enforcement, and
  signed governance.
\<close>

subsection \<open>Requests and schemas\<close>

text \<open>
  C29. The transcript loop of a request accepts exactly the transcripts in which tool-use
  identifiers are unique, result identifiers are unique, every result follows a use with its
  identifier, and no message holds several uses unless parallel calls were requested.
\<close>

theorem transcript_accepted_iff_correlated:
  "transcript_ok par ms [] [] \<longleftrightarrow>
   (par \<or> (\<forall>m\<in>set ms. length (filter is_tool_use (canonical_blocks m)) \<le> 1)) \<and>
   correlated (concat (map canonical_blocks ms))"
  using blocks_step_iff[of "concat (map canonical_blocks ms)" "[]" "[]"]
  by (simp add: transcript_ok_iff correlated_def)

definition demo_message :: "MessageRole \<Rightarrow> ContentBlock list \<Rightarrow> Message" where
  "demo_message role bs = \<lparr>msg_role = role, msg_content = [], msg_images = [], msg_blocks = bs\<rparr>"

theorem transcript_accepted_iff_correlated_witness:
  "\<not> transcript_ok True [demo_message TOOL [ToolResultBlock \<lparr>tr_call_id = ''1'', tr_content = [], tr_is_error = False\<rparr>]] [] []"
proof -
  have "\<not> results_follow {} [ToolResultBlock \<lparr>tr_call_id = ''1'', tr_content = [], tr_is_error = False\<rparr>]"
    by (simp add: results_follow_Cons)
  then show ?thesis
    unfolding transcript_accepted_iff_correlated by (simp add: correlated_def demo_message_def canonical_blocks_def)
qed


definition demo_lib :: schema_lib where
  "demo_lib = \<lparr>sl_pattern_compiles = (\<lambda>p. True), sl_check_schema = (\<lambda>s. True), sl_validates = (\<lambda>s v. True)\<rparr>"


subsection \<open>Policy\<close>

text \<open>
  C31. The metadata sent to the policy router carries the trusted context's identity, environment,
  workload, risk and classification, and ceilings that are positive and never looser than the
  gateway's defaults or the caller's limits.
\<close>

theorem projection_trusted_and_tighter:
  assumes "project_policy_request r ctx tokens out defaults ra = Inr m"
  shows "pm_client_id m = ec_client_id ctx \<and> pm_environment m = ec_environment ctx \<and>
    pm_workload m = ec_workload ctx \<and> pm_workload m = gr_workload r \<and>
    pm_risk_level m = ec_risk_level ctx \<and> pm_data_classification m = ec_data_classification ctx \<and>
    0 < pm_max_latency_ms m \<and> pm_max_latency_ms m \<le> df_max_latency_ms defaults \<and>
    opt_all (\<lambda>l. pm_max_latency_ms m \<le> l) (lm_max_latency_ms (gr_limits r)) \<and>
    0 < pm_max_cost_usd m \<and> pm_max_cost_usd m \<le> df_max_cost_usd defaults \<and>
    opt_all (\<lambda>c. pm_max_cost_usd m \<le> c) (lm_max_cost_usd (gr_limits r))"
proof -
  define m' where "m' = \<lparr>pm_request_id = gr_request_id r, pm_client_id = ec_client_id ctx,
               pm_environment = ec_environment ctx, pm_workload = ec_workload ctx,
               pm_risk_level = ec_risk_level ctx, pm_data_classification = ec_data_classification ctx,
               pm_context_tokens_estimated = tokens, pm_max_output_tokens_estimated = out,
               pm_structured_output_required = rq_structured_output (gr_requirements r),
               pm_max_latency_ms = (case lm_max_latency_ms (gr_limits r) of
                 None \<Rightarrow> df_max_latency_ms defaults | Some l \<Rightarrow> min l (df_max_latency_ms defaults)),
               pm_max_cost_usd = (case lm_max_cost_usd (gr_limits r) of None \<Rightarrow> df_max_cost_usd defaults
                 | Some c \<Rightarrow> min c (df_max_cost_usd defaults)),
               pm_runtime_authorization = ra\<rparr>"
  have m': "PolicyRequestMetadata_check m' = Inr m" "ec_workload ctx = gr_workload r"
    using assms unfolding project_policy_request_def Let_def if_raise_Inr m'_def by blast+
  from m'(1) have "m = m'" "0 < pm_max_latency_ms m'" "0 < pm_max_cost_usd m'"
    unfolding PolicyRequestMetadata_check_def by (auto split: option.splits)
  then show ?thesis using m'(2) by (auto simp: m'_def opt_all_def split: option.splits)
qed

theorem projection_trusted_and_tighter_witness:
  "pm_max_latency_ms demo_metadata \<le> 100 \<and> pm_max_latency_ms demo_metadata \<le> df_max_latency_ms demo_defaults \<and>
   pm_data_classification demo_metadata = INTERNAL"
  using projection_trusted_and_tighter[OF demo_projects]
  by (simp add: demo_request_def demo_context_def opt_all_def)

definition authorized_target ::
  "pdp \<Rightarrow> GatewayRequest \<Rightarrow> EffectivePolicyContext \<Rightarrow> ModelRegistry \<Rightarrow> string \<Rightarrow> int \<Rightarrow> int \<Rightarrow>
   PolicyProjectionDefaults \<Rightarrow> ForwardableGovernanceAuthorization option \<Rightarrow> ModelDeployment \<Rightarrow> bool" where
  "authorized_target authorize r ctx registry selected tokens out defaults ra d \<longleftrightarrow>
     (\<exists>m dec. project_policy_request r ctx tokens out defaults ra = Inr m \<and> authorize m = Inr dec \<and>
        (\<exists>digest. registry_digest registry = Inr digest) \<and>
        List.find (\<lambda>x. md_deployment_id x = selected) (mr_deployments registry) = Some d \<and>
        md_model_group d \<in> pa_authorized_model_groups (ad_authorization dec))"

definition same_answer ::
  "ProviderError + ProviderResponse \<Rightarrow> ModelDeployment \<Rightarrow> policy_failure + PolicyEnforcedExecution \<Rightarrow> bool" where
  "same_answer answer d res \<longleftrightarrow> (case answer of
      Inl e \<Rightarrow> res = Inl (ProviderFailed e)
    | Inr resp \<Rightarrow> (\<exists>x. res = Inr x \<and> pe_response x = resp \<and> pe_deployment x = d))"

lemma port_Inr [simp]:
  "ask_pdp authorize m = Inr d \<longleftrightarrow> authorize m = Inr d"
  "boundary b = Inr x \<longleftrightarrow> b = Inr x"
  "config c = Inr y \<longleftrightarrow> c = Inr y"
  by (simp_all add: ask_pdp_def boundary_def config_def split: sum.splits)

text \<open>The subset check of the candidates always passes: they were filtered by group.\<close>

lemma authorized_registry_candidates_total:
  "authorized_registry_candidates registry a =
   Inr (filter (\<lambda>d. md_model_group d \<in> pa_authorized_model_groups a) (mr_deployments registry))"
  by (auto simp: authorized_registry_candidates_def enforce_allowed_subset_def Let_def)

lemma authorize_candidatesD:
  assumes "authorize_candidates authorize r ctx registry tokens out defaults ra = Inr ac"
  shows "\<exists>m. project_policy_request r ctx tokens out defaults ra = Inr m \<and> authorize m = Inr (ac_policy ac) \<and>
    ac_candidates ac = filter (\<lambda>d. md_model_group d \<in> pa_authorized_model_groups (ad_authorization (ac_policy ac)))
      (mr_deployments registry)"
  using assms unfolding authorize_candidates_def by (auto simp: authorized_registry_candidates_total)

lemma by_idD: "by_id registry i = Inr d \<Longrightarrow> d \<in> set (mr_deployments registry) \<and> md_deployment_id d = i"
  by (auto simp: by_id_def dest: find_SomeD split: option.splits)

lemma authorize_candidates_iff:
  "authorize_candidates authorize r ctx registry tokens out defaults ra = Inr ac \<longleftrightarrow>
   (\<exists>m. project_policy_request r ctx tokens out defaults ra = Inr m \<and> authorize m = Inr (ac_policy ac)) \<and>
   registry_digest registry = Inr (ac_registry_digest ac) \<and>
   ac_candidates ac = filter (\<lambda>d. md_model_group d \<in> pa_authorized_model_groups (ad_authorization (ac_policy ac)))
      (mr_deployments registry)"
  unfolding authorize_candidates_def by (cases ac) (auto simp: authorized_registry_candidates_total)

lemma by_id_iff: "by_id registry i = Inr d \<longleftrightarrow> List.find (\<lambda>x. md_deployment_id x = i) (mr_deployments registry) = Some d"
  by (auto simp: by_id_def split: option.splits)

lemma seq_generate: "seq (provider_generate generate q) f sent =
    (case generate sent q of Inl e \<Rightarrow> (Inl (ProviderFailed e), sent @ [q]) | Inr resp \<Rightarrow> f resp (sent @ [q]))"
  by (simp add: seq_def provider_generate_def split: sum.splits)

text \<open>Exactly the authorized target with a valid request is sent.\<close>

lemma sends_target:
  assumes "authorized_target authorize r ctx registry selected tokens out defaults ra d"
    "ProviderRequest_ok lib (mk_provider_request r d out timeout)"
  shows "\<exists>res. execute_selected lib authorize generate r ctx registry selected tokens out defaults timeout ra sent =
      (res, sent @ [mk_provider_request r d out timeout]) \<and>
    same_answer (generate sent (mk_provider_request r d out timeout)) d res"
proof -
  from assms(1) obtain m dec digest where t: "project_policy_request r ctx tokens out defaults ra = Inr m" "authorize m = Inr dec"
    "registry_digest registry = Inr digest" "by_id registry selected = Inr d"
    "md_model_group d \<in> pa_authorized_model_groups (ad_authorization dec)" by (auto simp: authorized_target_def by_id_iff)
  let ?ac = "\<lparr>ac_policy = dec, ac_registry_digest = digest, ac_candidates =
    filter (\<lambda>d. md_model_group d \<in> pa_authorized_model_groups (ad_authorization dec)) (mr_deployments registry)\<rparr>"
  have "authorize_candidates authorize r ctx registry tokens out defaults ra = Inr ?ac"
    using t by (simp add: authorize_candidates_iff)
  with t assms(2) by_idD[OF t(4)] show ?thesis
    by (auto simp: execute_selected_def boundary_def enforce_selected_group_def Let_def seq_require seq_generate
        same_answer_def split: sum.splits)
qed

lemma sends_nothing_else:
  assumes "\<nexists>d. authorized_target authorize r ctx registry selected tokens out defaults ra d \<and>
    ProviderRequest_ok lib (mk_provider_request r d out timeout)"
  shows "\<exists>e. \<forall>generate sent.
    execute_selected lib authorize generate r ctx registry selected tokens out defaults timeout ra sent = (Inl e, sent)"
proof (cases "authorize_candidates authorize r ctx registry tokens out defaults ra")
  case (Inl e)
  then show ?thesis by (simp add: execute_selected_def)
next
  case (Inr ac)
  show ?thesis
  proof (cases "by_id registry selected")
    case (Inl e)
    with Inr show ?thesis by (simp add: execute_selected_def)
  next
    case d: (Inr d)
    with assms Inr have "md_model_group d \<notin> pa_authorized_model_groups (ad_authorization (ac_policy ac)) \<or>
        \<not> ProviderRequest_ok lib (mk_provider_request r d out timeout)"
      by (auto simp: authorized_target_def authorize_candidates_iff by_id_iff)
    with Inr d show ?thesis
      by (auto simp: execute_selected_def boundary_def enforce_selected_group_def Let_def seq_require)
  qed
qed

text \<open>
  C32. Executing a selected deployment sends the provider exactly one request, and hands its
  answer back, when the policy router authorized the model group of that deployment for the
  projected metadata, the registry digests and the provider request is valid. In every other
  case the provider is sent nothing, and the error is the same whatever it would have answered.
\<close>

theorem execution_only_within_authorization:
  "(\<exists>d. authorized_target authorize r ctx registry selected tokens out defaults ra d \<and>
      d \<in> set (mr_deployments registry) \<and> md_deployment_id d = selected \<and>
      ProviderRequest_ok lib (mk_provider_request r d out timeout) \<and>
      (\<forall>generate sent. \<exists>res.
        execute_selected lib authorize generate r ctx registry selected tokens out defaults timeout ra sent =
          (res, sent @ [mk_provider_request r d out timeout]) \<and>
        same_answer (generate sent (mk_provider_request r d out timeout)) d res)) \<or>
   (\<nexists>d. authorized_target authorize r ctx registry selected tokens out defaults ra d \<and>
      ProviderRequest_ok lib (mk_provider_request r d out timeout)) \<and>
   (\<exists>e. \<forall>generate sent.
      execute_selected lib authorize generate r ctx registry selected tokens out defaults timeout ra sent = (Inl e, sent))"
proof (cases "\<exists>d. authorized_target authorize r ctx registry selected tokens out defaults ra d \<and>
    ProviderRequest_ok lib (mk_provider_request r d out timeout)")
  case True
  then obtain d where d: "authorized_target authorize r ctx registry selected tokens out defaults ra d"
    "ProviderRequest_ok lib (mk_provider_request r d out timeout)" by blast
  from d(1) have "d \<in> set (mr_deployments registry) \<and> md_deployment_id d = selected"
    by (intro by_idD) (auto simp: authorized_target_def by_id_iff)
  with sends_target[OF d] d show ?thesis by blast
next
  case False
  with sends_nothing_else[OF False] show ?thesis by blast
qed

text \<open>An authorized execution sends one request; a refused one and an unknown deployment send none.\<close>

abbreviation demo_provider :: provider_port where
  "demo_provider sent q \<equiv> Inl \<lparr>pe_provider = ''p'', pe_code = RATE_LIMIT, pe_retryable = True,
     pe_status_code = Some 429, pe_retry_after_seconds = None\<rparr>"

theorem execution_only_within_authorization_witness:
  "snd (execute_selected demo_lib (\<lambda>_. Inr demo_decision) demo_provider demo_request demo_context demo_registry
     ''a'' 10 20 demo_defaults (Fin 30) None []) =
     [mk_provider_request demo_request (demo_deployment ''a'' (1 / 2)) 20 (Fin 30)] \<and>
   snd (execute_selected demo_lib (\<lambda>_. Inr demo_decision) demo_provider demo_request demo_context demo_registry
     ''c'' 10 20 demo_defaults (Fin 30) None []) = []"
proof
  let ?d = "demo_deployment ''a'' (1 / 2)"
  have ok: "ProviderRequest_ok demo_lib (mk_provider_request demo_request ?d 20 (Fin 30))" by code_simp
  have f: "List.find (\<lambda>x. md_deployment_id x = ''a'') (mr_deployments demo_registry) = Some ?d"
    by (simp add: demo_registry_def demo_deployment_def)
  have g: "md_model_group ?d \<in> pa_authorized_model_groups (ad_authorization demo_decision)" by code_simp
  have "authorized_target (\<lambda>_. Inr demo_decision) demo_request demo_context demo_registry ''a'' 10 20 demo_defaults None d \<longleftrightarrow> d = ?d" for d
    using f g demo_registry_digest by (auto simp: authorized_target_def demo_projects)
  with ok show "snd (execute_selected demo_lib (\<lambda>_. Inr demo_decision) demo_provider demo_request demo_context demo_registry
     ''a'' 10 20 demo_defaults (Fin 30) None []) = [mk_provider_request demo_request ?d 20 (Fin 30)]"
    using execution_only_within_authorization[of "\<lambda>_. Inr demo_decision" demo_request demo_context demo_registry "''a''"
        10 20 demo_defaults None demo_lib "Fin 30"] by (metis append_Nil snd_conv)
  have "List.find (\<lambda>x. md_deployment_id x = ''c'') (mr_deployments demo_registry) = None"
    by (simp add: demo_registry_def demo_deployment_def)
  then have "\<nexists>d. authorized_target (\<lambda>_. Inr demo_decision) demo_request demo_context demo_registry ''c'' 10 20 demo_defaults None d"
    by (simp add: authorized_target_def)
  then show "snd (execute_selected demo_lib (\<lambda>_. Inr demo_decision) demo_provider demo_request demo_context demo_registry
     ''c'' 10 20 demo_defaults (Fin 30) None []) = []"
    using execution_only_within_authorization[of "\<lambda>_. Inr demo_decision" demo_request demo_context demo_registry "''c''"
        10 20 demo_defaults None demo_lib "Fin 30"] by (metis snd_conv)
qed

text \<open>
  C33. A routing explanation ranks only deployments of the registry in a model group the policy
  router authorized for the projected metadata, and every one of them is eligible.
\<close>

theorem explanation_within_authorization:
  assumes "explain authorize r ctx registry rp tokens out defaults hv ra = Inr dec"
  shows "\<exists>m d wp. project_policy_request r ctx tokens out defaults ra = Inr m \<and> authorize m = Inr d \<and>
    for_workload rp (gr_workload r) = Inr wp \<and>
    rp_policy (rd_routing dec) = ad_provenance d \<and>
    list_all (\<lambda>c. rc_deployment c \<in> set (mr_deployments registry) \<and>
      md_model_group (rc_deployment c) \<in> pa_authorized_model_groups (ad_authorization d) \<and>
      eligible r ctx m wp hv (rc_deployment c)) (ranked_candidates dec)"
proof -
  from assms obtain m ac where m: "project_policy_request r ctx tokens out defaults ra = Inr m"
    and ac: "authorize_candidates authorize r ctx registry tokens out defaults ra = Inr ac"
    and rank: "rank r ctx registry ac m rp hv = Inr dec"
    unfolding explain_def by (auto simp: lift_policy_def lift_ranking_def split: sum.splits)
  from authorize_candidatesD[OF ac] m have a: "authorize m = Inr (ac_policy ac)"
    "ac_candidates ac = filter (\<lambda>d. md_model_group d \<in> pa_authorized_model_groups (ad_authorization (ac_policy ac)))
      (mr_deployments registry)" by auto
  from rank obtain wp outs i g where wp: "for_workload rp (gr_workload r) = Inr wp"
    and outs: "emap (evaluate r ctx m wp (pa_authorized_model_groups (ad_authorization (ac_policy ac))) hv)
      (sort_key md_deployment_id (ac_candidates ac)) = Inr outs"
    and dec: "dec = mk_decision ac rp i g (rank_order (rights outs)) (sort_key cr_deployment (lefts outs))"
    by (rule rankE)
  have "rc_deployment c \<in> set (mr_deployments registry) \<and>
      md_model_group (rc_deployment c) \<in> pa_authorized_model_groups (ad_authorization (ac_policy ac)) \<and>
      eligible r ctx m wp hv (rc_deployment c)" if "c \<in> set (rights outs)" for c
    using emap_evaluate_mem(1)[OF outs that] a(2) by (auto dest: evaluate_ranked(3))
  moreover have "rp_policy (rd_routing dec) = ad_provenance (ac_policy ac)" by (simp add: dec mk_decision_def Let_def)
  ultimately show ?thesis using m a(1) wp by (auto simp: list_all_iff dec rank_order_def)
qed

theorem explanation_within_authorization_witness:
  "\<exists>dec. explain (\<lambda>_. Inr demo_decision) demo_request demo_context demo_registry demo_policy 10 20 demo_defaults None None = Inr dec \<and>
     rp_policy (rd_routing dec) = ad_provenance demo_decision \<and>
     list_all (\<lambda>c. rc_deployment c \<in> set (mr_deployments demo_registry)) (ranked_candidates dec)"
proof -
  obtain dec where r: "rank demo_request demo_context demo_registry demo_authorized demo_metadata demo_policy None = Inr dec"
    using demo_rank by blast
  have e: "explain (\<lambda>_. Inr demo_decision) demo_request demo_context demo_registry demo_policy 10 20 demo_defaults None None = Inr dec"
    by (simp add: explain_def demo_projects demo_authorizes lift_policy_def lift_ranking_def r)
  with explanation_within_authorization[OF e] show ?thesis by (auto simp: list_all_iff)
qed

subsection \<open>Signed governance\<close>



text \<open>
  Governance only narrows: the executable candidates are the policy's candidates whose group
  is in both authorizations, there is at least one, and each passes the final recheck of its group.
\<close>

theorem governance_only_narrows:
  assumes "VerifiedGovernanceAuthorization_ok ga" "governance_authorized_candidates cs pa ga = Inr ds"
  shows "ds \<noteq> [] \<and> ds = filter (\<lambda>d. md_model_group d \<in> va_authorized_model_groups ga \<and>
      md_model_group d \<in> pa_authorized_model_groups pa) cs \<and>
    list_all (\<lambda>d. enforce_governance_selected_group ga (md_model_group d) = Inr () \<and>
      enforce_selected_group (md_model_group d) pa = Inr ()) ds"
  using assms
  by (auto simp: governance_authorized_candidates_def enforce_allowed_subset_def Let_def list_all_iff
      enforce_governance_selected_group_def enforce_selected_group_def VerifiedGovernanceAuthorization_ok_def
      split: if_splits)

definition demo_governance :: VerifiedGovernanceAuthorization where
  "demo_governance = \<lparr>va_authorization_id = 1, va_issuer = ''i'', va_audience = [''w''], va_key_id = ''k'',
     va_signing_digest = ''s'', va_issued_at = Aware 0, va_not_before = Aware 0, va_expires_at = Aware 9,
     va_initiative_id = 2, va_ai_system_id = 3, va_agent_id = 4, va_agent_review_digest = ''r'',
     va_request = \<lparr>gb_workflow_id = ''f'', gb_task_id = ''t'', gb_workload = ''x.y'',
       gb_context_tokens_estimated = 10, gb_max_output_tokens_estimated = 20,
       gb_structured_output_required = False, gb_max_latency_ms = 100, gb_max_cost_usd_micros = 3000000\<rparr>,
     va_risk_level = LOW, va_data_classification = INTERNAL, va_scope_digest = ''c'',
     va_authorized_model_groups = {''g'', ''h''},
     va_policy = \<lparr>gp_policy_id = ''p'', gp_policy_version = ''1'', gp_policy_digest = ''d'',
       gp_control_catalog_id = ''c'', gp_control_catalog_version = ''1'', gp_control_catalog_digest = ''d''\<rparr>\<rparr>"

theorem governance_only_narrows_witness:
  "\<exists>ds. governance_authorized_candidates (mr_deployments demo_registry) (ad_authorization demo_decision) demo_governance = Inr ds \<and>
     ds \<noteq> [] \<and> list_all (\<lambda>d. enforce_governance_selected_group demo_governance (md_model_group d) = Inr ()) ds"
proof -
  have ok: "VerifiedGovernanceAuthorization_ok demo_governance" by code_simp
  have "governance_authorized_candidates (mr_deployments demo_registry) (ad_authorization demo_decision) demo_governance =
      Inr (mr_deployments demo_registry)" by code_simp
  with governance_only_narrows[OF ok this] show ?thesis by (auto simp: list_all_iff)
qed

text \<open>
  C34. A governance authorization is accepted exactly when the clock is aware, the audience is
  named, the moment lies in the validity window, and the runtime request equals the signed facts
  one by one, its cost ceiling in micro-dollars after rounding to the decimal context. An accepted
  cost differs from the signed one by at most the rounding error, and not at all when its
  micro-dollars fit the context.
\<close>

theorem governance_binding_decided:
  "(enforce_governance_authorization a rt audience now = Inr () \<longleftrightarrow>
     is_aware now \<and> normalized audience \<and> audience \<in> set (va_audience a) \<and>
     utc_micros (va_not_before a) \<le> utc_micros now \<and> utc_micros now < utc_micros (va_expires_at a) \<and>
     rt_workload rt = gb_workload (va_request a) \<and> rt_risk_level rt = va_risk_level a \<and>
     rt_data_classification rt = va_data_classification a \<and>
     rt_context_tokens_estimated rt = gb_context_tokens_estimated (va_request a) \<and>
     rt_max_output_tokens_estimated rt = gb_max_output_tokens_estimated (va_request a) \<and>
     rt_structured_output_required rt = gb_structured_output_required (va_request a) \<and>
     rt_max_latency_ms rt = gb_max_latency_ms (va_request a) \<and>
     d_mul (rt_max_cost_usd rt) 1000000 = Some (of_int (gb_max_cost_usd_micros (va_request a)))) \<and>
   (enforce_governance_authorization a rt audience now = Inr () \<longrightarrow>
     \<bar>of_int (gb_max_cost_usd_micros (va_request a)) - rt_max_cost_usd rt * 1000000\<bar>
       \<le> max 1 \<bar>rt_max_cost_usd rt * 1000000\<bar> / (2 * 10 ^ 27)) \<and>
   (enforce_governance_authorization a rt audience now = Inr () \<and>
     d_fix (rt_max_cost_usd rt * 1000000) = Some (rt_max_cost_usd rt * 1000000) \<longrightarrow>
     rt_max_cost_usd rt * 1000000 = of_int (gb_max_cost_usd_micros (va_request a)))"
proof -
  have "first_mismatch cs = Inr () \<longleftrightarrow> list_all fst cs" for cs
    by (induction cs) (auto simp: first_mismatch_def)
  then have iff: "enforce_governance_authorization a rt audience now = Inr () \<longleftrightarrow>
     is_aware now \<and> normalized audience \<and> audience \<in> set (va_audience a) \<and>
     utc_micros (va_not_before a) \<le> utc_micros now \<and> utc_micros now < utc_micros (va_expires_at a) \<and>
     rt_workload rt = gb_workload (va_request a) \<and> rt_risk_level rt = va_risk_level a \<and>
     rt_data_classification rt = va_data_classification a \<and>
     rt_context_tokens_estimated rt = gb_context_tokens_estimated (va_request a) \<and>
     rt_max_output_tokens_estimated rt = gb_max_output_tokens_estimated (va_request a) \<and>
     rt_structured_output_required rt = gb_structured_output_required (va_request a) \<and>
     rt_max_latency_ms rt = gb_max_latency_ms (va_request a) \<and>
     d_mul (rt_max_cost_usd rt) 1000000 = Some (of_int (gb_max_cost_usd_micros (va_request a)))"
    by (cases "d_mul (rt_max_cost_usd rt) 1000000")
       (auto simp: enforce_governance_authorization_def binding_checks_def Let_def)
  show ?thesis
    unfolding iff using d_mul_near[of "rt_max_cost_usd rt" 1000000]
    by (intro conjI) (auto simp: d_mul_def simp del: power_numeral)
qed

definition demo_runtime :: "rat \<Rightarrow> GovernanceRuntimeRequest" where
  "demo_runtime cost = \<lparr>rt_workload = ''x.y'', rt_risk_level = LOW, rt_data_classification = INTERNAL,
     rt_context_tokens_estimated = 10, rt_max_output_tokens_estimated = 20,
     rt_structured_output_required = False, rt_max_latency_ms = 100, rt_max_cost_usd = cost\<rparr>"

lemma demo_cost_rounds: "d_mul (3 + 1 / 10 ^ 29) 1000000 = Some 3000000"
  using d_fix_eq[of 6 "3000000 + 1 / 10 ^ 23" "3 * 10 ^ 27"] by (simp add: d_mul_def pow10_def)

lemma governance_cost_rounded:
  "VerifiedGovernanceAuthorization_ok demo_governance"
  "enforce_governance_authorization demo_governance (demo_runtime (3 + 1 / 10 ^ 29)) ''w'' (Aware 5) = Inr ()"
  "gb_max_cost_usd_micros (va_request demo_governance) = 3000000"
proof -
  show "VerifiedGovernanceAuthorization_ok demo_governance" by code_simp
  show "gb_max_cost_usd_micros (va_request demo_governance) = 3000000" by (simp add: demo_governance_def)
  show "enforce_governance_authorization demo_governance (demo_runtime (3 + 1 / 10 ^ 29)) ''w'' (Aware 5) = Inr ()"
    by (simp add: enforce_governance_authorization_def binding_checks_def demo_runtime_def demo_governance_def
        demo_cost_rounds first_mismatch_def is_aware_def normalized_def py_strip_def py_space_def Let_def del: power_numeral)
qed

theorem governance_binding_decided_witness:
  "\<bar>of_int 3000000 - (3 + 1 / 10 ^ 29) * 1000000\<bar> \<le> max 1 \<bar>(3 + 1 / 10 ^ 29) * 1000000\<bar> / (2 * 10 ^ 27 :: rat) \<and>
   rt_workload (demo_runtime (3 + 1 / 10 ^ 29)) = gb_workload (va_request demo_governance)"
proof -
  have c: "rt_max_cost_usd (demo_runtime (3 + 1 / 10 ^ 29)) = 3 + 1 / 10 ^ 29" by (simp add: demo_runtime_def)
  show ?thesis
    using governance_binding_decided[of demo_governance "demo_runtime (3 + 1 / 10 ^ 29)" "''w''" "Aware 5"]
      governance_cost_rounded(2) unfolding governance_cost_rounded(3) c by blast
qed

end
