(* ===== verification/Execution.thy ===== *)
theory Execution
  imports Ranking
begin

text \<open>
  Resilient execution (\<open>ResilientExecutionService\<close> of \<open>application/resilience.py\<close>, the retry
  values of \<open>domain/resilience.py\<close> and \<open>application/execution_deadline.py\<close>).

  The service works on a state: the health port's state, the attempts and fallback sequence it
  builds, and a log of the provider calls and sleeps it makes. What the outside decides is an
  input: \<open>world i n\<close> holds the clock and UUID readings of attempt \<open>n\<close> on candidate \<open>i\<close> and the
  adapters' behaviour in it. Telemetry spans and the best-effort operational recorder change no
  result and are not modelled; the cleanup timeout of a release is not reached.
\<close>

subsection \<open>Policies and deadline\<close>

record RetryPolicy =
  ry_max_attempts_per_deployment :: int
  ry_max_fallbacks :: int
  ry_base_delay_seconds :: pyfloat
  ry_max_delay_seconds :: pyfloat
  ry_jitter_ratio :: pyfloat

text \<open>The float \<open>1.0\<close>.\<close>

definition fone :: pyfloat where
  "fone = Fin (2 ^ 1074)"

definition RetryPolicy_ok :: "RetryPolicy \<Rightarrow> bool" where
  "RetryPolicy_ok p \<longleftrightarrow> 0 < ry_max_attempts_per_deployment p \<and> 0 \<le> ry_max_fallbacks p \<and>
     \<not> flt (ry_base_delay_seconds p) fzero \<and>
     \<not> flt (ry_max_delay_seconds p) (ry_base_delay_seconds p) \<and>
     fle fzero (ry_jitter_ratio p) \<and> fle (ry_jitter_ratio p) fone"

record FallbackSafetyState =
  fs_provider_output_observed :: bool
  fs_external_side_effect_executed :: bool
  fs_opaque_reasoning_state_established :: bool

definition automatic_replay_allowed :: "FallbackSafetyState \<Rightarrow> bool" where
  "automatic_replay_allowed s \<longleftrightarrow> \<not> (fs_provider_output_observed s \<or>
     fs_external_side_effect_executed s \<or> fs_opaque_reasoning_state_established s)"

record ExecutionDeadline =
  dl_started_at :: "pyfloat option"
  dl_expires_at :: "pyfloat option"

text \<open>\<open>timeout_ms / 1000\<close>: the integer quotient rounded once.\<close>

definition ms_to_seconds :: "int \<Rightarrow> pyfloat" where
  "ms_to_seconds ms = f_round (round_half_even (ms * 2 ^ 1074) 1000) 0"

datatype ExecutionAttemptOutcome = ATTEMPT_SUCCEEDED | TRANSIENT_FAILURE | PERMANENT_FAILURE | CIRCUIT_OPEN

record ExecutionAttempt =
  xa_deployment_id :: string
  xa_attempt_number :: int
  xa_outcome :: ExecutionAttemptOutcome
  xa_latency_ms :: int
  xa_error_code :: "ProviderErrorCode option"
  xa_status_code :: "int option"
  xa_retry_delay_seconds :: "pyfloat option"

datatype exec_failure =
    ResilienceExecutionError "ExecutionAttempt list" "ProviderErrorCode option"
  | ExecutionDeadlineExceeded
  | ExecValueError string
  | CandidateOutsideGroup
  | ProviderResolutionError
  | HealthError health_failure
  | ProviderRaised ProviderError
  | UnexpectedError
  | CancelledError
  | GeneratorExit

definition validate_execution_timeout_ms :: "int option \<Rightarrow> exec_failure + unit" where
  "validate_execution_timeout_ms v = (case v of None \<Rightarrow> Inr ()
     | Some ms \<Rightarrow> if 1 \<le> ms \<and> ms \<le> 86400000 then Inr () else Inl (ExecValueError ''execution_timeout_ms''))"

definition deadline_start :: "int option \<Rightarrow> pyfloat \<Rightarrow> exec_failure + ExecutionDeadline" where
  "deadline_start timeout_ms started =
     ebind (validate_execution_timeout_ms timeout_ms) (\<lambda>_.
     case timeout_ms of
       None \<Rightarrow> Inr \<lparr>dl_started_at = None, dl_expires_at = None\<rparr>
     | Some ms \<Rightarrow> if \<not> ffinite started then Inl ExecutionDeadlineExceeded
         else Inr \<lparr>dl_started_at = Some started, dl_expires_at = Some (fadd started (ms_to_seconds ms))\<rparr>)"

definition remaining_seconds :: "ExecutionDeadline \<Rightarrow> pyfloat \<Rightarrow> exec_failure + pyfloat option" where
  "remaining_seconds d now = (case (dl_expires_at d, dl_started_at d) of
      (Some expires, Some started) \<Rightarrow>
        if \<not> ffinite now \<or> flt now started \<or> fle expires now then Inl ExecutionDeadlineExceeded
        else Inr (Some (fsub expires now))
    | _ \<Rightarrow> Inr None)"

definition deadline_check :: "ExecutionDeadline \<Rightarrow> pyfloat \<Rightarrow> exec_failure + unit" where
  "deadline_check d now = ebind (remaining_seconds d now) (\<lambda>_. Inr ())"

subsection \<open>Retry delay and latency\<close>

definition hex_val :: "string \<Rightarrow> int" where
  "hex_val s = foldl (\<lambda>a c. 16 * a + (if is_digit c then of_char c - 48 else of_char c - 87)) 0 s"

text \<open>\<open>2.0 ** e\<close>, which overflows beyond the exponent range of a float.\<close>

definition f_pow2 :: "int \<Rightarrow> exec_failure + pyfloat" where
  "f_pow2 e = (if 1024 \<le> e then Inl UnexpectedError else Inr (Fin (2 ^ nat (1074 + e))))"

text \<open>The first eight digest bytes as a fraction of \<open>2 ^ 64\<close>.\<close>

definition jitter_unit :: "string \<Rightarrow> pyfloat" where
  "jitter_unit seed = f_round (hex_val (take 16 (sha256 seed)) * 2 ^ 1010) 0"

definition retry_delay_seconds ::
  "RetryPolicy \<Rightarrow> string \<Rightarrow> string \<Rightarrow> int \<Rightarrow> pyfloat option \<Rightarrow> exec_failure + pyfloat" where
  "retry_delay_seconds p request_id deployment_id n retry_after =
     ebind (f_pow2 (max 0 (n - 1))) (\<lambda>two.
     let raw = fmul (ry_base_delay_seconds p) two;
         exponential = (if flt (ry_max_delay_seconds p) raw then ry_max_delay_seconds p else raw);
         unit = jitter_unit (request_id @ '':'' @ deployment_id @ '':'' @ int_str n);
         jittered = fadd exponential (fmul (fmul exponential (ry_jitter_ratio p)) unit);
         requested = (case retry_after of None \<Rightarrow> fzero | Some v \<Rightarrow> v);
         delay = (if fle requested jittered then jittered else requested)
     in Inr (if flt (ry_max_delay_seconds p) delay then ry_max_delay_seconds p else delay))"

text \<open>The float \<open>1000.0\<close>.\<close>

definition f_1000 :: pyfloat where
  "f_1000 = Fin (1000 * 2 ^ 1074)"

definition latency_ms :: "pyfloat \<Rightarrow> pyfloat \<Rightarrow> exec_failure + int" where
  "latency_ms started finished =
     (case int_of_float (fmul (fsub finished started) f_1000) of
        None \<Rightarrow> Inl UnexpectedError | Some n \<Rightarrow> Inr (max 0 n))"

subsection \<open>Ports and state\<close>

text \<open>The operations of \<open>DeploymentHealthPort\<close> the services call.\<close>

record 's health_ops =
  op_allow :: "health_env \<Rightarrow> string \<Rightarrow> ('s, health_failure, HealthAdmission option) pymethod"
  op_release :: "health_env \<Rightarrow> HealthAdmission \<Rightarrow> ('s, health_failure, unit) pymethod"
  op_success :: "health_env \<Rightarrow> string \<Rightarrow> int \<Rightarrow> HealthAdmission option \<Rightarrow> ('s, health_failure, bool) pymethod"
  op_failure :: "health_env \<Rightarrow> string \<Rightarrow> ProviderError \<Rightarrow> int \<Rightarrow> HealthAdmission option \<Rightarrow>
    ('s, health_failure, unit) pymethod"
  op_snapshot :: "health_env \<Rightarrow> string \<Rightarrow> ('s, health_failure, DeploymentHealthSnapshot) pymethod"
  op_admitted :: "health_env \<Rightarrow> HealthAdmission \<Rightarrow> ('s, health_failure, bool) pymethod"

text \<open>What awaiting a provider call comes to; \<open>TimedOut\<close> is a \<open>TimeoutError\<close>.\<close>

datatype call_outcome =
    Responded ProviderResponse | Failed ProviderError | TimedOut | Crashed | Cancelled

record attempt_world =
  wd_check_loop :: pyfloat
  wd_allow :: health_env
  wd_started :: pyfloat
  wd_check_call :: pyfloat
  wd_generate :: "string \<Rightarrow> ProviderRequest \<Rightarrow> call_outcome"
  wd_check_response :: pyfloat
  wd_responded :: pyfloat
  wd_success :: health_env
  wd_check_error :: pyfloat
  wd_failed :: pyfloat
  wd_failure :: health_env
  wd_snapshot :: health_env
  wd_finished :: pyfloat
  wd_release :: health_env
  wd_check_sleep :: pyfloat

record ResilientExecutionResult =
  xr_deployment :: ModelDeployment
  xr_response :: ProviderResponse
  xr_routing :: RoutingProvenance
  xr_attempts :: "ExecutionAttempt list"

record 's exec_state =
  ex_health :: 's
  ex_attempts :: "ExecutionAttempt list"
  ex_sequence :: "string list"
  ex_last_error :: "ProviderError option"
  ex_calls :: "(string \<times> ProviderRequest) list"
  ex_sleeps :: "pyfloat list"

type_synonym ('s, 'a) exec = "('s exec_state, exec_failure, 'a) pymethod"

text \<open>The fixed arguments of one execution.\<close>

record 's exec_args =
  xg_ops :: "'s health_ops"
  xg_policy :: RetryPolicy
  xg_providers :: "string \<times> string \<rightharpoonup> string"
  xg_lib :: schema_lib
  xg_request :: GatewayRequest
  xg_decision :: RankingDecision
  xg_max_output_tokens :: int
  xg_timeout_seconds :: pyfloat
  xg_deadline :: ExecutionDeadline
  xg_world :: "nat \<Rightarrow> int \<Rightarrow> attempt_world"

definition on_health :: "('s, health_failure, 'a) pymethod \<Rightarrow> ('s, 'a) exec" where
  "on_health m st = (case m (ex_health st) of
      (Inl e, h) \<Rightarrow> (Inl (HealthError e), st\<lparr>ex_health := h\<rparr>)
    | (Inr x, h) \<Rightarrow> (Inr x, st\<lparr>ex_health := h\<rparr>))"

definition update :: "('t \<Rightarrow> 't) \<Rightarrow> ('t, exec_failure, unit) pymethod" where
  "update f st = (Inr (), f st)"

definition log_attempt :: "ExecutionAttempt \<Rightarrow> ('s, unit) exec" where
  "log_attempt a = update (\<lambda>st. st\<lparr>ex_attempts := ex_attempts st @ [a]\<rparr>)"

text \<open>\<open>except ProviderError\<close>: only provider errors reach the handler.\<close>

definition catch_provider ::
  "('t, exec_failure, 'a) pymethod \<Rightarrow> (ProviderError \<Rightarrow> ('t, exec_failure, 'a) pymethod) \<Rightarrow>
   ('t, exec_failure, 'a) pymethod" where
  "catch_provider m h st = (case m st of (Inl (ProviderRaised e), st') \<Rightarrow> h e st' | r \<Rightarrow> r)"

text \<open>
  \<open>health_admission_scope\<close>: the admission is released on every exit; a release error is
  suppressed when the body ended in a cancellation, generator close or deadline expiry and
  replaces the outcome otherwise.
\<close>

definition suppresses_release :: "exec_failure \<Rightarrow> bool" where
  "suppresses_release e \<longleftrightarrow> e = CancelledError \<or> e = GeneratorExit \<or> e = ExecutionDeadlineExceeded"

definition admission_scope ::
  "('t, exec_failure, unit) pymethod \<Rightarrow> ('t, exec_failure, 'a) pymethod \<Rightarrow> ('t, exec_failure, 'a) pymethod" where
  "admission_scope release body st = (case body st of
      (r, st') \<Rightarrow> (case release st' of
         (Inl e, st'') \<Rightarrow>
           (case r of Inl e' \<Rightarrow> if suppresses_release e' then (r, st'') else (Inl e, st'')
            | Inr _ \<Rightarrow> (Inl e, st''))
       | (Inr _, st'') \<Rightarrow> (r, st'')))"

subsection \<open>One attempt\<close>

text \<open>
  \<open>bounded_probe_call\<close>: only an admission with a probe lifetime turns a timeout into the
  sanitized probe error; otherwise the timeout propagates as an unexpected error.
\<close>

definition provider_call ::
  "attempt_world \<Rightarrow> ModelDeployment \<Rightarrow> string \<Rightarrow> ProviderRequest \<Rightarrow> HealthAdmission \<Rightarrow>
   ('s, ProviderResponse) exec" where
  "provider_call w d adapter q adm =
     seq (update (\<lambda>st. st\<lparr>ex_calls := ex_calls st @ [(md_deployment_id d, q)]\<rparr>)) (\<lambda>_.
     case wd_generate w adapter q of
       Responded resp \<Rightarrow> ret resp
     | Failed e \<Rightarrow> raise (ProviderRaised e)
     | TimedOut \<Rightarrow> raise (if ha_probe_timeout_seconds adm = None then UnexpectedError
         else ProviderRaised (probe_expired_error (md_provider d)))
     | Crashed \<Rightarrow> raise UnexpectedError
     | Cancelled \<Rightarrow> raise CancelledError)"

datatype step_result =
    Finished ResilientExecutionResult | RetryAfter pyfloat | NextCandidate

text \<open>The \<open>try\<close> block: call, then report success unless the probe was retired.\<close>

definition try_call ::
  "'s exec_args \<Rightarrow> attempt_world \<Rightarrow> ModelDeployment \<Rightarrow> string \<Rightarrow> ProviderRequest \<Rightarrow> HealthAdmission \<Rightarrow>
   ('s, ProviderResponse) exec" where
  "try_call g w d adapter q adm =
     seq (lift_result (deadline_check (xg_deadline g) (wd_check_call w))) (\<lambda>_.
     seq (provider_call w d adapter q adm) (\<lambda>resp.
     seq (lift_result (deadline_check (xg_deadline g) (wd_check_response w))) (\<lambda>_.
     seq (lift_result (latency_ms (wd_started w) (wd_responded w))) (\<lambda>ms.
     seq (on_health (op_success (xg_ops g) (wd_success w) (md_deployment_id d) ms (Some adm))) (\<lambda>accepted.
     if accepted then ret resp else raise (ProviderRaised (probe_expired_error (md_provider d))))))))"

text \<open>The \<open>else\<close> branch: the attempt succeeded.\<close>

definition succeeded ::
  "'s exec_args \<Rightarrow> attempt_world \<Rightarrow> ModelDeployment \<Rightarrow> int \<Rightarrow> ProviderResponse \<Rightarrow> ('s, step_result) exec" where
  "succeeded g w d n resp =
     seq (lift_result (latency_ms (wd_started w) (wd_finished w))) (\<lambda>ms.
     seq (log_attempt \<lparr>xa_deployment_id = md_deployment_id d, xa_attempt_number = n,
            xa_outcome = ATTEMPT_SUCCEEDED, xa_latency_ms = ms, xa_error_code = None,
            xa_status_code = None, xa_retry_delay_seconds = None\<rparr>) (\<lambda>_.
     seq get_state (\<lambda>st.
     ret (Finished \<lparr>xr_deployment = d, xr_response = resp,
       xr_routing = (rd_routing (xg_decision g))\<lparr>rp_provider := Some (md_provider d),
         rp_model := Some (md_model_id d), rp_deployment := Some (md_deployment_id d),
         rp_fallback_sequence := ex_sequence st\<rparr>,
       xr_attempts = ex_attempts st\<rparr>))))"

text \<open>The handler of a provider error.\<close>

definition can_retry ::
  "'s exec_args \<Rightarrow> attempt_world \<Rightarrow> ModelDeployment \<Rightarrow> int \<Rightarrow> ProviderError \<Rightarrow> ('s, bool) exec" where
  "can_retry g w d n e =
     (if is_transient_provider_error e \<and> n < ry_max_attempts_per_deployment (xg_policy g) then
        seq (on_health (op_snapshot (xg_ops g) (wd_snapshot w) (md_deployment_id d))) (\<lambda>snap.
        ret (hs_circuit_state snap \<noteq> OPEN))
      else ret False)"

definition failed_attempt ::
  "ModelDeployment \<Rightarrow> int \<Rightarrow> ProviderError \<Rightarrow> int \<Rightarrow> pyfloat option \<Rightarrow> ExecutionAttempt" where
  "failed_attempt d n e ms delay =
     \<lparr>xa_deployment_id = md_deployment_id d, xa_attempt_number = n,
      xa_outcome = (if is_transient_provider_error e then TRANSIENT_FAILURE else PERMANENT_FAILURE),
      xa_latency_ms = ms, xa_error_code = Some (pe_code e), xa_status_code = pe_status_code e,
      xa_retry_delay_seconds = delay\<rparr>"

definition retry_delay_if ::
  "'s exec_args \<Rightarrow> ModelDeployment \<Rightarrow> int \<Rightarrow> ProviderError \<Rightarrow> bool \<Rightarrow> exec_failure + pyfloat option" where
  "retry_delay_if g d n e retry =
     (if retry then
        ebind (retry_delay_seconds (xg_policy g) (uuid_str (gr_request_id (xg_request g)))
                (md_deployment_id d) n (pe_retry_after_seconds e)) (\<lambda>v. Inr (Some v))
      else Inr None)"

definition handle_error ::
  "'s exec_args \<Rightarrow> attempt_world \<Rightarrow> ModelDeployment \<Rightarrow> int \<Rightarrow> HealthAdmission \<Rightarrow> ProviderError \<Rightarrow>
   ('s, step_result) exec" where
  "handle_error g w d n adm e =
     seq (lift_result (deadline_check (xg_deadline g) (wd_check_error w))) (\<lambda>_.
     seq (lift_result (latency_ms (wd_started w) (wd_failed w))) (\<lambda>ms.
     seq (on_health (op_failure (xg_ops g) (wd_failure w) (md_deployment_id d) e ms (Some adm))) (\<lambda>_.
     seq (can_retry g w d n e) (\<lambda>retry.
     seq (lift_result (retry_delay_if g d n e retry)) (\<lambda>delay.
     seq (log_attempt (failed_attempt d n e ms delay)) (\<lambda>_.
     seq (update (\<lambda>st. st\<lparr>ex_last_error := Some e\<rparr>)) (\<lambda>_.
     seq get_state (\<lambda>st.
     if \<not> is_transient_provider_error e
     then raise (ResilienceExecutionError (ex_attempts st) (Some (pe_code e)))
     else case delay of Some v \<Rightarrow> ret (RetryAfter v) | None \<Rightarrow> ret NextCandidate))))))))"

text \<open>The attempt under its admission.\<close>

definition admitted_attempt ::
  "'s exec_args \<Rightarrow> attempt_world \<Rightarrow> ModelDeployment \<Rightarrow> int \<Rightarrow> string \<Rightarrow> ProviderRequest \<Rightarrow> HealthAdmission \<Rightarrow>
   ('s, step_result) exec" where
  "admitted_attempt g w d n adapter q adm =
     admission_scope (on_health (op_release (xg_ops g) (wd_release w) adm))
       (catch_provider
          (seq (try_call g w d adapter q adm) (\<lambda>resp. succeeded g w d n resp))
          (handle_error g w d n adm))"

definition attempt ::
  "'s exec_args \<Rightarrow> nat \<Rightarrow> ModelDeployment \<Rightarrow> int \<Rightarrow> ('s, step_result) exec" where
  "attempt g i d n = (let w = xg_world g i n in
     seq (lift_result (deadline_check (xg_deadline g) (wd_check_loop w))) (\<lambda>_.
     case xg_providers g (md_provider d, md_api_family d) of
       None \<Rightarrow> raise ProviderResolutionError
     | Some adapter \<Rightarrow>
         (let q = mk_provider_request (xg_request g) d (xg_max_output_tokens g) (xg_timeout_seconds g) in
          if \<not> ProviderRequest_ok (xg_lib g) q then raise (ExecValueError ''provider request'')
          else
            seq (on_health (op_allow (xg_ops g) (wd_allow w) (md_deployment_id d))) (\<lambda>admission.
            case admission of
              None \<Rightarrow>
                seq (log_attempt \<lparr>xa_deployment_id = md_deployment_id d,
                       xa_attempt_number = (if n = 1 then 0 else n), xa_outcome = CIRCUIT_OPEN,
                       xa_latency_ms = 0, xa_error_code = None, xa_status_code = None,
                       xa_retry_delay_seconds = None\<rparr>) (\<lambda>_. ret NextCandidate)
            | Some adm \<Rightarrow>
                seq (update (\<lambda>st. if n = 1
                       then st\<lparr>ex_sequence := ex_sequence st @ [md_deployment_id d]\<rparr> else st)) (\<lambda>_.
                admitted_attempt g w d n adapter q adm)))))"

subsection \<open>The loops\<close>

text \<open>\<open>for attempt_number in range(1, max + 1)\<close>, with \<open>k\<close> iterations left.\<close>

fun attempts_loop :: "'s exec_args \<Rightarrow> nat \<Rightarrow> ModelDeployment \<Rightarrow> nat \<Rightarrow> int \<Rightarrow>
    ('s, ResilientExecutionResult option) exec" where
  "attempts_loop g i d 0 n = ret None"
| "attempts_loop g i d (Suc k) n =
     seq (attempt g i d n) (\<lambda>r. case r of
       Finished x \<Rightarrow> ret (Some x)
     | NextCandidate \<Rightarrow> ret None
     | RetryAfter delay \<Rightarrow>
         seq (lift_result (deadline_check (xg_deadline g) (wd_check_sleep (xg_world g i n)))) (\<lambda>_.
         seq (update (\<lambda>st. st\<lparr>ex_sleeps := ex_sleeps st @ [delay]\<rparr>)) (\<lambda>_.
         attempts_loop g i d k (n + 1))))"

fun candidates_loop :: "'s exec_args \<Rightarrow> nat \<Rightarrow> RankedCandidate list \<Rightarrow> ('s, ResilientExecutionResult) exec" where
  "candidates_loop g i [] = seq get_state (\<lambda>st.
     raise (ResilienceExecutionError (ex_attempts st) (map_option pe_code (ex_last_error st))))"
| "candidates_loop g i (c # cs) =
     seq (attempts_loop g i (rc_deployment c) (nat (ry_max_attempts_per_deployment (xg_policy g))) 1) (\<lambda>r.
     case r of Some x \<Rightarrow> ret x | None \<Rightarrow> candidates_loop g (Suc i) cs)"

definition bounded_candidates :: "'s exec_args \<Rightarrow> RankedCandidate list" where
  "bounded_candidates g = take (nat (ry_max_fallbacks (xg_policy g) + 1)) (ranked_candidates (xg_decision g))"

definition validate_candidate :: "RankingDecision \<Rightarrow> RankedCandidate \<Rightarrow> bool" where
  "validate_candidate d c \<longleftrightarrow> md_model_group (rc_deployment c) = rp_authorized_model_group (rd_routing d)"

definition execute_body :: "'s exec_args \<Rightarrow> FallbackSafetyState \<Rightarrow> ('s, ResilientExecutionResult) exec" where
  "execute_body g safety =
     (if rd_selected (xg_decision g) = None then raise (ResilienceExecutionError [] None)
      else if xg_max_output_tokens g \<le> 0 then raise (ExecValueError ''max_output_tokens'')
      else if fle (xg_timeout_seconds g) fzero then raise (ExecValueError ''provider_timeout_seconds'')
      else if \<not> automatic_replay_allowed safety then raise (ResilienceExecutionError [] None)
      else if \<not> list_all (validate_candidate (xg_decision g)) (bounded_candidates g) then raise CandidateOutsideGroup
      else candidates_loop g 0 (bounded_candidates g))"

text \<open>
  \<open>ExecutionDeadline.run\<close> around the body: \<open>expired\<close> tells whether the timer fired while the
  body ran, \<open>before\<close> and \<open>after\<close> are the clock readings around it. A cancellation from outside
  passes through.
\<close>

definition deadline_run ::
  "ExecutionDeadline \<Rightarrow> pyfloat \<Rightarrow> bool \<Rightarrow> pyfloat \<Rightarrow> ('s, 'a) exec \<Rightarrow> ('s, 'a) exec" where
  "deadline_run d before expired after body =
     seq (lift_result (remaining_seconds d before)) (\<lambda>remaining.
     if remaining = None then body
     else (\<lambda>st. case body st of
        (Inl CancelledError, st') \<Rightarrow> (if expired then (Inl ExecutionDeadlineExceeded, st') else (Inl CancelledError, st'))
      | (r, st') \<Rightarrow> (if expired then (Inl ExecutionDeadlineExceeded, st')
          else case deadline_check d after of Inl e \<Rightarrow> (Inl e, st') | Inr _ \<Rightarrow> (r, st'))))"

definition execute ::
  "'s exec_args \<Rightarrow> FallbackSafetyState \<Rightarrow> pyfloat \<Rightarrow> bool \<Rightarrow> pyfloat \<Rightarrow> ('s, ResilientExecutionResult) exec" where
  "execute g safety before expired after =
     deadline_run (xg_deadline g) before expired after (execute_body g safety)"

definition exec_init :: "'s \<Rightarrow> 's exec_state" where
  "exec_init h = \<lparr>ex_health = h, ex_attempts = [], ex_sequence = [], ex_last_error = None,
     ex_calls = [], ex_sleeps = []\<rparr>"

end
