(* ===== verification/Method_Logic.thy ===== *)
theory Method_Logic
  imports Prelude
begin

text \<open>
  Weakest preconditions for methods that return or raise: \<open>wp m Q E s\<close> says that running \<open>m\<close> from
  \<open>s\<close> ends in \<open>Q\<close> when it returns and in \<open>E\<close> when it raises. The collection \<open>wp_simps\<close> computes it
  along the control flow; calls whose behaviour is not known are met by \<open>wp_any\<close> and \<open>wp_mono\<close>.
\<close>

named_theorems wp_simps

definition wp ::
  "('s, 'e, 'a) pymethod \<Rightarrow> ('a \<Rightarrow> 's \<Rightarrow> bool) \<Rightarrow> ('e \<Rightarrow> 's \<Rightarrow> bool) \<Rightarrow> 's \<Rightarrow> bool" where
  "wp m Q E s \<longleftrightarrow> (case m s of (r, t) \<Rightarrow> (case r of Inr x \<Rightarrow> Q x t | Inl e \<Rightarrow> E e t))"

lemma wp_ret [wp_simps]: "wp (ret x) Q E s \<longleftrightarrow> Q x s"
  by (simp add: wp_def)

lemma wp_ret_fun: "wp (ret x) Q E = Q x"
  by (simp add: fun_eq_iff wp_ret)

lemma wp_raise [wp_simps]: "wp (raise e) Q E s \<longleftrightarrow> E e s"
  by (simp add: wp_def)

lemma wp_get_state [wp_simps]: "wp get_state Q E s \<longleftrightarrow> Q s s"
  by (simp add: wp_def get_state_def)

lemma wp_seq [wp_simps]: "wp (seq m f) Q E s \<longleftrightarrow> wp m (\<lambda>x. wp (f x) Q E) E s"
  by (cases "m s") (auto simp: wp_def seq_def split: sum.splits)

lemma wp_lift [wp_simps]:
  "wp (lift_result r) Q E s \<longleftrightarrow> (\<forall>x. r = Inr x \<longrightarrow> Q x s) \<and> (\<forall>e. r = Inl e \<longrightarrow> E e s)"
  by (cases r) (auto simp: wp_def lift_result_def)

lemma wp_if [wp_simps]:
  "wp (if c then m else n) Q E s \<longleftrightarrow> (c \<longrightarrow> wp m Q E s) \<and> (\<not> c \<longrightarrow> wp n Q E s)"
  by simp

lemma wp_option [wp_simps]:
  "wp (case x of None \<Rightarrow> m | Some y \<Rightarrow> f y) Q E s \<longleftrightarrow>
   (x = None \<longrightarrow> wp m Q E s) \<and> (\<forall>y. x = Some y \<longrightarrow> wp (f y) Q E s)"
  by (cases x) auto

lemma wp_any: "(\<And>x t. Q x t) \<Longrightarrow> (\<And>e t. E e t) \<Longrightarrow> wp m Q E s"
  by (auto simp: wp_def split: prod.splits sum.splits)

lemma wp_mono:
  "wp m Q E s \<Longrightarrow> (\<And>x t. Q x t \<Longrightarrow> Q' x t) \<Longrightarrow> (\<And>e t. E e t \<Longrightarrow> E' e t) \<Longrightarrow> wp m Q' E' s"
  by (auto simp: wp_def split: prod.splits sum.splits)

lemma wp_result:
  assumes "wp m Q E s" "m s = (r, t)"
  shows "(\<forall>x. r = Inr x \<longrightarrow> Q x t) \<and> (\<forall>e. r = Inl e \<longrightarrow> E e t)"
  using assms by (auto simp: wp_def)

lemma wp_returns: "m s = (Inr x, t) \<Longrightarrow> wp m Q E s \<longleftrightarrow> Q x t"
  by (simp add: wp_def)

end
