(* ===== verification/Execution_Laws.thy ===== *)
theory Execution_Laws
  imports Execution Method_Logic "HOL-Library.Sublist"
begin

text \<open>
  What resilient execution records: the postcondition of one attempt, whatever the health port
  does, and its composition along the retry and fallback loops. An execution ends with a success,
  with a permanent failure, with the candidates exhausted, or with an error of its surroundings.
\<close>

subsection \<open>Preconditions of the execution's own combinators\<close>

lemma wp_on_health [wp_simps]:
  "wp (on_health m) Q E st \<longleftrightarrow>
   wp m (\<lambda>x h. Q x (st\<lparr>ex_health := h\<rparr>)) (\<lambda>e h. E (HealthError e) (st\<lparr>ex_health := h\<rparr>)) (ex_health st)"
  by (simp add: wp_def on_health_def split: prod.splits sum.splits)

lemma wp_update [wp_simps]: "wp (update f) Q E st \<longleftrightarrow> Q () (f st)"
  by (simp add: wp_def update_def)

lemma wp_log [wp_simps]:
  "wp (log_attempt a) Q E st \<longleftrightarrow> Q () (st\<lparr>ex_attempts := ex_attempts st @ [a]\<rparr>)"
  by (simp add: log_attempt_def wp_update)

lemma wp_catch [wp_simps]:
  "wp (catch_provider m h) Q E st \<longleftrightarrow>
   wp m Q (\<lambda>e t. (\<forall>p. e = ProviderRaised p \<longrightarrow> wp (h p) Q E t) \<and> ((\<forall>p. e \<noteq> ProviderRaised p) \<longrightarrow> E e t)) st"
  by (cases "m st") (auto simp: wp_def catch_provider_def split: sum.splits exec_failure.splits)

lemma wp_scope [wp_simps]:
  "wp (admission_scope rel body) Q E st \<longleftrightarrow>
   wp body (\<lambda>x. wp rel (\<lambda>_. Q x) E)
     (\<lambda>e. wp rel (\<lambda>_. E e) (\<lambda>f t. if suppresses_release e then E e t else E f t)) st"
  by (cases "body st") (auto simp: wp_def admission_scope_def split: sum.splits prod.splits)

lemma wp_call_outcome [wp_simps]:
  "wp (case o' of Responded x \<Rightarrow> a x | Failed e \<Rightarrow> b e | TimedOut \<Rightarrow> c | Crashed \<Rightarrow> d | Cancelled \<Rightarrow> f) Q E s \<longleftrightarrow>
   (\<forall>x. o' = Responded x \<longrightarrow> wp (a x) Q E s) \<and> (\<forall>e. o' = Failed e \<longrightarrow> wp (b e) Q E s) \<and>
   (o' = TimedOut \<longrightarrow> wp c Q E s) \<and> (o' = Crashed \<longrightarrow> wp d Q E s) \<and> (o' = Cancelled \<longrightarrow> wp f Q E s)"
  by (cases o') auto

subsection \<open>What one attempt adds\<close>

definition call_of :: "'s exec_args \<Rightarrow> ModelDeployment \<Rightarrow> string \<times> ProviderRequest" where
  "call_of g d = (md_deployment_id d,
     mk_provider_request (xg_request g) d (xg_max_output_tokens g) (xg_timeout_seconds g))"

definition grown ::
  "'s exec_state \<Rightarrow> (string \<times> ProviderRequest) list \<Rightarrow> ExecutionAttempt list \<Rightarrow> string list \<Rightarrow> 's exec_state \<Rightarrow> bool" where
  "grown st cs as ds t \<longleftrightarrow> ex_calls t = ex_calls st @ cs \<and> ex_attempts t = ex_attempts st @ as \<and>
     ex_sequence t = ex_sequence st @ ds \<and> ex_sleeps t = ex_sleeps st"

definition opened :: "ModelDeployment \<Rightarrow> int \<Rightarrow> string list" where
  "opened d n = (if n = 1 then [md_deployment_id d] else [])"

definition success_of :: "ModelDeployment \<Rightarrow> int \<Rightarrow> int \<Rightarrow> ExecutionAttempt" where
  "success_of d n ms = \<lparr>xa_deployment_id = md_deployment_id d, xa_attempt_number = n,
     xa_outcome = ATTEMPT_SUCCEEDED, xa_latency_ms = ms, xa_error_code = None,
     xa_status_code = None, xa_retry_delay_seconds = None\<rparr>"

definition result_of ::
  "'s exec_args \<Rightarrow> ModelDeployment \<Rightarrow> ProviderResponse \<Rightarrow> 's exec_state \<Rightarrow> ResilientExecutionResult" where
  "result_of g d resp st = \<lparr>xr_deployment = d, xr_response = resp,
     xr_routing = (rd_routing (xg_decision g))\<lparr>rp_provider := Some (md_provider d),
       rp_model := Some (md_model_id d), rp_deployment := Some (md_deployment_id d),
       rp_fallback_sequence := ex_sequence st\<rparr>,
     xr_attempts = ex_attempts st\<rparr>"


definition refused :: "ModelDeployment \<Rightarrow> int \<Rightarrow> ExecutionAttempt" where
  "refused d n = \<lparr>xa_deployment_id = md_deployment_id d,
     xa_attempt_number = (if n = 1 then 0 else n), xa_outcome = CIRCUIT_OPEN,
     xa_latency_ms = 0, xa_error_code = None, xa_status_code = None, xa_retry_delay_seconds = None\<rparr>"

definition callable :: "'s exec_args \<Rightarrow> ModelDeployment \<Rightarrow> bool" where
  "callable g d \<longleftrightarrow> xg_providers g (md_provider d, md_api_family d) \<noteq> None \<and>
     ProviderRequest_ok (xg_lib g) (snd (call_of g d))"

definition answered :: "'s exec_args \<Rightarrow> nat \<Rightarrow> ModelDeployment \<Rightarrow> int \<Rightarrow> ProviderResponse \<Rightarrow> bool" where
  "answered g i d n resp \<longleftrightarrow> (\<exists>adapter. xg_providers g (md_provider d, md_api_family d) = Some adapter \<and>
     wd_generate (xg_world g i n) adapter (snd (call_of g d)) = Responded resp)"

definition attempt_returns ::
  "'s exec_args \<Rightarrow> nat \<Rightarrow> ModelDeployment \<Rightarrow> int \<Rightarrow> 's exec_state \<Rightarrow> step_result \<Rightarrow> 's exec_state \<Rightarrow> bool" where
  "attempt_returns g i d n st r t = (case r of
      Finished x \<Rightarrow> \<exists>ms resp. callable g d \<and> grown st [call_of g d] [success_of d n ms] (opened d n) t \<and>
        x = result_of g d resp t \<and> answered g i d n resp
    | RetryAfter v \<Rightarrow> \<exists>ms e. callable g d \<and> grown st [call_of g d] [failed_attempt d n e ms (Some v)] (opened d n) t \<and>
        is_transient_provider_error e \<and> n < ry_max_attempts_per_deployment (xg_policy g) \<and>
        retry_delay_seconds (xg_policy g) (uuid_str (gr_request_id (xg_request g))) (md_deployment_id d) n
          (pe_retry_after_seconds e) = Inr v \<and> ex_last_error t = Some e
    | NextCandidate \<Rightarrow>
        (\<exists>ms e. callable g d \<and> grown st [call_of g d] [failed_attempt d n e ms None] (opened d n) t \<and>
          is_transient_provider_error e \<and> ex_last_error t = Some e) \<or>
        grown st [] [refused d n] [] t \<and> ex_last_error t = ex_last_error st)"

definition attempt_raises ::
  "'s exec_args \<Rightarrow> ModelDeployment \<Rightarrow> int \<Rightarrow> 's exec_state \<Rightarrow> exec_failure \<Rightarrow> 's exec_state \<Rightarrow> bool" where
  "attempt_raises g d n st e t \<longleftrightarrow>
     (\<exists>cs as ds. grown st cs as ds t \<and> (cs = [] \<or> cs = [call_of g d] \<and> callable g d) \<and> (ds = [] \<or> ds = opened d n)) \<and>
     (\<forall>ats code. e = ResilienceExecutionError ats code \<longrightarrow> (\<exists>ms p.
        callable g d \<and> grown st [call_of g d] [failed_attempt d n p ms None] (opened d n) t \<and>
        \<not> is_transient_provider_error p \<and> code = Some (pe_code p) \<and> ats = ex_attempts t))"

lemma deadline_check_Inl: "deadline_check dl now = Inl e \<Longrightarrow> e = ExecutionDeadlineExceeded"
  by (auto simp: deadline_check_def ebind_Inl_iff remaining_seconds_def split: option.splits if_splits)

lemma latency_ms_Inl: "latency_ms a b = Inl e \<Longrightarrow> e = UnexpectedError"
  by (auto simp: latency_ms_def split: option.splits)

lemma retry_delay_if_cases:
  "retry_delay_if g d n e retry = Inl x \<Longrightarrow> x = UnexpectedError"
  "retry_delay_if g d n e retry = Inr (Some v) \<Longrightarrow> retry \<and>
     retry_delay_seconds (xg_policy g) (uuid_str (gr_request_id (xg_request g))) (md_deployment_id d) n
       (pe_retry_after_seconds e) = Inr v"
  "retry_delay_if g d n e False = Inr None"
  by (auto simp: retry_delay_if_def retry_delay_seconds_def ebind_Inl_iff f_pow2_def Let_def split: if_splits)


lemma grown_health [simp]: "grown st cs as ds (t\<lparr>ex_health := h\<rparr>) = grown st cs as ds t"
  by (simp add: grown_def)

lemma attempt_health [simp]:
  "attempt_returns g i d n st r (t\<lparr>ex_health := h\<rparr>) = attempt_returns g i d n st r t"
  "attempt_raises g d n st e (t\<lparr>ex_health := h\<rparr>) = attempt_raises g d n st e t"
  by (simp_all add: attempt_returns_def attempt_raises_def result_of_def split: step_result.splits)

lemma attempt_raises_other:
  assumes "grown st cs as ds t" "cs = [] \<or> cs = [call_of g d] \<and> callable g d" "ds = [] \<or> ds = opened d n"
    "\<And>ats code. e \<noteq> ResilienceExecutionError ats code"
  shows "attempt_raises g d n st e t"
  using assms by (auto simp: attempt_raises_def)

text \<open>A health port that may do anything leaves what does not depend on it.\<close>

lemma wp_port:
  assumes "\<And>x h. Q x (st\<lparr>ex_health := h\<rparr>)" "\<And>e h. E (HealthError e) (st\<lparr>ex_health := h\<rparr>)"
  shows "wp (on_health m) Q E st"
  unfolding wp_on_health by (rule wp_any) (rule assms)+

lemma can_retry_wp:
  assumes "\<And>b h. b \<longrightarrow> is_transient_provider_error e \<and> n < ry_max_attempts_per_deployment (xg_policy g) \<Longrightarrow>
      Q b (st\<lparr>ex_health := h\<rparr>)" "\<And>f h. E (HealthError f) (st\<lparr>ex_health := h\<rparr>)"
  shows "wp (can_retry g w d n e) Q E st"
proof -
  have "Q False st" using assms(1)[of False "ex_health st"] by simp
  with assms show ?thesis unfolding can_retry_def
    by (simp only: wp_if wp_seq wp_ret) (intro conjI impI wp_port; simp add: wp_ret)
qed

lemma handle_error_wp:
  assumes "grown st0 [call_of g d] [] (opened d n) st" "callable g d"
  shows "wp (handle_error g w d n adm e) (attempt_returns g i d n st0) (attempt_raises g d n st0) st"
proof -
  have raises: "attempt_raises g d n st0 f st"
    if "\<And>ats code. f \<noteq> ResilienceExecutionError ats code" for f
    using attempt_raises_other[OF assms(1) _ _ that] assms(2) by simp
  let ?after = "\<lambda>h ms v. st\<lparr>ex_health := h, ex_attempts := ex_attempts st @ [failed_attempt d n e ms v],
    ex_last_error := Some e\<rparr>"
  have grown: "grown st0 [call_of g d] [failed_attempt d n e ms v] (opened d n) (?after h ms v)" for h ms v
    using assms(1) by (simp add: grown_def)
  have permanent: "attempt_raises g d n st0
      (ResilienceExecutionError (ex_attempts st @ [failed_attempt d n e ms v]) (Some (pe_code e))) (?after h ms v)"
    if "\<not> is_transient_provider_error e" "v = None" for h ms v
    using grown[of ms v h] that assms(2) by (auto simp: attempt_raises_def)
  have next_candidate: "attempt_returns g i d n st0 NextCandidate (?after h ms None)"
    if "is_transient_provider_error e" for h ms
    using grown[of ms None h] that assms(2) by (auto simp: attempt_returns_def)
  have retry: "attempt_returns g i d n st0 (RetryAfter v) (?after h ms (Some v))"
    if "is_transient_provider_error e" "retry_delay_if g d n e b = Inr (Some v)"
      "b \<longrightarrow> n < ry_max_attempts_per_deployment (xg_policy g)" for h ms v b
    using grown[of ms "Some v" h] that assms(2) retry_delay_if_cases(2)[OF that(2)]
    by (auto simp: attempt_returns_def)
  show ?thesis
    unfolding handle_error_def wp_seq wp_lift wp_if wp_option wp_ret wp_raise wp_log wp_update wp_get_state
    by (intro conjI allI impI wp_port can_retry_wp)
       (auto dest!: deadline_check_Inl latency_ms_Inl retry_delay_if_cases(1) simp: retry_delay_if_cases(3)
         intro: raises permanent next_candidate retry)
qed

lemma try_call_wp:
  assumes "\<And>f h. (\<And>ats code. f \<noteq> ResilienceExecutionError ats code) \<Longrightarrow> (\<And>p. f \<noteq> ProviderRaised p) \<Longrightarrow> E f (st\<lparr>ex_health := h\<rparr>)"
    "\<And>f h. (\<And>ats code. f \<noteq> ResilienceExecutionError ats code) \<Longrightarrow>
       E f (st\<lparr>ex_calls := ex_calls st @ [(md_deployment_id d, q)], ex_health := h\<rparr>)"
    "\<And>resp h. wd_generate w adapter q = Responded resp \<Longrightarrow>
       Q resp (st\<lparr>ex_calls := ex_calls st @ [(md_deployment_id d, q)], ex_health := h\<rparr>)"
  shows "wp (try_call g w d adapter q adm) Q E st"
proof -
  let ?called = "st\<lparr>ex_calls := ex_calls st @ [(md_deployment_id d, q)]\<rparr>"
  have "E f st" if "\<And>ats code. f \<noteq> ResilienceExecutionError ats code" "\<And>p. f \<noteq> ProviderRaised p" for f
    using assms(1)[OF that, of "ex_health st"] by simp
  moreover have "E f ?called" if "\<And>ats code. f \<noteq> ResilienceExecutionError ats code" for f
    using assms(2)[OF that, of "ex_health st"] by simp
  ultimately show ?thesis
    unfolding try_call_def provider_call_def wp_seq wp_lift wp_if wp_ret wp_raise wp_update wp_call_outcome
    by (intro conjI allI impI wp_port)
       (auto dest!: deadline_check_Inl latency_ms_Inl intro: assms)
qed

lemma succeeded_wp:
  assumes "grown st0 [call_of g d] [] (opened d n) st" "callable g d" "answered g i d n resp" "E UnexpectedError st"
  shows "wp (succeeded g w d n resp) (attempt_returns g i d n st0) E st"
proof -
  have "grown st0 [call_of g d] [success_of d n ms] (opened d n)
      (st\<lparr>ex_attempts := ex_attempts st @ [success_of d n ms]\<rparr>)" for ms
    using assms(1) by (simp add: grown_def)
  then show ?thesis
    unfolding succeeded_def wp_seq wp_lift wp_ret wp_log wp_get_state success_of_def[symmetric] result_of_def[symmetric]
    using assms(2-4) by (auto dest!: latency_ms_Inl simp: attempt_returns_def)
qed

text \<open>Releasing the admission changes nothing recorded; if it fails, the failure counts as a raise.\<close>

lemma attempt_health_error:
  "attempt_returns g i d n st r t \<Longrightarrow> attempt_raises g d n st (HealthError f) t"
  "attempt_raises g d n st e t \<Longrightarrow> attempt_raises g d n st (HealthError f) t"
proof -
  assume "attempt_returns g i d n st r t"
  then obtain cs as ds where "grown st cs as ds t" "cs = [] \<or> cs = [call_of g d] \<and> callable g d"
    "ds = [] \<or> ds = opened d n"
    by (auto simp: attempt_returns_def split: step_result.splits)
  then show "attempt_raises g d n st (HealthError f) t" by (rule attempt_raises_other) simp
qed (auto simp: attempt_raises_def)

lemma released_wp:
  assumes "wp body (attempt_returns g i d n st0) (attempt_raises g d n st0) st"
  shows "wp (admission_scope (on_health m) body) (attempt_returns g i d n st0) (attempt_raises g d n st0) st"
  unfolding wp_scope
  by (rule wp_mono[OF assms]; rule wp_port) (auto intro: attempt_health_error)

lemma admitted_wp:
  assumes "grown st0 [] [] (opened d n) st" "callable g d"
    "xg_providers g (md_provider d, md_api_family d) = Some adapter"
  shows "wp (admitted_attempt g (xg_world g i n) d n adapter (snd (call_of g d)) adm)
    (attempt_returns g i d n st0) (attempt_raises g d n st0) st"
proof -
  let ?called = "st\<lparr>ex_calls := ex_calls st @ [(md_deployment_id d, snd (call_of g d))]\<rparr>"
  have called: "grown st0 [call_of g d] [] (opened d n) (?called\<lparr>ex_health := h\<rparr>)" for h
    using assms(1) by (simp add: grown_def call_of_def)
  have none: "attempt_raises g d n st0 f st" if "\<And>ats code. f \<noteq> ResilienceExecutionError ats code" for f
    using attempt_raises_other[OF assms(1) _ _ that] by simp
  have one: "attempt_raises g d n st0 f ?called" if "\<And>ats code. f \<noteq> ResilienceExecutionError ats code" for f
    using attempt_raises_other[OF called[of "ex_health st"] _ _ that] assms(2) by simp
  show ?thesis
    unfolding admitted_attempt_def
    by (rule released_wp, unfold wp_catch wp_seq, rule try_call_wp)
       (auto intro!: none one succeeded_wp[OF called assms(2)] handle_error_wp[OF called assms(2)]
         simp: answered_def assms(3))
qed

lemma attempt_wp: "wp (attempt g i d n) (attempt_returns g i d n st) (attempt_raises g d n st) st"
proof -
  have start: "grown st [] [] [] st" by (simp add: grown_def)
  have raises: "attempt_raises g d n st f st" if "\<And>ats code. f \<noteq> ResilienceExecutionError ats code" for f
    using attempt_raises_other[OF start _ _ that] by simp
  have circuit_open: "attempt_returns g i d n st NextCandidate
      (st\<lparr>ex_health := h, ex_attempts := ex_attempts st @ [refused d n]\<rparr>)" for h
    by (simp add: attempt_returns_def grown_def)
  have call: "mk_provider_request (xg_request g) d (xg_max_output_tokens g) (xg_timeout_seconds g) = snd (call_of g d)"
    by (simp add: call_of_def)
  have admitted: "grown st [] [] (opened d n) (if n = 1 then t\<lparr>ex_sequence := ex_sequence t @ [md_deployment_id d]\<rparr> else t)"
    if "t = st\<lparr>ex_health := h\<rparr>" for t h
    using that by (simp add: grown_def opened_def)
  show ?thesis
    unfolding attempt_def Let_def wp_seq wp_lift wp_if wp_option wp_ret wp_raise wp_log wp_update
      refused_def[symmetric] call
    by (intro conjI allI impI wp_port admitted_wp[OF admitted[OF refl]])
       (auto dest!: deadline_check_Inl intro!: raises circuit_open simp: callable_def)
qed

subsection \<open>The loops\<close>

definition progress ::
  "'s exec_state \<Rightarrow> (string \<times> ProviderRequest) list \<Rightarrow> ExecutionAttempt list \<Rightarrow> string list \<Rightarrow> pyfloat list \<Rightarrow>
   's exec_state \<Rightarrow> bool" where
  "progress st cs as ds sl t \<longleftrightarrow> ex_calls t = ex_calls st @ cs \<and> ex_attempts t = ex_attempts st @ as \<and>
     ex_sequence t = ex_sequence st @ ds \<and> ex_sleeps t = ex_sleeps st @ sl"

lemma progress_refl: "progress st [] [] [] [] st"
  by (simp add: progress_def)

lemma progress_trans:
  "progress st cs as ds sl t \<Longrightarrow> progress t cs' as' ds' sl' u \<Longrightarrow> progress st (cs @ cs') (as @ as') (ds @ ds') (sl @ sl') u"
  by (simp add: progress_def)

lemma grown_progress: "grown st cs as ds t \<longleftrightarrow> progress st cs as ds [] t"
  by (auto simp: grown_def progress_def)

text \<open>
  What the service may do while visiting the deployments \<open>D\<close>, opening candidates in the order \<open>S\<close>,
  with at most \<open>b\<close> calls.
\<close>

definition confined ::
  "'s exec_args \<Rightarrow> ModelDeployment set \<Rightarrow> string list \<Rightarrow> nat \<Rightarrow> (string \<times> ProviderRequest) list \<Rightarrow> string list \<Rightarrow>
   pyfloat list \<Rightarrow> bool" where
  "confined g D S b cs ds sl \<longleftrightarrow> length cs \<le> b \<and> (\<forall>c\<in>set cs. \<exists>d\<in>D. callable g d \<and> c = call_of g d) \<and>
     subseq ds S \<and> list_all (\<lambda>v. \<not> flt (ry_max_delay_seconds (xg_policy g)) v) sl"

lemma confined_append:
  assumes "confined g D S b cs ds sl" "confined g D' S' b' cs' ds' sl'"
  shows "confined g (D \<union> D') (S @ S') (b + b') (cs @ cs') (ds @ ds') (sl @ sl')"
  using assms by (fastforce simp: confined_def intro: list_emb_append_mono)

lemma confined_widen:
  "confined g D S b cs ds sl \<Longrightarrow> D \<subseteq> D' \<Longrightarrow> subseq S S' \<Longrightarrow> b \<le> b' \<Longrightarrow> confined g D' S' b' cs ds sl"
  unfolding confined_def by (meson order_trans subsetD subseq_order.order_trans)

definition recoverable :: "ExecutionAttempt \<Rightarrow> bool" where
  "recoverable a \<longleftrightarrow> xa_outcome a = TRANSIENT_FAILURE \<or> xa_outcome a = CIRCUIT_OPEN"

definition last_code :: "ExecutionAttempt list \<Rightarrow> ProviderErrorCode option" where
  "last_code as = foldl (\<lambda>c a. case xa_error_code a of None \<Rightarrow> c | Some x \<Rightarrow> Some x) None as"

definition code_tracked :: "'s exec_state \<Rightarrow> bool" where
  "code_tracked st \<longleftrightarrow> map_option pe_code (ex_last_error st) = last_code (ex_attempts st)"

definition visited :: "ModelDeployment set \<Rightarrow> ExecutionAttempt list \<Rightarrow> bool" where
  "visited D as \<longleftrightarrow> list_all recoverable as \<and> (\<forall>d\<in>D. \<exists>a\<in>set as. xa_deployment_id a = md_deployment_id d)"

lemma visited_append: "visited D as \<Longrightarrow> visited D' as' \<Longrightarrow> visited (D \<union> D') (as @ as')"
  by (auto simp: visited_def)

definition loop_none ::
  "'s exec_args \<Rightarrow> ModelDeployment set \<Rightarrow> string list \<Rightarrow> nat \<Rightarrow> 's exec_state \<Rightarrow> 's exec_state \<Rightarrow> bool" where
  "loop_none g D S b st t \<longleftrightarrow> code_tracked t \<and>
     (\<exists>cs as ds sl. progress st cs as ds sl t \<and> confined g D S b cs ds sl \<and> visited D as)"

definition loop_done ::
  "'s exec_args \<Rightarrow> ModelDeployment set \<Rightarrow> string list \<Rightarrow> nat \<Rightarrow> 's exec_state \<Rightarrow> ResilientExecutionResult \<Rightarrow>
   's exec_state \<Rightarrow> bool" where
  "loop_done g D S b st x t \<longleftrightarrow>
     (\<exists>cs as ds sl i d n ms resp. progress st (cs @ [call_of g d]) (as @ [success_of d n ms]) ds sl t \<and>
        confined g D S b (cs @ [call_of g d]) ds sl \<and> list_all recoverable as \<and> d \<in> D \<and>
        answered g i d n resp \<and> x = result_of g d resp t \<and>
        (\<exists>pre. ex_sequence t = pre @ [md_deployment_id d]))"

text \<open>The last attempt failed permanently and nothing was called after it.\<close>

definition stopped_at ::
  "'s exec_args \<Rightarrow> ModelDeployment set \<Rightarrow> (string \<times> ProviderRequest) list \<Rightarrow> ExecutionAttempt list \<Rightarrow>
   ProviderErrorCode option \<Rightarrow> bool" where
  "stopped_at g D cs as code \<longleftrightarrow> (\<exists>rs d n p ms pre. as = rs @ [failed_attempt d n p ms None] \<and>
     list_all recoverable rs \<and> d \<in> D \<and> \<not> is_transient_provider_error p \<and> code = Some (pe_code p) \<and>
     cs = pre @ [call_of g d])"

lemma stopped_at_append:
  assumes "stopped_at g D cs as code" "list_all recoverable rs" "D \<subseteq> D'"
  shows "stopped_at g D' (pre @ cs) (rs @ as) code"
proof -
  obtain rs' d n p ms pre' where "as = rs' @ [failed_attempt d n p ms None]" "list_all recoverable rs'" "d \<in> D"
    "\<not> is_transient_provider_error p" "code = Some (pe_code p)" "cs = pre' @ [call_of g d]"
    using assms(1) unfolding stopped_at_def by blast
  then have "rs @ as = (rs @ rs') @ [failed_attempt d n p ms None]" "list_all recoverable (rs @ rs')" "d \<in> D'"
    "\<not> is_transient_provider_error p" "code = Some (pe_code p)" "pre @ cs = (pre @ pre') @ [call_of g d]"
    using assms(2,3) by auto
  then show ?thesis unfolding stopped_at_def by blast
qed

definition loop_fail ::
  "'s exec_args \<Rightarrow> ModelDeployment set \<Rightarrow> string list \<Rightarrow> nat \<Rightarrow> 's exec_state \<Rightarrow> exec_failure \<Rightarrow>
   's exec_state \<Rightarrow> bool" where
  "loop_fail g D S b st e t \<longleftrightarrow>
     (\<exists>cs as ds sl. progress st cs as ds sl t \<and> confined g D S b cs ds sl \<and>
       (\<forall>ats code. e = ResilienceExecutionError ats code \<longrightarrow> ats = ex_attempts t \<and> stopped_at g D cs as code))"

lemma loop_failI:
  assumes "progress st cs as ds sl t" "confined g D S b cs ds sl"
    "\<And>ats code. e = ResilienceExecutionError ats code \<Longrightarrow> ats = ex_attempts t \<and> stopped_at g D cs as code"
  shows "loop_fail g D S b st e t"
  unfolding loop_fail_def using assms(1,2) by (intro exI conjI allI impI) (auto dest: assms(3))

lemma loop_failE:
  assumes "loop_fail g D S b st e t"
  obtains cs as ds sl where "progress st cs as ds sl t" "confined g D S b cs ds sl"
    "\<And>ats code. e = ResilienceExecutionError ats code \<Longrightarrow> ats = ex_attempts t \<and> stopped_at g D cs as code"
  using assms unfolding loop_fail_def by (elim exE conjE) simp

lemma loop_none_trans:
  assumes "loop_none g D S b st t" "loop_none g D' S' b' t u"
  shows "loop_none g (D \<union> D') (S @ S') (b + b') st u"
  using assms unfolding loop_none_def
  by (elim conjE exE, intro conjI exI[of _ "_ @ _"] progress_trans confined_append visited_append)

lemma loop_none_done:
  assumes "loop_none g D S b st t" "loop_done g D' S' b' t x u"
  shows "loop_done g (D \<union> D') (S @ S') (b + b') st x u"
proof -
  obtain cs as ds sl where 1: "progress st cs as ds sl t" "confined g D S b cs ds sl" "visited D as"
    using assms(1) unfolding loop_none_def by blast
  obtain cs' as' ds' sl' i d n ms resp where
    2: "progress t (cs' @ [call_of g d]) (as' @ [success_of d n ms]) ds' sl' u"
      "confined g D' S' b' (cs' @ [call_of g d]) ds' sl'" "list_all recoverable as'" "d \<in> D'"
      "answered g i d n resp" "x = result_of g d resp u" "\<exists>pre. ex_sequence u = pre @ [md_deployment_id d]"
    using assms(2) unfolding loop_done_def by blast
  have "list_all recoverable (as @ as')" using 1(3) 2(3) by (simp add: visited_def)
  with progress_trans[OF 1(1) 2(1)] confined_append[OF 1(2) 2(2)] 2(4-7) show ?thesis
    unfolding loop_done_def append_assoc[symmetric] by blast
qed

lemma loop_none_fail:
  assumes "loop_none g D S b st t" "loop_fail g D' S' b' t e u"
  shows "loop_fail g (D \<union> D') (S @ S') (b + b') st e u"
proof -
  obtain cs as ds sl where 1: "progress st cs as ds sl t" "confined g D S b cs ds sl" "visited D as"
    using assms(1) unfolding loop_none_def by blast
  then have rs: "list_all recoverable as" by (simp add: visited_def)
  from assms(2) show ?thesis
  proof (rule loop_failE)
    fix cs' as' ds' sl'
    assume 2: "progress t cs' as' ds' sl' u" "confined g D' S' b' cs' ds' sl'"
      and e: "\<And>ats code. e = ResilienceExecutionError ats code \<Longrightarrow> ats = ex_attempts u \<and> stopped_at g D' cs' as' code"
    show ?thesis
      by (rule loop_failI[OF progress_trans[OF 1(1) 2(1)] confined_append[OF 1(2) 2(2)]])
         (auto dest!: e intro: stopped_at_append[OF _ rs])
  qed
qed

lemmas loop_none_compose = loop_none_trans loop_none_done loop_none_fail


lemma retry_delay_capped:
  "retry_delay_seconds p r d n after = Inr v \<Longrightarrow> flt (ry_max_delay_seconds p) v \<Longrightarrow> False"
  by (auto simp: retry_delay_seconds_def Let_def flt_irrefl split: if_splits)

definition in_order :: "ModelDeployment \<Rightarrow> int \<Rightarrow> 's exec_state \<Rightarrow> bool" where
  "in_order d n st \<longleftrightarrow> n \<noteq> 1 \<longrightarrow> (\<exists>pre. ex_sequence st = pre @ [md_deployment_id d])"

lemma last_code_snoc: "last_code (as @ [a]) = (case xa_error_code a of None \<Rightarrow> last_code as | Some c \<Rightarrow> Some c)"
  by (simp add: last_code_def split: option.split)

lemma failed_code: "code_tracked t" if "grown st cs [failed_attempt d n e ms v] ds t" "ex_last_error t = Some e"
  using that by (simp add: code_tracked_def grown_def last_code_snoc failed_attempt_def)

lemma attempt_next:
  assumes "attempt_returns g i d n st NextCandidate t" "code_tracked st"
  shows "loop_none g {d} (opened d n) 1 st t"
proof -
  consider ms e where "callable g d" "grown st [call_of g d] [failed_attempt d n e ms None] (opened d n) t"
      "is_transient_provider_error e" "ex_last_error t = Some e"
    | "grown st [] [refused d n] [] t" "ex_last_error t = ex_last_error st"
    using assms(1) by (auto simp: attempt_returns_def)
  then show ?thesis
  proof cases
    case 1
    then have "visited {d} [failed_attempt d n e ms None]" "code_tracked t" "confined g {d} (opened d n) 1 [call_of g d] (opened d n) []"
      by (auto simp: visited_def recoverable_def confined_def failed_attempt_def intro: failed_code)
    with 1 show ?thesis unfolding loop_none_def grown_progress by blast
  next
    case 2
    then have "visited {d} [refused d n]" "code_tracked t" "confined g {d} (opened d n) 1 [] [] []"
      using assms(2)
      by (auto simp: visited_def recoverable_def confined_def refused_def code_tracked_def grown_def last_code_snoc)
    with 2 show ?thesis unfolding loop_none_def grown_progress by blast
  qed
qed

lemma attempt_retry:
  assumes "attempt_returns g i d n st (RetryAfter v) t"
  shows "loop_none g {d} (opened d n) 1 st (t\<lparr>ex_sleeps := ex_sleeps t @ [v]\<rparr>)"
    "loop_none g {d} (opened d n) 1 st t" "n < ry_max_attempts_per_deployment (xg_policy g)" "ex_sequence t = ex_sequence st @ opened d n"
proof -
  obtain ms e where 1: "callable g d" "grown st [call_of g d] [failed_attempt d n e ms (Some v)] (opened d n) t"
      "is_transient_provider_error e" "ex_last_error t = Some e" "n < ry_max_attempts_per_deployment (xg_policy g)"
      "retry_delay_seconds (xg_policy g) (uuid_str (gr_request_id (xg_request g))) (md_deployment_id d) n
          (pe_retry_after_seconds e) = Inr v"
    using assms by (auto simp: attempt_returns_def)
  let ?t = "t\<lparr>ex_sleeps := ex_sleeps t @ [v]\<rparr>"
  have as: "visited {d} [failed_attempt d n e ms (Some v)]" "confined g {d} (opened d n) 1 [call_of g d] (opened d n) [v]"
    "confined g {d} (opened d n) 1 [call_of g d] (opened d n) []"
    using 1 retry_delay_capped[OF 1(6)] by (auto simp: visited_def recoverable_def confined_def failed_attempt_def)
  have code: "code_tracked ?t" "code_tracked t" using failed_code[OF 1(2,4)] by (simp_all add: code_tracked_def)
  have "progress st [call_of g d] [failed_attempt d n e ms (Some v)] (opened d n) [v] ?t"
    using 1(2) by (simp add: grown_def progress_def)
  with as code show "loop_none g {d} (opened d n) 1 st ?t" unfolding loop_none_def by blast
  show "loop_none g {d} (opened d n) 1 st t"
    using as code 1(2) unfolding loop_none_def grown_progress by blast
  show "n < ry_max_attempts_per_deployment (xg_policy g)" "ex_sequence t = ex_sequence st @ opened d n"
    using 1 by (simp_all add: grown_def)
qed

lemma attempt_finished:
  assumes "attempt_returns g i d n st (Finished x) t" "in_order d n st"
  shows "loop_done g {d} (opened d n) 1 st x t"
proof -
  obtain ms resp where 1: "callable g d" "grown st [call_of g d] [success_of d n ms] (opened d n) t"
      "x = result_of g d resp t" "answered g i d n resp"
    using assms by (auto simp: attempt_returns_def)
  then have "confined g {d} (opened d n) 1 ([] @ [call_of g d]) (opened d n) []"
    "progress st ([] @ [call_of g d]) ([] @ [success_of d n ms]) (opened d n) [] t"
    by (auto simp: confined_def grown_progress)
  moreover have "\<exists>pre. ex_sequence t = pre @ [md_deployment_id d]"
    using 1(2) assms(2) by (auto simp: grown_def opened_def in_order_def)
  moreover have "list_all recoverable []" "d \<in> {d}" by simp_all
  ultimately show ?thesis using 1(3,4) unfolding loop_done_def by blast
qed

lemma attempt_raised:
  assumes "attempt_raises g d n st e t"
  shows "loop_fail g {d} (opened d n) 1 st e t"
proof (cases "\<exists>ats code. e = ResilienceExecutionError ats code")
  case True
  then obtain ats code ms p where 1: "e = ResilienceExecutionError ats code" "callable g d"
      "grown st [call_of g d] [failed_attempt d n p ms None] (opened d n) t" "\<not> is_transient_provider_error p"
      "code = Some (pe_code p)" "ats = ex_attempts t"
    using assms by (auto simp: attempt_raises_def)
  then have "confined g {d} (opened d n) 1 ([] @ [call_of g d]) (opened d n) []"
    "progress st ([] @ [call_of g d]) ([] @ [failed_attempt d n p ms None]) (opened d n) [] t"
    "list_all recoverable []" "d \<in> {d}"
    by (auto simp: confined_def grown_progress)
  with 1 show ?thesis unfolding loop_fail_def stopped_at_def by blast
next
  case False
  obtain cs as ds where "grown st cs as ds t" "cs = [] \<or> cs = [call_of g d] \<and> callable g d" "ds = [] \<or> ds = opened d n"
    using assms by (auto simp: attempt_raises_def)
  then have "confined g {d} (opened d n) 1 cs ds []" "progress st cs as ds [] t"
    by (auto simp: confined_def grown_progress)
  with False show ?thesis unfolding loop_fail_def by blast
qed

lemma loop_fail_deadline:
  assumes "loop_none g D S b st t" "\<And>ats code. e \<noteq> ResilienceExecutionError ats code"
  shows "loop_fail g D S b st e t"
  using assms unfolding loop_none_def loop_fail_def by blast

lemma loop_none_widen:
  assumes "loop_none g D S b st t" "b \<le> b'"
  shows "loop_none g D S b' st t"
  using assms confined_widen[of g D S b _ _ _ D S b'] unfolding loop_none_def by blast

lemma loop_done_widen:
  assumes "loop_done g D S b st x t" "D \<subseteq> D'" "subseq S S'" "b \<le> b'"
  shows "loop_done g D' S' b' st x t"
proof -
  obtain cs as ds sl i d n ms resp where
    1: "progress st (cs @ [call_of g d]) (as @ [success_of d n ms]) ds sl t"
      "confined g D S b (cs @ [call_of g d]) ds sl" "list_all recoverable as" "d \<in> D"
      "answered g i d n resp" "x = result_of g d resp t" "\<exists>pre. ex_sequence t = pre @ [md_deployment_id d]"
    using assms(1) unfolding loop_done_def by blast
  from 1(4) assms(2) have "d \<in> D'" by blast
  with confined_widen[OF 1(2) assms(2-4)] 1(1,3,5-) show ?thesis unfolding loop_done_def by blast
qed

lemma loop_fail_widen:
  assumes "loop_fail g D S b st e t" "D \<subseteq> D'" "subseq S S'" "b \<le> b'"
  shows "loop_fail g D' S' b' st e t"
  using assms(1)
proof (rule loop_failE)
  fix cs as ds sl
  assume 1: "progress st cs as ds sl t" "confined g D S b cs ds sl"
    and e: "\<And>ats code. e = ResilienceExecutionError ats code \<Longrightarrow> ats = ex_attempts t \<and> stopped_at g D cs as code"
  have "stopped_at g D' cs as code" if "stopped_at g D cs as code" for code
    using stopped_at_append[OF that, of "[]" D' "[]"] assms(2) by simp
  then show ?thesis by (intro loop_failI[OF 1(1) confined_widen[OF 1(2) assms(2-4)]]) (auto dest!: e)
qed

lemma attempts_loop_wp:
  assumes "code_tracked st" "in_order d n st" "1 \<le> n" "n + int k = ry_max_attempts_per_deployment (xg_policy g) + 1" "0 < k"
  shows "wp (attempts_loop g i d k n)
    (\<lambda>r t. case r of None \<Rightarrow> loop_none g {d} (opened d n) k st t | Some x \<Rightarrow> loop_done g {d} (opened d n) k st x t)
    (loop_fail g {d} (opened d n) k st) st"
  using assms
proof (induction k arbitrary: n st)
  case (Suc k)
  let ?Q = "\<lambda>r t. case r of None \<Rightarrow> loop_none g {d} (opened d n) (Suc k) st t
    | Some x \<Rightarrow> loop_done g {d} (opened d n) (Suc k) st x t"
  let ?E = "loop_fail g {d} (opened d n) (Suc k) st"
  have opened': "opened d (n + 1) = []" using Suc.prems(3) by (simp add: opened_def)
  have stop: "wp (ret (Some x)) ?Q ?E t" if "attempt_returns g i d n st (Finished x) t" for x t
    using loop_done_widen[OF attempt_finished[OF that Suc.prems(2)], of "{d}" "opened d n" "Suc k"] by (simp add: wp_ret)
  have skip: "wp (ret None) ?Q ?E t" if "attempt_returns g i d n st NextCandidate t" for t
    using loop_none_widen[OF attempt_next[OF that Suc.prems(1)], of "Suc k"] by (simp add: wp_ret)
  have again: "wp (seq (lift_result (deadline_check dl now)) (\<lambda>_.
      seq (update (\<lambda>st. st\<lparr>ex_sleeps := ex_sleeps st @ [v]\<rparr>)) (\<lambda>_. attempts_loop g i d k (n + 1)))) ?Q ?E t"
    if "attempt_returns g i d n st (RetryAfter v) t" for v t dl now
  proof -
    let ?t = "t\<lparr>ex_sleeps := ex_sleeps t @ [v]\<rparr>"
    note retry = attempt_retry[OF that]
    have "code_tracked ?t" using retry(1) by (simp add: loop_none_def)
    moreover have "in_order d (n + 1) ?t"
      using retry(4) Suc.prems(2,3) by (auto simp: in_order_def opened_def split: if_splits)
    moreover have "0 < k" using retry(3) Suc.prems(4) by simp
    ultimately have "wp (attempts_loop g i d k (n + 1))
        (\<lambda>r u. case r of None \<Rightarrow> loop_none g {d} [] k ?t u | Some x \<Rightarrow> loop_done g {d} [] k ?t x u)
        (loop_fail g {d} [] k ?t) ?t"
      using Suc.IH[of ?t "n + 1"] Suc.prems(3,4) unfolding opened' by simp
    moreover note compose = loop_none_compose[OF retry(1), where D' = "{d}" and S' = "[]" and b' = k, simplified]
    ultimately have "wp (attempts_loop g i d k (n + 1)) ?Q ?E ?t"
      by (elim wp_mono) (use compose in \<open>auto split: option.splits\<close>)
    moreover have "?E ExecutionDeadlineExceeded t"
      using loop_fail_deadline[OF loop_none_widen[OF retry(2), of "Suc k"]] by simp
    ultimately show ?thesis by (auto simp: wp_seq wp_lift wp_update dest!: deadline_check_Inl)
  qed
  show ?case unfolding attempts_loop.simps wp_seq
    by (rule wp_mono[OF attempt_wp])
       (auto simp: stop skip again intro: loop_fail_widen[OF attempt_raised] split: step_result.splits)
qed simp


lemma step_cases [wp_simps]:
  "wp (case r of None \<Rightarrow> m | Some x \<Rightarrow> ret x) Q E s \<longleftrightarrow> (case r of None \<Rightarrow> wp m Q E s | Some x \<Rightarrow> Q x s)"
  by (cases r) (auto simp: wp_ret)

definition exhausted ::
  "'s exec_args \<Rightarrow> ModelDeployment set \<Rightarrow> string list \<Rightarrow> nat \<Rightarrow> 's exec_state \<Rightarrow> exec_failure \<Rightarrow> 's exec_state \<Rightarrow> bool" where
  "exhausted g D S b st e t \<longleftrightarrow> loop_none g D S b st t \<and>
     e = ResilienceExecutionError (ex_attempts t) (last_code (ex_attempts t))"

abbreviation deployments_of :: "RankedCandidate list \<Rightarrow> ModelDeployment set" where
  "deployments_of cs \<equiv> rc_deployment ` set cs"

abbreviation ids_of :: "RankedCandidate list \<Rightarrow> string list" where
  "ids_of cs \<equiv> map (\<lambda>c. md_deployment_id (rc_deployment c)) cs"

lemma candidates_loop_wp:
  assumes "code_tracked st" "0 < ry_max_attempts_per_deployment (xg_policy g)"
  defines "b \<equiv> nat (ry_max_attempts_per_deployment (xg_policy g))"
  shows "wp (candidates_loop g i cs)
    (\<lambda>x t. loop_done g (deployments_of cs) (ids_of cs) (b * length cs) st x t)
    (\<lambda>e t. loop_fail g (deployments_of cs) (ids_of cs) (b * length cs) st e t \<or>
       exhausted g (deployments_of cs) (ids_of cs) (b * length cs) st e t) st"
  using assms(1)
proof (induction cs arbitrary: i st)
  case Nil
  then have "loop_none g {} [] 0 st st"
    using progress_refl[of st] by (force simp: loop_none_def confined_def visited_def)
  with Nil show ?case
    unfolding candidates_loop.simps wp_seq wp_get_state wp_raise by (simp add: exhausted_def code_tracked_def)
next
  case (Cons c cs)
  let ?d = "rc_deployment c"
  let ?Q = "\<lambda>x t. loop_done g (deployments_of (c # cs)) (ids_of (c # cs)) (b * length (c # cs)) st x t"
  let ?E = "\<lambda>e t. loop_fail g (deployments_of (c # cs)) (ids_of (c # cs)) (b * length (c # cs)) st e t \<or>
       exhausted g (deployments_of (c # cs)) (ids_of (c # cs)) (b * length (c # cs)) st e t"
  have op: "opened ?d 1 = [md_deployment_id ?d]" by (simp add: opened_def)
  have first: "wp (attempts_loop g i ?d b 1)
    (\<lambda>r t. case r of None \<Rightarrow> loop_none g {?d} [md_deployment_id ?d] b st t
       | Some x \<Rightarrow> loop_done g {?d} [md_deployment_id ?d] b st x t)
    (loop_fail g {?d} [md_deployment_id ?d] b st) st"
    using attempts_loop_wp[of st ?d 1 b g i] Cons.prems assms(2) unfolding op by (simp add: in_order_def b_def)
  have rest: "wp (candidates_loop g (Suc i) cs) ?Q ?E t" if "loop_none g {?d} [md_deployment_id ?d] b st t" for t
  proof (rule wp_mono[OF Cons.IH[of t "Suc i"]])
    show "code_tracked t" using that by (simp add: loop_none_def)
  next
    fix x u
    assume "loop_done g (deployments_of cs) (ids_of cs) (b * length cs) t x u"
    from loop_none_done[OF that this] show "?Q x u" by simp
  next
    fix e u
    assume "loop_fail g (deployments_of cs) (ids_of cs) (b * length cs) t e u \<or>
       exhausted g (deployments_of cs) (ids_of cs) (b * length cs) t e u"
    then show "?E e u"
      using loop_none_fail[OF that, of "deployments_of cs" "ids_of cs" "b * length cs" e u]
        loop_none_trans[OF that, of "deployments_of cs" "ids_of cs" "b * length cs" u] by (auto simp: exhausted_def)
  qed
  have "?Q x t" if "loop_done g {?d} [md_deployment_id ?d] b st x t" for x t
    by (rule loop_done_widen[OF that]) auto
  moreover have "?E e t" if "loop_fail g {?d} [md_deployment_id ?d] b st e t" for e t
    by (rule disjI1, rule loop_fail_widen[OF that]) auto
  ultimately show ?case
    unfolding candidates_loop.simps wp_seq step_cases b_def[symmetric]
    by (intro wp_mono[OF first]) (auto intro: rest[simplified] split: option.splits)
qed


subsection \<open>The whole execution\<close>

text \<open>Everything the service may record: a blocked start, a success, a stop, or exhaustion.\<close>

definition exec_bound :: "'s exec_args \<Rightarrow> nat" where
  "exec_bound g = nat (ry_max_attempts_per_deployment (xg_policy g)) * length (bounded_candidates g)"

abbreviation exec_done :: "'s exec_args \<Rightarrow> 's exec_state \<Rightarrow> ResilientExecutionResult \<Rightarrow> 's exec_state \<Rightarrow> bool" where
  "exec_done g \<equiv> loop_done g (deployments_of (bounded_candidates g)) (ids_of (bounded_candidates g)) (exec_bound g)"

abbreviation exec_fail :: "'s exec_args \<Rightarrow> 's exec_state \<Rightarrow> exec_failure \<Rightarrow> 's exec_state \<Rightarrow> bool" where
  "exec_fail g \<equiv> loop_fail g (deployments_of (bounded_candidates g)) (ids_of (bounded_candidates g)) (exec_bound g)"

abbreviation exec_exhausted :: "'s exec_args \<Rightarrow> 's exec_state \<Rightarrow> exec_failure \<Rightarrow> 's exec_state \<Rightarrow> bool" where
  "exec_exhausted g \<equiv> exhausted g (deployments_of (bounded_candidates g)) (ids_of (bounded_candidates g)) (exec_bound g)"

definition startable :: "'s exec_args \<Rightarrow> FallbackSafetyState \<Rightarrow> bool" where
  "startable g safety \<longleftrightarrow> rd_selected (xg_decision g) \<noteq> None \<and> 0 < xg_max_output_tokens g \<and>
     \<not> fle (xg_timeout_seconds g) fzero \<and> automatic_replay_allowed safety \<and>
     list_all (validate_candidate (xg_decision g)) (bounded_candidates g)"

lemma execute_body_wp:
  assumes "code_tracked st" "0 < ry_max_attempts_per_deployment (xg_policy g)"
  shows "wp (execute_body g safety) (\<lambda>x t. startable g safety \<and> exec_done g st x t)
    (\<lambda>e t. \<not> startable g safety \<and> t = st \<or> startable g safety \<and> (exec_fail g st e t \<or> exec_exhausted g st e t)) st"
proof (cases "startable g safety")
  case True
  then show ?thesis using candidates_loop_wp[OF assms, of 0 "bounded_candidates g"]
    by (auto simp: execute_body_def startable_def exec_bound_def)
next
  case False
  then show ?thesis unfolding execute_body_def startable_def
    by (auto simp: wp_raise)
qed

text \<open>The deadline may only turn an outcome into its expiry.\<close>

lemma deadline_run_wp:
  assumes "wp body Q E st" "\<And>x t. Q x t \<Longrightarrow> E ExecutionDeadlineExceeded t"
    "\<And>e t. E e t \<Longrightarrow> E ExecutionDeadlineExceeded t" "E ExecutionDeadlineExceeded st"
  shows "wp (deadline_run dl before expired after body)
    (\<lambda>x t. Q x t \<and> (dl_expires_at dl \<noteq> None \<and> dl_started_at dl \<noteq> None \<longrightarrow>
       \<not> expired \<and> deadline_check dl before = Inr () \<and> deadline_check dl after = Inr ())) E st"
proof -
  obtain r t where r: "body st = (r, t)" by fastforce
  note post = wp_result[OF assms(1) r]
  show ?thesis
  proof (cases "remaining_seconds dl before")
    case (Inl e)
    then have "e = ExecutionDeadlineExceeded" by (auto simp: remaining_seconds_def split: option.splits if_splits)
    with Inl assms(4) show ?thesis by (simp add: deadline_run_def wp_seq wp_lift)
  next
    case (Inr rem)
    then have rem: "rem = None \<longleftrightarrow> \<not> (dl_expires_at dl \<noteq> None \<and> dl_started_at dl \<noteq> None)"
      by (auto simp: remaining_seconds_def split: option.splits if_splits)
    have ok: "deadline_check dl before = Inr ()" using Inr by (simp add: deadline_check_def)
    show ?thesis
    proof (cases rem)
      case None
      with Inr rem assms(1) show ?thesis by (auto simp: deadline_run_def wp_seq wp_lift elim: wp_mono)
    next
      case (Some s)
      with Inr r post ok show ?thesis
        unfolding deadline_run_def wp_seq wp_lift wp_def
        using assms(2,3) by (auto split: sum.splits exec_failure.splits dest: deadline_check_Inl)
    qed
  qed
qed


lemma execute_wp:
  assumes "code_tracked st" "0 < ry_max_attempts_per_deployment (xg_policy g)"
  shows "wp (execute g safety before expired after)
    (\<lambda>x t. (startable g safety \<and> exec_done g st x t) \<and>
       (dl_expires_at (xg_deadline g) \<noteq> None \<and> dl_started_at (xg_deadline g) \<noteq> None \<longrightarrow>
        \<not> expired \<and> deadline_check (xg_deadline g) before = Inr () \<and> deadline_check (xg_deadline g) after = Inr ()))
    (\<lambda>e t. t = st \<and> (e = ExecutionDeadlineExceeded \<or> \<not> startable g safety) \<or>
       startable g safety \<and> (exec_fail g st e t \<or> exec_exhausted g st e t)) st"
proof -
  let ?D = "deployments_of (bounded_candidates g)" and ?S = "ids_of (bounded_candidates g)"
  have "exec_fail g st ExecutionDeadlineExceeded t" if "exec_done g st x t" for x t
    using that unfolding loop_done_def by (elim exE conjE) (rule loop_failI; auto)
  moreover have "exec_fail g st ExecutionDeadlineExceeded t" if "exec_fail g st e t" for e t
    using that by (rule loop_failE) (rule loop_failI; auto)
  moreover have "exec_fail g st ExecutionDeadlineExceeded t" if "exec_exhausted g st e t" for e t
    using that loop_fail_deadline unfolding exhausted_def by blast
  ultimately show ?thesis
    unfolding execute_def
    by (intro deadline_run_wp) (auto intro: wp_mono[OF execute_body_wp[OF assms]])
qed

lemma code_tracked_init [simp]: "code_tracked (exec_init h)"
  by (simp add: code_tracked_def exec_init_def last_code_def)

lemmas execute_result = wp_result[OF execute_wp[OF code_tracked_init]]

end
