(* ===== verification/Execution_Health.thy ===== *)
theory Execution_Health
  imports Execution_Laws Health_Properties
begin

text \<open>
  Execution over a health port. The contract of \<open>DeploymentHealthPort\<close> the service relies on is a
  locale: an idle port holds no recovery probe, an admission holds at most its own, every report
  on a held admission succeeds, and a release makes the port idle again. The service keeps the
  contract on every path, and the in-memory tracker satisfies it.
\<close>

subsection \<open>The contract and the service's side of it\<close>

definition unbroken :: "exec_failure \<Rightarrow> bool" where
  "unbroken e \<longleftrightarrow> (\<forall>f. e \<noteq> HealthError f)"

lemma latency_ms_nonneg: "latency_ms a b = Inr n \<Longrightarrow> 0 \<le> n"
  by (auto simp: latency_ms_def split: option.splits)

locale health_port =
  fixes ops :: "'s health_ops" and idle :: "'s \<Rightarrow> bool" and held :: "HealthAdmission \<Rightarrow> 's \<Rightarrow> bool"
    and prompt :: "health_env \<Rightarrow> bool"
  assumes allow_law: "idle s \<Longrightarrow> normalized d \<Longrightarrow> prompt env \<Longrightarrow> wp (op_allow ops env d)
      (\<lambda>r t. case r of None \<Rightarrow> idle t | Some a \<Rightarrow> ha_deployment_id a = d \<and> held a t) (\<lambda>_ _. False) s"
    and success_law: "held a s \<Longrightarrow> 0 \<le> l \<Longrightarrow>
      wp (op_success ops env (ha_deployment_id a) l (Some a)) (\<lambda>_. held a) (\<lambda>_ _. False) s"
    and failure_law: "held a s \<Longrightarrow> 0 \<le> l \<Longrightarrow>
      wp (op_failure ops env (ha_deployment_id a) e l (Some a)) (\<lambda>_. held a) (\<lambda>_ _. False) s"
    and snapshot_law: "held a s \<Longrightarrow>
      wp (op_snapshot ops env (ha_deployment_id a)) (\<lambda>_. held a) (\<lambda>_ _. False) s"
    and release_law: "held a s \<Longrightarrow> wp (op_release ops env a) (\<lambda>_. idle) (\<lambda>_ _. False) s"
begin

definition idle_end :: "'a \<Rightarrow> 's exec_state \<Rightarrow> bool" where
  "idle_end r t \<longleftrightarrow> idle (ex_health t)"

definition idle_raise :: "exec_failure \<Rightarrow> 's exec_state \<Rightarrow> bool" where
  "idle_raise e t \<longleftrightarrow> idle (ex_health t) \<and> unbroken e"

definition held_end :: "HealthAdmission \<Rightarrow> 'a \<Rightarrow> 's exec_state \<Rightarrow> bool" where
  "held_end a r t \<longleftrightarrow> held a (ex_health t)"

definition held_raise :: "HealthAdmission \<Rightarrow> exec_failure \<Rightarrow> 's exec_state \<Rightarrow> bool" where
  "held_raise a e t \<longleftrightarrow> held a (ex_health t) \<and> unbroken e"

lemma port_call:
  assumes "wp m (\<lambda>_. P) (\<lambda>_ _. False) (ex_health st)" "\<And>x h. P h \<Longrightarrow> Q x (st\<lparr>ex_health := h\<rparr>)"
  shows "wp (on_health m) Q E st"
  unfolding wp_on_health by (rule wp_mono[OF assms(1)]) (auto intro: assms(2))

lemma handle_error_held:
  assumes "held a (ex_health st)" "ha_deployment_id a = md_deployment_id d" "xg_ops g = ops"
  shows "wp (handle_error g w d n a e) (held_end a) (held_raise a) st"
proof -
  have retry: "wp (can_retry g w d n e) Q (held_raise a) t"
    if "held a (ex_health t)" "\<And>b u. held a (ex_health u) \<Longrightarrow> Q b u" for Q t
    using that(2)[OF that(1)] snapshot_law[OF that(1), of "wd_snapshot w"] assms(2,3)
    unfolding can_retry_def wp_if wp_seq wp_ret
    by (auto intro!: port_call[where P = "held a"] that(2))
  show ?thesis
    unfolding handle_error_def wp_seq wp_lift wp_if wp_option wp_ret wp_raise wp_log wp_update wp_get_state assms(3)
    by (intro conjI allI impI port_call[where P = "held a"] retry failure_law[OF assms(1), unfolded assms(2)])
       (use assms(1) in \<open>auto simp: held_raise_def held_end_def unbroken_def dest: latency_ms_nonneg
          dest!: deadline_check_Inl latency_ms_Inl retry_delay_if_cases(1)\<close>)
qed

lemma try_call_held:
  assumes "held a (ex_health st)" "ha_deployment_id a = md_deployment_id d" "xg_ops g = ops"
  shows "wp (try_call g w d adapter q a) (held_end a) (held_raise a) st"
  unfolding try_call_def provider_call_def wp_seq wp_lift wp_if wp_ret wp_raise wp_update wp_call_outcome assms(3)
  by (intro conjI allI impI port_call[where P = "held a"] success_law[where a = a, unfolded assms(2)])
     (use assms(1) in \<open>auto simp: held_raise_def held_end_def unbroken_def dest: latency_ms_nonneg
        dest!: deadline_check_Inl latency_ms_Inl\<close>)

lemma succeeded_held:
  "held a (ex_health st) \<Longrightarrow> wp (succeeded g w d n resp) (held_end a) (held_raise a) st"
  unfolding succeeded_def wp_seq wp_lift wp_ret wp_log wp_get_state
  by (auto simp: held_raise_def held_end_def unbroken_def dest!: latency_ms_Inl)

lemma admitted_idle:
  assumes "held a (ex_health st)" "ha_deployment_id a = md_deployment_id d" "xg_ops g = ops"
  shows "wp (admitted_attempt g w d n adapter q a) idle_end idle_raise st"
proof -
  have handled: "wp (handle_error g w d n a e) (held_end a) (held_raise a) t" if "held a (ex_health t)" for e t
    using handle_error_held[OF that assms(2,3)] .
  have "wp (catch_provider (seq (try_call g w d adapter q a) (succeeded g w d n)) (handle_error g w d n a))
      (held_end a) (held_raise a) st"
    unfolding wp_catch wp_seq
    by (rule wp_mono[OF try_call_held[OF assms]])
       (auto simp: held_end_def held_raise_def intro!: handled wp_mono[OF succeeded_held])
  then show ?thesis
    unfolding admitted_attempt_def wp_scope assms(3)
    by (rule wp_mono)
       (auto simp: held_end_def held_raise_def idle_end_def idle_raise_def intro!: port_call[OF release_law])
qed

lemma attempt_idle:
  assumes "idle (ex_health st)" "normalized (md_deployment_id d)" "xg_ops g = ops" "prompt (wd_allow (xg_world g i n))"
  shows "wp (attempt g i d n) idle_end idle_raise st"
proof -
  have "wp (on_health (op_allow ops (wd_allow (xg_world g i n)) (md_deployment_id d)))
      (\<lambda>r t. case r of None \<Rightarrow> idle (ex_health t)
         | Some a \<Rightarrow> ha_deployment_id a = md_deployment_id d \<and> held a (ex_health t)) E st" for E
    unfolding wp_on_health
    by (rule wp_mono[OF allow_law[OF assms(1,2,4)]]) (auto split: option.splits)
  note allowed = wp_mono[OF this]
  show ?thesis
    unfolding attempt_def Let_def wp_seq wp_lift wp_if wp_option wp_ret wp_raise assms(3)
    by (intro conjI allI impI allowed)
       (use assms(1) in \<open>auto simp: idle_end_def idle_raise_def unbroken_def wp_log wp_update
          dest!: deadline_check_Inl intro!: admitted_idle[OF _ _ assms(3)]\<close>)
qed

lemma idle_endD: "idle_end r t \<Longrightarrow> idle (ex_health t)"
  by (simp add: idle_end_def)

lemma idle_endI: "idle (ex_health t) \<Longrightarrow> idle_end r t"
  by (simp add: idle_end_def)

lemma idle_expired: "idle_raise ExecutionDeadlineExceeded t \<longleftrightarrow> idle (ex_health t)"
  by (simp add: idle_raise_def unbroken_def)

lemma attempts_loop_idle:
  assumes "idle (ex_health st)" "normalized (md_deployment_id d)" "xg_ops g = ops"
    "\<And>n. prompt (wd_allow (xg_world g i n))"
  shows "wp (attempts_loop g i d k n) idle_end idle_raise st"
  using assms(1)
proof (induction k arbitrary: n st)
  case (Suc k)
  show ?case
    unfolding attempts_loop.simps wp_seq
    by (rule wp_mono[OF attempt_idle[OF Suc.prems assms(2,3,4)]])
       (auto simp: wp_ret wp_seq wp_lift wp_update idle_expired
          dest!: deadline_check_Inl idle_endD intro!: Suc.IH idle_endI split: step_result.splits)
qed (simp add: wp_ret idle_end_def)

lemma candidates_loop_idle:
  assumes "idle (ex_health st)" "xg_ops g = ops" "\<And>i n. prompt (wd_allow (xg_world g i n))"
    "list_all (\<lambda>c. normalized (md_deployment_id (rc_deployment c))) cs"
  shows "wp (candidates_loop g i cs) idle_end idle_raise st"
  using assms(1,4)
proof (induction cs arbitrary: i st)
  case Nil
  then show ?case
    unfolding candidates_loop.simps wp_seq wp_get_state wp_raise by (simp add: idle_raise_def unbroken_def)
next
  case (Cons c cs)
  show ?case
    unfolding candidates_loop.simps wp_seq
    by (rule wp_mono[OF attempts_loop_idle[OF Cons.prems(1) _ assms(2,3)]])
       (use Cons in \<open>auto simp: wp_option wp_ret dest: idle_endD intro: idle_endI\<close>)
qed

lemma execute_idle:
  assumes "idle h" "xg_ops g = ops" "\<And>i n. prompt (wd_allow (xg_world g i n))"
    "list_all (\<lambda>c. normalized (md_deployment_id (rc_deployment c))) (bounded_candidates g)"
  shows "wp (execute g safety before expired after) idle_end idle_raise (exec_init h)"
proof -
  have "idle (ex_health (exec_init h))" using assms(1) by (simp add: exec_init_def)
  then have "wp (execute_body g safety) idle_end idle_raise (exec_init h)"
    unfolding execute_body_def wp_if wp_raise
    by (auto simp: idle_raise_def unbroken_def intro!: candidates_loop_idle assms)
  then show ?thesis
    unfolding execute_def
    by (rule wp_mono[OF deadline_run_wp])
       (use \<open>idle (ex_health (exec_init h))\<close> in \<open>auto simp: idle_expired dest: idle_endD\<close>, simp add: idle_raise_def)
qed

end


subsection \<open>The in-memory tracker satisfies the contract\<close>

definition tracker_ops :: "HealthTracker health_ops" where
  "tracker_ops = \<lparr>op_allow = (\<lambda>env d. health_allow_request env d None), op_release = health_release_request,
     op_success = health_record_success, op_failure = health_record_failure, op_snapshot = health_snapshot,
     op_admitted = health_is_admitted\<rparr>"

definition probe_free :: "CircuitBreakerPolicy \<Rightarrow> HealthTracker \<Rightarrow> bool" where
  "probe_free p tr \<longleftrightarrow> ht_policy tr = p \<and> tracker_inv tr \<and>
     (\<forall>d s. ht_states tr d = Some s \<longrightarrow> mh_probe_owner s = None)"

text \<open>Any probe of \<open>d\<close> is the one of the admission.\<close>

definition own_probe :: "HealthAdmission \<Rightarrow> DeploymentHealth \<Rightarrow> bool" where
  "own_probe a s \<longleftrightarrow> mh_probe_owner s \<noteq> None \<longrightarrow> is_probe a \<and>
     mh_generation s = ha_generation a \<and> mh_probe_owner s = Some (ha_attempt_id a)"

definition holds_only :: "CircuitBreakerPolicy \<Rightarrow> HealthAdmission \<Rightarrow> HealthTracker \<Rightarrow> bool" where
  "holds_only p a tr \<longleftrightarrow> ht_policy tr = p \<and> tracker_inv tr \<and> normalized (ha_deployment_id a) \<and>
     (\<forall>d s. ht_states tr d = Some s \<longrightarrow> (if d = ha_deployment_id a then own_probe a s else mh_probe_owner s = None))"

text \<open>The lease outlives the readings between claiming a probe and admitting it.\<close>

definition lease_prompt :: "CircuitBreakerPolicy \<Rightarrow> health_env \<Rightarrow> bool" where
  "lease_prompt p env \<longleftrightarrow> fin_pos (fsub (fadd (hv_claim_now env) (cb_probe_lease_seconds p)) (hv_admit_now env))"

lemma wp_on_state:
  assumes "normalized d" "wp (body (ht_policy tr)) (\<lambda>x s. Q x (tr\<lparr>ht_states := (ht_states tr)(d \<mapsto> s)\<rparr>))
    (\<lambda>e s. E e (tr\<lparr>ht_states := (ht_states tr)(d \<mapsto> s)\<rparr>)) (entry_of tr u d)"
  shows "wp (on_state d u body) Q E tr"
  using assms by (auto simp: wp_def on_state_def split: prod.splits sum.splits)

lemma wp_refresh [wp_simps]:
  "wp (refresh env p) Q E s \<longleftrightarrow> Q () (refresh_circuit p (hv_now env) (hv_refresh_uuid env) s)"
  by (simp add: wp_def refresh_def)

lemma own_probe_refresh: "own_probe a s \<Longrightarrow> own_probe a (refresh_circuit p now u s)"
  by (auto simp: own_probe_def refresh_circuit_def cool_down_def retire_probe_def Let_def)

lemma own_probe_reports:
  assumes "own_probe a s"
  shows "own_probe a (succeed env l (Some a) c s)" "own_probe a (fail env p e l (Some a) c s)"
  using assms
  by (auto simp: own_probe_def succeed_def fail_def fail_permanent_def fail_transient_def count_transient_def
      retire_probe_def Let_def)

lemma own_probe_fresh: "own_probe a (fresh_health u)"
  by (simp add: own_probe_def fresh_health_def)

lemma held_entry:
  assumes "holds_only p a tr"
  shows "entry_inv p (entry_of tr u (ha_deployment_id a))" "own_probe a (entry_of tr u (ha_deployment_id a))"
    "ht_policy tr = p" "normalized (ha_deployment_id a)" "0 < cb_failure_threshold p"
proof -
  have inv: "tracker_inv tr" "ht_policy tr = p" using assms by (simp_all add: holds_only_def)
  with tracker_entry_inv show "entry_inv p (entry_of tr u (ha_deployment_id a))" by blast
  show "own_probe a (entry_of tr u (ha_deployment_id a))"
    using assms by (cases "ht_states tr (ha_deployment_id a)")
      (auto simp: holds_only_def entry_of_def own_probe_fresh)
qed (use assms in \<open>auto simp: holds_only_def tracker_inv_def CircuitBreakerPolicy_ok_def\<close>)

lemma held_update:
  assumes "holds_only p a tr" "entry_inv p s" "own_probe a s"
  shows "holds_only p a (tr\<lparr>ht_states := (ht_states tr)(ha_deployment_id a \<mapsto> s)\<rparr>)"
  using assms by (auto simp: holds_only_def tracker_inv_def)

lemma released_update:
  assumes "holds_only p a tr" "entry_inv p s" "mh_probe_owner s = None"
  shows "probe_free p (tr\<lparr>ht_states := (ht_states tr)(ha_deployment_id a \<mapsto> s)\<rparr>)"
  using assms by (auto simp: holds_only_def probe_free_def tracker_inv_def)

lemma entry_refresh_held:
  assumes "entry_inv p s" "own_probe a s"
  shows "entry_inv p (refresh_circuit p now u s)" "own_probe a (refresh_circuit p now u s)"
  using assms own_probe_refresh by auto

lemma tracker_success:
  assumes "holds_only p a tr" "0 \<le> l"
  shows "wp (health_record_success env (ha_deployment_id a) l (Some a)) (\<lambda>_. holds_only p a) (\<lambda>_ _. False) tr"
proof -
  note h = held_entry[OF assms(1)]
  note e = entry_refresh_held[OF h(1,2)]
  show ?thesis
    unfolding health_record_success_def
    by (rule wp_on_state[OF h(4)], unfold h(3) wp_seq wp_refresh wp_get_state wp_lift wp_if wp_ret)
       (auto simp: wp_def controls_circuit_def intro!: held_update[OF assms(1)] e entry_inv_succeed[OF _ h(5) assms(2)]
         own_probe_reports)
qed

lemma tracker_failure:
  assumes "holds_only p a tr" "0 \<le> l"
  shows "wp (health_record_failure env (ha_deployment_id a) x l (Some a)) (\<lambda>_. holds_only p a) (\<lambda>_ _. False) tr"
proof -
  note h = held_entry[OF assms(1)]
  note e = entry_refresh_held[OF h(1,2)]
  show ?thesis
    unfolding health_record_failure_def
    by (rule wp_on_state[OF h(4)], unfold h(3) wp_seq wp_refresh wp_get_state wp_lift wp_if wp_ret)
       (auto simp: wp_def controls_circuit_def intro!: held_update[OF assms(1)] e entry_inv_fail[OF _ h(5) assms(2)]
         own_probe_reports)
qed

lemma snapshot_of_ok: "entry_inv p s \<Longrightarrow> normalized d \<Longrightarrow> DeploymentHealthSnapshot_ok (snapshot_of d s)"
  by (auto simp: DeploymentHealthSnapshot_ok_def snapshot_of_def entry_inv_def split: option.splits)

lemma tracker_snapshot:
  assumes "holds_only p a tr"
  shows "wp (health_snapshot env (ha_deployment_id a)) (\<lambda>_. holds_only p a) (\<lambda>_ _. False) tr"
proof -
  note h = held_entry[OF assms(1)]
  note e = entry_refresh_held[OF h(1,2)]
  show ?thesis
    unfolding health_snapshot_def
    by (rule wp_on_state[OF h(4)], unfold h(3) wp_seq wp_refresh wp_get_state checked_def wp_if wp_ret)
       (auto simp: snapshot_of_ok[OF e(1) h(4)] intro!: held_update[OF assms(1)] e)
qed

lemma tracker_release:
  assumes "holds_only p a tr"
  shows "wp (health_release_request env a) (\<lambda>_. probe_free p) (\<lambda>_ _. False) tr"
proof -
  note h = held_entry[OF assms(1)]
  let ?s = "refresh_circuit p (hv_now env) (hv_refresh_uuid env) (entry_of tr (hv_initial env) (ha_deployment_id a))"
  note e = entry_refresh_held[OF h(1,2), of "hv_now env" "hv_refresh_uuid env" "hv_initial env"]
  have "mh_probe_owner ?s = None" if "\<not> (is_probe a \<and> health_matches ?s a)"
    using that e by (auto simp: own_probe_def entry_inv_def health_matches_def)
  then show ?thesis
    unfolding health_release_request_def
    by (intro wp_on_state[OF h(4)], unfold h(3) wp_seq wp_refresh)
       (use e in \<open>auto simp: wp_def retire_probe_def intro!: released_update[OF assms(1)]
          entry_inv_retire[unfolded retire_probe_def]\<close>)
qed

lemma tracker_allow:
  assumes "probe_free p tr" "normalized d" "lease_prompt p env"
  shows "wp (health_allow_request env d None)
    (\<lambda>r t. case r of None \<Rightarrow> probe_free p t | Some a \<Rightarrow> ha_deployment_id a = d \<and> holds_only p a t) (\<lambda>_ _. False) tr"
proof -
  let ?s = "refresh_circuit p (hv_now env) (hv_refresh_uuid env) (entry_of tr (hv_initial env) d)"
  let ?owner = "uuid_hex (hv_owner env)"
  have p: "ht_policy tr = p" "tracker_inv tr" using assms(1) by (simp_all add: probe_free_def)
  have inv: "entry_inv p ?s" using tracker_entry_inv[OF p(2)] p(1) by auto
  have none: "mh_probe_owner ?s = None"
    using assms(1) by (auto simp: probe_free_def entry_of_def refresh_circuit_def cool_down_def retire_probe_def
        fresh_health_def Let_def split: option.splits)
  have held: "holds_only p a (tr\<lparr>ht_states := (ht_states tr)(d \<mapsto> s)\<rparr>)"
    if "ha_deployment_id a = d" "entry_inv p s" "own_probe a s" for a s
    using assms(1,2) that by (auto simp: holds_only_def probe_free_def tracker_inv_def)
  have free: "probe_free p (tr\<lparr>ht_states := (ht_states tr)(d \<mapsto> ?s)\<rparr>)"
    using assms(1,2) inv none by (auto simp: probe_free_def tracker_inv_def)
  have gen: "owner_id_ok (mh_generation ?s)" "owner_id_ok ?owner"
    using inv by (simp_all add: entry_inv_def)
  let ?body = "allow_body env d ?owner p (entry_of tr (hv_initial env) d)"
  have "wp (allow_body env d ?owner p)
    (\<lambda>r s. case r of None \<Rightarrow> s = ?s | Some a \<Rightarrow> ha_deployment_id a = d \<and> entry_inv p s \<and> own_probe a s) (\<lambda>_ _. False)
    (entry_of tr (hv_initial env) d)"
  proof (cases "mh_circuit_state ?s")
    case HALF_OPEN
    let ?c = "claim_probe env p ?owner ?s"
    let ?a = "recovery_probe env p d ?owner"
    have ok: "HealthAdmission_ok ?a"
      using gen assms(2,3) by (simp add: HealthAdmission_ok_def recovery_probe_def owner_id_ok_def lease_prompt_def)
    have "?body = (Inr (Some ?a), ?c)"
      using HALF_OPEN none ok by (simp add: allow_body_def claim_probe_def seq_checked recovery_probe_def)
    moreover have "entry_inv p ?c" using entry_inv_claim[OF inv HALF_OPEN gen(2)] .
    moreover have "own_probe ?a ?c" by (simp add: own_probe_def claim_probe_def recovery_probe_def is_probe_def)
    ultimately show ?thesis by (simp add: wp_def recovery_probe_def)
  qed (use gen assms(2) none inv in \<open>auto simp: allow_body_def wp_simps checked_def HealthAdmission_ok_def
      owner_id_ok_def own_probe_def wp_def\<close>)
  then show ?thesis
    unfolding health_allow_request_def health_attempt_id_def option.case wp_seq wp_lift
    by (auto intro!: wp_on_state[OF assms(2)] elim!: wp_mono simp: p(1) held free split: option.splits)
qed

interpretation tracker: health_port tracker_ops "probe_free p" "holds_only p" "lease_prompt p" for p
  by unfold_locales
     (simp_all add: tracker_ops_def tracker_allow tracker_success tracker_failure tracker_snapshot tracker_release)

end
