(* ===== verification/Execution_Properties.thy ===== *)
theory Execution_Properties
  imports Execution_Health Demo
begin

text \<open>
  The properties of resilient execution: how much it may call and whom, what a result and an error
  report, that the deadline is respected, and that no recovery probe leaks.
\<close>

subsection \<open>A concrete execution\<close>

definition demo_candidate :: RankedCandidate where
  "demo_candidate = \<lparr>rc_deployment = demo_deployment ''a'' (1 / 2),
     rc_score = \<lparr>sb_quality = 1 / 4, sb_reliability = 1 / 2, sb_latency = 0, sb_cost = 0,
       sb_availability = 0, sb_total = 3 / 4\<rparr>, rc_estimated_cost_usd = 9 / 200000\<rparr>"

definition demo_ranking :: RankingDecision where
  "demo_ranking = mk_decision \<lparr>ac_policy = demo_decision, ac_registry_digest = ''r'',
     ac_candidates = mr_deployments demo_registry\<rparr> demo_policy ''i'' ''g'' [demo_candidate] []"

definition demo_response :: ProviderResponse where
  "demo_response = \<lparr>ps_text = Some ''ok'', ps_usage = \<lparr>us_input_tokens = 1, us_output_tokens = 1,
     us_total_tokens = None, us_cache_read_input_tokens = None, us_cache_write_input_tokens = None,
     us_total_cost_usd = None\<rparr>, ps_response_id = None, ps_finish_reason = None,
     ps_structured_output = None, ps_tool_calls = []\<rparr>"

definition demo_world :: "call_outcome \<Rightarrow> attempt_world" where
  "demo_world outcome = \<lparr>wd_check_loop = Fin 5, wd_allow = sample_health_env 5, wd_started = Fin 5,
     wd_check_call = Fin 5, wd_generate = (\<lambda>_ _. outcome), wd_check_response = Fin 5, wd_responded = Fin 5,
     wd_success = sample_health_env 5, wd_check_error = Fin 5, wd_failed = Fin 5,
     wd_failure = sample_health_env 5, wd_snapshot = sample_health_env 5, wd_finished = Fin 5,
     wd_release = sample_health_env 5, wd_check_sleep = Fin 5\<rparr>"

definition demo_retry :: RetryPolicy where
  "demo_retry = \<lparr>ry_max_attempts_per_deployment = 1, ry_max_fallbacks = 2, ry_base_delay_seconds = Fin 1,
     ry_max_delay_seconds = Fin 8, ry_jitter_ratio = Fin 0\<rparr>"

definition demo_args :: "call_outcome \<Rightarrow> HealthTracker exec_args" where
  "demo_args outcome = \<lparr>xg_ops = tracker_ops, xg_policy = demo_retry, xg_providers = (\<lambda>_. Some ''adapter''),
     xg_lib = \<lparr>sl_pattern_compiles = (\<lambda>p. True), sl_check_schema = (\<lambda>s. True), sl_validates = (\<lambda>s v. True)\<rparr>,
     xg_request = demo_request, xg_decision = demo_ranking, xg_max_output_tokens = 20,
     xg_timeout_seconds = Fin 30, xg_deadline = \<lparr>dl_started_at = Some (Fin 4), dl_expires_at = Some (Fin 9)\<rparr>,
     xg_world = (\<lambda>_ _. demo_world outcome)\<rparr>"

definition demo_safety :: FallbackSafetyState where
  "demo_safety = \<lparr>fs_provider_output_observed = False, fs_external_side_effect_executed = False,
     fs_opaque_reasoning_state_established = False\<rparr>"

abbreviation demo_execute :: "call_outcome \<Rightarrow> HealthTracker exec_state \<Rightarrow>
    (exec_failure + ResilientExecutionResult) \<times> HealthTracker exec_state" where
  "demo_execute outcome \<equiv> execute (demo_args outcome) demo_safety (Fin 4) False (Fin 6)"

lemma demo_succeeds:
  "(case fst (demo_execute (Responded demo_response) (exec_init (tracker_init sample_policy))) of
      Inr x \<Rightarrow> xr_response x = demo_response \<and> length (xr_attempts x) = 1 | Inl _ \<Rightarrow> False)"
  by code_simp

lemma demo_retry_ok: "RetryPolicy_ok demo_retry"
  by code_simp

lemma demo_retry_args [simp]: "xg_policy (demo_args w) = demo_retry"
  by (simp add: demo_args_def)

subsection \<open>Bounds and authority\<close>

lemma confined_bounded:
  assumes "confined g (deployments_of (bounded_candidates g)) S (exec_bound g) cs ds sl" "RetryPolicy_ok (xg_policy g)"
  shows "int (length cs) \<le> ry_max_attempts_per_deployment (xg_policy g) * (ry_max_fallbacks (xg_policy g) + 1)"
proof -
  have "length cs \<le> nat (ry_max_attempts_per_deployment (xg_policy g)) * length (bounded_candidates g)"
    using assms(1) by (simp add: confined_def exec_bound_def)
  also have "\<dots> \<le> nat (ry_max_attempts_per_deployment (xg_policy g)) * nat (ry_max_fallbacks (xg_policy g) + 1)"
    by (simp add: bounded_candidates_def)
  finally have "int (length cs) \<le> int (nat (ry_max_attempts_per_deployment (xg_policy g)) * nat (ry_max_fallbacks (xg_policy g) + 1))"
    by (simp only: of_nat_le_iff)
  then show ?thesis using assms(2) by (simp add: RetryPolicy_ok_def)
qed

text \<open>What every execution from the initial state leaves behind.\<close>

lemma execute_confined:
  assumes "execute g safety before expired after (exec_init h) = (r, st)" "RetryPolicy_ok (xg_policy g)"
  obtains (blocked) e where "r = Inl e" "st = exec_init h"
  | (ran) ds where "startable g safety"
      "confined g (deployments_of (bounded_candidates g)) (ids_of (bounded_candidates g)) (exec_bound g)
         (ex_calls st) ds (ex_sleeps st)"
proof -
  have pos: "0 < ry_max_attempts_per_deployment (xg_policy g)" using assms(2) by (simp add: RetryPolicy_ok_def)
  have run: "\<exists>ds. confined g (deployments_of (bounded_candidates g)) (ids_of (bounded_candidates g)) (exec_bound g)
         (ex_calls st) ds (ex_sleeps st)"
    if "progress (exec_init h) cs as ds sl st"
      "confined g (deployments_of (bounded_candidates g)) (ids_of (bounded_candidates g)) (exec_bound g) cs ds sl"
    for cs as ds sl
    using that by (auto simp: progress_def exec_init_def)
  note res = execute_result[OF pos assms(1)]
  show thesis
  proof (cases r)
    case (Inl e)
    with res consider "st = exec_init h" | "startable g safety" "exec_fail g (exec_init h) e st"
      | "startable g safety" "exec_exhausted g (exec_init h) e st" by blast
    then show thesis
    proof cases
      case 2
      then show thesis using ran run by (blast elim: loop_failE)
    next
      case 3
      then show thesis using ran run unfolding exhausted_def loop_none_def by blast
    qed (use Inl blocked in blast)
  next
    case (Inr x)
    with res have "startable g safety" "exec_done g (exec_init h) x st" by auto
    then show thesis using ran run unfolding loop_done_def by blast
  qed
qed

text \<open>
  C5. Every execution ends after at most \<open>max_attempts_per_deployment * (max_fallbacks + 1)\<close>
  provider calls. Each call is for a ranked candidate of the authorized model group, with the
  request built for that deployment and valid; no wait exceeds the retry policy's maximum; and
  when replay is unsafe nothing is called, nothing recorded and no health state touched.
\<close>

theorem execution_bounded_within_decision:
  assumes "RetryPolicy_ok (xg_policy g)"
    "execute g safety before expired after (exec_init h) = (r, st)"
  shows "int (length (ex_calls st)) \<le>
      ry_max_attempts_per_deployment (xg_policy g) * (ry_max_fallbacks (xg_policy g) + 1) \<and>
    (\<forall>(i, q)\<in>set (ex_calls st). \<exists>c\<in>set (bounded_candidates g).
       i = md_deployment_id (rc_deployment c) \<and>
       md_model_group (rc_deployment c) = rp_authorized_model_group (rd_routing (xg_decision g)) \<and>
       q = mk_provider_request (xg_request g) (rc_deployment c) (xg_max_output_tokens g) (xg_timeout_seconds g) \<and>
       ProviderRequest_ok (xg_lib g) q) \<and>
    list_all (\<lambda>v. \<not> flt (ry_max_delay_seconds (xg_policy g)) v) (ex_sleeps st) \<and>
    (\<not> automatic_replay_allowed safety \<longrightarrow> (\<exists>e. r = Inl e) \<and> st = exec_init h)"
proof -
  from assms(2,1) show ?thesis
  proof (cases rule: execute_confined)
    case (ran ds)
    have "\<forall>(i, q)\<in>set (ex_calls st). \<exists>c\<in>set (bounded_candidates g).
       i = md_deployment_id (rc_deployment c) \<and>
       md_model_group (rc_deployment c) = rp_authorized_model_group (rd_routing (xg_decision g)) \<and>
       q = mk_provider_request (xg_request g) (rc_deployment c) (xg_max_output_tokens g) (xg_timeout_seconds g) \<and>
       ProviderRequest_ok (xg_lib g) q"
      using ran by (fastforce simp: confined_def startable_def validate_candidate_def list_all_iff callable_def call_of_def)
    moreover have "list_all (\<lambda>v. \<not> flt (ry_max_delay_seconds (xg_policy g)) v) (ex_sleeps st)"
      using ran(2) by (simp add: confined_def)
    moreover have "automatic_replay_allowed safety" using ran(1) by (simp add: startable_def)
    ultimately show ?thesis using confined_bounded[OF ran(2) assms(1)] by blast
  qed (use assms(1) in \<open>auto simp: exec_init_def RetryPolicy_ok_def\<close>)
qed

theorem execution_bounded_within_decision_witness:
  "\<exists>r st. demo_execute (Responded demo_response) (exec_init (tracker_init sample_policy)) = (r, st) \<and>
     int (length (ex_calls st)) \<le> 3"
proof -
  obtain r st where "demo_execute (Responded demo_response) (exec_init (tracker_init sample_policy)) = (r, st)"
    by fastforce
  with execution_bounded_within_decision[OF _ this] demo_retry_ok show ?thesis by (simp add: demo_retry_def)
qed

subsection \<open>Results and errors\<close>

text \<open>
  C35. A result names the deployment that answered: the response is what its adapter returned to
  the last call made, the recorded attempts are recoverable failures followed by this one success,
  the routing provenance is the decision's with the answering deployment and the sequence of
  opened deployments, which follows the ranking and ends in it. With a deadline, the clock was
  inside the window before and after and the timer had not fired.
\<close>

theorem execution_result_accounted:
  assumes "RetryPolicy_ok (xg_policy g)"
    "execute g safety before expired after (exec_init h) = (Inr x, st)"
  shows "\<exists>c calls failed n ms i adapter.
    c \<in> set (bounded_candidates g) \<and> xr_deployment x = rc_deployment c \<and>
    ex_calls st = calls @ [call_of g (rc_deployment c)] \<and>
    xg_providers g (md_provider (rc_deployment c), md_api_family (rc_deployment c)) = Some adapter \<and>
    wd_generate (xg_world g i n) adapter (snd (call_of g (rc_deployment c))) = Responded (xr_response x) \<and>
    xr_attempts x = failed @ [success_of (rc_deployment c) n ms] \<and> list_all recoverable failed \<and>
    xr_routing x = (rd_routing (xg_decision g))\<lparr>rp_provider := Some (md_provider (rc_deployment c)),
       rp_model := Some (md_model_id (rc_deployment c)), rp_deployment := Some (md_deployment_id (rc_deployment c)),
       rp_fallback_sequence := ex_sequence st\<rparr> \<and>
    subseq (ex_sequence st) (map (\<lambda>c. md_deployment_id (rc_deployment c)) (bounded_candidates g)) \<and>
    (\<exists>earlier. ex_sequence st = earlier @ [md_deployment_id (rc_deployment c)]) \<and>
    (dl_expires_at (xg_deadline g) \<noteq> None \<and> dl_started_at (xg_deadline g) \<noteq> None \<longrightarrow>
       \<not> expired \<and> deadline_check (xg_deadline g) before = Inr () \<and> deadline_check (xg_deadline g) after = Inr ())"
proof -
  have pos: "0 < ry_max_attempts_per_deployment (xg_policy g)" using assms(1) by (simp add: RetryPolicy_ok_def)
  note res = execute_result[OF pos assms(2)]
  then have dl: "dl_expires_at (xg_deadline g) \<noteq> None \<and> dl_started_at (xg_deadline g) \<noteq> None \<longrightarrow>
       \<not> expired \<and> deadline_check (xg_deadline g) before = Inr () \<and> deadline_check (xg_deadline g) after = Inr ()"
    and fin: "exec_done g (exec_init h) x st" by auto
  obtain cs as ds sl i d n ms resp where
    1: "progress (exec_init h) (cs @ [call_of g d]) (as @ [success_of d n ms]) ds sl st"
      "confined g (deployments_of (bounded_candidates g)) (ids_of (bounded_candidates g)) (exec_bound g)
         (cs @ [call_of g d]) ds sl" "list_all recoverable as" "d \<in> deployments_of (bounded_candidates g)"
      "answered g i d n resp" "x = result_of g d resp st" "\<exists>pre. ex_sequence st = pre @ [md_deployment_id d]"
    using fin unfolding loop_done_def by blast
  obtain c where c: "c \<in> set (bounded_candidates g)" "d = rc_deployment c" using 1(4) by blast
  obtain adapter where a: "xg_providers g (md_provider d, md_api_family d) = Some adapter"
    "wd_generate (xg_world g i n) adapter (snd (call_of g d)) = Responded resp"
    using 1(5) by (auto simp: answered_def)
  have st: "ex_calls st = cs @ [call_of g d]" "ex_attempts st = as @ [success_of d n ms]" "ex_sequence st = ds"
    using 1(1) by (simp_all add: progress_def exec_init_def)
  have "subseq ds (ids_of (bounded_candidates g))" using 1(2) by (simp add: confined_def)
  with c a st 1(3,6,7) dl show ?thesis by (simp add: result_of_def) blast
qed

lemma demo_result: "\<exists>x st. demo_execute (Responded demo_response) (exec_init (tracker_init sample_policy)) = (Inr x, st)"
  using demo_succeeds
  by (cases "demo_execute (Responded demo_response) (exec_init (tracker_init sample_policy))")
     (auto split: sum.splits)

theorem execution_result_accounted_witness:
  "\<exists>x st c. demo_execute (Responded demo_response) (exec_init (tracker_init sample_policy)) = (Inr x, st) \<and>
     c \<in> set (bounded_candidates (demo_args (Responded demo_response))) \<and> xr_deployment x = rc_deployment c"
proof -
  obtain x st where r: "demo_execute (Responded demo_response) (exec_init (tracker_init sample_policy)) = (Inr x, st)"
    using demo_result by blast
  with execution_result_accounted[OF _ r] demo_retry_ok show ?thesis by auto
qed

text \<open>
  C36. A resilience error that follows any activity reports all attempts made, and either the last
  one failed permanently, its code is the reported one and everything before it was recoverable,
  or every attempt was recoverable, every bounded candidate was tried, and the code is the last
  error code seen.
\<close>

theorem execution_error_accounted:
  assumes "RetryPolicy_ok (xg_policy g)"
    "execute g safety before expired after (exec_init h) = (Inl (ResilienceExecutionError ats code), st)"
    "st \<noteq> exec_init h"
  shows "ats = ex_attempts st \<and>
    ((\<exists>failed a. ats = failed @ [a] \<and> list_all recoverable failed \<and> xa_outcome a = PERMANENT_FAILURE \<and>
        code = xa_error_code a \<and> code \<noteq> None) \<or>
     (list_all recoverable ats \<and> code = last_code ats \<and>
      (\<forall>c\<in>set (bounded_candidates g). \<exists>a\<in>set ats. xa_deployment_id a = md_deployment_id (rc_deployment c))))"
proof -
  have pos: "0 < ry_max_attempts_per_deployment (xg_policy g)" using assms(1) by (simp add: RetryPolicy_ok_def)
  let ?e = "ResilienceExecutionError ats code"
  from execute_result[OF pos assms(2)] assms(3)
  consider "exec_fail g (exec_init h) ?e st" | "exec_exhausted g (exec_init h) ?e st" by blast
  then show ?thesis
  proof cases
    case 1
    then obtain cs as where a: "ats = ex_attempts st" "ex_attempts st = as"
      "stopped_at g (deployments_of (bounded_candidates g)) cs as code"
      by (rule loop_failE) (auto simp: progress_def exec_init_def)
    obtain rs d n p ms where "as = rs @ [failed_attempt d n p ms None]" "list_all recoverable rs"
      "\<not> is_transient_provider_error p" "code = Some (pe_code p)"
      using a(3) unfolding stopped_at_def by blast
    with a(1,2) show ?thesis by (auto simp: failed_attempt_def)
  next
    case 2
    then obtain as where "ex_attempts st = as" "visited (deployments_of (bounded_candidates g)) as"
      "ats = ex_attempts st" "code = last_code (ex_attempts st)"
      unfolding exhausted_def loop_none_def by (auto simp: progress_def exec_init_def)
    then show ?thesis by (auto simp: visited_def)
  qed
qed

definition demo_permanent :: ProviderError where
  "demo_permanent = sample_timeout\<lparr>pe_code := AUTHENTICATION, pe_retryable := False\<rparr>"

lemma demo_fails:
  "fst (demo_execute (Failed demo_permanent) (exec_init (tracker_init sample_policy))) =
     Inl (ResilienceExecutionError [failed_attempt (demo_deployment ''a'' (1 / 2)) 1 demo_permanent 0 None] (Some AUTHENTICATION))"
  by code_simp

lemma demo_fails_calls:
  "length (ex_calls (snd (demo_execute (Failed demo_permanent) (exec_init (tracker_init sample_policy))))) = 1"
  by code_simp

theorem execution_error_accounted_witness:
  "\<exists>st. snd (demo_execute (Failed demo_permanent) (exec_init (tracker_init sample_policy))) = st \<and>
     ex_attempts st = [failed_attempt (demo_deployment ''a'' (1 / 2)) 1 demo_permanent 0 None]"
proof -
  obtain r st where r: "demo_execute (Failed demo_permanent) (exec_init (tracker_init sample_policy)) = (r, st)" by fastforce
  have "st \<noteq> exec_init (tracker_init sample_policy)" using demo_fails_calls r by (auto simp: exec_init_def)
  with execution_error_accounted[OF _ _ this, of "demo_args (Failed demo_permanent)"] r demo_fails demo_retry_ok
  show ?thesis by auto
qed

subsection \<open>Composition with the health tracker\<close>

text \<open>
  C37. Run against the in-memory tracker, an execution that starts with no recovery probe
  outstanding ends with none, whatever happens in it (success, failure, expiry, cancellation,
  crash), keeps the tracker's invariant, and never fails because of a health call, provided each
  probe lease outlives the two clock readings of its admission.
\<close>

theorem execution_leaks_no_probe:
  assumes "probe_free p tr" "xg_ops g = tracker_ops" "\<forall>i n. lease_prompt p (wd_allow (xg_world g i n))"
    "list_all (\<lambda>c. normalized (md_deployment_id (rc_deployment c))) (bounded_candidates g)"
    "execute g safety before expired after (exec_init tr) = (r, st)"
  shows "probe_free p (ex_health st) \<and> tracker_inv (ex_health st) \<and> (\<forall>f. r \<noteq> Inl (HealthError f))"
proof -
  have "wp (execute g safety before expired after) (tracker.idle_end p) (tracker.idle_raise p) (exec_init tr)"
    using assms by (intro tracker.execute_idle) auto
  from wp_result[OF this assms(5)] have "probe_free p (ex_health st) \<and> (\<forall>f. r \<noteq> Inl (HealthError f))"
    by (cases r) (auto simp: tracker.idle_end_def tracker.idle_raise_def unbroken_def)
  then show ?thesis by (simp add: probe_free_def)
qed

text \<open>
  A tracker whose circuit for deployment \<open>a\<close> has tripped and cooled: the next execution takes its
  recovery probe. It crashes in the adapter, and the probe is released (generation 5 is the
  identifier drawn by the release).
\<close>

definition recovering_tracker :: HealthTracker where
  "recovering_tracker = run_calls health_step (tracker_init sample_policy)
     (replicate 2 (RecordFailure (sample_health_env (- 40)) ''a'' sample_timeout 5 None))"

lemma recovering_probe_free: "probe_free sample_policy recovering_tracker"
proof -
  have "tracker_reachable sample_policy recovering_tracker" unfolding recovering_tracker_def
    by (rule tracker_reachable_run[OF tracker_reachable.start[OF sample_policy_ok]]) (simp add: list_all_iff)
  then have inv: "tracker_inv recovering_tracker" by (rule tracker_reachable_inv)
  have "ht_policy recovering_tracker = sample_policy \<and>
      map_option mh_probe_owner (ht_states recovering_tracker ''a'') = Some None" by code_simp
  moreover have "ht_states recovering_tracker d = None" if "d \<noteq> ''a''" for d
    using that by (simp add: recovering_tracker_def numeral_2_eq_2 tracker_init_def health_record_failure_def
        on_state_def split: prod.splits)
  ultimately show ?thesis using inv by (auto simp: probe_free_def) (metis option.distinct(1) option.inject option.map_sel option.sel)
qed

theorem execution_leaks_no_probe_witness:
  "map_option (\<lambda>s. (mh_circuit_state s, mh_generation s))
     (ht_states (ex_health (snd (demo_execute Crashed (exec_init recovering_tracker)))) ''a'') = Some (HALF_OPEN, uuid_hex 5) \<and>
   probe_free sample_policy (ex_health (snd (demo_execute Crashed (exec_init recovering_tracker))))"
proof
  show "map_option (\<lambda>s. (mh_circuit_state s, mh_generation s))
     (ht_states (ex_health (snd (demo_execute Crashed (exec_init recovering_tracker)))) ''a'') = Some (HALF_OPEN, uuid_hex 5)"
    by code_simp
  have "xg_ops (demo_args Crashed) = tracker_ops" by (simp add: demo_args_def)
  moreover have "lease_prompt sample_policy (sample_health_env 5)" by code_simp
  then have "\<forall>i n. lease_prompt sample_policy (wd_allow (xg_world (demo_args Crashed) i n))"
    by (simp add: demo_args_def demo_world_def)
  moreover have "list_all (\<lambda>c. normalized (md_deployment_id (rc_deployment c))) (bounded_candidates (demo_args Crashed))"
    by code_simp
  moreover obtain r st where "demo_execute Crashed (exec_init recovering_tracker) = (r, st)" by fastforce
  ultimately show "probe_free sample_policy (ex_health (snd (demo_execute Crashed (exec_init recovering_tracker))))"
    using execution_leaks_no_probe[OF recovering_probe_free] by fastforce
qed

end
