(* ===== verification/Streaming.thy ===== *)
theory Streaming
  imports Execution
begin

text \<open>
  Streaming execution (\<open>StreamingExecutionService\<close> of \<open>application/streaming.py\<close>, 
  \<open>bounded_probe_events\<close> and the cached response).

  The generator \<open>_stream\<close> is a method whose state keeps its variables and a trace of the provider
  streams it opens and the events it yields. A yield hands the event to the wrapper \<open>stream\<close>,
  which checks the deadline, delivers the event and may never resume the generator: then the
  yield raises \<open>GeneratorExit\<close> inside it, as closing the generator does, and the state keeps the
  wrapper's reason. What the outside decides is an input, as in \<open>Execution\<close>; a provider stream is
  a finite list of events and the way it ends. Telemetry and the operational recorder change no
  result and are not modelled.
\<close>

subsection \<open>Provider stream events\<close>

fun semantic :: "ProviderStreamEvent \<Rightarrow> bool" where
  "semantic (ProviderContentDelta _) \<longleftrightarrow> True"
| "semantic (ProviderToolCallStarted _ _) \<longleftrightarrow> True"
| "semantic (ProviderToolCallArgumentsDelta _ _) \<longleftrightarrow> True"
| "semantic (ProviderToolCallCompleted _) \<longleftrightarrow> True"
| "semantic _ \<longleftrightarrow> False"

text \<open>How the provider's generator ends after its events.\<close>

datatype stream_end = Exhausted | StreamFailed ProviderError | StreamTimedOut | StreamCrashed | StreamCancelled

record CachedResponse =
  ca_content :: string
  ca_input_tokens :: int
  ca_output_tokens :: int
  ca_provider :: string
  ca_model :: string
  ca_deployment :: string
  ca_api_family :: string
  ca_finish_reason :: string
  ca_cached_at :: datetime
  ca_source_request_id :: uuid

definition CachedResponse_ok :: "CachedResponse \<Rightarrow> bool" where
  "CachedResponse_ok c \<longleftrightarrow> ca_content c \<noteq> [] \<and> 0 \<le> ca_input_tokens c \<and> 0 \<le> ca_output_tokens c \<and>
     list_all normalized [ca_provider c, ca_model c, ca_deployment c, ca_api_family c, ca_finish_reason c] \<and>
     is_aware (ca_cached_at c)"

subsection \<open>Preparation\<close>

datatype preflight_failure =
    PreflightDeadline | PreflightValueError string | StreamingPreflightError string
  | StreamingOutsideGroup | StreamingNotAdvertised | PrepareRaised ProviderError

text \<open>What resolution yields: whether the adapter streams, its verified features, its preparation.\<close>

record stream_adapter =
  sa_streaming_port :: bool
  sa_native_streaming :: bool
  sa_streaming_usage :: bool
  sa_prepare :: "ProviderRequest \<Rightarrow> ProviderError + unit"

record PreparedStreamingCandidate =
  pc_candidate :: RankedCandidate
  pc_provider_request :: ProviderRequest

record StreamingExecutionPlan =
  pl_request :: GatewayRequest
  pl_decision :: RankingDecision
  pl_candidates :: "PreparedStreamingCandidate list"
  pl_replay_safe :: bool
  pl_max_output_tokens :: int
  pl_provider_timeout_seconds :: pyfloat
  pl_deadline :: ExecutionDeadline

definition validate_streaming_candidate :: "RankingDecision \<Rightarrow> RankedCandidate \<Rightarrow> preflight_failure + unit" where
  "validate_streaming_candidate dec c =
     (if md_model_group (rc_deployment c) \<noteq> rp_authorized_model_group (rd_routing dec) then Inl StreamingOutsideGroup
      else if STREAMING \<notin> md_capabilities (rc_deployment c) then Inl StreamingNotAdvertised
      else Inr ())"

definition replay_safe :: "GatewayRequest \<Rightarrow> bool" where
  "replay_safe r \<longleftrightarrow> \<not> list_ex (\<lambda>m. msg_role m = TOOL \<or> list_ex is_tool_result (canonical_blocks m)) (gr_messages r)"

definition preflight_check :: "ExecutionDeadline \<Rightarrow> pyfloat \<Rightarrow> preflight_failure + unit" where
  "preflight_check dl now = (case deadline_check dl now of Inl _ \<Rightarrow> Inl PreflightDeadline | Inr _ \<Rightarrow> Inr ())"

definition prepare_candidate ::
  "schema_lib \<Rightarrow> (ModelDeployment \<Rightarrow> stream_adapter option) \<Rightarrow> GatewayRequest \<Rightarrow> RankingDecision \<Rightarrow> int \<Rightarrow> pyfloat \<Rightarrow>
   ExecutionDeadline \<Rightarrow> RankedCandidate \<times> pyfloat \<Rightarrow> preflight_failure + PreparedStreamingCandidate" where
  "prepare_candidate lib resolve r dec max_output timeout dl = (\<lambda>(c, now).
     ebind (preflight_check dl now) (\<lambda>_.
     ebind (validate_streaming_candidate dec c) (\<lambda>_.
     case resolve (rc_deployment c) of
       None \<Rightarrow> Inl (StreamingPreflightError ''provider_adapter_unavailable'')
     | Some a \<Rightarrow>
         if \<not> sa_streaming_port a then Inl (StreamingPreflightError ''streaming_not_supported'')
         else if \<not> sa_native_streaming a then Inl (StreamingPreflightError ''streaming_not_supported'')
         else if \<not> sa_streaming_usage a then Inl (StreamingPreflightError ''streaming_usage_unavailable'')
         else
           (let q = mk_provider_request r (rc_deployment c) max_output timeout in
            if \<not> ProviderRequest_ok lib q then Inl (PreflightValueError ''provider request'')
            else case sa_prepare a q of
              Inl e \<Rightarrow> if pe_code e = INVALID_REQUEST
                then Inl (StreamingPreflightError ''invalid_provider_request'') else Inl (PrepareRaised e)
            | Inr _ \<Rightarrow> Inr \<lparr>pc_candidate = c, pc_provider_request = q\<rparr>))))"

text \<open>\<open>prepare\<close>; the clock readings are those of the entry, of each candidate and of the end.\<close>

definition prepare ::
  "schema_lib \<Rightarrow> RetryPolicy \<Rightarrow> (ModelDeployment \<Rightarrow> stream_adapter option) \<Rightarrow> GatewayRequest \<Rightarrow> RankingDecision \<Rightarrow>
   int \<Rightarrow> pyfloat \<Rightarrow> ExecutionDeadline \<Rightarrow> pyfloat \<Rightarrow> (nat \<Rightarrow> pyfloat) \<Rightarrow> pyfloat \<Rightarrow>
   preflight_failure + StreamingExecutionPlan" where
  "prepare lib policy resolve r dec max_output timeout dl entered clock finished =
     ebind (preflight_check dl entered) (\<lambda>_.
     if \<not> rq_streaming (gr_requirements r) then Inl (PreflightValueError ''streaming'')
     else if max_output \<le> 0 then Inl (PreflightValueError ''max_output_tokens'')
     else if fle timeout fzero then Inl (PreflightValueError ''provider_timeout_seconds'')
     else if rd_selected dec = None then Inl (StreamingPreflightError ''no_eligible_streaming_deployment'')
     else
       (let cs = ranked_candidates dec; safe = replay_safe r;
            bounded = (if safe then take (nat (ry_max_fallbacks policy + 1)) cs else take 1 cs)
        in ebind (emap (prepare_candidate lib resolve r dec max_output timeout dl)
                    (zip bounded (map clock [0..<length bounded]))) (\<lambda>prepared.
           ebind (preflight_check dl finished) (\<lambda>_.
           Inr \<lparr>pl_request = r, pl_decision = dec, pl_candidates = prepared, pl_replay_safe = safe,
                 pl_max_output_tokens = max_output, pl_provider_timeout_seconds = timeout,
                 pl_deadline = dl\<rparr>))))"

subsection \<open>State and world\<close>

text \<open>Why the wrapper did not resume the generator.\<close>

datatype verdict = Expired | Abandoned | Delivered_terminal

datatype trace_item = Opened string ProviderRequest | Yielded GatewayStreamEvent

record 's stream_state =
  ss_health :: 's
  ss_fallback_sequence :: "string list"
  ss_last_error :: "ProviderError option"
  ss_last_execution :: "ProviderExecution option"
  ss_routing :: RoutingProvenance
  ss_cached_content :: "string list option"
  ss_stored :: "CachedResponse list"
  ss_sleeps :: "pyfloat list"
  ss_trace :: "trace_item list"
  ss_provider_started :: bool
  ss_response_id :: "string option"
  ss_public_started :: bool
  ss_semantic_output :: bool
  ss_usage_seen :: bool
  ss_final_usage :: "Usage option"
  ss_sequence :: int
  ss_public :: "GatewayStreamEvent list"
  ss_public_sequence :: int
  ss_partial :: bool
  ss_verdict :: "verdict option"

text \<open>One yield: the deadline's timer and clock after it, the consumer, and the clock before the next read.\<close>

record emit_world =
  ew_fired :: bool
  ew_after :: pyfloat
  ew_resumed :: bool
  ew_before :: pyfloat

text \<open>One read of the provider stream and the handling of its event.\<close>

record read_world =
  rw_before :: health_env
  rw_loop_now :: pyfloat
  rw_after :: health_env
  rw_check :: pyfloat
  rw_probe :: health_env
  rw_completed :: pyfloat
  rw_check_success :: pyfloat
  rw_success :: health_env
  rw_cached_at :: datetime
  rw_put_ok :: bool

record stream_world =
  tw_check :: pyfloat
  tw_started :: pyfloat
  tw_allow :: health_env
  tw_check_open :: pyfloat
  tw_loop_start :: pyfloat
  tw_reads :: "ProviderStreamEvent list"
  tw_end :: stream_end
  tw_read :: "nat \<Rightarrow> read_world"
  tw_check_error :: pyfloat
  tw_failed :: pyfloat
  tw_failure :: health_env
  tw_snapshot :: health_env
  tw_release :: health_env
  tw_check_sleep :: pyfloat

datatype cache_answer = CacheHit CachedResponse | CacheMiss | CacheRaised

record 's stream_args =
  sg_ops :: "'s health_ops"
  sg_policy :: RetryPolicy
  sg_plan :: StreamingExecutionPlan
  sg_cache :: "cache_answer option"
  sg_emit :: "nat \<Rightarrow> emit_world"
  sg_world :: "nat \<Rightarrow> int \<Rightarrow> stream_world"

type_synonym ('s, 'a) streaming = "('s stream_state, exec_failure, 'a) pymethod"

definition stream_health :: "('s, health_failure, 'a) pymethod \<Rightarrow> ('s, 'a) streaming" where
  "stream_health m st = (case m (ss_health st) of
      (Inl e, h) \<Rightarrow> (Inl (HealthError e), st\<lparr>ss_health := h\<rparr>)
    | (Inr x, h) \<Rightarrow> (Inr x, st\<lparr>ss_health := h\<rparr>))"

subsection \<open>Events\<close>

definition blank_event :: "StreamEventType \<Rightarrow> GatewayRequest \<Rightarrow> int \<Rightarrow> GatewayStreamEvent" where
  "blank_event ty r n = \<lparr>ev_event_type = ty, ev_request_id = gr_request_id r, ev_sequence_number = n,
     ev_routing = None, ev_delta = None, ev_tool_call_id = None, ev_tool_name = None, ev_tool_call = None,
     ev_usage = None, ev_execution = None, ev_finish_reason = None, ev_error = None, ev_partial = False\<rparr>"

fun semantic_gateway_event :: "GatewayRequest \<Rightarrow> int \<Rightarrow> ProviderStreamEvent \<Rightarrow> GatewayStreamEvent" where
  "semantic_gateway_event r n (ProviderContentDelta delta) =
     (blank_event CONTENT_DELTA r n)\<lparr>ev_delta := Some delta\<rparr>"
| "semantic_gateway_event r n (ProviderToolCallStarted call_id name) =
     (blank_event TOOL_CALL_STARTED r n)\<lparr>ev_tool_call_id := Some call_id, ev_tool_name := Some name\<rparr>"
| "semantic_gateway_event r n (ProviderToolCallArgumentsDelta call_id delta) =
     (blank_event TOOL_CALL_ARGUMENTS_DELTA r n)\<lparr>ev_tool_call_id := Some call_id, ev_delta := Some delta\<rparr>"
| "semantic_gateway_event r n (ProviderToolCallCompleted call) =
     (blank_event TOOL_CALL_COMPLETED r n)\<lparr>ev_tool_call := Some call\<rparr>"
| "semantic_gateway_event r n _ = blank_event TOOL_CALL_COMPLETED r n"

definition failed_event ::
  "GatewayRequest \<Rightarrow> int \<Rightarrow> RoutingProvenance \<Rightarrow> string \<Rightarrow> string \<Rightarrow> bool \<Rightarrow> bool \<Rightarrow> ProviderExecution option \<Rightarrow>
   GatewayStreamEvent" where
  "failed_event r n routing code message retryable partial execution =
     (blank_event RESPONSE_FAILED r n)\<lparr>ev_routing := Some routing, ev_execution := execution,
       ev_error := Some \<lparr>ge_code = code, ge_message = message, ge_retryable = retryable\<rparr>, ev_partial := partial\<rparr>"

definition invalid_stream_event :: "string \<Rightarrow> ProviderError" where
  "invalid_stream_event provider = \<lparr>pe_provider = provider, pe_code = INVALID_RESPONSE, pe_retryable = False,
     pe_status_code = None, pe_retry_after_seconds = None\<rparr>"

fun provider_error_value :: "ProviderErrorCode \<Rightarrow> string" where
  "provider_error_value AUTHENTICATION = ''authentication''"
| "provider_error_value RATE_LIMIT = ''rate_limit''"
| "provider_error_value TIMEOUT = ''timeout''"
| "provider_error_value INVALID_REQUEST = ''invalid_request''"
| "provider_error_value UNAVAILABLE = ''unavailable''"
| "provider_error_value TRANSPORT = ''transport''"
| "provider_error_value INVALID_RESPONSE = ''invalid_response''"
| "provider_error_value INVALID_STRUCTURED_OUTPUT = ''invalid_structured_output''"
| "provider_error_value INVALID_TOOL_CALL = ''invalid_tool_call''"
| "provider_error_value UNKNOWN = ''unknown''"

definition terminal_event :: "GatewayStreamEvent \<Rightarrow> bool" where
  "terminal_event e \<longleftrightarrow> ev_event_type e = RESPONSE_COMPLETED \<or> ev_event_type e = RESPONSE_FAILED"

definition partial_event :: "GatewayStreamEvent \<Rightarrow> bool" where
  "partial_event e \<longleftrightarrow> ev_event_type e \<in>
     {CONTENT_DELTA, TOOL_CALL_STARTED, TOOL_CALL_ARGUMENTS_DELTA, TOOL_CALL_COMPLETED}"

text \<open>The end of \<open>ExecutionDeadline.run\<close> around one read that returned or raised.\<close>

definition run_after :: "ExecutionDeadline \<Rightarrow> bool \<Rightarrow> pyfloat \<Rightarrow> exec_failure + unit" where
  "run_after dl fired now =
     (if dl_expires_at dl = None \<or> dl_started_at dl = None then Inr ()
      else if fired then Inl ExecutionDeadlineExceeded else deadline_check dl now)"

text \<open>\<open>yield\<close>: the event is constructed, recorded, and handed to the wrapper's loop body.\<close>

definition yielded :: "trace_item list \<Rightarrow> GatewayStreamEvent list" where
  "yielded tr = concat (map (\<lambda>i. case i of Yielded e \<Rightarrow> [e] | Opened _ _ \<Rightarrow> []) tr)"

definition emit :: "'s stream_args \<Rightarrow> GatewayStreamEvent \<Rightarrow> ('s, unit) streaming" where
  "emit g e st =
     (if \<not> GatewayStreamEvent_ok e then (Inl UnexpectedError, st)
      else
        (let w = sg_emit g (length (yielded (ss_trace st)));
             dl = pl_deadline (sg_plan g);
             st1 = st\<lparr>ss_trace := ss_trace st @ [Yielded e]\<rparr>;
             st2 = st1\<lparr>ss_public := ss_public st @ [e], ss_public_sequence := ev_sequence_number e,
               ss_partial := ss_partial st \<or> partial_event e\<rparr>
         in if run_after dl (ew_fired w) (ew_after w) \<noteq> Inr ()
            then (Inl GeneratorExit, st1\<lparr>ss_verdict := Some Expired\<rparr>)
            else if \<not> ew_resumed w then (Inl GeneratorExit, st2\<lparr>ss_verdict := Some Abandoned\<rparr>)
            else if terminal_event e then (Inl GeneratorExit, st2\<lparr>ss_verdict := Some Delivered_terminal\<rparr>)
            else if deadline_check dl (ew_before w) \<noteq> Inr ()
            then (Inl GeneratorExit, st2\<lparr>ss_verdict := Some Expired\<rparr>)
            else (Inr (), st2)))"

definition cached_events :: "GatewayRequest \<Rightarrow> RankingDecision \<Rightarrow> CachedResponse \<Rightarrow> GatewayStreamEvent list" where
  "cached_events r dec hit =
     (let usage = \<lparr>ug_input_tokens = ca_input_tokens hit, ug_output_tokens = ca_output_tokens hit,
            ug_total_tokens = None, ug_cache_read_input_tokens = None, ug_cache_write_input_tokens = None,
            ug_total_cost_usd = None\<rparr>;
          execution = \<lparr>px_provider = ca_provider hit, px_model = ca_model hit, px_deployment = ca_deployment hit,
            px_status = SUCCEEDED, px_latency_ms = 0, px_usage = Some usage, px_provider_request_id = None,
            px_finish_reason = Some (ca_finish_reason hit), px_attempt_number = 1, px_fallback_index = 0,
            px_api_family = Some (ca_api_family hit), px_max_output_tokens = None, px_trace_id = None,
            px_cached = True\<rparr>
      in [(blank_event RESPONSE_STARTED r 1)\<lparr>ev_routing := Some (rd_routing dec)\<rparr>,
          (blank_event CONTENT_DELTA r 2)\<lparr>ev_delta := Some (ca_content hit)\<rparr>,
          (blank_event USAGE_COMPLETED r 3)\<lparr>ev_usage := Some usage\<rparr>,
          (blank_event RESPONSE_COMPLETED r 4)\<lparr>ev_routing := Some (rd_routing dec),
            ev_execution := Some execution, ev_finish_reason := Some (ca_finish_reason hit)\<rparr>])"

subsection \<open>Delay and evidence\<close>

definition f_min :: "pyfloat \<Rightarrow> pyfloat \<Rightarrow> pyfloat" where
  "f_min a b = (if flt b a then b else a)"

definition f_max :: "pyfloat \<Rightarrow> pyfloat \<Rightarrow> pyfloat" where
  "f_max a b = (if flt a b then b else a)"

definition stream_retry_delay_seconds ::
  "RetryPolicy \<Rightarrow> string \<Rightarrow> string \<Rightarrow> int \<Rightarrow> pyfloat option \<Rightarrow> exec_failure + pyfloat" where
  "stream_retry_delay_seconds p request_id deployment_id n retry_after =
     ebind (f_pow2 (max 0 (n - 1))) (\<lambda>two.
     let exponential = f_min (ry_max_delay_seconds p) (fmul (ry_base_delay_seconds p) two);
         unit = jitter_unit (request_id @ '':'' @ deployment_id @ '':'' @ int_str n);
         jittered = fadd exponential (fmul (fmul exponential (ry_jitter_ratio p)) unit);
         requested = (case retry_after of None \<Rightarrow> fzero | Some v \<Rightarrow> v)
     in Inr (f_min (ry_max_delay_seconds p) (f_max jittered requested)))"

definition usage_of :: "ProviderUsage \<Rightarrow> Usage" where
  "usage_of u = \<lparr>ug_input_tokens = us_input_tokens u, ug_output_tokens = us_output_tokens u,
     ug_total_tokens = us_total_tokens u, ug_cache_read_input_tokens = us_cache_read_input_tokens u,
     ug_cache_write_input_tokens = us_cache_write_input_tokens u, ug_total_cost_usd = us_total_cost_usd u\<rparr>"

definition execution_of ::
  "PreparedStreamingCandidate \<Rightarrow> ExecutionStatus \<Rightarrow> int \<Rightarrow> int \<Rightarrow> string option \<Rightarrow> string option \<Rightarrow>
   's stream_state \<Rightarrow> ProviderExecution" where
  "execution_of c status ms n response_id finish st =
     (let d = rc_deployment (pc_candidate c) in
      \<lparr>px_provider = md_provider d, px_model = md_model_id d, px_deployment = md_deployment_id d,
       px_status = status, px_latency_ms = ms, px_usage = ss_final_usage st,
       px_provider_request_id = response_id, px_finish_reason = finish, px_attempt_number = n,
       px_fallback_index = int (length (ss_fallback_sequence st)) - 1, px_api_family = Some (md_api_family d),
       px_max_output_tokens = Some (pq_max_output_tokens (pc_provider_request c)), px_trace_id = None,
       px_cached = False\<rparr>)"

definition routing_for_candidate :: "RankingDecision \<Rightarrow> RankedCandidate \<Rightarrow> string list \<Rightarrow> RoutingProvenance" where
  "routing_for_candidate dec c ids = (rd_routing dec)\<lparr>
     rp_provider := Some (md_provider (rc_deployment c)), rp_model := Some (md_model_id (rc_deployment c)),
     rp_deployment := Some (md_deployment_id (rc_deployment c)), rp_fallback_sequence := ids\<rparr>"

text \<open>\<open>_store_best_effort\<close>: only a non-empty answer that validates is put, and failures are swallowed.\<close>

definition store_best_effort :: "read_world \<Rightarrow> GatewayRequest \<Rightarrow> ProviderExecution \<Rightarrow> ('s, unit) streaming" where
  "store_best_effort w r x = update (\<lambda>st. case ss_cached_content st of
      None \<Rightarrow> st
    | Some parts \<Rightarrow>
        (let c = \<lparr>ca_content = concat parts,
               ca_input_tokens = (case px_usage x of None \<Rightarrow> 0 | Some u \<Rightarrow> ug_input_tokens u),
               ca_output_tokens = (case px_usage x of None \<Rightarrow> 0 | Some u \<Rightarrow> ug_output_tokens u),
               ca_provider = px_provider x, ca_model = px_model x, ca_deployment = px_deployment x,
               ca_api_family = (case px_api_family x of Some (f # fs) \<Rightarrow> f # fs | _ \<Rightarrow> ''unknown''),
               ca_finish_reason = (case px_finish_reason x of Some (f # fs) \<Rightarrow> f # fs | _ \<Rightarrow> ''stop''),
               ca_cached_at = rw_cached_at w, ca_source_request_id = gr_request_id r\<rparr>
         in if concat parts = [] \<or> \<not> CachedResponse_ok c \<or> \<not> rw_put_ok w then st
            else st\<lparr>ss_stored := ss_stored st @ [c]\<rparr>))"

subsection \<open>Reading the provider stream\<close>

text \<open>\<open>bounded_probe_events\<close>: a probe must still be admitted, and its lifetime must not be over.\<close>

definition probe_guard ::
  "'s stream_args \<Rightarrow> health_env \<Rightarrow> HealthAdmission \<Rightarrow> PreparedStreamingCandidate \<Rightarrow> ('s, unit) streaming" where
  "probe_guard g env adm c =
     (if is_probe adm then
        seq (stream_health (op_admitted (sg_ops g) env adm)) (\<lambda>admitted.
        if admitted then ret ()
        else raise (ProviderRaised (probe_expired_error (md_provider (rc_deployment (pc_candidate c))))))
      else ret ())"

definition lifetime_guard ::
  "stream_world \<Rightarrow> read_world \<Rightarrow> HealthAdmission \<Rightarrow> PreparedStreamingCandidate \<Rightarrow> ('s, unit) streaming" where
  "lifetime_guard w rw adm c = (case ha_probe_timeout_seconds adm of
      None \<Rightarrow> ret ()
    | Some t \<Rightarrow> if fle (fsub (fadd (tw_loop_start w) t) (rw_loop_now rw)) fzero
        then raise (ProviderRaised (probe_expired_error (md_provider (rc_deployment (pc_candidate c)))))
        else ret ())"

definition invalid_event :: "PreparedStreamingCandidate \<Rightarrow> ('s, 'a) streaming" where
  "invalid_event c = raise (ProviderRaised (invalid_stream_event (md_provider (rc_deployment (pc_candidate c)))))"

definition next_sequence :: "('s, int) streaming" where
  "next_sequence st = (Inr (ss_sequence st + 1), st\<lparr>ss_sequence := ss_sequence st + 1\<rparr>)"

definition handle_started :: "PreparedStreamingCandidate \<Rightarrow> string option \<Rightarrow> ('s, unit) streaming" where
  "handle_started c response_id = seq get_state (\<lambda>st.
     if ss_provider_started st then invalid_event c
     else update (\<lambda>st. st\<lparr>ss_provider_started := True, ss_response_id := response_id\<rparr>))"

definition note_semantic :: "ProviderStreamEvent \<Rightarrow> 's stream_state \<Rightarrow> 's stream_state" where
  "note_semantic ev st = st\<lparr>ss_semantic_output := True, ss_cached_content :=
     (case (ss_cached_content st, ev) of
        (Some parts, ProviderContentDelta delta) \<Rightarrow> Some (parts @ [delta]) | (cached, _) \<Rightarrow> cached)\<rparr>"

definition handle_semantic ::
  "'s stream_args \<Rightarrow> read_world \<Rightarrow> HealthAdmission \<Rightarrow> PreparedStreamingCandidate \<Rightarrow> ProviderStreamEvent \<Rightarrow>
   ('s, unit) streaming" where
  "handle_semantic g rw adm c ev =
     seq (update (note_semantic ev)) (\<lambda>_. seq get_state (\<lambda>st.
     seq (if ss_public_started st then ret ()
          else seq next_sequence (\<lambda>n.
            seq (update (\<lambda>st. st\<lparr>ss_public_started := True\<rparr>)) (\<lambda>_.
            emit g ((blank_event RESPONSE_STARTED (pl_request (sg_plan g)) n)\<lparr>ev_routing := Some (ss_routing st)\<rparr>))))
       (\<lambda>_. seq (probe_guard g (rw_probe rw) adm c) (\<lambda>_.
     seq next_sequence (\<lambda>n. emit g (semantic_gateway_event (pl_request (sg_plan g)) n ev))))))"

definition handle_usage ::
  "'s stream_args \<Rightarrow> PreparedStreamingCandidate \<Rightarrow> ProviderUsage \<Rightarrow> ('s, unit) streaming" where
  "handle_usage g c u = seq get_state (\<lambda>st.
     if ss_usage_seen st then invalid_event c
     else if \<not> ss_semantic_output st then invalid_event c
     else seq (update (\<lambda>st. st\<lparr>ss_usage_seen := True\<rparr>)) (\<lambda>_.
       if \<not> Usage_ok (usage_of u) then raise UnexpectedError
       else seq (update (\<lambda>st. st\<lparr>ss_final_usage := Some (usage_of u)\<rparr>)) (\<lambda>_.
         seq next_sequence (\<lambda>n.
         emit g ((blank_event USAGE_COMPLETED (pl_request (sg_plan g)) n)\<lparr>ev_usage := Some (usage_of u)\<rparr>)))))"

text \<open>\<open>a or b\<close> on optional strings.\<close>

definition str_or :: "string option \<Rightarrow> string option \<Rightarrow> string option" where
  "str_or a b = (case a of Some (c # cs) \<Rightarrow> a | _ \<Rightarrow> b)"

definition handle_completed ::
  "'s stream_args \<Rightarrow> stream_world \<Rightarrow> read_world \<Rightarrow> HealthAdmission \<Rightarrow> PreparedStreamingCandidate \<Rightarrow> int \<Rightarrow>
   string option \<Rightarrow> string option \<Rightarrow> ('s, unit) streaming" where
  "handle_completed g w rw adm c n response_id finish = seq get_state (\<lambda>st.
     if \<not> ss_semantic_output st \<or> \<not> ss_usage_seen st \<or> \<not> ss_public_started st then invalid_event c
     else seq (lift_result (latency_ms (tw_started w) (rw_completed rw))) (\<lambda>ms.
       if ss_final_usage st = None then invalid_event c
       else if ss_response_id st \<noteq> None \<and> response_id \<noteq> None \<and> ss_response_id st \<noteq> response_id then invalid_event c
       else seq (lift_result (deadline_check (pl_deadline (sg_plan g)) (rw_check_success rw))) (\<lambda>_.
         seq (stream_health (op_success (sg_ops g) (rw_success rw)
                (md_deployment_id (rc_deployment (pc_candidate c))) ms (Some adm))) (\<lambda>accepted.
         if \<not> accepted
         then raise (ProviderRaised (probe_expired_error (md_provider (rc_deployment (pc_candidate c)))))
         else
           (let x = execution_of c SUCCEEDED ms n (str_or response_id (ss_response_id st)) finish st in
            if \<not> ProviderExecution_ok x then raise UnexpectedError
            else seq (store_best_effort rw (pl_request (sg_plan g)) x) (\<lambda>_.
              seq next_sequence (\<lambda>k.
              emit g ((blank_event RESPONSE_COMPLETED (pl_request (sg_plan g)) k)\<lparr>ev_routing := Some (ss_routing st),
                ev_execution := Some x, ev_finish_reason := finish\<rparr>))))))))"

text \<open>One event; \<open>True\<close> when the generator returns after it.\<close>

definition handle_event ::
  "'s stream_args \<Rightarrow> stream_world \<Rightarrow> read_world \<Rightarrow> HealthAdmission \<Rightarrow> PreparedStreamingCandidate \<Rightarrow> int \<Rightarrow>
   ProviderStreamEvent \<Rightarrow> ('s, bool) streaming" where
  "handle_event g w rw adm c n ev = (case ev of
      ProviderResponseStarted rid \<Rightarrow> seq (handle_started c rid) (\<lambda>_. ret False)
    | _ \<Rightarrow> seq get_state (\<lambda>st.
        if \<not> ss_provider_started st then invalid_event c
        else case ev of
          ProviderUsageCompleted u \<Rightarrow> seq (handle_usage g c u) (\<lambda>_. ret False)
        | ProviderResponseCompleted rid finish \<Rightarrow>
            seq (handle_completed g w rw adm c n rid finish) (\<lambda>_. ret True)
        | _ \<Rightarrow> seq (handle_semantic g rw adm c ev) (\<lambda>_. ret False)))"

definition stream_ending :: "stream_world \<Rightarrow> HealthAdmission \<Rightarrow> PreparedStreamingCandidate \<Rightarrow> exec_failure" where
  "stream_ending w adm c = (let provider = md_provider (rc_deployment (pc_candidate c)) in
     case tw_end w of
       Exhausted \<Rightarrow> ProviderRaised (invalid_stream_event provider)
     | StreamFailed e \<Rightarrow> ProviderRaised e
     | StreamTimedOut \<Rightarrow> (if ha_probe_timeout_seconds adm = None then UnexpectedError
         else ProviderRaised (probe_expired_error provider))
     | StreamCrashed \<Rightarrow> UnexpectedError
     | StreamCancelled \<Rightarrow> CancelledError)"

fun read_loop ::
  "'s stream_args \<Rightarrow> stream_world \<Rightarrow> HealthAdmission \<Rightarrow> PreparedStreamingCandidate \<Rightarrow> int \<Rightarrow> nat \<Rightarrow>
   ProviderStreamEvent list \<Rightarrow> ('s, unit) streaming" where
  "read_loop g w adm c n k [] =
     seq (probe_guard g (rw_before (tw_read w k)) adm c) (\<lambda>_.
     seq (lifetime_guard w (tw_read w k) adm c) (\<lambda>_.
     raise (stream_ending w adm c)))"
| "read_loop g w adm c n k (ev # evs) =
     seq (probe_guard g (rw_before (tw_read w k)) adm c) (\<lambda>_.
     seq (lifetime_guard w (tw_read w k) adm c) (\<lambda>_.
     seq (probe_guard g (rw_after (tw_read w k)) adm c) (\<lambda>_.
     seq (lift_result (deadline_check (pl_deadline (sg_plan g)) (rw_check (tw_read w k)))) (\<lambda>_.
     seq (handle_event g w (tw_read w k) adm c n ev) (\<lambda>returned.
     if returned then ret () else read_loop g w adm c n (Suc k) evs)))))"

subsection \<open>One attempt\<close>

datatype stream_step = StreamReturned | StreamRetry pyfloat | StreamNext

definition open_stream ::
  "'s stream_args \<Rightarrow> stream_world \<Rightarrow> HealthAdmission \<Rightarrow> PreparedStreamingCandidate \<Rightarrow> int \<Rightarrow> ('s, stream_step) streaming" where
  "open_stream g w adm c n =
     seq (lift_result (deadline_check (pl_deadline (sg_plan g)) (tw_check_open w))) (\<lambda>_.
     seq (update (\<lambda>st. st\<lparr>ss_trace := ss_trace st @
            [Opened (md_deployment_id (rc_deployment (pc_candidate c))) (pc_provider_request c)]\<rparr>)) (\<lambda>_.
     seq (read_loop g w adm c n 0 (tw_reads w)) (\<lambda>_. ret StreamReturned)))"

definition attempt_limit :: "'s stream_args \<Rightarrow> int" where
  "attempt_limit g = (if pl_replay_safe (sg_plan g) then ry_max_attempts_per_deployment (sg_policy g) else 1)"

definition stream_can_retry ::
  "'s stream_args \<Rightarrow> stream_world \<Rightarrow> PreparedStreamingCandidate \<Rightarrow> int \<Rightarrow> ProviderError \<Rightarrow> ('s, bool) streaming" where
  "stream_can_retry g w c n e =
     (if pl_replay_safe (sg_plan g) \<and> is_transient_provider_error e \<and> n < attempt_limit g then
        seq (stream_health (op_snapshot (sg_ops g) (tw_snapshot w) (md_deployment_id (rc_deployment (pc_candidate c)))))
          (\<lambda>snap. ret (hs_circuit_state snap \<noteq> OPEN))
      else ret False)"

text \<open>The outcome of a failed attempt before any output: retry, fall back or stop.\<close>

definition stream_recover ::
  "'s stream_args \<Rightarrow> stream_world \<Rightarrow> PreparedStreamingCandidate \<Rightarrow> int \<Rightarrow> ProviderError \<Rightarrow> ('s, stream_step) streaming" where
  "stream_recover g w c n e =
     seq (stream_can_retry g w c n e) (\<lambda>retry.
     if retry then
       seq (lift_result (stream_retry_delay_seconds (sg_policy g) (uuid_str (gr_request_id (pl_request (sg_plan g))))
              (md_deployment_id (rc_deployment (pc_candidate c))) n (pe_retry_after_seconds e))) (\<lambda>delay.
       ret (StreamRetry delay))
     else if is_transient_provider_error e then ret StreamNext
     else seq get_state (\<lambda>st.
       seq (emit g (failed_event (pl_request (sg_plan g)) 1 (ss_routing st) (provider_error_value (pe_code e))
              ''provider stream failed before output'' False False (ss_last_execution st))) (\<lambda>_.
       ret StreamReturned)))"

definition stream_error ::
  "'s stream_args \<Rightarrow> stream_world \<Rightarrow> HealthAdmission \<Rightarrow> PreparedStreamingCandidate \<Rightarrow> int \<Rightarrow> ProviderError \<Rightarrow>
   ('s, stream_step) streaming" where
  "stream_error g w adm c n e =
     seq (lift_result (deadline_check (pl_deadline (sg_plan g)) (tw_check_error w))) (\<lambda>_.
     seq (lift_result (latency_ms (tw_started w) (tw_failed w))) (\<lambda>ms.
     seq (stream_health (op_failure (sg_ops g) (tw_failure w)
            (md_deployment_id (rc_deployment (pc_candidate c))) e ms (Some adm))) (\<lambda>_.
     seq (update (\<lambda>st. st\<lparr>ss_last_error := Some e\<rparr>)) (\<lambda>_.
     seq get_state (\<lambda>st.
     let x = execution_of c FAILED ms n (ss_response_id st) None st in
     if \<not> ProviderExecution_ok x then raise UnexpectedError
     else seq (update (\<lambda>st. st\<lparr>ss_last_execution := Some x\<rparr>)) (\<lambda>_.
       if ss_semantic_output st then
         seq next_sequence (\<lambda>k.
         seq (emit g (failed_event (pl_request (sg_plan g)) k (ss_routing st) (provider_error_value (pe_code e))
                ''provider stream failed after partial output'' False True (Some x))) (\<lambda>_.
         ret StreamReturned))
       else stream_recover g w c n e))))))"

text \<open>The variables each attempt starts with.\<close>

definition reset_attempt :: "'s stream_state \<Rightarrow> 's stream_state" where
  "reset_attempt st = st\<lparr>ss_provider_started := False, ss_response_id := None, ss_public_started := False,
     ss_semantic_output := False, ss_usage_seen := False, ss_final_usage := None, ss_sequence := 0\<rparr>"

definition enter_attempt :: "'s stream_args \<Rightarrow> PreparedStreamingCandidate \<Rightarrow> int \<Rightarrow> 's stream_state \<Rightarrow> 's stream_state" where
  "enter_attempt g c n st =
     (let ids = (if n = 1 then ss_fallback_sequence st @ [md_deployment_id (rc_deployment (pc_candidate c))]
                 else ss_fallback_sequence st)
      in st\<lparr>ss_fallback_sequence := ids,
            ss_routing := routing_for_candidate (pl_decision (sg_plan g)) (pc_candidate c) ids\<rparr>)"

definition stream_attempt ::
  "'s stream_args \<Rightarrow> nat \<Rightarrow> PreparedStreamingCandidate \<Rightarrow> int \<Rightarrow> ('s, stream_step) streaming" where
  "stream_attempt g i c n = (let w = sg_world g i n in
     seq (lift_result (deadline_check (pl_deadline (sg_plan g)) (tw_check w))) (\<lambda>_.
     seq (update reset_attempt) (\<lambda>_.
     seq (stream_health (op_allow (sg_ops g) (tw_allow w) (md_deployment_id (rc_deployment (pc_candidate c))))) (\<lambda>admission.
     case admission of
       None \<Rightarrow> ret StreamNext
     | Some adm \<Rightarrow>
         seq (update (enter_attempt g c n)) (\<lambda>_.
         admission_scope (stream_health (op_release (sg_ops g) (tw_release w) adm))
           (catch_provider (open_stream g w adm c n) (stream_error g w adm c n)))))))"

subsection \<open>The loops and the wrapper\<close>

fun stream_attempts :: "'s stream_args \<Rightarrow> nat \<Rightarrow> PreparedStreamingCandidate \<Rightarrow> nat \<Rightarrow> int \<Rightarrow> ('s, bool) streaming" where
  "stream_attempts g i c 0 n = ret False"
| "stream_attempts g i c (Suc k) n =
     seq (stream_attempt g i c n) (\<lambda>r. case r of
       StreamReturned \<Rightarrow> ret True
     | StreamNext \<Rightarrow> ret False
     | StreamRetry delay \<Rightarrow>
         seq (lift_result (deadline_check (pl_deadline (sg_plan g)) (tw_check_sleep (sg_world g i n)))) (\<lambda>_.
         seq (update (\<lambda>st. st\<lparr>ss_sleeps := ss_sleeps st @ [delay]\<rparr>)) (\<lambda>_.
         stream_attempts g i c k (n + 1))))"

fun stream_candidates :: "'s stream_args \<Rightarrow> nat \<Rightarrow> PreparedStreamingCandidate list \<Rightarrow> ('s, bool) streaming" where
  "stream_candidates g i [] = ret False"
| "stream_candidates g i (c # cs) =
     seq (stream_attempts g i c (nat (attempt_limit g)) 1) (\<lambda>returned.
     if returned then ret True else stream_candidates g (Suc i) cs)"

definition stream_exhausted :: "'s stream_args \<Rightarrow> ('s, unit) streaming" where
  "stream_exhausted g = seq get_state (\<lambda>st.
     emit g (failed_event (pl_request (sg_plan g)) 1 (ss_routing st)
       (case ss_last_error st of None \<Rightarrow> ''streaming_candidates_exhausted''
        | Some e \<Rightarrow> provider_error_value (pe_code e))
       ''all bounded authorized streaming candidates were exhausted''
       (case ss_last_error st of None \<Rightarrow> False | Some e \<Rightarrow> pe_retryable e \<and> pl_replay_safe (sg_plan g)) False
       (ss_last_execution st)))"

fun emit_all :: "'s stream_args \<Rightarrow> GatewayStreamEvent list \<Rightarrow> ('s, unit) streaming" where
  "emit_all g [] = ret ()"
| "emit_all g (e # es) = seq (emit g e) (\<lambda>_. emit_all g es)"

definition stream_live :: "'s stream_args \<Rightarrow> ('s, unit) streaming" where
  "stream_live g =
     seq (update (\<lambda>st. st\<lparr>ss_cached_content := (if sg_cache g = None then None else Some [])\<rparr>)) (\<lambda>_.
     seq (stream_candidates g 0 (pl_candidates (sg_plan g))) (\<lambda>returned.
     if returned then ret () else stream_exhausted g))"

text \<open>\<open>_stream\<close>.\<close>

definition stream_body :: "'s stream_args \<Rightarrow> ('s, unit) streaming" where
  "stream_body g = (case pl_candidates (sg_plan g) of
      [] \<Rightarrow> raise UnexpectedError
    | c # _ \<Rightarrow> (case sg_cache g of
        Some CacheRaised \<Rightarrow> raise UnexpectedError
      | Some (CacheHit hit) \<Rightarrow>
          if ca_deployment hit = md_deployment_id (rc_deployment (pc_candidate c))
          then
            (if \<not> list_all (\<lambda>e. GatewayStreamEvent_ok e \<and> opt_all ProviderExecution_ok (ev_execution e) \<and>
                   opt_all Usage_ok (ev_usage e)) (cached_events (pl_request (sg_plan g)) (pl_decision (sg_plan g)) hit)
             then raise UnexpectedError
             else emit_all g (cached_events (pl_request (sg_plan g)) (pl_decision (sg_plan g)) hit))
          else stream_live g
      | _ \<Rightarrow> stream_live g))"

definition stream_init :: "'s stream_args \<Rightarrow> 's \<Rightarrow> 's stream_state" where
  "stream_init g h = \<lparr>ss_health = h, ss_fallback_sequence = [], ss_last_error = None, ss_last_execution = None,
     ss_routing = rd_routing (pl_decision (sg_plan g)), ss_cached_content = None, ss_stored = [], ss_sleeps = [],
     ss_trace = [], ss_provider_started = False, ss_response_id = None, ss_public_started = False,
     ss_semantic_output = False, ss_usage_seen = False, ss_final_usage = None, ss_sequence = 0,
     ss_public = [], ss_public_sequence = 0, ss_partial = False, ss_verdict = None\<rparr>"

definition deadline_failed :: "'s stream_args \<Rightarrow> 's stream_state \<Rightarrow> GatewayStreamEvent" where
  "deadline_failed g st = failed_event (pl_request (sg_plan g)) (ss_public_sequence st + 1) (ss_routing st)
     ''execution_deadline_exceeded'' ''the local execution deadline was exceeded'' False (ss_partial st) None"

text \<open>
  \<open>stream\<close>: \<open>before\<close> is the clock before the first read, \<open>fired\<close> and \<open>after\<close> belong to the read the
  generator did not answer with an event. An expiry is published as a failure event.
\<close>

definition stream ::
  "'s stream_args \<Rightarrow> pyfloat \<Rightarrow> bool \<Rightarrow> pyfloat \<Rightarrow> ('s, unit) streaming" where
  "stream g before fired after st0 =
     (let dl = pl_deadline (sg_plan g);
          expired = (\<lambda>st. (Inr (), st\<lparr>ss_public := ss_public st @ [deadline_failed g st]\<rparr>))
      in if deadline_check dl before \<noteq> Inr () then expired st0
         else case stream_body g st0 of
           (r, st) \<Rightarrow>
             (case ss_verdict st of
                Some Expired \<Rightarrow> expired st
              | Some _ \<Rightarrow> (Inr (), st)
              | None \<Rightarrow>
                  if r = Inl ExecutionDeadlineExceeded \<or> run_after dl fired after = Inl ExecutionDeadlineExceeded \<and>
                     (r = Inl CancelledError \<longrightarrow> fired)
                  then expired st else (r, st)))"

end
