(* ===== verification/Streaming_Laws.thy ===== *)
theory Streaming_Laws
  imports Streaming Execution_Laws
begin

text \<open>
  The protocol of a stream: while it flows, the events delivered are the events yielded, numbered
  from 1 and none of them terminal; a provider stream is opened only before the first event.
\<close>

subsection \<open>Preconditions of the combinators\<close>

lemma wp_stream_health [wp_simps]:
  "wp (stream_health m) Q E st \<longleftrightarrow>
   wp m (\<lambda>x h. Q x (st\<lparr>ss_health := h\<rparr>)) (\<lambda>e h. E (HealthError e) (st\<lparr>ss_health := h\<rparr>)) (ss_health st)"
  by (simp add: wp_def stream_health_def split: prod.splits sum.splits)

lemma wp_next_sequence [wp_simps]:
  "wp next_sequence Q E st \<longleftrightarrow> Q (ss_sequence st + 1) (st\<lparr>ss_sequence := ss_sequence st + 1\<rparr>)"
  by (simp add: wp_def next_sequence_def)

lemma wp_any_health:
  assumes "\<And>x h. Q x (st\<lparr>ss_health := h\<rparr>)" "\<And>e h. E (HealthError e) (st\<lparr>ss_health := h\<rparr>)"
  shows "wp (stream_health m) Q E st"
  unfolding wp_stream_health by (rule wp_any) (rule assms)+

subsection \<open>Traces and states\<close>

lemma yielded_simps [simp]:
  "yielded [] = []" "yielded (tr @ [Yielded e]) = yielded tr @ [e]" "yielded (tr @ [Opened d q]) = yielded tr"
  by (simp_all add: yielded_def)

definition opens :: "trace_item list \<Rightarrow> (string \<times> ProviderRequest) list" where
  "opens tr = concat (map (\<lambda>i. case i of Yielded e \<Rightarrow> [] | Opened d q \<Rightarrow> [(d, q)]) tr)"

lemma opens_simps [simp]:
  "opens [] = []" "opens (tr @ [Yielded e]) = opens tr" "opens (tr @ [Opened d q]) = opens tr @ [(d, q)]"
  by (simp_all add: opens_def)

text \<open>Every stream is opened before the first event is yielded.\<close>

definition well_traced :: "trace_item list \<Rightarrow> bool" where
  "well_traced tr \<longleftrightarrow> tr = map (\<lambda>(d, q). Opened d q) (opens tr) @ map Yielded (yielded tr)"

lemma well_traced_simps [simp]:
  "well_traced []" "well_traced tr \<Longrightarrow> well_traced (tr @ [Yielded e])"
  "well_traced tr \<Longrightarrow> yielded tr = [] \<Longrightarrow> well_traced (tr @ [Opened d q])"
  by (auto simp: well_traced_def)

definition numbered :: "GatewayStreamEvent list \<Rightarrow> bool" where
  "numbered es \<longleftrightarrow> map ev_sequence_number es = map int [1..<Suc (length es)]"

lemma numbered_simps [simp]:
  "numbered []" "numbered (es @ [e]) \<longleftrightarrow> numbered es \<and> ev_sequence_number e = int (length es) + 1"
  by (auto simp: numbered_def)

definition flow :: "'s stream_state \<Rightarrow> bool" where
  "flow st \<longleftrightarrow> ss_verdict st = None \<and> ss_public st = yielded (ss_trace st) \<and> numbered (ss_public st) \<and>
     list_all (\<lambda>e. \<not> terminal_event e) (ss_public st) \<and> ss_public_sequence st = int (length (ss_public st)) \<and>
     well_traced (ss_trace st) \<and> ss_partial st = list_ex partial_event (ss_public st)"

definition settled :: "'s stream_args \<Rightarrow> 's stream_state \<Rightarrow> bool" where
  "settled g st \<longleftrightarrow> (\<exists>v. ss_verdict st = Some v \<and> (v = Delivered_terminal \<longrightarrow> ss_public st \<noteq> [] \<and> terminal_event (last (ss_public st))) \<and>
       (v = Abandoned \<longrightarrow> (\<exists>k. \<not> ew_resumed (sg_emit g k)))) \<and>
     numbered (ss_public st) \<and> ss_public_sequence st = int (length (ss_public st)) \<and> well_traced (ss_trace st) \<and>
     ss_partial st = list_ex partial_event (ss_public st) \<and>
     list_all (\<lambda>e. \<not> terminal_event e) (if ss_verdict st = Some Expired then ss_public st else butlast (ss_public st)) \<and>
     (\<exists>rest. yielded (ss_trace st) = ss_public st @ rest)"

lemma emit_wp:
  assumes "flow st" "ev_sequence_number e = int (length (ss_public st)) + 1"
    "\<And>t. flow t \<Longrightarrow> \<not> terminal_event e \<Longrightarrow> t = st\<lparr>ss_trace := ss_trace st @ [Yielded e], ss_public := ss_public st @ [e],
        ss_public_sequence := ev_sequence_number e, ss_partial := ss_partial st \<or> partial_event e\<rparr> \<Longrightarrow> Q () t"
    "E UnexpectedError st" "\<And>t. settled g t \<Longrightarrow> opens (ss_trace t) = opens (ss_trace st) \<Longrightarrow> E GeneratorExit t"
  shows "wp (emit g e) Q E st"
  using assms(1,2,4)
  by (auto simp: wp_def emit_def Let_def flow_def settled_def intro!: assms(3,5))


subsection \<open>One attempt\<close>

text \<open>What holds of the generator's variables while an attempt runs.\<close>

definition running :: "(string \<times> ProviderRequest) list \<Rightarrow> 's stream_state \<Rightarrow> bool" where
  "running os st \<longleftrightarrow> flow st \<and> opens (ss_trace st) = os \<and> ss_sequence st = int (length (ss_public st)) \<and>
     (ss_public_started st \<longleftrightarrow> ss_public st \<noteq> []) \<and> (ss_semantic_output st \<longleftrightarrow> ss_public st \<noteq> [])"

definition raised :: "'s stream_args \<Rightarrow> (string \<times> ProviderRequest) list \<Rightarrow> exec_failure \<Rightarrow> 's stream_state \<Rightarrow> bool" where
  "raised g os e t \<longleftrightarrow> opens (ss_trace t) = os \<and>
     (if e = GeneratorExit then settled g t else flow t \<and> ((\<exists>p. e = ProviderRaised p) \<longrightarrow> running os t))"

lemma running_flow: "running os st \<Longrightarrow> flow st \<and> opens (ss_trace st) = os"
  by (simp add: running_def)

text \<open>Fields the protocol does not read.\<close>

lemma flow_fields [simp]:
  "flow (st\<lparr>ss_health := h\<rparr>) = flow st" "flow (st\<lparr>ss_sequence := n\<rparr>) = flow st"
  "flow (st\<lparr>ss_public_started := b\<rparr>) = flow st" "flow (note_semantic ev st) = flow st"
  "flow (st\<lparr>ss_last_error := x\<rparr>) = flow st" "flow (st\<lparr>ss_last_execution := y\<rparr>) = flow st"
  "flow (st\<lparr>ss_sleeps := sl\<rparr>) = flow st" "flow (st\<lparr>ss_cached_content := cc\<rparr>) = flow st"
  "flow (reset_attempt st) = flow st" "flow (enter_attempt g c i st) = flow st"
  by (simp_all add: flow_def note_semantic_def reset_attempt_def enter_attempt_def Let_def)

lemma running_health [simp]: "running os (st\<lparr>ss_health := h\<rparr>) = running os st"
  by (simp add: running_def)

lemma settled_health [simp]: "settled g (st\<lparr>ss_health := h\<rparr>) = settled g st"
  by (simp add: settled_def)

lemma raised_health [simp]: "raised g os e (st\<lparr>ss_health := h\<rparr>) = raised g os e st"
  by (simp add: raised_def)

lemma raised_now: "running os st \<Longrightarrow> e \<noteq> GeneratorExit \<Longrightarrow> raised g os e st"
  by (auto simp: raised_def running_def)

lemma guards_wp:
  assumes "running os st" "\<And>h. Q () (st\<lparr>ss_health := h\<rparr>)"
  shows "wp (probe_guard g env adm c) Q (raised g os) st" "wp (lifetime_guard w rw adm c) Q (raised g os) st"
proof -
  have "Q () st" using assms(2)[of "ss_health st"] by simp
  then show "wp (lifetime_guard w rw adm c) Q (raised g os) st"
    by (auto simp: lifetime_guard_def wp_simps raised_now[OF assms(1)] split: option.splits)
  from \<open>Q () st\<close> show "wp (probe_guard g env adm c) Q (raised g os) st"
    unfolding probe_guard_def wp_if wp_seq wp_ret
    by (auto intro!: wp_any_health simp: wp_ret wp_raise assms(2) raised_now[OF assms(1)])
qed

text \<open>Yielding the event whose number was just taken.\<close>

definition yielding :: "(string \<times> ProviderRequest) list \<Rightarrow> 's stream_state \<Rightarrow> bool" where
  "yielding os st \<longleftrightarrow> flow st \<and> opens (ss_trace st) = os \<and> ss_sequence st = int (length (ss_public st)) + 1 \<and>
     ss_public_started st \<and> ss_semantic_output st"

lemma emit_yielding_wp:
  assumes "yielding os st" "ev_sequence_number e = ss_sequence st"
    "\<And>t. running os t \<Longrightarrow> ss_public t \<noteq> [] \<Longrightarrow> \<not> terminal_event e \<Longrightarrow> Q () t"
  shows "wp (emit g e) Q (raised g os) st"
  by (rule emit_wp)
     (use assms(1,2) in \<open>auto simp: yielding_def running_def raised_def intro!: assms(3)\<close>)

lemma handle_started_wp:
  assumes "running os st"
  shows "wp (handle_started c rid) (\<lambda>_. running os) (raised g os) st"
  unfolding handle_started_def wp_seq wp_get_state wp_if wp_update invalid_event_def wp_raise
  using raised_now[OF assms] assms by (auto simp: running_def flow_def)

lemma handle_semantic_wp:
  assumes "running os st" "semantic ev"
  shows "wp (handle_semantic g rw adm c ev) (\<lambda>_. running os) (raised g os) st"
proof -
  let ?st = "note_semantic ev st"
  have st: "ss_semantic_output ?st" "ss_public_started ?st = ss_public_started st" "ss_public ?st = ss_public st"
    "ss_sequence ?st = ss_sequence st" "ss_trace ?st = ss_trace st"
    by (simp_all add: note_semantic_def)
  have rest: "wp (seq (probe_guard g (rw_probe rw) adm c) (\<lambda>_.
      seq next_sequence (\<lambda>n. emit g (semantic_gateway_event (pl_request (sg_plan g)) n ev)))) (\<lambda>_. running os) (raised g os) t"
    if t: "running os t" "ss_public t \<noteq> []" for t
    unfolding wp_seq wp_next_sequence
    by (rule guards_wp(1)[OF t(1)], rule emit_yielding_wp)
       (use t assms(2) in \<open>auto simp: running_def yielding_def blank_event_def elim!: semantic.elims\<close>)
  have start: "wp (seq next_sequence (\<lambda>n. seq (update (\<lambda>st. st\<lparr>ss_public_started := True\<rparr>)) (\<lambda>_.
      emit g ((blank_event RESPONSE_STARTED (pl_request (sg_plan g)) n)\<lparr>ev_routing := Some (ss_routing ?st)\<rparr>))))
      (\<lambda>_ t. running os t \<and> ss_public t \<noteq> []) (raised g os) ?st"
    unfolding wp_seq wp_next_sequence wp_update
    by (rule emit_yielding_wp)
       (use st assms(1) in \<open>auto simp: running_def yielding_def blank_event_def\<close>)
  show ?thesis
  proof (cases "ss_public_started ?st")
    case True
    with st assms(1) have "running os ?st" "ss_public ?st \<noteq> []" by (auto simp: running_def)
    from rest[OF this] True show ?thesis
      unfolding handle_semantic_def by (simp add: wp_seq wp_update wp_get_state wp_ret)
  next
    case False
    have "wp (handle_semantic g rw adm c ev) (\<lambda>_. running os) (raised g os) st \<longleftrightarrow>
        wp (seq next_sequence (\<lambda>n. seq (update (\<lambda>st. st\<lparr>ss_public_started := True\<rparr>)) (\<lambda>_.
          emit g ((blank_event RESPONSE_STARTED (pl_request (sg_plan g)) n)\<lparr>ev_routing := Some (ss_routing ?st)\<rparr>))))
          (\<lambda>_. wp (seq (probe_guard g (rw_probe rw) adm c) (\<lambda>_.
            seq next_sequence (\<lambda>n. emit g (semantic_gateway_event (pl_request (sg_plan g)) n ev)))) (\<lambda>_. running os) (raised g os))
          (raised g os) ?st"
      using False unfolding handle_semantic_def by (simp add: wp_seq wp_update wp_get_state)
    with wp_mono[OF start] rest show ?thesis by auto
  qed
qed

lemma handle_usage_wp:
  assumes "running os st"
  shows "wp (handle_usage g c u) (\<lambda>_. running os) (raised g os) st"
proof -
  have now: "raised g os e st" if "e \<noteq> GeneratorExit" for e using raised_now[OF assms that] .
  have "raised g os UnexpectedError (st\<lparr>ss_usage_seen := True\<rparr>)"
    using assms by (auto simp: raised_def running_def flow_def)
  moreover have "wp (emit g ((blank_event USAGE_COMPLETED (pl_request (sg_plan g)) (ss_sequence st + 1))\<lparr>ev_usage := Some (usage_of u)\<rparr>))
      (\<lambda>_. running os) (raised g os) (st\<lparr>ss_usage_seen := True, ss_final_usage := Some (usage_of u), ss_sequence := ss_sequence st + 1\<rparr>)"
    if "ss_semantic_output st"
    by (rule emit_yielding_wp)
       (use assms that in \<open>auto simp: running_def yielding_def flow_def blank_event_def\<close>)
  ultimately show ?thesis
    unfolding handle_usage_def wp_seq wp_get_state wp_if wp_update wp_next_sequence invalid_event_def wp_raise
    using now by auto
qed

lemma store_fields [simp]:
  "wp (store_best_effort rw r x) Q E st \<longleftrightarrow> Q () (snd (store_best_effort rw r x st))"
  "flow (snd (store_best_effort rw r x st)) = flow st"
  by (simp_all add: store_best_effort_def wp_update update_def flow_def Let_def split: option.splits)

lemma running_store [simp]: "running os (snd (store_best_effort rw r x st)) = running os st"
  by (simp add: store_best_effort_def update_def running_def flow_def Let_def split: option.splits)

lemma handle_completed_wp:
  assumes "running os st"
  shows "wp (handle_completed g w rw adm c n rid finish) (\<lambda>_ _. False) (raised g os) st"
proof -
  have now: "raised g os e st" if "e \<noteq> GeneratorExit" for e using raised_now[OF assms that] .
  have fin: "wp (seq next_sequence (\<lambda>k. emit g ((blank_event RESPONSE_COMPLETED (pl_request (sg_plan g)) k)\<lparr>ev_routing := Some r,
      ev_execution := Some x, ev_finish_reason := finish\<rparr>))) (\<lambda>_ _. False) (raised g os) t"
    if "running os t" "ss_public t \<noteq> []" for t r x
    unfolding wp_seq wp_next_sequence
    by (rule emit_yielding_wp) (use that in \<open>auto simp: running_def yielding_def blank_event_def terminal_event_def\<close>)
  have nonempty: "ss_semantic_output st \<Longrightarrow> ss_public st \<noteq> []" using assms by (simp add: running_def)
  have pub: "ss_public (snd (store_best_effort rw r x t)) = ss_public t" for r x and t :: "'a stream_state"
    by (simp add: store_best_effort_def update_def Let_def split: option.splits)
  show ?thesis
    unfolding handle_completed_def wp_seq[of get_state] wp_seq[of "lift_result _"] wp_seq[of "stream_health _"]
      wp_get_state wp_if wp_lift invalid_event_def wp_raise Let_def wp_seq[of "store_best_effort _ _ _"] store_fields
    by (intro conjI allI impI wp_any_health)
       (auto intro!: now fin dest!: deadline_check_Inl latency_ms_Inl simp: pub wp_raise nonempty assms)
qed

lemma handle_event_wp:
  assumes "running os st"
  shows "wp (handle_event g w rw adm c n ev) (\<lambda>r t. \<not> r \<and> running os t) (raised g os) st"
  using raised_now[OF assms] handle_started_wp[OF assms] handle_semantic_wp[OF assms] handle_usage_wp[OF assms]
  by (cases ev) (auto simp: handle_event_def wp_seq wp_get_state wp_ret_fun wp_raise invalid_event_def
      intro: wp_mono[OF handle_completed_wp[OF assms]])

text \<open>The loop ends only by raising: even a completion closes the generator at its last yield.\<close>

lemma read_loop_wp:
  assumes "running os st"
  shows "wp (read_loop g w adm c n k evs) (\<lambda>_ _. False) (raised g os) st"
  using assms
proof (induction evs arbitrary: k st)
  case Nil
  have "stream_ending w adm c \<noteq> GeneratorExit" by (simp add: stream_ending_def Let_def split: stream_end.splits)
  with Nil show ?case
    unfolding read_loop.simps wp_seq wp_raise by (intro guards_wp) (auto intro: raised_now)
next
  case (Cons ev evs)
  have "wp (handle_event g w (tw_read w k) adm c n ev)
      (\<lambda>r. wp (if r then ret () else read_loop g w adm c n (Suc k) evs) (\<lambda>_ _. False) (raised g os)) (raised g os) t"
    if "running os t" for t
    by (rule wp_mono[OF handle_event_wp[OF that]]) (auto intro: Cons.IH)
  with Cons.prems show ?case
    unfolding read_loop.simps wp_seq wp_lift
    by (intro guards_wp conjI allI impI) (auto dest!: deadline_check_Inl intro: raised_now)
qed

subsection \<open>Attempts and candidates\<close>

text \<open>Between attempts nothing has been yielded.\<close>

definition silent :: "(string \<times> ProviderRequest) list \<Rightarrow> 's stream_state \<Rightarrow> bool" where
  "silent os st \<longleftrightarrow> flow st \<and> ss_public st = [] \<and> opens (ss_trace st) = os"

definition step_post :: "(string \<times> ProviderRequest) list \<Rightarrow> stream_step \<Rightarrow> 's stream_state \<Rightarrow> bool" where
  "step_post os r t \<longleftrightarrow> r \<noteq> StreamReturned \<and> silent os t"

definition ended :: "'s stream_args \<Rightarrow> (string \<times> ProviderRequest) list \<Rightarrow> exec_failure \<Rightarrow> 's stream_state \<Rightarrow> bool" where
  "ended g os e t \<longleftrightarrow> opens (ss_trace t) = os \<and> (if e = GeneratorExit then settled g t else flow t)"

lemma ended_health [simp]: "ended g os e (st\<lparr>ss_health := h\<rparr>) = ended g os e st"
  by (simp add: ended_def)

lemma silent_health [simp]: "silent os (st\<lparr>ss_health := h\<rparr>) = silent os st"
  by (simp add: silent_def)

lemma emit_terminal_wp:
  assumes "flow st" "opens (ss_trace st) = os" "ev_sequence_number e = int (length (ss_public st)) + 1" "terminal_event e"
  shows "wp (emit g e) Q (ended g os) st"
  by (rule emit_wp[OF assms(1,3)]) (use assms in \<open>auto simp: ended_def\<close>)

lemma terminal_failed [simp]:
  "terminal_event (failed_event r n routing code message retryable partial x)"
  "ev_sequence_number (failed_event r n routing code message retryable partial x) = n"
  by (simp_all add: failed_event_def terminal_event_def blank_event_def)

lemma stream_delay_Inl: "stream_retry_delay_seconds p a b m v = Inl e \<Longrightarrow> e = UnexpectedError"
  by (auto simp: stream_retry_delay_seconds_def ebind_Inl_iff f_pow2_def Let_def split: if_splits)

lemma stream_recover_wp:
  assumes "silent os st"
  shows "wp (stream_recover g w c n e) (step_post os) (ended g os) st"
proof -
  have post: "step_post os r (st\<lparr>ss_health := h\<rparr>)" "step_post os r st" if "r \<noteq> StreamReturned" for r h
    using assms that by (simp_all add: step_post_def)
  have "ended g os x st" if "x \<noteq> GeneratorExit" for x using assms that by (simp add: ended_def silent_def)
  moreover have "wp (emit g (failed_event r 1 routing code msg b b' x)) Q (ended g os) (st\<lparr>ss_health := h\<rparr>)"
    for r routing code msg b b' x Q h
    by (rule emit_terminal_wp) (use assms in \<open>auto simp: silent_def\<close>)
  note stop = this this[of _ _ _ _ _ _ _ _ "ss_health st", simplified]
  ultimately show ?thesis
    unfolding stream_recover_def stream_can_retry_def wp_seq wp_if wp_ret wp_get_state wp_lift
    using stop post by (intro conjI impI wp_any_health) (auto dest: stream_delay_Inl)
qed

lemma stream_error_wp:
  assumes "running os st"
  shows "wp (stream_error g w adm c n e) (step_post os) (ended g os) st"
proof -
  have now: "ended g os x st" if "x \<noteq> GeneratorExit" for x using assms that by (simp add: ended_def running_def)
  let ?st = "\<lambda>h. st\<lparr>ss_health := h, ss_last_error := Some e\<rparr>"
  have unexpected: "ended g os UnexpectedError (?st h)" for h
    using assms by (simp add: running_def ended_def)
  have failed: "wp (emit g (failed_event r (ss_sequence st + 1) routing code msg b b' y)) Q (ended g os)
      (?st h\<lparr>ss_last_execution := x, ss_sequence := ss_sequence st + 1\<rparr>)" for r routing code msg b b' x y Q h
    by (rule emit_terminal_wp) (use assms in \<open>simp_all add: running_def\<close>)
  have recover: "wp (stream_recover g w c n e) (step_post os) (ended g os) (?st h\<lparr>ss_last_execution := x\<rparr>)"
    if "\<not> ss_semantic_output st" for h x
    by (rule stream_recover_wp) (use assms that in \<open>simp add: running_def silent_def\<close>)
  show ?thesis
    unfolding stream_error_def wp_seq wp_lift wp_if wp_update wp_get_state wp_raise Let_def wp_next_sequence
    by (intro conjI allI impI wp_any_health)
       (auto intro!: now unexpected failed recover dest!: deadline_check_Inl latency_ms_Inl)
qed

subsection \<open>Loops\<close>

definition stream_call :: "PreparedStreamingCandidate \<Rightarrow> string \<times> ProviderRequest" where
  "stream_call c = (md_deployment_id (rc_deployment (pc_candidate c)), pc_provider_request c)"

definition opened_within ::
  "(string \<times> ProviderRequest) set \<Rightarrow> nat \<Rightarrow> (string \<times> ProviderRequest) list \<Rightarrow> (string \<times> ProviderRequest) list \<Rightarrow> bool" where
  "opened_within C b os os' \<longleftrightarrow> (\<exists>xs. os' = os @ xs \<and> length xs \<le> b \<and> set xs \<subseteq> C)"

lemma opened_within_refl [simp]: "opened_within C b os os"
  by (simp add: opened_within_def)

lemma opened_within_trans:
  assumes "opened_within C b os os'" "opened_within C' b' os' os''"
  shows "opened_within (C \<union> C') (b + b') os os''"
proof -
  obtain xs ys where "os' = os @ xs" "length xs \<le> b" "set xs \<subseteq> C" "os'' = os' @ ys" "length ys \<le> b'" "set ys \<subseteq> C'"
    using assms by (auto simp: opened_within_def)
  then have "os'' = os @ (xs @ ys)" "length (xs @ ys) \<le> b + b'" "set (xs @ ys) \<subseteq> C \<union> C'" by auto
  then show ?thesis unfolding opened_within_def by blast
qed

lemma opened_within_widen: "opened_within C b os os' \<Longrightarrow> C \<subseteq> C' \<Longrightarrow> b \<le> b' \<Longrightarrow> opened_within C' b' os os'"
  unfolding opened_within_def by (blast intro: order_trans)

lemma open_stream_wp:
  assumes "silent os st" "ss_sequence st = 0" "\<not> ss_public_started st" "\<not> ss_semantic_output st"
  shows "wp (open_stream g w adm c n) (\<lambda>_ _. False)
    (\<lambda>e t. e = ExecutionDeadlineExceeded \<and> t = st \<or> raised g (os @ [stream_call c]) e t) st"
proof -
  let ?st = "st\<lparr>ss_trace := ss_trace st @ [Opened (fst (stream_call c)) (snd (stream_call c))]\<rparr>"
  have "running (os @ [stream_call c]) ?st"
    using assms unfolding silent_def by (auto simp: running_def flow_def)
  then have "wp (read_loop g w adm c n 0 (tw_reads w)) (\<lambda>_ _. False)
      (\<lambda>e t. e = ExecutionDeadlineExceeded \<and> t = st \<or> raised g (os @ [stream_call c]) e t) ?st"
    by (rule wp_mono[OF read_loop_wp]) auto
  then show ?thesis
    unfolding open_stream_def wp_seq wp_lift wp_update
    by (auto simp: stream_call_def dest!: deadline_check_Inl elim: wp_mono)
qed

lemma ended_raised: "raised g os e t \<Longrightarrow> ended g os e t"
  by (simp add: raised_def ended_def)

lemma attempt_body_wp:
  assumes "silent os st" "ss_sequence st = 0" "\<not> ss_public_started st" "\<not> ss_semantic_output st"
  shows "wp (catch_provider (open_stream g w adm c n) (stream_error g w adm c n))
    (step_post (os @ [stream_call c])) (\<lambda>e t. ended g os e t \<or> ended g (os @ [stream_call c]) e t) st"
  unfolding wp_catch
  by (rule wp_mono[OF open_stream_wp[OF assms]])
     (use assms(1) in \<open>auto simp: ended_def[of g os] silent_def raised_def[of g _ "ProviderRaised _"]
        intro: wp_mono[OF stream_error_wp] ended_raised\<close>)


lemma scope_wp:
  assumes "wp body Q E st" "\<And>x t h. Q x t \<Longrightarrow> Q x (t\<lparr>ss_health := h\<rparr>)" "\<And>e t h. E e t \<Longrightarrow> E e (t\<lparr>ss_health := h\<rparr>)"
    "\<And>x t f. Q x t \<Longrightarrow> E (HealthError f) t" "\<And>e t f. E e t \<Longrightarrow> \<not> suppresses_release e \<Longrightarrow> E (HealthError f) t"
  shows "wp (admission_scope (stream_health m) body) Q E st"
  unfolding wp_scope by (rule wp_mono[OF assms(1)]; rule wp_any_health) (auto intro: assms(2-5))

definition step_after :: "PreparedStreamingCandidate \<Rightarrow> (string \<times> ProviderRequest) list \<Rightarrow> stream_step \<Rightarrow> 's stream_state \<Rightarrow> bool" where
  "step_after c os r t \<longleftrightarrow> r \<noteq> StreamReturned \<and> (\<exists>os'. opened_within {stream_call c} 1 os os' \<and> silent os' t)"

definition ended_after ::
  "'s stream_args \<Rightarrow> (string \<times> ProviderRequest) set \<Rightarrow> nat \<Rightarrow> (string \<times> ProviderRequest) list \<Rightarrow> exec_failure \<Rightarrow> 's stream_state \<Rightarrow> bool" where
  "ended_after g C b os e t \<longleftrightarrow> (\<exists>os'. opened_within C b os os' \<and> ended g os' e t)"

lemma opened_one: "opened_within {stream_call c} 1 os (os @ [stream_call c])"
  by (simp add: opened_within_def)

lemma stream_attempt_wp:
  assumes "silent os st"
  shows "wp (stream_attempt g i c n) (step_after c os) (ended_after g {stream_call c} 1 os) st"
proof -
  have now: "ended_after g {stream_call c} 1 os e t" if "silent os t" "e \<noteq> GeneratorExit" for e and t :: "'a stream_state"
    using that unfolding ended_after_def by (intro exI[of _ os]) (simp add: ended_def silent_def)
  have reset: "silent os (reset_attempt st)" using assms by (simp add: silent_def) (simp add: reset_attempt_def)
  have body: "wp (catch_provider (open_stream g w adm c n) (stream_error g w adm c n)) (step_after c os)
      (ended_after g {stream_call c} 1 os) (enter_attempt g c n (reset_attempt st\<lparr>ss_health := h\<rparr>))" for w adm h
  proof (rule wp_mono[OF attempt_body_wp])
    show "silent os (enter_attempt g c n (reset_attempt st\<lparr>ss_health := h\<rparr>))"
      using reset by (simp add: silent_def) (simp add: enter_attempt_def Let_def)
  qed (use opened_one[of c os] in \<open>auto simp: step_after_def step_post_def ended_after_def enter_attempt_def
      reset_attempt_def Let_def intro: opened_within_refl\<close>)
  have scoped: "wp (admission_scope (stream_health m) (catch_provider (open_stream g w adm c n) (stream_error g w adm c n)))
      (step_after c os) (ended_after g {stream_call c} 1 os) (enter_attempt g c n (reset_attempt st\<lparr>ss_health := h\<rparr>))" for m w adm h
    by (rule scope_wp[OF body])
       (auto simp: step_after_def ended_after_def ended_def silent_def suppresses_release_def)
  have "step_after c os StreamNext (reset_attempt st\<lparr>ss_health := h\<rparr>)" for h
    using reset by (auto simp: step_after_def intro: opened_within_refl)
  then show ?thesis
    unfolding stream_attempt_def Let_def wp_seq wp_lift wp_option wp_ret wp_update
    by (intro conjI allI impI wp_any_health) (use assms reset in \<open>auto simp del: One_nat_def dest!: deadline_check_Inl intro: now scoped\<close>)
qed

definition silent_after ::
  "(string \<times> ProviderRequest) set \<Rightarrow> nat \<Rightarrow> (string \<times> ProviderRequest) list \<Rightarrow> bool \<Rightarrow> 's stream_state \<Rightarrow> bool" where
  "silent_after C b os r t \<longleftrightarrow> \<not> r \<and> (\<exists>os'. opened_within C b os os' \<and> silent os' t)"

lemma after_trans:
  assumes "opened_within C b os os'"
  shows "ended_after g C' b' os' e t \<Longrightarrow> ended_after g (C \<union> C') (b + b') os e t"
    "silent_after C' b' os' r t \<Longrightarrow> silent_after (C \<union> C') (b + b') os r t"
  using opened_within_trans[OF assms] unfolding ended_after_def silent_after_def by blast+

lemma ended_widen: "ended_after g C b os e t \<Longrightarrow> C \<subseteq> C' \<Longrightarrow> b \<le> b' \<Longrightarrow> ended_after g C' b' os e t"
  using opened_within_widen unfolding ended_after_def by blast

lemma silent_widen: "silent_after C b os r t \<Longrightarrow> C \<subseteq> C' \<Longrightarrow> b \<le> b' \<Longrightarrow> silent_after C' b' os r t"
  using opened_within_widen unfolding silent_after_def by blast

lemma stream_attempts_wp:
  assumes "silent os st"
  shows "wp (stream_attempts g i c k n) (silent_after {stream_call c} k os) (ended_after g {stream_call c} k os) st"
  using assms
proof (induction k arbitrary: n os st)
  case 0
  then show ?case unfolding stream_attempts.simps wp_ret by (auto simp: silent_after_def intro: opened_within_refl)
next
  case (Suc k)
  let ?C = "{stream_call c}"
  have widen: "silent_after ?C (Suc k) os False t" if "step_after c os r t" for r t
    using that opened_within_widen[of ?C 1 os _ ?C "Suc k"] unfolding step_after_def silent_after_def by fastforce
  have again: "wp (seq (lift_result (deadline_check dl now)) (\<lambda>_.
      seq (update (\<lambda>st. st\<lparr>ss_sleeps := ss_sleeps st @ [v]\<rparr>)) (\<lambda>_. stream_attempts g i c k (n + 1))))
      (silent_after ?C (Suc k) os) (ended_after g ?C (Suc k) os) t"
    if step: "step_after c os r t" for r t v dl now
  proof -
    obtain os' where os': "opened_within ?C 1 os os'" "silent os' t" using step by (auto simp: step_after_def)
    have "silent os' (t\<lparr>ss_sleeps := ss_sleeps t @ [v]\<rparr>)" using os'(2) by (simp add: silent_def)
    from Suc.IH[OF this, of "n + 1"] have "wp (stream_attempts g i c k (n + 1)) (silent_after ?C (Suc k) os)
        (ended_after g ?C (Suc k) os) (t\<lparr>ss_sleeps := ss_sleeps t @ [v]\<rparr>)"
      by (rule wp_mono) (use after_trans[OF os'(1), where C' = ?C and b' = k] in auto)
    moreover have "ended_after g ?C (Suc k) os ExecutionDeadlineExceeded t"
      using os' opened_within_widen[OF os'(1), of ?C "Suc k"] by (auto simp: ended_after_def ended_def silent_def)
    ultimately show ?thesis by (auto simp: wp_seq wp_lift wp_update dest!: deadline_check_Inl)
  qed
  show ?case
    unfolding stream_attempts.simps wp_seq[of "stream_attempt g i c n"]
    by (rule wp_mono[OF stream_attempt_wp[OF Suc.prems]])
       (auto simp: wp_ret widen again step_after_def[of c os StreamReturned]
          intro: ended_widen split: stream_step.splits)
qed

lemma stream_candidates_wp:
  fixes g :: "'s stream_args"
  assumes "silent os st"
  defines "b \<equiv> nat (attempt_limit g)"
  shows "wp (stream_candidates g i cs) (silent_after (stream_call ` set cs) (b * length cs) os)
    (ended_after g (stream_call ` set cs) (b * length cs) os) st"
  using assms(1)
proof (induction cs arbitrary: i os st)
  case Nil
  then show ?case unfolding stream_candidates.simps wp_ret by (auto simp: silent_after_def intro: opened_within_refl)
next
  case (Cons c cs)
  let ?C = "stream_call ` set (c # cs)"
  have "wp (stream_candidates g (Suc i) cs) (silent_after ?C (b * length (c # cs)) os) (ended_after g ?C (b * length (c # cs)) os) t"
    if silent: "silent_after {stream_call c} b os False t" for t
  proof -
    obtain os' where os': "opened_within {stream_call c} b os os'" "silent os' t"
      using silent unfolding silent_after_def by blast
    from Cons.IH[OF os'(2)] show ?thesis
      by (rule wp_mono) (use after_trans[OF os'(1), where C' = "stream_call ` set cs" and b' = "b * length cs"] in auto)
  qed
  then show ?case
    unfolding stream_candidates.simps wp_seq b_def[symmetric]
    by (intro wp_mono[OF stream_attempts_wp[OF Cons.prems]])
       (auto simp: silent_after_def[of "{stream_call c}" b os True] wp_ret elim: ended_widen split: if_splits)
qed

subsection \<open>The generator and the wrapper\<close>

lemma emit_all_wp:
  assumes "flow st" "opens (ss_trace st) = []"
    "\<And>k. k < length es \<Longrightarrow> ev_sequence_number (es ! k) = int (length (ss_public st) + k) + 1"
    "es \<noteq> []" "terminal_event (last es)" "list_all (\<lambda>e. \<not> terminal_event e) (butlast es)"
  shows "wp (emit_all g es) (\<lambda>_ _. False) (ended g []) st"
  using assms
proof (induction es arbitrary: st)
  case (Cons e es)
  have n: "ev_sequence_number e = int (length (ss_public st)) + 1" using Cons.prems(3)[of 0] by simp
  show ?case
  proof (cases "es = []")
    case True
    then show ?thesis using Cons.prems(1,2,5) n by (auto simp: wp_seq intro: emit_terminal_wp)
  next
    case False
    show ?thesis unfolding emit_all.simps wp_seq
    proof (rule emit_wp[OF Cons.prems(1) n])
      fix t assume t: "flow t" "t = st\<lparr>ss_trace := ss_trace st @ [Yielded e], ss_public := ss_public st @ [e],
        ss_public_sequence := ev_sequence_number e, ss_partial := ss_partial st \<or> partial_event e\<rparr>"
      have "ev_sequence_number (es ! k) = int (length (ss_public t) + k) + 1" if "k < length es" for k
        using Cons.prems(3)[of "Suc k"] that t(2) by simp
      then show "wp (emit_all g es) (\<lambda>_ _. False) (ended g []) t"
        by (intro Cons.IH) (use t False Cons.prems in \<open>auto split: if_splits\<close>)
    qed (use Cons.prems in \<open>auto simp: ended_def\<close>)
  qed
qed simp

lemma cached_events_numbered:
  "k < length (cached_events r dec hit) \<Longrightarrow> ev_sequence_number (cached_events r dec hit ! k) = int k + 1"
  "cached_events r dec hit \<noteq> []" "terminal_event (last (cached_events r dec hit))"
  "list_all (\<lambda>e. \<not> terminal_event e) (butlast (cached_events r dec hit))"
  by (auto simp: cached_events_def Let_def blank_event_def terminal_event_def less_Suc_eq)

abbreviation plan_calls :: "'s stream_args \<Rightarrow> (string \<times> ProviderRequest) set" where
  "plan_calls g \<equiv> stream_call ` set (pl_candidates (sg_plan g))"

definition stream_bound :: "'s stream_args \<Rightarrow> nat" where
  "stream_bound g = nat (attempt_limit g) * length (pl_candidates (sg_plan g))"

lemma stream_live_wp:
  assumes "silent [] st"
  shows "wp (stream_live g) (\<lambda>_ _. False) (ended_after g (plan_calls g) (stream_bound g) []) st"
proof -
  have st: "silent [] (st\<lparr>ss_cached_content := x\<rparr>)" for x using assms by (simp add: silent_def)
  have "wp (stream_exhausted g) (\<lambda>_ _. False) (ended_after g (plan_calls g) (stream_bound g) []) t"
    if silent: "silent_after (plan_calls g) (stream_bound g) [] r t" for r t
  proof -
    obtain os' where os': "opened_within (plan_calls g) (stream_bound g) [] os'" "silent os' t"
      using silent unfolding silent_after_def by blast
    have "wp (stream_exhausted g) (\<lambda>_ _. False) (ended g os') t"
      unfolding stream_exhausted_def wp_seq wp_get_state
      by (rule emit_terminal_wp) (use os'(2) in \<open>auto simp: silent_def\<close>)
    then show ?thesis by (rule wp_mono) (use os'(1) in \<open>auto simp: ended_after_def\<close>)
  qed
  then show ?thesis
    unfolding stream_live_def wp_seq wp_update
    by (intro wp_mono[OF stream_candidates_wp[OF st]])
       (auto simp: stream_bound_def silent_after_def[of _ _ _ True])
qed

lemma silent_init: "silent [] (stream_init g h)"
  by (simp add: silent_def stream_init_def flow_def)

lemma stream_body_wp:
  "wp (stream_body g) (\<lambda>_ _. False) (ended_after g (plan_calls g) (stream_bound g) []) (stream_init g h)"
proof -
  have err: "ended_after g (plan_calls g) (stream_bound g) [] UnexpectedError (stream_init g h)"
    using silent_init[of g h] unfolding ended_after_def
    by (intro exI[of _ "[]"]) (simp add: ended_def silent_def)
  have hit: "wp (emit_all g (cached_events r dec c)) (\<lambda>_ _. False) (ended_after g (plan_calls g) (stream_bound g) [])
      (stream_init g h)" for r dec c
  proof (rule wp_mono[OF emit_all_wp])
    show "flow (stream_init g h)" "opens (ss_trace (stream_init g h)) = []" using silent_init[of g h] by (auto simp: silent_def)
  qed (auto simp: cached_events_numbered stream_init_def ended_after_def intro: opened_within_refl)
  have "stream_body g = raise UnexpectedError \<or> (\<exists>r dec c. stream_body g = emit_all g (cached_events r dec c)) \<or>
      stream_body g = stream_live g"
    unfolding stream_body_def
    by (cases "pl_candidates (sg_plan g)"; cases "sg_cache g"; cases "the (sg_cache g)") auto
  then show ?thesis
    using err hit stream_live_wp[OF silent_init, of g g h] by (auto simp only: wp_raise)
qed

lemma deadline_failed_simps [simp]:
  "terminal_event (deadline_failed g st)" "ev_sequence_number (deadline_failed g st) = ss_public_sequence st + 1"
  by (simp_all add: deadline_failed_def)

text \<open>The outcome of the wrapper, in terms of the generator's.\<close>

lemma stream_cases:
  assumes "stream g before fired after (stream_init g h) = (r, st)"
  obtains (expired) t where "flow t \<or> settled g t \<and> ss_verdict t = Some Expired" "r = Inr ()"
      "st = t\<lparr>ss_public := ss_public t @ [deadline_failed g t]\<rparr>"
      "opened_within (plan_calls g) (stream_bound g) [] (opens (ss_trace t))"
  | (closed) "settled g st" "ss_verdict st \<noteq> Some Expired" "r = Inr ()"
      "opened_within (plan_calls g) (stream_bound g) [] (opens (ss_trace st))"
  | (failed) e where "flow st" "r = Inl e" "opened_within (plan_calls g) (stream_bound g) [] (opens (ss_trace st))"
proof -
  have init: "flow (stream_init g h)" "opens (ss_trace (stream_init g h)) = []"
    using silent_init[of g h] by (auto simp: silent_def)
  obtain x t where b: "stream_body g (stream_init g h) = (x, t)" by fastforce
  from wp_result[OF stream_body_wp b] obtain e os where e: "x = Inl e"
    "opened_within (plan_calls g) (stream_bound g) [] os" "ended g os e t"
    by (cases x) (auto simp: ended_after_def)
  then have os: "opened_within (plan_calls g) (stream_bound g) [] (opens (ss_trace t))"
    "if e = GeneratorExit then settled g t else flow t" by (auto simp: ended_def)
  show thesis
  proof (cases "deadline_check (pl_deadline (sg_plan g)) before = Inr ()")
    case False
    with assms init show thesis by (intro expired[of "stream_init g h"]) (auto simp: stream_def Let_def)
  next
    case True
    then have w: "(r, st) = (case ss_verdict t of
        Some Expired \<Rightarrow> (Inr (), t\<lparr>ss_public := ss_public t @ [deadline_failed g t]\<rparr>)
      | Some _ \<Rightarrow> (Inr (), t)
      | None \<Rightarrow> if x = Inl ExecutionDeadlineExceeded \<or>
            run_after (pl_deadline (sg_plan g)) fired after = Inl ExecutionDeadlineExceeded \<and> (x = Inl CancelledError \<longrightarrow> fired)
          then (Inr (), t\<lparr>ss_public := ss_public t @ [deadline_failed g t]\<rparr>) else (x, t))"
      using assms b by (simp add: stream_def Let_def)
    show thesis
    proof (cases "e = GeneratorExit")
      case True
      then have t: "settled g t" using os by simp
      then obtain v where v: "ss_verdict t = Some v" by (auto simp: settled_def)
      show thesis
      proof (cases "v = Expired")
        case True
        with w v have "r = Inr ()" "st = t\<lparr>ss_public := ss_public t @ [deadline_failed g t]\<rparr>" by simp_all
        with t v True os(1) show thesis by (intro expired[of t]) simp_all
      next
        case False
        with w v have "r = Inr ()" "st = t" by (cases v; simp)+
        with t v False os(1) show thesis by (intro closed) simp_all
      qed
    next
      case False
      then have "flow t" using os by simp
      moreover from this have "ss_verdict t = None" by (simp add: flow_def)
      ultimately show thesis using w os(1) e(1) expired[of t] failed by (auto split: if_splits)
    qed
  qed
qed

end
