(* ===== verification/Streaming_Health.thy ===== *)
theory Streaming_Health
  imports Streaming_Laws Execution_Health
begin

text \<open>
  Streaming over a health port: the contract of \<open>Execution_Health\<close> extended by the admission check,
  the service's side of it, and the in-memory tracker.
\<close>

locale streaming_port = health_port +
  assumes admitted_law: "held a s \<Longrightarrow> wp (op_admitted ops env a) (\<lambda>_. held a) (\<lambda>_ _. False) s"
begin

definition sheld :: "HealthAdmission \<Rightarrow> 'b \<Rightarrow> 'a stream_state \<Rightarrow> bool" where
  "sheld a r t \<longleftrightarrow> held a (ss_health t)"

definition sheld_raise :: "HealthAdmission \<Rightarrow> exec_failure \<Rightarrow> 'a stream_state \<Rightarrow> bool" where
  "sheld_raise a e t \<longleftrightarrow> held a (ss_health t) \<and> unbroken e"

definition sidle :: "'b \<Rightarrow> 'a stream_state \<Rightarrow> bool" where
  "sidle r t \<longleftrightarrow> idle (ss_health t)"

definition sidle_raise :: "exec_failure \<Rightarrow> 'a stream_state \<Rightarrow> bool" where
  "sidle_raise e t \<longleftrightarrow> idle (ss_health t) \<and> unbroken e"

lemma stream_port_call:
  assumes "wp m (\<lambda>_. P) (\<lambda>_ _. False) (ss_health st)" "\<And>x h. P h \<Longrightarrow> Q x (st\<lparr>ss_health := h\<rparr>)"
  shows "wp (stream_health m) Q E st"
  unfolding wp_stream_health by (rule wp_mono[OF assms(1)]) (auto intro: assms(2))

lemma emit_keeps:
  assumes "\<And>t. ss_health t = ss_health st \<Longrightarrow> Q () t" "\<And>e t. ss_health t = ss_health st \<Longrightarrow> unbroken e \<Longrightarrow> E e t"
  shows "wp (emit g ev) Q E st"
  by (auto simp: wp_def emit_def Let_def unbroken_def intro!: assms)

lemma guards_held:
  assumes "held a (ss_health st)" "sg_ops g = ops" "\<And>h. held a h \<Longrightarrow> Q () (st\<lparr>ss_health := h\<rparr>)"
  shows "wp (probe_guard g env a c) Q (sheld_raise a) st" "wp (lifetime_guard w rw a c) Q (sheld_raise a) st"
proof -
  have "Q () st" using assms(3)[OF assms(1)] by simp
  then show "wp (lifetime_guard w rw a c) Q (sheld_raise a) st"
    using assms(1) by (auto simp: lifetime_guard_def wp_simps sheld_raise_def unbroken_def split: option.splits)
  from \<open>Q () st\<close> show "wp (probe_guard g env a c) Q (sheld_raise a) st"
    unfolding probe_guard_def wp_if wp_seq wp_ret assms(2)
    by (auto intro!: stream_port_call[OF admitted_law[OF assms(1)]] simp: wp_ret wp_raise assms(3) sheld_raise_def unbroken_def)
qed

lemma handle_semantic_held:
  assumes "held a (ss_health st)" "sg_ops g = ops"
  shows "wp (handle_semantic g rw a c ev) (sheld a) (sheld_raise a) st"
proof -
  have rest: "wp (seq (probe_guard g (rw_probe rw) a c) (\<lambda>_.
      seq next_sequence (\<lambda>n. emit g (semantic_gateway_event (pl_request (sg_plan g)) n ev)))) (sheld a) (sheld_raise a) t"
    if "held a (ss_health t)" for t
    unfolding wp_seq wp_next_sequence
    by (rule guards_held(1)[OF that assms(2)], rule emit_keeps) (auto simp: sheld_def sheld_raise_def)
  have "ss_health (note_semantic ev st) = ss_health st" by (simp add: note_semantic_def)
  with assms(1) rest show ?thesis
    unfolding handle_semantic_def wp_seq[of "update _"] wp_seq[of get_state] wp_update wp_get_state
      wp_seq[of "if _ then _ else _"] wp_if wp_ret wp_seq[of next_sequence _ _ _ "note_semantic ev st"] wp_next_sequence
    by (auto simp: wp_seq[of "update _"] wp_update sheld_raise_def intro!: emit_keeps)
qed

lemma simple_handlers_held:
  assumes "held a (ss_health st)"
  shows "wp (handle_started c rid) (sheld a) (sheld_raise a) st"
    "wp (handle_usage g c u) (sheld a) (sheld_raise a) st"
  using assms
  by (auto simp: handle_started_def handle_usage_def wp_simps invalid_event_def sheld_def sheld_raise_def unbroken_def
      intro!: emit_keeps)

lemma handle_completed_held:
  assumes "held a (ss_health st)" "sg_ops g = ops" "ha_deployment_id a = md_deployment_id (rc_deployment (pc_candidate c))"
  shows "wp (handle_completed g w rw a c n rid finish) (sheld a) (sheld_raise a) st"
proof -
  have store: "ss_health (snd (store_best_effort rw r x t)) = ss_health t" for r x and t :: "'a stream_state"
    by (simp add: store_best_effort_def update_def Let_def split: option.splits)
  show ?thesis
    unfolding handle_completed_def wp_seq[of get_state] wp_seq[of "lift_result _"] wp_seq[of "stream_health _"]
      wp_get_state wp_if wp_lift invalid_event_def wp_raise Let_def wp_seq[of "store_best_effort _ _ _"] store_fields assms(2)
    by (intro conjI allI impI stream_port_call[OF success_law[OF assms(1), unfolded assms(3)]])
       (use assms(1) in \<open>auto simp: sheld_def sheld_raise_def unbroken_def store wp_seq wp_next_sequence wp_raise
          dest: latency_ms_nonneg dest!: deadline_check_Inl latency_ms_Inl intro!: emit_keeps\<close>)
qed

lemma handle_event_held:
  assumes "held a (ss_health st)" "sg_ops g = ops" "ha_deployment_id a = md_deployment_id (rc_deployment (pc_candidate c))"
  shows "wp (handle_event g w rw a c n ev) (sheld a) (sheld_raise a) st"
proof -
  have "wp (seq m (\<lambda>_. ret b)) (sheld a) (sheld_raise a) st" if "wp m (sheld a) (sheld_raise a) st" for m :: "('a, unit) streaming" and b :: bool
    unfolding wp_seq by (rule wp_mono[OF that]) (auto simp: wp_ret sheld_def)
  with simple_handlers_held[OF assms(1)] handle_semantic_held[OF assms(1,2)] handle_completed_held[OF assms] assms(1)
  show ?thesis
    by (cases ev) (auto simp: handle_event_def wp_seq[of get_state] wp_get_state wp_raise invalid_event_def sheld_raise_def unbroken_def)
qed

lemma read_loop_held:
  assumes "held a (ss_health st)" "sg_ops g = ops" "ha_deployment_id a = md_deployment_id (rc_deployment (pc_candidate c))"
  shows "wp (read_loop g w a c n k evs) (sheld a) (sheld_raise a) st"
  using assms(1)
proof (induction evs arbitrary: k st)
  case Nil
  have "unbroken (stream_ending w a c)" by (simp add: unbroken_def stream_ending_def Let_def split: stream_end.splits)
  with Nil show ?case
    unfolding read_loop.simps wp_seq wp_raise by (intro guards_held[OF _ assms(2)]) (auto simp: sheld_raise_def)
next
  case (Cons ev evs)
  have "wp (handle_event g w (tw_read w k) a c n ev)
      (\<lambda>r. wp (if r then ret () else read_loop g w a c n (Suc k) evs) (sheld a) (sheld_raise a)) (sheld_raise a) t"
    if "held a (ss_health t)" for t
    by (rule wp_mono[OF handle_event_held[OF that assms(2,3)]]) (auto simp: wp_ret sheld_def intro!: Cons.IH)
  with Cons.prems show ?case
    unfolding read_loop.simps wp_seq wp_lift
    by (intro guards_held[OF _ assms(2)] conjI allI impI) (auto dest!: deadline_check_Inl simp: sheld_raise_def unbroken_def)
qed

lemma stream_error_held:
  assumes "held a (ss_health st)" "sg_ops g = ops" "ha_deployment_id a = md_deployment_id (rc_deployment (pc_candidate c))"
  shows "wp (stream_error g w a c n e) (sheld a) (sheld_raise a) st"
proof -
  have recover: "wp (stream_recover g w c n e) (sheld a) (sheld_raise a) t" if "held a (ss_health t)" for t
    using that snapshot_law[OF that, unfolded assms(3)]
    unfolding stream_recover_def stream_can_retry_def wp_seq wp_if wp_ret wp_get_state wp_lift assms(2)
    by (intro conjI impI stream_port_call[where P = "held a"])
       (auto simp: sheld_def sheld_raise_def unbroken_def intro!: emit_keeps dest!: stream_delay_Inl)
  show ?thesis
    unfolding stream_error_def wp_seq wp_lift wp_if wp_update wp_get_state wp_raise Let_def wp_next_sequence assms(2)
    by (intro conjI allI impI stream_port_call[OF failure_law[OF assms(1), unfolded assms(3)]])
       (use assms(1) in \<open>auto simp: sheld_def sheld_raise_def unbroken_def wp_ret dest: latency_ms_nonneg
          intro!: recover emit_keeps dest!: deadline_check_Inl latency_ms_Inl\<close>)
qed

lemma stream_attempt_idle:
  assumes "idle (ss_health st)" "sg_ops g = ops" "normalized (md_deployment_id (rc_deployment (pc_candidate c)))"
    "prompt (tw_allow (sg_world g i n))"
  shows "wp (stream_attempt g i c n) sidle sidle_raise st"
proof -
  let ?w = "sg_world g i n"
  have opened: "wp (open_stream g ?w a c n) (sheld a) (sheld_raise a) t"
    if "held a (ss_health t)" "ha_deployment_id a = md_deployment_id (rc_deployment (pc_candidate c))" for a t
    unfolding open_stream_def wp_seq wp_lift wp_update
    by (use that in \<open>auto simp: sheld_raise_def unbroken_def wp_ret sheld_def dest!: deadline_check_Inl
        intro!: wp_mono[OF read_loop_held[OF _ assms(2)]]\<close>)
  have body: "wp (catch_provider (open_stream g ?w a c n) (stream_error g ?w a c n)) (sheld a) (sheld_raise a) t"
    if h: "held a (ss_health t)" "ha_deployment_id a = md_deployment_id (rc_deployment (pc_candidate c))" for a t
    unfolding wp_catch
    by (rule wp_mono[OF opened[OF h]])
       (auto simp: sheld_raise_def intro!: stream_error_held[OF _ assms(2) h(2)])
  have scoped: "wp (admission_scope (stream_health (op_release ops env a))
      (catch_provider (open_stream g ?w a c n) (stream_error g ?w a c n))) sidle sidle_raise t"
    if "held a (ss_health t)" "ha_deployment_id a = md_deployment_id (rc_deployment (pc_candidate c))" for a t env
    unfolding wp_scope
    by (rule wp_mono[OF body[OF that]])
       (auto simp: sheld_def sheld_raise_def sidle_def sidle_raise_def intro!: stream_port_call[OF release_law])
  have fields: "ss_health (reset_attempt t) = ss_health t" "ss_health (enter_attempt g c n t) = ss_health t" for t :: "'a stream_state"
    by (simp_all add: reset_attempt_def enter_attempt_def Let_def)
  have "wp (stream_health (op_allow ops (tw_allow ?w) (md_deployment_id (rc_deployment (pc_candidate c)))))
      (\<lambda>r t. case r of None \<Rightarrow> idle (ss_health t)
         | Some a \<Rightarrow> ha_deployment_id a = md_deployment_id (rc_deployment (pc_candidate c)) \<and> held a (ss_health t)) E (reset_attempt st)" for E
    unfolding wp_stream_health fields
    by (rule wp_mono[OF allow_law[OF assms(1,3,4)]]) (auto split: option.splits)
  note allowed = wp_mono[OF this]
  show ?thesis
    unfolding stream_attempt_def Let_def wp_seq wp_lift wp_option wp_ret wp_update assms(2)
    by (intro conjI allI impI allowed)
       (use assms(1) in \<open>auto simp: sidle_def sidle_raise_def unbroken_def fields dest!: deadline_check_Inl intro!: scoped\<close>)
qed

lemma sidleD: "sidle r t \<Longrightarrow> idle (ss_health t)"
  by (simp add: sidle_def)

lemma sidleI: "idle (ss_health t) \<Longrightarrow> sidle r t"
  by (simp add: sidle_def)

lemma sidle_expired: "sidle_raise ExecutionDeadlineExceeded t \<longleftrightarrow> idle (ss_health t)"
  by (simp add: sidle_raise_def unbroken_def)

lemma stream_attempts_idle:
  assumes "idle (ss_health st)" "sg_ops g = ops" "normalized (md_deployment_id (rc_deployment (pc_candidate c)))"
    "\<And>n. prompt (tw_allow (sg_world g i n))"
  shows "wp (stream_attempts g i c k n) sidle sidle_raise st"
  using assms(1)
proof (induction k arbitrary: n st)
  case (Suc k)
  show ?case
    unfolding stream_attempts.simps wp_seq[of "stream_attempt g i c n"]
    by (rule wp_mono[OF stream_attempt_idle[OF Suc.prems assms(2,3,4)]])
       (auto simp: wp_ret wp_seq wp_lift wp_update sidle_expired
          dest!: deadline_check_Inl sidleD intro!: Suc.IH sidleI split: stream_step.splits)
qed (simp add: wp_ret sidle_def)

lemma stream_candidates_idle:
  assumes "idle (ss_health st)" "sg_ops g = ops" "\<And>i n. prompt (tw_allow (sg_world g i n))"
    "list_all (\<lambda>c. normalized (md_deployment_id (rc_deployment (pc_candidate c)))) cs"
  shows "wp (stream_candidates g i cs) sidle sidle_raise st"
  using assms(1,4)
proof (induction cs arbitrary: i st)
  case (Cons c cs)
  show ?case
    unfolding stream_candidates.simps wp_seq
    by (rule wp_mono[OF stream_attempts_idle[OF Cons.prems(1) assms(2) _ assms(3)]])
       (use Cons in \<open>auto simp: wp_ret dest: sidleD intro: sidleI\<close>)
qed (simp add: wp_ret sidle_def)

lemma emit_idle:
  assumes "idle (ss_health st)"
  shows "wp (emit g e) sidle sidle_raise st" "wp (emit_all g es) sidle sidle_raise st"
proof -
  have one: "wp (emit g e) sidle sidle_raise t" if "idle (ss_health t)" for e t
    by (rule emit_keeps) (use that in \<open>auto simp: sidle_def sidle_raise_def\<close>)
  then show "wp (emit g e) sidle sidle_raise st" using assms .
  show "wp (emit_all g es) sidle sidle_raise st" using assms
  proof (induction es arbitrary: st)
    case (Cons x es)
    show ?case unfolding emit_all.simps wp_seq
      by (rule wp_mono[OF one[OF Cons.prems]]) (auto dest: sidleD intro: Cons.IH)
  qed (simp add: wp_ret sidle_def)
qed

lemma stream_body_idle:
  assumes "idle h" "sg_ops g = ops" "\<And>i n. prompt (tw_allow (sg_world g i n))"
    "list_all (\<lambda>c. normalized (md_deployment_id (rc_deployment (pc_candidate c)))) (pl_candidates (sg_plan g))"
  shows "wp (stream_body g) sidle sidle_raise (stream_init g h)"
proof -
  have init: "idle (ss_health (stream_init g h))" using assms(1) by (simp add: stream_init_def)
  have exhausted: "wp (stream_exhausted g) sidle sidle_raise t" if "idle (ss_health t)" for t
    unfolding stream_exhausted_def wp_seq wp_get_state by (rule emit_idle(1)[OF that])
  have live: "wp (stream_live g) sidle sidle_raise (stream_init g h)"
    unfolding stream_live_def wp_seq wp_update
    by (rule wp_mono[OF stream_candidates_idle[OF _ assms(2-4)]])
       (use init in \<open>auto simp: wp_ret dest: sidleD intro: sidleI exhausted\<close>)
  have raise: "wp (raise UnexpectedError) sidle sidle_raise (stream_init g h)"
    using init by (simp only: wp_raise sidle_raise_def unbroken_def) simp
  show ?thesis
    unfolding stream_body_def
    by (cases "pl_candidates (sg_plan g)"; cases "sg_cache g"; cases "the (sg_cache g)")
       (auto simp: live raise emit_idle(2)[OF init])
qed

end

interpretation tracker_streaming: streaming_port tracker_ops "probe_free p" "holds_only p" "lease_prompt p" for p
proof unfold_locales
  fix a s env
  assume held: "holds_only p a s"
  note h = held_entry[OF held]
  show "wp (op_admitted tracker_ops env a) (\<lambda>_. holds_only p a) (\<lambda>_ _. False) s"
    unfolding tracker_ops_def health_ops.select_convs health_is_admitted_def
    by (rule wp_on_state[OF h(4)], unfold h(3) wp_seq wp_refresh wp_get_state wp_ret)
       (rule held_update[OF held entry_refresh_held[OF h(1,2)]])
qed

end
