(* ===== verification/Streaming_Properties.thy ===== *)
theory Streaming_Properties
  imports Streaming_Health Execution_Properties
begin

text \<open>
  The properties of streaming execution: the protocol of the published events, the bound and the
  authority of the provider streams opened, how a stream ends, and that no recovery probe leaks.
\<close>

subsection \<open>The plan\<close>

lemma emap_zip_Inr:
  assumes "emap f (zip xs ys) = Inr zs" "length ys = length xs"
  shows "length zs = length xs \<and> (\<forall>z\<in>set zs. \<exists>x\<in>set xs. \<exists>y. f (x, y) = Inr z)"
  using assms
proof (induction xs arbitrary: ys zs)
  case (Cons x xs)
  then obtain y ys' where "ys = y # ys'" by (cases ys) auto
  with Cons show ?case by (fastforce simp: ebind_Inr_iff)
qed simp

lemma prepare_candidate_Inr:
  assumes "prepare_candidate lib resolve r dec max_output timeout dl (c, now) = Inr p"
  shows "pc_candidate p = c \<and> md_model_group (rc_deployment c) = rp_authorized_model_group (rd_routing dec) \<and>
    STREAMING \<in> md_capabilities (rc_deployment c) \<and>
    pc_provider_request p = mk_provider_request r (rc_deployment c) max_output timeout \<and>
    ProviderRequest_ok lib (pc_provider_request p)"
  using assms
  by (auto simp: prepare_candidate_def validate_streaming_candidate_def ebind_Inr_iff Let_def
      split: if_splits option.splits sum.splits)

lemma prepare_Inr:
  assumes "prepare lib policy resolve r dec max_output timeout dl entered clock finished = Inr plan"
  shows "pl_replay_safe plan = replay_safe r" 
    "length (pl_candidates plan) \<le> (if replay_safe r then nat (ry_max_fallbacks policy + 1) else 1)"
    "p \<in> set (pl_candidates plan) \<Longrightarrow>
       pc_candidate p \<in> set (ranked_candidates dec) \<and>
       md_model_group (rc_deployment (pc_candidate p)) = rp_authorized_model_group (rd_routing dec) \<and>
       STREAMING \<in> md_capabilities (rc_deployment (pc_candidate p)) \<and>
       pc_provider_request p = mk_provider_request r (rc_deployment (pc_candidate p)) max_output timeout \<and>
       ProviderRequest_ok lib (pc_provider_request p)"
proof -
  let ?b = "if replay_safe r then take (nat (ry_max_fallbacks policy + 1)) (ranked_candidates dec)
     else take 1 (ranked_candidates dec)"
  from assms obtain ps where ps: "emap (prepare_candidate lib resolve r dec max_output timeout dl)
      (zip ?b (map clock [0..<length ?b])) = Inr ps" "pl_candidates plan = ps" "pl_replay_safe plan = replay_safe r"
    unfolding prepare_def ebind_Inr_iff Let_def
    by (auto split: if_splits simp: ebind_Inr_iff)
  note z = emap_zip_Inr[OF ps(1)]
  show "pl_replay_safe plan = replay_safe r" by (rule ps(3))
  show "length (pl_candidates plan) \<le> (if replay_safe r then nat (ry_max_fallbacks policy + 1) else 1)"
    using z ps(2) by simp
  assume "p \<in> set (pl_candidates plan)"
  with z ps(2) obtain c now where "c \<in> set ?b" "prepare_candidate lib resolve r dec max_output timeout dl (c, now) = Inr p"
    by auto
  moreover from this(1) have "c \<in> set (ranked_candidates dec)" by (auto split: if_splits dest: in_set_takeD)
  ultimately show "pc_candidate p \<in> set (ranked_candidates dec) \<and>
       md_model_group (rc_deployment (pc_candidate p)) = rp_authorized_model_group (rd_routing dec) \<and>
       STREAMING \<in> md_capabilities (rc_deployment (pc_candidate p)) \<and>
       pc_provider_request p = mk_provider_request r (rc_deployment (pc_candidate p)) max_output timeout \<and>
       ProviderRequest_ok lib (pc_provider_request p)"
    using prepare_candidate_Inr by blast
qed

subsection \<open>A concrete stream\<close>

definition demo_stream_request :: GatewayRequest where
  "demo_stream_request = demo_request\<lparr>gr_requirements := (gr_requirements demo_request)\<lparr>rq_streaming := True\<rparr>\<rparr>"

definition demo_stream_decision :: RankingDecision where
  "demo_stream_decision = (let d = (demo_deployment ''a'' (1 / 2))\<lparr>md_capabilities := {TEXT, STREAMING}\<rparr> in
     mk_decision \<lparr>ac_policy = demo_decision, ac_registry_digest = ''r'', ac_candidates = [d]\<rparr>
       demo_policy ''i'' ''g'' [demo_candidate\<lparr>rc_deployment := d\<rparr>] [])"

definition demo_stream_adapter :: stream_adapter where
  "demo_stream_adapter = \<lparr>sa_streaming_port = True, sa_native_streaming = True, sa_streaming_usage = True,
     sa_prepare = (\<lambda>_. Inr ())\<rparr>"

definition demo_plan :: StreamingExecutionPlan where
  "demo_plan = \<lparr>pl_request = demo_stream_request, pl_decision = demo_stream_decision,
     pl_candidates = map (\<lambda>c. \<lparr>pc_candidate = c,
       pc_provider_request = mk_provider_request demo_stream_request (rc_deployment c) 20 (Fin 30)\<rparr>)
       (ranked_candidates demo_stream_decision),
     pl_replay_safe = True, pl_max_output_tokens = 20, pl_provider_timeout_seconds = Fin 30,
     pl_deadline = \<lparr>dl_started_at = Some (Fin 4), dl_expires_at = Some (Fin 9)\<rparr>\<rparr>"

abbreviation demo_lib :: schema_lib where
  "demo_lib \<equiv> \<lparr>sl_pattern_compiles = (\<lambda>p. True), sl_check_schema = (\<lambda>s. True), sl_validates = (\<lambda>s v. True)\<rparr>"

definition demo_read :: read_world where
  "demo_read = \<lparr>rw_before = sample_health_env 5, rw_loop_now = Fin 5, rw_after = sample_health_env 5,
     rw_check = Fin 5, rw_probe = sample_health_env 5, rw_completed = Fin 5, rw_check_success = Fin 5,
     rw_success = sample_health_env 5, rw_cached_at = Aware 0, rw_put_ok = True\<rparr>"

definition demo_stream_world :: "ProviderStreamEvent list \<Rightarrow> stream_world" where
  "demo_stream_world evs = \<lparr>tw_check = Fin 5, tw_started = Fin 5, tw_allow = sample_health_env 5,
     tw_check_open = Fin 5, tw_loop_start = Fin 5, tw_reads = evs, tw_end = Exhausted,
     tw_read = (\<lambda>_. demo_read), tw_check_error = Fin 5, tw_failed = Fin 5, tw_failure = sample_health_env 5,
     tw_snapshot = sample_health_env 5, tw_release = sample_health_env 5, tw_check_sleep = Fin 5\<rparr>"

definition demo_events :: "ProviderStreamEvent list" where
  "demo_events = [ProviderResponseStarted None, ProviderContentDelta ''ok'',
     ProviderUsageCompleted (ps_usage demo_response), ProviderResponseCompleted None (Some ''stop'')]"

definition demo_stream_args :: "ProviderStreamEvent list \<Rightarrow> HealthTracker stream_args" where
  "demo_stream_args evs = \<lparr>sg_ops = tracker_ops, sg_policy = demo_retry,
     sg_plan = demo_plan, sg_cache = None,
     sg_emit = (\<lambda>_. \<lparr>ew_fired = False, ew_after = Fin 5, ew_resumed = True, ew_before = Fin 5\<rparr>),
     sg_world = (\<lambda>_ _. demo_stream_world evs)\<rparr>"

abbreviation demo_stream :: "ProviderStreamEvent list \<Rightarrow> (exec_failure + unit) \<times> HealthTracker stream_state" where
  "demo_stream evs \<equiv> (let g = demo_stream_args evs in
     stream g (Fin 4) False (Fin 6) (stream_init g (tracker_init sample_policy)))"

lemma demo_prepared:
  "prepare demo_lib demo_retry (\<lambda>_. Some demo_stream_adapter) demo_stream_request demo_stream_decision 20 (Fin 30)
     (pl_deadline demo_plan) (Fin 4) (\<lambda>_. Fin 4) (Fin 4) = Inr demo_plan"
  by code_simp

text \<open>The events it publishes.\<close>

definition demo_public :: "GatewayStreamEvent list" where
  "demo_public = (let r = demo_stream_request; usage = usage_of (ps_usage demo_response);
         routing = routing_for_candidate demo_stream_decision (pc_candidate (hd (pl_candidates demo_plan))) [''a'']
     in [(blank_event RESPONSE_STARTED r 1)\<lparr>ev_routing := Some routing\<rparr>,
         (blank_event CONTENT_DELTA r 2)\<lparr>ev_delta := Some ''ok''\<rparr>,
         (blank_event USAGE_COMPLETED r 3)\<lparr>ev_usage := Some usage\<rparr>,
         (blank_event RESPONSE_COMPLETED r 4)\<lparr>ev_routing := Some routing,
            ev_execution := Some \<lparr>px_provider = ''p'', px_model = ''m'', px_deployment = ''a'', px_status = SUCCEEDED,
              px_latency_ms = 0, px_usage = Some usage, px_provider_request_id = None, px_finish_reason = Some ''stop'',
              px_attempt_number = 1, px_fallback_index = 0, px_api_family = Some ''f'', px_max_output_tokens = Some 20,
              px_trace_id = None, px_cached = False\<rparr>,
            ev_finish_reason := Some ''stop''\<rparr>])"

lemma demo_stream_runs: "case demo_stream demo_events of (x, st) \<Rightarrow> x = Inr () \<and> ss_public st = demo_public"
  by code_simp

lemma demo_stream_result:
  obtains st where
    "stream (demo_stream_args demo_events) (Fin 4) False (Fin 6)
       (stream_init (demo_stream_args demo_events) (tracker_init sample_policy)) = (Inr (), st)"
    "ss_public st = demo_public" "length (ss_public st) = 4"
  using demo_stream_runs by (cases "demo_stream demo_events") (auto simp: Let_def demo_public_def)

subsection \<open>The protocol\<close>

lemma published:
  assumes "stream g before fired after (stream_init g h) = (x, st)"
  shows "numbered (ss_public st) \<and> list_all (\<lambda>e. \<not> terminal_event e) (butlast (ss_public st)) \<and>
    well_traced (ss_trace st) \<and> opened_within (plan_calls g) (stream_bound g) [] (opens (ss_trace st))"
  using assms
proof (cases rule: stream_cases)
  case (expired t)
  then show ?thesis by (auto simp: flow_def settled_def)
next
  case closed
  then show ?thesis by (auto simp: settled_def)
next
  case (failed e)
  then show ?thesis by (auto simp: flow_def list_all_iff dest: in_set_butlastD)
qed

lemma bound_of_plan:
  assumes "length (pl_candidates (sg_plan g)) \<le> (if pl_replay_safe (sg_plan g) then nat (ry_max_fallbacks (sg_policy g) + 1) else 1)"
    "RetryPolicy_ok (sg_policy g)"
  shows "int (stream_bound g) \<le> (if pl_replay_safe (sg_plan g)
    then ry_max_attempts_per_deployment (sg_policy g) * (ry_max_fallbacks (sg_policy g) + 1) else 1)"
proof (cases "pl_replay_safe (sg_plan g)")
  case True
  have "int (stream_bound g) = int (nat (ry_max_attempts_per_deployment (sg_policy g))) * int (length (pl_candidates (sg_plan g)))"
    using True by (simp add: stream_bound_def attempt_limit_def)
  also have "\<dots> \<le> int (nat (ry_max_attempts_per_deployment (sg_policy g))) * int (nat (ry_max_fallbacks (sg_policy g) + 1))"
    using assms(1) True by (intro mult_left_mono) auto
  finally show ?thesis using True assms(2) by (simp add: RetryPolicy_ok_def)
qed (use assms(1) in \<open>simp add: stream_bound_def attempt_limit_def\<close>)

text \<open>
  C6. A prepared stream keeps the protocol whatever the providers, the clock and the consumer
  do: the published events are numbered 1, 2, 3, ... and none but the last is terminal; every
  provider stream is opened before the first event is yielded, so nothing is replayed after
  output; and the streams opened are at most \<open>max_attempts_per_deployment * (max_fallbacks + 1)\<close>,
  one if the transcript holds tool results, each for a ranked deployment of the authorized group
  that advertises streaming, with the valid request built for it.
\<close>

theorem stream_keeps_protocol:
  assumes "prepare lib (sg_policy g) resolve r dec max_output timeout dl entered clock finished = Inr (sg_plan g)"
    "RetryPolicy_ok (sg_policy g)" "stream g before fired after (stream_init g h) = (x, st)"
  shows "map ev_sequence_number (ss_public st) = map int [1..<Suc (length (ss_public st))] \<and>
    list_all (\<lambda>e. \<not> terminal_event e) (butlast (ss_public st)) \<and>
    (\<exists>calls. ss_trace st = map (\<lambda>(i, q). Opened i q) calls @ map Yielded (yielded (ss_trace st)) \<and>
      int (length calls) \<le> (if replay_safe r
        then ry_max_attempts_per_deployment (sg_policy g) * (ry_max_fallbacks (sg_policy g) + 1) else 1) \<and>
      (\<forall>(i, q)\<in>set calls. \<exists>c\<in>set (ranked_candidates dec).
         i = md_deployment_id (rc_deployment c) \<and>
         md_model_group (rc_deployment c) = rp_authorized_model_group (rd_routing dec) \<and>
         STREAMING \<in> md_capabilities (rc_deployment c) \<and>
         q = mk_provider_request r (rc_deployment c) max_output timeout \<and> ProviderRequest_ok lib q))"
proof -
  note plan = prepare_Inr[OF assms(1)]
  note pub = published[OF assms(3)]
  let ?calls = "opens (ss_trace st)"
  have opened: "length ?calls \<le> stream_bound g" "set ?calls \<subseteq> plan_calls g"
    using pub by (auto simp: opened_within_def)
  have "int (length ?calls) \<le> int (stream_bound g)" using opened(1) by simp
  also note bound_of_plan[of g, unfolded plan(1), OF plan(2) assms(2)]
  finally have bound: "int (length ?calls) \<le> (if replay_safe r
        then ry_max_attempts_per_deployment (sg_policy g) * (ry_max_fallbacks (sg_policy g) + 1) else 1)" .
  have auth: "\<forall>(i, q)\<in>set ?calls. \<exists>c\<in>set (ranked_candidates dec).
         i = md_deployment_id (rc_deployment c) \<and>
         md_model_group (rc_deployment c) = rp_authorized_model_group (rd_routing dec) \<and>
         STREAMING \<in> md_capabilities (rc_deployment c) \<and>
         q = mk_provider_request r (rc_deployment c) max_output timeout \<and> ProviderRequest_ok lib q"
    using opened(2) plan(3) by (fastforce simp: stream_call_def)
  from pub bound auth show ?thesis unfolding numbered_def well_traced_def by blast
qed

theorem stream_keeps_protocol_witness:
  "map ev_sequence_number (ss_public (snd (demo_stream demo_events))) = [1, 2, 3, 4]"
proof -
  let ?g = "demo_stream_args demo_events"
  obtain st where s: "stream ?g (Fin 4) False (Fin 6) (stream_init ?g (tracker_init sample_policy)) = (Inr (), st)"
    "length (ss_public st) = 4" by (rule demo_stream_result)
  have "sg_policy ?g = demo_retry" "sg_plan ?g = demo_plan" by (simp_all add: demo_stream_args_def)
  with demo_retry_ok demo_prepared
  have "map ev_sequence_number (ss_public st) = map int [1..<Suc (length (ss_public st))]"
    using stream_keeps_protocol[OF _ _ s(1)] by metis
  with s show ?thesis by (simp add: upt_rec)
qed

lemma stream_last:
  assumes "stream g before fired after (stream_init g h) = (Inr (), st)" "\<forall>k. ew_resumed (sg_emit g k)"
  shows "\<exists>es e. ss_public st = es @ [e] \<and> terminal_event e \<and> \<not> list_ex terminal_event es \<and>
    (ss_verdict st \<noteq> Some Delivered_terminal \<longrightarrow>
       map_option ge_code (ev_error e) = Some ''execution_deadline_exceeded'' \<and>
       ev_partial e = list_ex partial_event es)"
  using assms(1)
proof (cases rule: stream_cases)
  case (expired t)
  then have "list_all (\<lambda>e. \<not> terminal_event e) (ss_public t)" "ss_partial t = list_ex partial_event (ss_public t)"
    by (auto simp: flow_def settled_def)
  moreover have "ev_partial (deadline_failed g t) = ss_partial t"
    "map_option ge_code (ev_error (deadline_failed g t)) = Some ''execution_deadline_exceeded''"
    by (simp_all add: deadline_failed_def failed_event_def)
  ultimately show ?thesis using expired(3) by (auto simp: list_ex_iff list_all_iff)
next
  case closed
  with assms(2) have "ss_verdict st = Some Delivered_terminal" "ss_public st \<noteq> []" "terminal_event (last (ss_public st))"
    "list_all (\<lambda>e. \<not> terminal_event e) (butlast (ss_public st))"
    by (auto simp: settled_def) (metis verdict.exhaust)+
  then show ?thesis
    by (intro exI[of _ "butlast (ss_public st)"] exI[of _ "last (ss_public st)"]) (auto simp: list_ex_iff list_all_iff)
next
  case (failed e)
  then show ?thesis by simp
qed

text \<open>
  C38. When the generator's consumer always asks for the next event and no unexpected error
  escapes, a stream ends: it publishes at least one event and its last one is terminal. When it
  is the deadline's failure, its partial flag says whether model output was published before it.
\<close>

theorem stream_ends_terminal:
  assumes "stream g before fired after (stream_init g h) = (Inr (), st)" "\<forall>k. ew_resumed (sg_emit g k)"
  shows "\<exists>es e. ss_public st = es @ [e] \<and> terminal_event e \<and> \<not> list_ex terminal_event es \<and>
    (ss_verdict st \<noteq> Some Delivered_terminal \<longrightarrow>
       map_option ge_code (ev_error e) = Some ''execution_deadline_exceeded'' \<and>
       ev_partial e = list_ex partial_event es)"
  using stream_last[OF assms] .

theorem stream_ends_terminal_witness:
  "\<exists>es e. ss_public (snd (demo_stream demo_events)) = es @ [e] \<and> terminal_event e \<and> \<not> list_ex terminal_event es"
proof -
  let ?g = "demo_stream_args demo_events"
  obtain st where s: "stream ?g (Fin 4) False (Fin 6) (stream_init ?g (tracker_init sample_policy)) = (Inr (), st)"
    by (rule demo_stream_result)
  have "\<forall>k. ew_resumed (sg_emit ?g k)" by (simp add: demo_stream_args_def)
  from stream_ends_terminal[OF s this] s show ?thesis by auto
qed

text \<open>
  C39. Run against the in-memory tracker, a stream that starts with no recovery probe outstanding
  ends with none, however it ends (completion, failure, expiry, a consumer that leaves), keeps the
  tracker's invariant, and never fails because of a health call, provided each probe lease
  outlives the two clock readings of its admission.
\<close>

theorem stream_leaks_no_probe:
  assumes "probe_free p tr" "sg_ops g = tracker_ops" "\<forall>i n. lease_prompt p (tw_allow (sg_world g i n))"
    "list_all (\<lambda>c. normalized (md_deployment_id (rc_deployment (pc_candidate c)))) (pl_candidates (sg_plan g))"
    "stream g before fired after (stream_init g tr) = (r, st)"
  shows "probe_free p (ss_health st) \<and> tracker_inv (ss_health st) \<and> (\<forall>f. r \<noteq> Inl (HealthError f))"
proof -
  obtain x t where b: "stream_body g (stream_init g tr) = (x, t)" by fastforce
  have "wp (stream_body g) (tracker_streaming.sidle p) (tracker_streaming.sidle_raise p) (stream_init g tr)"
    using assms(1-4) by (intro tracker_streaming.stream_body_idle) auto
  from wp_result[OF this b] have body: "probe_free p (ss_health t)" "x \<noteq> Inl (HealthError f)" for f
    by (cases x; auto simp: tracker_streaming.sidle_def tracker_streaming.sidle_raise_def unbroken_def)+
  have "probe_free p (ss_health (stream_init g tr))" using assms(1) by (simp add: stream_init_def)
  with body assms(5) b have "probe_free p (ss_health st) \<and> (\<forall>f. r \<noteq> Inl (HealthError f))"
    by (auto simp: stream_def Let_def split: if_splits option.splits verdict.splits)
  then show ?thesis by (simp add: probe_free_def)
qed

text \<open>At the recovering tracker an admission of deployment \<open>a\<close> is a recovery probe; the stream leaves none.\<close>

theorem stream_leaks_no_probe_witness:
  "(case fst (health_allow_request (sample_health_env 5) ''a'' None recovering_tracker) of
      Inr (Some a) \<Rightarrow> is_probe a | _ \<Rightarrow> False) \<and>
   probe_free sample_policy (ss_health (snd
     (stream (demo_stream_args []) (Fin 4) False (Fin 6) (stream_init (demo_stream_args []) recovering_tracker))))"
proof
  let ?g = "demo_stream_args []"
  show "(case fst (health_allow_request (sample_health_env 5) ''a'' None recovering_tracker) of
      Inr (Some a) \<Rightarrow> is_probe a | _ \<Rightarrow> False)" by code_simp
  obtain r st where s: "stream ?g (Fin 4) False (Fin 6) (stream_init ?g recovering_tracker) = (r, st)" by fastforce
  have "sg_ops ?g = tracker_ops" by (simp add: demo_stream_args_def)
  moreover have "lease_prompt sample_policy (sample_health_env 5)" by code_simp
  then have "\<forall>i n. lease_prompt sample_policy (tw_allow (sg_world ?g i n))"
    by (simp add: demo_stream_args_def demo_stream_world_def)
  moreover have "list_all (\<lambda>c. normalized (md_deployment_id (rc_deployment (pc_candidate c)))) (pl_candidates (sg_plan ?g))"
    by code_simp
  ultimately show "probe_free sample_policy (ss_health (snd (stream ?g (Fin 4) False (Fin 6) (stream_init ?g recovering_tracker))))"
    using stream_leaks_no_probe[OF recovering_probe_free _ _ _ s] s by simp
qed

end
