(* ===== verification/Http_Sse.thy ===== *)
theory Http_Sse
  imports Prelude
begin

text \<open>
  The provider side of server-sent events: \<open>_HttpxSseStream\<close> of \<open>adapters/http_sse.py\<close>, which cuts
  the chunks of an HTTP response into events of bounded size.

  The response is a list of chunks and the way it ends. Text is represented by its UTF-8 bytes,
  so decoding is the check that the bytes are UTF-8; what the code does with the text (find a
  colon, drop one space, join by newlines) is the same on the bytes.
\<close>

type_synonym bytes = string

datatype TransportFailureKind = TransportTimeout | TransportNetwork | TransportInvalidResponse

record SseEvent =
  se_event :: "bytes option"
  se_data :: bytes

definition MAX_EVENT_BYTES :: int where
  "MAX_EVENT_BYTES = 1024 * 1024"

text \<open>The variables of the stream.\<close>

record sse_stream =
  sx_buffer :: bytes
  sx_event_name :: "bytes option"
  sx_data_lines :: "bytes list"
  sx_event_bytes :: int
  sx_eof :: bool

datatype response_end = ResponseComplete | ResponseTimeout | ResponseFailed

definition is_newline :: "char \<Rightarrow> bool" where
  "is_newline c \<longleftrightarrow> c = CHR 0x0A \<or> c = CHR 0x0D"

subsection \<open>UTF-8\<close>

definition utf8_tail :: "char \<Rightarrow> bool" where
  "utf8_tail c \<longleftrightarrow> 128 \<le> code_point c \<and> code_point c < 192"

text \<open>
  The strict decoder's well-formed sequences: no overlong forms, no surrogates, nothing above
  the last code point.
\<close>

fun utf8_valid :: "bytes \<Rightarrow> bool" where
  "utf8_valid [] \<longleftrightarrow> True"
| "utf8_valid (b # bs) \<longleftrightarrow> (let n = code_point b in
     if n < 128 then utf8_valid bs
     else case bs of
       [] \<Rightarrow> False
     | c # cs \<Rightarrow>
         if 194 \<le> n \<and> n < 224 then utf8_tail c \<and> utf8_valid cs
         else case cs of
           [] \<Rightarrow> False
         | d # ds \<Rightarrow>
             if 224 \<le> n \<and> n < 240 then
               utf8_tail c \<and> utf8_tail d \<and> (n = 224 \<longrightarrow> 160 \<le> code_point c) \<and>
               (n = 237 \<longrightarrow> code_point c < 160) \<and> utf8_valid ds
             else case ds of
               [] \<Rightarrow> False
             | e # es \<Rightarrow>
                 240 \<le> n \<and> n < 245 \<and> utf8_tail c \<and> utf8_tail d \<and> utf8_tail e \<and>
                 (n = 240 \<longrightarrow> 144 \<le> code_point c) \<and> (n = 244 \<longrightarrow> code_point c < 144) \<and> utf8_valid es)"

subsection \<open>Lines\<close>

definition pop_line :: "bool \<Rightarrow> bytes \<Rightarrow> (bytes \<times> int \<times> bytes) option" where
  "pop_line final buf =
     (let line = takeWhile (\<lambda>c. \<not> is_newline c) buf in
      case drop (length line) buf of
        [] \<Rightarrow> None
      | c # rest \<Rightarrow>
          if c = CHR 0x0D then
            (case rest of
               [] \<Rightarrow> if final then Some (line, 1, []) else None
             | d # rest' \<Rightarrow> if d = CHR 0x0A then Some (line, 2, rest') else Some (line, 1, rest))
          else Some (line, 1, rest))"

text \<open>\<open>text.partition(":")\<close>, with the value of a line without a colon.\<close>

definition field_value :: "bytes \<Rightarrow> bytes \<times> bytes" where
  "field_value line =
     (let field = takeWhile (\<lambda>c. c \<noteq> CHR '':'') line; raw = drop (Suc (length field)) line
      in (field, case raw of c # cs \<Rightarrow> (if c = CHR '' '' then cs else raw) | [] \<Rightarrow> []))"

definition sse_dispatch :: "sse_stream \<Rightarrow> SseEvent \<times> sse_stream" where
  "sse_dispatch st = (\<lparr>se_event = sx_event_name st, se_data = py_join [CHR 0x0A] (sx_data_lines st)\<rparr>,
     st\<lparr>sx_event_name := None, sx_data_lines := [], sx_event_bytes := 0\<rparr>)"

definition consume_line ::
  "bytes \<Rightarrow> int \<Rightarrow> (sse_stream, TransportFailureKind, SseEvent option) pymethod" where
  "consume_line line separator_bytes st0 =
     (let st = st0\<lparr>sx_event_bytes := sx_event_bytes st0 + int (length line) + separator_bytes\<rparr> in
      if MAX_EVENT_BYTES < sx_event_bytes st then (Inl TransportInvalidResponse, st)
      else if line = [] then
        (if sx_data_lines st \<noteq> [] then (case sse_dispatch st of (e, st') \<Rightarrow> (Inr (Some e), st'))
         else (Inr None, st\<lparr>sx_event_name := None, sx_event_bytes := 0\<rparr>))
      else if \<not> utf8_valid line then (Inl TransportInvalidResponse, st)
      else if take 1 line = '':'' then (Inr None, st)
      else (case field_value line of (field, value) \<Rightarrow>
        if field = ''event'' then
          (Inr None, st\<lparr>sx_event_name := (if value = [] then None else Some value)\<rparr>)
        else if field = ''data'' then (Inr None, st\<lparr>sx_data_lines := sx_data_lines st @ [value]\<rparr>)
        else (Inr None, st)))"

lemma pop_line_shrinks: "pop_line final buf = Some (line, n, rest) \<Longrightarrow> length rest < length buf"
  by (auto simp: pop_line_def Let_def split: list.splits if_splits dest!: arg_cong[of "drop _ _" _ length])

lemma consume_line_buffer:
  "consume_line line n st = (r, st') \<Longrightarrow> sx_buffer st' = sx_buffer st"
  by (auto simp: consume_line_def Let_def sse_dispatch_def split: if_splits prod.splits)

function drain_complete_lines :: "bool \<Rightarrow> (sse_stream, TransportFailureKind, SseEvent option) pymethod" where
  "drain_complete_lines final st =
     (case pop_line final (sx_buffer st) of
        None \<Rightarrow> (Inr None, st)
      | Some (line, n, rest) \<Rightarrow>
          (case consume_line line n (st\<lparr>sx_buffer := rest\<rparr>) of
             (Inl e, st') \<Rightarrow> (Inl e, st')
           | (Inr (Some e), st') \<Rightarrow> (Inr (Some e), st')
           | (Inr None, st') \<Rightarrow> drain_complete_lines final st'))"
  by pat_completeness auto
termination
  by (relation "measure (\<lambda>(_, st). length (sx_buffer st))") (auto dest: pop_line_shrinks dest!: sym[of "(Inr None, _)"] consume_line_buffer)

declare drain_complete_lines.simps [simp del]

subsection \<open>Reading events\<close>

text \<open>
  \<open>__anext__\<close> on the remaining chunks: \<open>Inr None\<close> is \<open>StopAsyncIteration\<close>. The end of the response
  either sets \<open>eof\<close> or raises.
\<close>

definition at_eof :: "(sse_stream, TransportFailureKind, SseEvent option) pymethod" where
  "at_eof = seq (drain_complete_lines True) (\<lambda>r. case r of
      Some e \<Rightarrow> ret (Some e)
    | None \<Rightarrow> (\<lambda>st.
        (case (if sx_buffer st = [] then (Inr None, st)
               else consume_line (sx_buffer st) 0 (st\<lparr>sx_buffer := []\<rparr>)) of
           (Inl e, st') \<Rightarrow> (Inl e, st')
         | (Inr (Some e), st') \<Rightarrow> (Inr (Some e), st')
         | (Inr None, st') \<Rightarrow>
             if sx_data_lines st' = [] then (Inr None, st')
             else (case sse_dispatch st' of (e, st'') \<Rightarrow> (Inr (Some e), st'')))))"

fun sse_next ::
  "response_end \<Rightarrow> bytes list \<Rightarrow> sse_stream \<Rightarrow> (TransportFailureKind + SseEvent option) \<times> sse_stream \<times> bytes list" where
  "sse_next fin [] st =
     (if sx_eof st then (case at_eof st of (r, st') \<Rightarrow> (r, st', []))
      else case drain_complete_lines False st of
        (Inl e, st') \<Rightarrow> (Inl e, st', [])
      | (Inr (Some e), st') \<Rightarrow> (Inr (Some e), st', [])
      | (Inr None, st') \<Rightarrow>
          (case fin of
             ResponseComplete \<Rightarrow> (case at_eof (st'\<lparr>sx_eof := True\<rparr>) of (r, st'') \<Rightarrow> (r, st'', []))
           | ResponseTimeout \<Rightarrow> (Inl TransportTimeout, st', [])
           | ResponseFailed \<Rightarrow> (Inl TransportNetwork, st', [])))"
| "sse_next fin (chunk # chunks) st =
     (case drain_complete_lines False st of
        (Inl e, st') \<Rightarrow> (Inl e, st', chunk # chunks)
      | (Inr (Some e), st') \<Rightarrow> (Inr (Some e), st', chunk # chunks)
      | (Inr None, st') \<Rightarrow>
          if chunk = [] then sse_next fin chunks st'
          else
            (case drain_complete_lines False (st'\<lparr>sx_buffer := sx_buffer st' @ chunk\<rparr>) of
               (Inl e, st'') \<Rightarrow> (Inl e, st'', chunks)
             | (Inr (Some e), st'') \<Rightarrow> (Inr (Some e), st'', chunks)
             | (Inr None, st'') \<Rightarrow>
                 if MAX_EVENT_BYTES < sx_event_bytes st'' + int (length (sx_buffer st''))
                 then (Inl TransportInvalidResponse, st'', chunks)
                 else sse_next fin chunks st''))"

definition sse_init :: sse_stream where
  "sse_init = \<lparr>sx_buffer = [], sx_event_name = None, sx_data_lines = [], sx_event_bytes = 0, sx_eof = False\<rparr>"

subsection \<open>Iterating\<close>

text \<open>What an event costs: its bytes, or the data lines left at the end.\<close>

definition sse_weight :: "bytes list \<Rightarrow> sse_stream \<Rightarrow> nat" where
  "sse_weight chunks st = 2 * (length (sx_buffer st) + length (concat chunks)) + length (sx_data_lines st)"

lemma consume_line_weight:
  assumes "consume_line line n st = (Inr r, st')" "line \<noteq> [] \<or> 0 < n"
  shows "length (sx_data_lines st') \<le> Suc (length (sx_data_lines st))"
    "r = Some e \<Longrightarrow> length (sx_data_lines st') < length (sx_data_lines st)"
  using assms by (auto simp: consume_line_def Let_def sse_dispatch_def split: if_splits prod.splits)

lemma drain_unfold:
  "pop_line final (sx_buffer st) = None \<Longrightarrow> drain_complete_lines final st = (Inr None, st)"
  "pop_line final (sx_buffer st) = Some (line, n, rest) \<Longrightarrow> consume_line line n (st\<lparr>sx_buffer := rest\<rparr>) = (x, t) \<Longrightarrow>
   drain_complete_lines final st = (if x = Inr None then drain_complete_lines final t else (x, t))"
  by (simp_all add: drain_complete_lines.simps[of final st] split: sum.splits option.splits)

text \<open>Induction over the lines of the buffer.\<close>

lemma drain_induct [consumes 1, case_names empty stop line]:
  assumes "drain_complete_lines final st = (r, st')"
    "\<And>st. pop_line final (sx_buffer st) = None \<Longrightarrow> P st (Inr None) st"
    "\<And>st line n rest x t. pop_line final (sx_buffer st) = Some (line, n, rest) \<Longrightarrow>
       consume_line line n (st\<lparr>sx_buffer := rest\<rparr>) = (x, t) \<Longrightarrow> x \<noteq> Inr None \<Longrightarrow> P st x t"
    "\<And>st line n rest t r st'. pop_line final (sx_buffer st) = Some (line, n, rest) \<Longrightarrow>
       consume_line line n (st\<lparr>sx_buffer := rest\<rparr>) = (Inr None, t) \<Longrightarrow>
       drain_complete_lines final t = (r, st') \<Longrightarrow> P t r st' \<Longrightarrow> P st r st'"
  shows "P st r st'"
  using assms(1)
proof (induction "length (sx_buffer st)" arbitrary: st rule: less_induct)
  case less
  show ?case
  proof (cases "pop_line final (sx_buffer st)")
    case None
    with less.prems show ?thesis using assms(2) by (simp add: drain_unfold)
  next
    case (Some p)
    then obtain line n rest where p: "pop_line final (sx_buffer st) = Some (line, n, rest)" by (cases p) auto
    obtain x t where c: "consume_line line n (st\<lparr>sx_buffer := rest\<rparr>) = (x, t)" by fastforce
    have "length (sx_buffer t) < length (sx_buffer st)"
      using pop_line_shrinks[OF p] consume_line_buffer[OF c] by simp
    with less.prems less.hyps drain_unfold(2)[OF p c] show ?thesis
      using assms(3)[OF p c] assms(4)[OF p] c by (cases "x = Inr None") auto
  qed
qed

lemma drain_weight:
  assumes "drain_complete_lines final st = (Inr r, st')"
  shows "sse_weight cs st' \<le> sse_weight cs st \<and> (r \<noteq> None \<longrightarrow> sse_weight cs st' < sse_weight cs st)"
proof -
  have pos: "line \<noteq> [] \<or> 0 < n" if "pop_line final buf = Some (line, n, rest)" for line n rest buf
    using that by (auto simp: pop_line_def Let_def split: list.splits if_splits)
  have "\<forall>q. x = Inr q \<longrightarrow> sse_weight cs st' \<le> sse_weight cs st \<and> (q \<noteq> None \<longrightarrow> sse_weight cs st' < sse_weight cs st)"
    if "drain_complete_lines final st = (x, st')" for x
    using that
  proof (induction rule: drain_induct[where final = final])
    case (stop st line n rest x t)
    show ?case
    proof (intro allI impI)
      fix q assume x: "x = Inr q"
      then obtain e where q: "q = Some e" using stop(3) by (cases q) auto
      have "length (sx_data_lines t) < length (sx_data_lines st)"
        using consume_line_weight(2)[OF stop(2)[unfolded x] pos[OF stop(1)] q] by simp
      with consume_line_buffer[OF stop(2)] pop_line_shrinks[OF stop(1)]
      show "sse_weight cs t \<le> sse_weight cs st \<and> (q \<noteq> None \<longrightarrow> sse_weight cs t < sse_weight cs st)"
        by (simp add: sse_weight_def)
    qed
  next
    case (line st l n rest t r st')
    have "sse_weight cs t < sse_weight cs st"
      using consume_line_buffer[OF line(2)] consume_line_weight(1)[OF line(2) pos[OF line(1)]] pop_line_shrinks[OF line(1)]
      by (simp add: sse_weight_def)
    with line(4) show ?case by fastforce
  qed simp
  with assms show ?thesis by blast
qed

lemma at_eof_weight:
  assumes "at_eof st = (Inr (Some e), st')"
  shows "sse_weight cs st' < sse_weight cs st"
proof -
  obtain r t where d: "drain_complete_lines True st = (r, t)" by fastforce
  show ?thesis
  proof (cases r)
    case (Inr q)
    show ?thesis
    proof (cases q)
      case None
      note w = drain_weight[OF d[unfolded Inr], of cs]
      obtain x u where c: "(if sx_buffer t = [] then (Inr None, t)
          else consume_line (sx_buffer t) 0 (t\<lparr>sx_buffer := []\<rparr>)) = (x, u)" by fastforce
      have "sse_weight cs u \<le> sse_weight cs t \<and> (x = Inr (Some e) \<longrightarrow> sse_weight cs u < sse_weight cs t)" if "x = Inr y" for y
      proof (cases "sx_buffer t = []")
        case False
        then have c': "consume_line (sx_buffer t) 0 (t\<lparr>sx_buffer := []\<rparr>) = (Inr y, u)" using c that by simp
        from consume_line_buffer[OF c'] consume_line_weight[OF c'] False that show ?thesis
          by (cases "sx_buffer t") (auto simp: sse_weight_def)
      qed (use c in auto)
      moreover have "sse_weight cs u' < sse_weight cs u" if "sx_data_lines u \<noteq> []" "sse_dispatch u = (e, u')" for u'
        using that by (auto simp: sse_dispatch_def sse_weight_def)
      ultimately show ?thesis using assms d Inr None c w
        by (cases x) (fastforce simp: at_eof_def seq_def split: option.splits if_splits prod.splits)+
    next
      case (Some e')
      with assms d Inr drain_weight[OF d[unfolded Inr], of cs] show ?thesis by (simp add: at_eof_def seq_def)
    qed
  qed (use assms d in \<open>simp add: at_eof_def seq_def\<close>)
qed

lemma sse_weight_fields [simp]:
  "sse_weight cs (st\<lparr>sx_eof := b\<rparr>) = sse_weight cs st"
  "sse_weight cs (st\<lparr>sx_buffer := sx_buffer st @ c\<rparr>) = sse_weight (c # cs) st"
  "sse_weight ([] # cs) st = sse_weight cs st"
  by (simp_all add: sse_weight_def)

lemma sse_next_weight:
  "sse_next fin cs st = (Inr (Some e), st', cs') \<Longrightarrow> sse_weight cs' st' < sse_weight cs st"
proof (induction fin cs st rule: sse_next.induct)
  case (1 fin st)
  obtain r t where d: "drain_complete_lines False st = (r, t)" by fastforce
  have "sse_weight [] st' < sse_weight [] t" if "at_eof (t\<lparr>sx_eof := True\<rparr>) = (Inr (Some e), st')"
    using at_eof_weight[OF that, of "[]"] by simp
  with 1 d drain_weight[of False st _ t "[]"] show ?case
    by (fastforce split: if_splits prod.splits sum.splits option.splits response_end.splits dest: at_eof_weight[where cs = "[]"])
next
  case (2 fin chunk chunks st)
  obtain r t where d: "drain_complete_lines False st = (r, t)" by fastforce
  obtain r' u where d': "drain_complete_lines False (t\<lparr>sx_buffer := sx_buffer t @ chunk\<rparr>) = (r', u)" by fastforce
  show ?case
  proof (cases r)
    case (Inr q)
    note w = drain_weight[OF d[unfolded Inr]]
    show ?thesis
    proof (cases "q = None \<and> chunk \<noteq> []")
      case True
      show ?thesis
      proof (cases r')
        case (Inr q')
        note w' = drain_weight[OF d'[unfolded Inr], of chunks, simplified]
        have "sse_weight chunks u \<le> sse_weight (chunk # chunks) st"
          using w'[THEN conjunct1] w[of "chunk # chunks", THEN conjunct1] by (rule order_trans)
        with 2 d d' True \<open>r = Inr q\<close> Inr w' w[of "chunk # chunks"] show ?thesis
          by (fastforce split: option.splits if_splits)
      qed (use 2 d d' True \<open>r = Inr q\<close> in auto)
    next
      case False
      with 2 d Inr w[of "chunk # chunks"] show ?thesis
        by (cases q) fastforce+
    qed
  qed (use 2 d in auto)
qed

function sse_events ::
  "response_end \<Rightarrow> bytes list \<Rightarrow> sse_stream \<Rightarrow> SseEvent list \<times> TransportFailureKind option" where
  "sse_events fin chunks st =
     (case sse_next fin chunks st of
        (Inl e, _) \<Rightarrow> ([], Some e)
      | (Inr None, _) \<Rightarrow> ([], None)
      | (Inr (Some e), st', chunks') \<Rightarrow>
          (case sse_events fin chunks' st' of (es, failure) \<Rightarrow> (e # es, failure)))"
  by pat_completeness auto
termination
  by (relation "measure (\<lambda>(_, chunks, st). sse_weight chunks st)") (auto dest!: sse_next_weight sym[of "(Inr (Some _), _)"])

declare sse_events.simps [simp del]

end
