(* ===== verification/Http_Sse_Properties.thy ===== *)
theory Http_Sse_Properties
  imports Http_Sse "HOL-Library.Sublist"
begin

text \<open>
  The reference reading of an event stream, on the whole byte string, and the properties of the
  incremental reader: chunk boundaries do not matter.
\<close>

subsection \<open>Reference\<close>

text \<open>Lines end in LF, CR or CRLF; each comes with the length of its separator.\<close>

fun cut_lines :: "bytes \<Rightarrow> (bytes \<times> int) list" where
  "cut_lines [] = []"
| "cut_lines (c # cs) =
     (if c = CHR 0x0D then
        (case cs of
           d # ds \<Rightarrow> if d = CHR 0x0A then ([], 2) # cut_lines ds else ([], 1) # cut_lines cs
         | [] \<Rightarrow> [([], 1)])
      else if c = CHR 0x0A then ([], 1) # cut_lines cs
      else (case cut_lines cs of [] \<Rightarrow> [([c], 0)] | (l, n) # ls \<Rightarrow> (c # l, n) # ls))"

definition prepend :: "'a \<Rightarrow> 'a list \<times> 'b \<Rightarrow> 'a list \<times> 'b" where
  "prepend e r = (e # fst r, snd r)"

text \<open>The events of the lines, given the name, the data and the size of the event begun.\<close>

fun line_events ::
  "bytes option \<Rightarrow> bytes list \<Rightarrow> int \<Rightarrow> (bytes \<times> int) list \<Rightarrow> SseEvent list \<times> TransportFailureKind option" where
  "line_events name lines used [] =
     (if lines = [] then [] else [\<lparr>se_event = name, se_data = py_join [CHR 0x0A] lines\<rparr>], None)"
| "line_events name lines used ((l, n) # ls) =
     (let used' = used + int (length l) + n in
      if MAX_EVENT_BYTES < used' then ([], Some TransportInvalidResponse)
      else if l = [] then
        (if lines = [] then line_events None [] 0 ls
         else prepend \<lparr>se_event = name, se_data = py_join [CHR 0x0A] lines\<rparr> (line_events None [] 0 ls))
      else if \<not> utf8_valid l then ([], Some TransportInvalidResponse)
      else if take 1 l = '':'' then line_events name lines used' ls
      else (case field_value l of (field, value) \<Rightarrow>
        if field = ''event'' then line_events (if value = [] then None else Some value) lines used' ls
        else if field = ''data'' then line_events name (lines @ [value]) used' ls
        else line_events name lines used' ls))"

definition event_stream :: "bytes \<Rightarrow> SseEvent list \<times> TransportFailureKind option" where
  "event_stream bs = line_events None [] 0 (cut_lines bs)"

subsection \<open>Lines of a growing buffer\<close>

lemma pop_line_Cons:
  "pop_line final [] = None"
  "pop_line final (CHR 0x0A # cs) = Some ([], 1, cs)"
  "pop_line final (CHR 0x0D # cs) =
     (case cs of [] \<Rightarrow> if final then Some ([], 1, []) else None
      | d # ds \<Rightarrow> if d = CHR 0x0A then Some ([], 2, ds) else Some ([], 1, cs))"
  "c \<noteq> CHR 0x0A \<Longrightarrow> c \<noteq> CHR 0x0D \<Longrightarrow>
     pop_line final (c # cs) = map_option (\<lambda>(l, n, r). (c # l, n, r)) (pop_line final cs)"
  by (auto simp: pop_line_def Let_def is_newline_def split: list.split)

lemma byte_cases [case_names nil lf cr other]:
  assumes "P []" "\<And>cs. P cs \<Longrightarrow> P (CHR 0x0A # cs)" "\<And>cs. P cs \<Longrightarrow> P (CHR 0x0D # cs)"
    "\<And>c cs. c \<noteq> CHR 0x0A \<Longrightarrow> c \<noteq> CHR 0x0D \<Longrightarrow> P cs \<Longrightarrow> P (c # cs)"
  shows "P bs"
proof (induction bs)
  case (Cons c cs)
  with assms show ?case by (cases "c = CHR 0x0A"; cases "c = CHR 0x0D") auto
qed (rule assms(1))

lemma pop_line_cut:
  "pop_line True bs = Some (l, n, r) \<Longrightarrow> cut_lines bs = (l, n) # cut_lines r"
proof (induction bs arbitrary: l rule: byte_cases)
  case (cr cs)
  then show ?case by (cases cs) (auto simp: pop_line_Cons split: if_splits)
next
  case (other c cs)
  from other(4) obtain l' where "l = c # l'" "pop_line True cs = Some (l', n, r)"
    unfolding pop_line_Cons(4)[OF other(1,2)] by auto
  with other(1,2,3) show ?case by simp
qed (simp_all add: pop_line_Cons)

lemma no_line_cut:
  "pop_line True bs = None \<Longrightarrow> cut_lines bs = (if bs = [] then [] else [(bs, 0)])"
proof (induction bs rule: byte_cases)
  case (cr cs)
  then show ?case by (cases cs) (auto simp: pop_line_Cons split: if_splits)
next
  case (other c cs)
  then show ?case by (cases cs) (simp_all add: pop_line_Cons(4))
qed (simp_all add: pop_line_Cons)

lemma pop_line_append:
  "pop_line False bs = Some (l, n, r) \<Longrightarrow> pop_line True (bs @ m) = Some (l, n, r @ m)"
proof (induction bs arbitrary: l rule: byte_cases)
  case (cr cs)
  then show ?case by (cases cs) (auto simp: pop_line_Cons split: if_splits)
next
  case (other c cs)
  from other(4) obtain l' where "l = c # l'" "pop_line False cs = Some (l', n, r)"
    unfolding pop_line_Cons(4)[OF other(1,2)] by auto
  with other(3) show ?case by (simp add: pop_line_Cons(4)[OF other(1,2)])
qed (simp_all add: pop_line_Cons)

lemma cut_lines_sep: "cut_lines bs = (l, n) # ls \<Longrightarrow> 0 \<le> n"
proof (induction bs arbitrary: l ls rule: byte_cases)
  case (cr cs)
  then show ?case by (cases cs) (auto split: if_splits)
next
  case (other c cs)
  then show ?case by (cases "cut_lines cs") auto
qed auto

text \<open>A line not yet complete is at least as long as what is buffered of it.\<close>

lemma partial_line:
  assumes "pop_line False bs = None" "bs \<noteq> []"
  obtains l n ls where "cut_lines (bs @ m) = (l, n) # ls" "int (length bs) \<le> int (length l) + n"
proof -
  have "\<exists>l n ls. cut_lines (bs @ m) = (l, n) # ls \<and> int (length bs) \<le> int (length l) + n"
    using assms
  proof (induction bs rule: byte_cases)
    case (cr cs)
    then show ?case by (cases cs; cases m) (auto simp: pop_line_Cons split: if_splits)
  next
    case (other c cs)
    show ?case
    proof (cases "cs = []")
      case True
      with other(1,2) show ?thesis by (cases "cut_lines m") (auto dest: cut_lines_sep)
    next
      case False
      with other show ?thesis by (auto simp: pop_line_Cons(4))
    qed
  qed (simp_all add: pop_line_Cons)
  with that show ?thesis by blast
qed

subsection \<open>The reader follows the reference\<close>

text \<open>What the reference gives from a state of the reader.\<close>

definition from_state :: "sse_stream \<Rightarrow> bytes \<Rightarrow> SseEvent list \<times> TransportFailureKind option" where
  "from_state st bs = line_events (sx_event_name st) (sx_data_lines st) (sx_event_bytes st) (cut_lines bs)"

definition follows ::
  "TransportFailureKind + SseEvent option \<Rightarrow> SseEvent list \<times> TransportFailureKind option \<Rightarrow>
   SseEvent list \<times> TransportFailureKind option \<Rightarrow> bool" where
  "follows x before after \<longleftrightarrow> before = (case x of
     Inl e \<Rightarrow> ([], Some e) | Inr None \<Rightarrow> after | Inr (Some e) \<Rightarrow> prepend e after)"

lemma consume_follows:
  assumes "consume_line l n st = (x, t)"
  shows "follows x (line_events (sx_event_name st) (sx_data_lines st) (sx_event_bytes st) ((l, n) # ls))
    (line_events (sx_event_name t) (sx_data_lines t) (sx_event_bytes t) ls)"
  using assms
  by (auto simp: follows_def consume_line_def Let_def sse_dispatch_def split: if_splits prod.splits)

lemma consume_keeps:
  assumes "consume_line l n st = (x, t)"
  shows "sx_eof t = sx_eof st" "x = Inr r \<Longrightarrow> sx_event_bytes t \<le> MAX_EVENT_BYTES"
  using assms by (auto simp: consume_line_def Let_def sse_dispatch_def MAX_EVENT_BYTES_def split: if_splits prod.splits)

lemma drain_follows:
  assumes "drain_complete_lines final st = (x, t)" "final \<longrightarrow> m = []"
  shows "follows x (from_state st (sx_buffer st @ m)) (from_state t (sx_buffer t @ m))"
  using assms(1)
proof (induction rule: drain_induct)
  case (empty st)
  then show ?case by (simp add: follows_def)
next
  case (stop st l n rest x t)
  have "cut_lines (sx_buffer st @ m) = (l, n) # cut_lines (rest @ m)"
    using stop(1) assms(2) pop_line_cut pop_line_append by (cases final) auto
  with consume_follows[OF stop(2)] consume_line_buffer[OF stop(2)] show ?case by (simp add: from_state_def)
next
  case (line st l n rest t r st')
  have "cut_lines (sx_buffer st @ m) = (l, n) # cut_lines (rest @ m)"
    using line(1) assms(2) pop_line_cut pop_line_append by (cases final) auto
  with consume_follows[OF line(2)] consume_line_buffer[OF line(2)] line(4) show ?case
    by (simp add: from_state_def follows_def)
qed

lemma drain_keeps:
  assumes "drain_complete_lines final st = (x, t)" "sx_event_bytes st \<le> MAX_EVENT_BYTES"
  shows "sx_eof t = sx_eof st" "x = Inr r \<Longrightarrow> sx_event_bytes t \<le> MAX_EVENT_BYTES"
    "x = Inr None \<Longrightarrow> pop_line final (sx_buffer t) = None"
proof -
  have "sx_eof t = sx_eof st \<and> (\<forall>r. x = Inr r \<longrightarrow> sx_event_bytes st \<le> MAX_EVENT_BYTES \<longrightarrow> sx_event_bytes t \<le> MAX_EVENT_BYTES) \<and>
    (x = Inr None \<longrightarrow> pop_line final (sx_buffer t) = None)"
    using assms(1)
    by (induction rule: drain_induct) (auto dest: consume_keeps)
  with assms(2) show "sx_eof t = sx_eof st" "x = Inr r \<Longrightarrow> sx_event_bytes t \<le> MAX_EVENT_BYTES"
    "x = Inr None \<Longrightarrow> pop_line final (sx_buffer t) = None" by auto
qed

lemma partial_bound:
  assumes "pop_line False (sx_buffer t) = None" "sx_event_bytes t \<le> MAX_EVENT_BYTES"
    "MAX_EVENT_BYTES < sx_event_bytes t + int (length (sx_buffer t))"
  shows "from_state t (sx_buffer t @ m) = ([], Some TransportInvalidResponse)"
proof -
  have "sx_buffer t \<noteq> []" using assms(2,3) by auto
  with assms(1) obtain l n ls where "cut_lines (sx_buffer t @ m) = (l, n) # ls" "int (length (sx_buffer t)) \<le> int (length l) + n"
    by (rule partial_line)
  with assms(3) show ?thesis by (simp add: from_state_def Let_def)
qed

lemma at_eof_follows:
  assumes "at_eof st = (x, t)" "sx_event_bytes st \<le> MAX_EVENT_BYTES"
  shows "follows x (from_state st (sx_buffer st)) (if x = Inr None then ([], None) else from_state t (sx_buffer t)) \<and>
    sx_eof t = sx_eof st \<and> (\<forall>r. x = Inr r \<longrightarrow> sx_event_bytes t \<le> MAX_EVENT_BYTES)"
proof -
  obtain y u where d: "drain_complete_lines True st = (y, u)" by fastforce
  note f = drain_follows[OF d, of "[]", simplified] and k = drain_keeps[OF d assms(2)]
  show ?thesis
  proof (cases "y = Inr None")
    case False
    with assms(1) d have "x = y" "t = u" by (auto simp: at_eof_def seq_def split: sum.splits option.splits)
    with f k False show ?thesis by auto
  next
    case True
    then have cut: "cut_lines (sx_buffer u) = (if sx_buffer u = [] then [] else [(sx_buffer u, 0)])"
      using k(3) no_line_cut by simp
    obtain z v where c: "(if sx_buffer u = [] then (Inr None, u) else consume_line (sx_buffer u) 0 (u\<lparr>sx_buffer := []\<rparr>)) = (z, v)"
      by fastforce
    have v: "follows z (from_state u (sx_buffer u)) (from_state v (sx_buffer v)) \<and> sx_buffer v = [] \<and> sx_eof v = sx_eof u \<and>
        (\<forall>r. z = Inr r \<longrightarrow> sx_event_bytes v \<le> MAX_EVENT_BYTES)"
    proof (cases "sx_buffer u = []")
      case False
      then have c': "consume_line (sx_buffer u) 0 (u\<lparr>sx_buffer := []\<rparr>) = (z, v)" using c by simp
      from consume_follows[OF c', of "[]"] consume_line_buffer[OF c'] consume_keeps[OF c'] False cut
      show ?thesis by (auto simp: from_state_def)
    qed (use c True k(2) in \<open>auto simp: follows_def\<close>)
    have final: "x = (if z = Inr None \<and> sx_data_lines v \<noteq> [] then Inr (Some (fst (sse_dispatch v))) else z)"
      "t = (if z = Inr None \<and> sx_data_lines v \<noteq> [] then snd (sse_dispatch v) else v)"
      using assms(1) d True c by (auto simp: at_eof_def seq_def split: sum.splits option.splits prod.splits if_splits)
    have bu: "from_state st (sx_buffer st) = from_state u (sx_buffer u)" using f True by (simp add: follows_def)
    show ?thesis
    proof (cases "z = Inr None")
      case True
      with v final k(1) show ?thesis unfolding bu
        by (auto simp: follows_def from_state_def sse_dispatch_def prepend_def MAX_EVENT_BYTES_def)
    next
      case False
      with v final k(1) show ?thesis unfolding bu by auto
    qed
  qed
qed

text \<open>One event: what the reader returns is what the reference gives next.\<close>

lemma sse_next_follows:
  assumes "sse_next ResponseComplete cs st = (x, t, cs')" "sx_event_bytes st \<le> MAX_EVENT_BYTES" "sx_eof st \<longrightarrow> cs = []"
  shows "follows x (from_state st (sx_buffer st @ concat cs))
      (if x = Inr None then ([], None) else from_state t (sx_buffer t @ concat cs')) \<and>
    (\<forall>r. x = Inr r \<longrightarrow> sx_event_bytes t \<le> MAX_EVENT_BYTES) \<and> (sx_eof t \<longrightarrow> cs' = [])"
  using assms
proof (induction ResponseComplete cs st rule: sse_next.induct)
  case (1 st)
  show ?case
  proof (cases "sx_eof st")
    case True
    then have "at_eof st = (x, t)" "cs' = []" using 1 by (auto split: prod.splits)
    with at_eof_follows[OF this(1) 1(2)] show ?thesis by (auto split: if_splits)
  next
    case False
    obtain y u where d: "drain_complete_lines False st = (y, u)" by fastforce
    note f = drain_follows[OF d, of "[]", simplified] and k = drain_keeps[OF d 1(2)]
    show ?thesis
    proof (cases "y = Inr None")
      case True
      have "at_eof (u\<lparr>sx_eof := True\<rparr>) = (x, t)" "cs' = []" using 1 False d True by (auto split: prod.splits)
      moreover have "from_state st (sx_buffer st) = from_state (u\<lparr>sx_eof := True\<rparr>) (sx_buffer (u\<lparr>sx_eof := True\<rparr>))"
        using f True by (simp add: follows_def from_state_def)
      ultimately show ?thesis using at_eof_follows[of "u\<lparr>sx_eof := True\<rparr>" x t] k(2) True by (simp split: if_splits)
    next
      case ne: False
      with 1 False d have "x = y" "t = u" "cs' = []" by (auto split: sum.splits option.splits)
      with f k ne show ?thesis by auto
    qed
  qed
next
  case (2 chunk chunks st)
  obtain y u where d: "drain_complete_lines False st = (y, u)" by fastforce
  note f = drain_follows[OF d, of "concat (chunk # chunks)", simplified] and k = drain_keeps[OF d 2(4)]
  have eof: "\<not> sx_eof st" using 2(5) by auto
  show ?case
  proof (cases "y = Inr None")
    case False
    with 2(3) d have "x = y" "t = u" "cs' = chunk # chunks" by (auto split: sum.splits option.splits)
    with f k False eof show ?thesis by auto
  next
    case True
    have bu: "from_state st (sx_buffer st @ chunk @ concat chunks) = from_state u (sx_buffer u @ chunk @ concat chunks)"
      using f True by (simp add: follows_def)
    show ?thesis
    proof (cases "chunk = []")
      case nil: True
      then have "sse_next ResponseComplete chunks u = (x, t, cs')" using 2(3) d True by simp
      from 2(1)[OF d[symmetric] True refl nil this] bu k True eof nil show ?thesis by simp
    next
      case chunk: False
      let ?u = "u\<lparr>sx_buffer := sx_buffer u @ chunk\<rparr>"
      obtain z v where d': "drain_complete_lines False ?u = (z, v)" by fastforce
      have "sx_event_bytes ?u \<le> MAX_EVENT_BYTES" using k(2) True by simp
      note k' = drain_keeps[OF d' this]
      have f': "follows z (from_state u (sx_buffer u @ chunk @ concat chunks)) (from_state v (sx_buffer v @ concat chunks))"
        using drain_follows[OF d', of "concat chunks"] by (simp add: from_state_def)
      show ?thesis
      proof (cases "z = Inr None")
        case False
        with 2(3) d True chunk d' have "x = z" "t = v" "cs' = chunks" by (auto split: sum.splits option.splits)
        with f' k' False k(1) eof bu show ?thesis by auto
      next
        case z: True
        show ?thesis
        proof (cases "MAX_EVENT_BYTES < sx_event_bytes v + int (length (sx_buffer v))")
          case over: True
          with 2(3) d True chunk d' z have "x = Inl TransportInvalidResponse" "t = v" "cs' = chunks" by auto
          moreover have "from_state v (sx_buffer v @ concat chunks) = ([], Some TransportInvalidResponse)"
            using partial_bound[OF _ _ over] k'(2,3) z by blast
          ultimately show ?thesis using f' z bu k(1) k'(1) eof by (simp add: follows_def)
        next
          case over: False
          then have "sse_next ResponseComplete chunks v = (x, t, cs')" using 2(3) d True chunk d' z by simp
          from 2(2)[OF d[symmetric] True refl chunk d'[symmetric] z refl over this] bu f' z k(1) k' eof
          show ?thesis by (simp add: follows_def)
        qed
      qed
    qed
  qed
qed

lemma sse_events_follow:
  assumes "sx_event_bytes st \<le> MAX_EVENT_BYTES" "sx_eof st \<longrightarrow> cs = []"
  shows "sse_events ResponseComplete cs st = from_state st (sx_buffer st @ concat cs)"
  using assms
proof (induction "sse_weight cs st" arbitrary: cs st rule: less_induct)
  case less
  obtain x t cs' where n: "sse_next ResponseComplete cs st = (x, t, cs')" by (metis prod_cases3)
  note f = sse_next_follows[OF n less.prems]
  show ?case
  proof (cases x)
    case (Inr r)
    show ?thesis
    proof (cases r)
      case (Some e)
      have "sse_events ResponseComplete cs' t = from_state t (sx_buffer t @ concat cs')"
        using less.hyps[of cs' t] sse_next_weight[of ResponseComplete cs st e t cs'] n f Inr Some by auto
      with n f Inr Some show ?thesis
        by (auto simp: sse_events.simps[of _ cs] follows_def prepend_def split: prod.splits)
    qed (use n f Inr in \<open>simp add: sse_events.simps[of _ cs] follows_def\<close>)
  qed (use n f in \<open>simp add: sse_events.simps[of _ cs] follows_def\<close>)
qed

subsection \<open>Size\<close>

lemma field_value_length: "field_value l = (''data'', v) \<Longrightarrow> length v < length l"
proof -
  assume a: "field_value l = (''data'', v)"
  then have "takeWhile (\<lambda>c. c \<noteq> CHR '':'') l = ''data''" by (simp add: field_value_def Let_def)
  then have "length ''data'' \<le> length l" by (metis length_takeWhile_le)
  with a show ?thesis by (auto simp: field_value_def Let_def split: list.splits if_splits dest!: arg_cong[of "drop _ l" _ length])
qed

definition lines_size :: "bytes list \<Rightarrow> int" where
  "lines_size ls = sum_list (map (\<lambda>l. int (length l) + 1) ls)"

lemma join_size: "ls \<noteq> [] \<Longrightarrow> int (length (py_join [c] ls)) = lines_size ls - 1"
  by (induction ls) (auto simp: lines_size_def py_join_Cons)

abbreviation small_event :: "SseEvent \<Rightarrow> bool" where
  "small_event e \<equiv> int (length (se_data e)) < MAX_EVENT_BYTES"

lemma line_events_bounded:
  assumes "lines_size lines \<le> used" "used \<le> MAX_EVENT_BYTES" "list_all (\<lambda>(l, n). 0 \<le> n) ls"
  shows "list_all small_event (fst (line_events name lines used ls))"
  using assms
proof (induction ls arbitrary: name lines used)
  case Nil
  then show ?case by (auto simp: join_size)
next
  case (Cons p ls)
  obtain l n where p: "p = (l, n)" by fastforce
  let ?used = "used + int (length l) + n"
  have n: "0 \<le> n" and ls: "list_all (\<lambda>(l, n). 0 \<le> n) ls" using Cons.prems(3) p by auto
  have small: "small_event \<lparr>se_event = name, se_data = py_join [CHR 0x0A] lines\<rparr>" if "lines \<noteq> []"
    using Cons.prems(1,2) that by (simp add: join_size)
  have none: "list_all small_event (fst (line_events None [] 0 ls))"
    by (rule Cons.IH[OF _ _ ls]) (simp_all add: lines_size_def MAX_EVENT_BYTES_def)
  have keep: "list_all small_event (fst (line_events m lines ?used ls))" if "?used \<le> MAX_EVENT_BYTES" for m
    by (rule Cons.IH[OF _ that ls]) (use Cons.prems(1) n in simp)
  have add: "list_all small_event (fst (line_events name (lines @ [v]) ?used ls))"
    if "?used \<le> MAX_EVENT_BYTES" "field_value l = (''data'', v)" for v
    by (rule Cons.IH[OF _ that(1) ls])
       (use field_value_length[OF that(2)] Cons.prems(1) n in \<open>simp add: lines_size_def\<close>)
  obtain field v where fv: "field_value l = (field, v)" by fastforce
  show ?case
  proof (cases "?used \<le> MAX_EVENT_BYTES")
    case True
    show ?thesis
      unfolding p line_events.simps(2) Let_def fv prod.case
      using True small none keep[OF True] add[OF True] fv by (simp add: prepend_def)
  qed (simp add: p Let_def)
qed

lemma cut_lines_seps: "list_all (\<lambda>(l, n). 0 \<le> n) (cut_lines bs)"
proof (induction bs rule: byte_cases)
  case (cr cs)
  then show ?case by (cases cs) auto
next
  case (other c cs)
  then show ?case by (cases "cut_lines cs") auto
qed auto

subsection \<open>The properties of the reader\<close>

text \<open>
  C40. The events read from a provider's response do not depend on how the transport cuts it
  into chunks: a complete response yields exactly the events, and the failure if any, that the
  reference reading of the whole byte string gives, with lines ended by LF, CR or CRLF even when
  a chunk boundary separates CR from LF. No event carries a megabyte of data or more.
\<close>

theorem sse_chunking_irrelevant:
  "sse_events ResponseComplete chunks sse_init = event_stream (concat chunks) \<and>
   list_all (\<lambda>e. int (length (se_data e)) < MAX_EVENT_BYTES) (fst (sse_events ResponseComplete chunks sse_init))"
proof -
  have "sse_events ResponseComplete chunks sse_init = event_stream (concat chunks)"
    using sse_events_follow[of sse_init chunks]
    by (simp add: sse_init_def event_stream_def from_state_def MAX_EVENT_BYTES_def)
  with line_events_bounded[of "[]" 0 "cut_lines (concat chunks)" None] show ?thesis
    by (simp add: event_stream_def lines_size_def MAX_EVENT_BYTES_def cut_lines_seps)
qed

end
