(* ===== verification/Json_Text.thy ===== *)
theory Json_Text
  imports PyData
begin

text \<open>
  Reading JSON text: \<open>json.loads\<close> with the hook that refuses a repeated key, and that it reads back
  what \<open>json.dumps\<close> wrote.

  The scanner recurses with fuel; every call consumes a character, so the length of the text is
  enough (\<open>json_loads_total\<close>). A number with a fraction or an exponent is kept as its literal, and
  a character beyond Latin-1 is outside the model and reported as such.
\<close>

subsection \<open>The scanner\<close>

datatype json_value =
    VNull | VBool bool | VInt int | VFloat string | VStr string
  | VList "json_value list" | VObj "(string \<times> json_value) list"

datatype json_error = JSONDecodeError | DuplicateJsonKeyError | IntDigitsError | OutsideLatin1 | OutOfFuel

definition json_space :: "char \<Rightarrow> bool" where
  "json_space c \<longleftrightarrow> c = CHR '' '' \<or> c = CHR 0x09 \<or> c = CHR 0x0A \<or> c = CHR 0x0D"

abbreviation skip_space :: "string \<Rightarrow> string" where
  "skip_space \<equiv> dropWhile json_space"

definition hex_char :: "char \<Rightarrow> nat option" where
  "hex_char c = (let n = code_point c in
     if is_digit c then Some (n - 48)
     else if 97 \<le> n \<and> n \<le> 102 then Some (n - 87)
     else if 65 \<le> n \<and> n \<le> 70 then Some (n - 55) else None)"

fun hex_value :: "nat \<Rightarrow> string \<Rightarrow> nat option" where
  "hex_value a [] = Some a"
| "hex_value a (c # cs) = (case hex_char c of None \<Rightarrow> None | Some d \<Rightarrow> hex_value (16 * a + d) cs)"

definition simple_escape :: "char \<Rightarrow> char option" where
  "simple_escape c =
     (if c = CHR 0x22 \<or> c = CHR 0x5C \<or> c = CHR ''/'' then Some c
      else if c = CHR ''b'' then Some (CHR 0x08) else if c = CHR ''f'' then Some (CHR 0x0C)
      else if c = CHR ''n'' then Some (CHR 0x0A) else if c = CHR ''r'' then Some (CHR 0x0D)
      else if c = CHR ''t'' then Some (CHR 0x09) else None)"

text \<open>The rest of a string literal, after its opening quote.\<close>

definition unicode_escape :: "string \<Rightarrow> json_error + char" where
  "unicode_escape ds = (if length ds < 4 then Inl JSONDecodeError
     else case hex_value 0 (take 4 ds) of
       None \<Rightarrow> Inl JSONDecodeError
     | Some n \<Rightarrow> if 255 < n then Inl OutsideLatin1 else Inr (char_of n))"

definition escape :: "char \<Rightarrow> string \<Rightarrow> json_error + char" where
  "escape d ds = (if d = CHR ''u'' then unicode_escape ds
     else case simple_escape d of None \<Rightarrow> Inl JSONDecodeError | Some e \<Rightarrow> Inr e)"

definition escape_length :: "char \<Rightarrow> nat" where
  "escape_length d = (if d = CHR ''u'' then 4 else 0)"

fun scan_string :: "string \<Rightarrow> json_error + string \<times> string" where
  "scan_string [] = Inl JSONDecodeError"
| "scan_string (c # cs) =
     (if c = CHR 0x22 then Inr ([], cs)
      else if c = CHR 0x5C then
        (case cs of
           [] \<Rightarrow> Inl JSONDecodeError
         | d # ds \<Rightarrow> ebind (escape d ds) (\<lambda>e.
             ebind (scan_string (drop (escape_length d) ds)) (\<lambda>(s, r). Inr (e # s, r))))
      else if code_point c < (32 :: nat) then Inl JSONDecodeError
      else ebind (scan_string cs) (\<lambda>(s, r). Inr (c # s, r)))"

definition MAX_INT_DIGITS :: nat where
  "MAX_INT_DIGITS = 4300"

text \<open>The number pattern: sign, integer part, optional fraction, optional exponent.\<close>

definition number_fraction :: "string \<Rightarrow> string" where
  "number_fraction s = (case s of
      c # cs \<Rightarrow> if c = CHR ''.'' \<and> takeWhile is_digit cs \<noteq> [] then c # takeWhile is_digit cs else []
    | [] \<Rightarrow> [])"

definition number_exponent :: "string \<Rightarrow> string" where
  "number_exponent s = (case s of
      c # cs \<Rightarrow>
        if c = CHR ''e'' \<or> c = CHR ''E'' then
          (let sign = (case cs of d # _ \<Rightarrow> if d = CHR ''+'' \<or> d = CHR ''-'' then [d] else [] | [] \<Rightarrow> []);
               ds = takeWhile is_digit (drop (length sign) cs)
           in if ds = [] then [] else c # sign @ ds)
        else []
    | [] \<Rightarrow> [])"

definition integer_part :: "string \<Rightarrow> string" where
  "integer_part s = (case s of
      c # cs \<Rightarrow> if c = CHR ''0'' then [c] else takeWhile is_digit s | [] \<Rightarrow> [])"

definition scan_number :: "string \<Rightarrow> (json_error + json_value \<times> string) option" where
  "scan_number s =
     (let (neg, body) = (case s of c # cs \<Rightarrow> if c = CHR ''-'' then (True, cs) else (False, s) | [] \<Rightarrow> (False, s));
          ip = integer_part body; r = drop (length ip) body;
          fp = number_fraction r; r' = drop (length fp) r;
          ep = number_exponent r'; r'' = drop (length ep) r'
      in if ip = [] then None
         else if fp = [] \<and> ep = [] then
           (if MAX_INT_DIGITS < length ip then Some (Inl IntDigitsError)
            else Some (Inr (VInt (if neg then - digits_val ip else digits_val ip), r'')))
         else Some (Inr (VFloat ((if neg then ''-'' else []) @ ip @ fp @ ep), r'')))"

definition starts :: "string \<Rightarrow> string \<Rightarrow> bool" where
  "starts w s \<longleftrightarrow> take (length w) s = w"

definition scan_atom :: "string \<Rightarrow> json_error + json_value \<times> string" where
  "scan_atom s =
     (if starts ''null'' s then Inr (VNull, drop 4 s)
      else if starts ''true'' s then Inr (VBool True, drop 4 s)
      else if starts ''false'' s then Inr (VBool False, drop 5 s)
      else case scan_number s of
        Some r \<Rightarrow> r
      | None \<Rightarrow>
          if starts ''NaN'' s then Inr (VFloat ''NaN'', drop 3 s)
          else if starts ''Infinity'' s then Inr (VFloat ''Infinity'', drop 8 s)
          else if starts ''-Infinity'' s then Inr (VFloat ''-Infinity'', drop 9 s)
          else Inl JSONDecodeError)"

text \<open>\<open>_unique_json_object\<close>, the hook called with the pairs of each object.\<close>

definition unique_json_object :: "(string \<times> json_value) list \<Rightarrow> json_error + json_value" where
  "unique_json_object kvs = (if distinct (map fst kvs) then Inr (VObj kvs) else Inl DuplicateJsonKeyError)"

text \<open>The next character after white space.\<close>

definition token :: "string \<Rightarrow> json_error + char \<times> string" where
  "token s = (case skip_space s of [] \<Rightarrow> Inl JSONDecodeError | c # cs \<Rightarrow> Inr (c, cs))"

fun scan_once :: "nat \<Rightarrow> string \<Rightarrow> json_error + json_value \<times> string"
  and scan_members :: "nat \<Rightarrow> string \<Rightarrow> json_error + (string \<times> json_value) list \<times> string"
  and scan_elements :: "nat \<Rightarrow> string \<Rightarrow> json_error + json_value list \<times> string" where
  "scan_once 0 s = Inl OutOfFuel"
| "scan_once (Suc k) s = (case s of
      [] \<Rightarrow> Inl JSONDecodeError
    | c # cs \<Rightarrow>
        if c = CHR 0x22 then ebind (scan_string cs) (\<lambda>(v, r). Inr (VStr v, r))
        else if c = CHR ''{'' then
          ebind (token cs) (\<lambda>(d, ds).
            if d = CHR ''}'' then ebind (unique_json_object []) (\<lambda>v. Inr (v, ds))
            else ebind (scan_members k (d # ds)) (\<lambda>(kvs, r).
              ebind (unique_json_object kvs) (\<lambda>v. Inr (v, r))))
        else if c = CHR ''['' then
          ebind (token cs) (\<lambda>(d, ds).
            if d = CHR '']'' then Inr (VList [], ds)
            else ebind (scan_elements k (d # ds)) (\<lambda>(vs, r). Inr (VList vs, r)))
        else scan_atom s)"
| "scan_members 0 s = Inl OutOfFuel"
| "scan_members (Suc k) s = (case s of
      [] \<Rightarrow> Inl JSONDecodeError
    | c # cs \<Rightarrow>
        if c \<noteq> CHR 0x22 then Inl JSONDecodeError
        else ebind (scan_string cs) (\<lambda>(key, r).
          ebind (token r) (\<lambda>(d, ds).
          if d \<noteq> CHR '':'' then Inl JSONDecodeError
          else ebind (scan_once k (skip_space ds)) (\<lambda>(v, r').
            ebind (token r') (\<lambda>(e, es).
            if e = CHR ''}'' then Inr ([(key, v)], es)
            else if e \<noteq> CHR '','' then Inl JSONDecodeError
            else ebind (scan_members k (skip_space es)) (\<lambda>(kvs, r''). Inr ((key, v) # kvs, r'')))))))"
| "scan_elements 0 s = Inl OutOfFuel"
| "scan_elements (Suc k) s =
     ebind (scan_once k s) (\<lambda>(v, r).
       ebind (token r) (\<lambda>(c, cs).
       if c = CHR '']'' then Inr ([v], cs)
       else if c \<noteq> CHR '','' then Inl JSONDecodeError
       else ebind (scan_elements k (skip_space cs)) (\<lambda>(vs, r'). Inr (v # vs, r'))))"

definition json_loads :: "string \<Rightarrow> json_error + json_value" where
  "json_loads s = ebind (scan_once (2 * length s + 2) (skip_space s)) (\<lambda>(v, r).
     if skip_space r = [] then Inr v else Inl JSONDecodeError)"

subsection \<open>Fuel\<close>

lemma skip_space_length: "length (skip_space s) \<le> length s"
  by (rule length_dropWhile_le)

lemma scan_string_length: "scan_string s = Inr (v, r) \<Longrightarrow> length r < length s"
proof (induction s arbitrary: v rule: scan_string.induct)
  case (2 c cs)
  show ?case
  proof (cases "c = CHR 0x5C")
    case True
    with 2(3) obtain d ds e w where ds: "cs = d # ds" "escape d ds = Inr e" "scan_string (drop (escape_length d) ds) = Inr (w, r)"
      by (cases cs) auto
    from 2(1)[OF _ True ds(1) ds(3)] True ds(1) show ?thesis by simp
  qed (use 2 in \<open>auto split: if_splits\<close>)
qed simp

lemma scan_number_length: "scan_number s = Some (Inr (v, r)) \<Longrightarrow> length r < length s"
proof -
  assume a: "scan_number s = Some (Inr (v, r))"
  obtain neg body where b: "(case s of c # cs \<Rightarrow> if c = CHR ''-'' then (True, cs) else (False, s) | [] \<Rightarrow> (False, s)) = (neg, body)"
    by fastforce
  have body: "length body \<le> length s" using b by (auto split: list.splits if_splits)
  let ?ip = "integer_part body"
  have ip: "?ip \<noteq> []" using a b by (auto simp: scan_number_def Let_def split: if_splits)
  have len: "length ?ip \<le> length body"
    by (auto simp: integer_part_def length_takeWhile_le split: list.splits)
  have "length r \<le> length body - length ?ip"
    using a b by (auto simp: scan_number_def Let_def split: if_splits)
  moreover have "0 < length ?ip" using ip by simp
  ultimately show ?thesis using len body by linarith
qed

lemma scan_atom_length: "scan_atom s = Inr (v, r) \<Longrightarrow> length r < length s"
  using scan_number_length[of s v r]
  by (auto simp: scan_atom_def starts_def split: if_splits option.splits dest!: arg_cong[of "take _ s" _ length])

lemma token_length: "token s = Inr (c, cs) \<Longrightarrow> length cs < length s"
  using skip_space_length[of s] by (auto simp: token_def split: list.splits)

text \<open>Every call consumes input.\<close>

lemma scan_length_all:
  "(\<forall>s v r. scan_once k s = Inr (v, r) \<longrightarrow> length r < length s) \<and>
   (\<forall>s v r. scan_members k s = Inr (v, r) \<longrightarrow> length r < length s) \<and>
   (\<forall>s v r. scan_elements k s = Inr (v, r) \<longrightarrow> length r < length s)"
proof (induction k)
  case (Suc k)
  have once: "length r < length s" if "scan_once k s = Inr (v, r)" for s v r using Suc that by blast
  have members: "length r < length s" if "scan_members k s = Inr (v, r)" for s v r using Suc that by blast
  have elements: "length r < length s" if "scan_elements k s = Inr (v, r)" for s v r using Suc that by blast
  have 1: "length r < length s" if o: "scan_once (Suc k) s = Inr (v, r)" for s v r
  proof (cases s)
    case (Cons c cs)
    consider "c = CHR 0x22" | "c = CHR ''{''" | "c = CHR ''[''" | "scan_atom s = Inr (v, r)"
      using o Cons by (auto split: if_splits)
    then show ?thesis
    proof cases
      case 2
      with o Cons obtain d ds where "token cs = Inr (d, ds)" "r = ds \<or> (\<exists>kvs. scan_members k (d # ds) = Inr (kvs, r))"
        by (auto split: if_splits)
      with Cons show ?thesis by (auto dest!: token_length members)
    next
      case 3
      with o Cons obtain d ds where "token cs = Inr (d, ds)" "r = ds \<or> (\<exists>vs. scan_elements k (d # ds) = Inr (vs, r))"
        by (auto split: if_splits)
      with Cons show ?thesis by (auto dest!: token_length elements)
    qed (use o Cons in \<open>auto dest: scan_string_length scan_atom_length\<close>)
  qed (use o in simp)
  have 2: "length r < length s" if m: "scan_members (Suc k) s = Inr (v, r)" for s v r
  proof (cases s)
    case (Cons c cs)
    from m Cons obtain key r1 d ds v1 r2 e es where
      a: "scan_string cs = Inr (key, r1)" "token r1 = Inr (d, ds)" "scan_once k (skip_space ds) = Inr (v1, r2)"
        "token r2 = Inr (e, es)" and b: "r = es \<or> (\<exists>kvs. scan_members k (skip_space es) = Inr (kvs, r))"
      by (auto split: if_splits)
    have "length r \<le> length es" using b members[of "skip_space es"] skip_space_length[of es] by fastforce
    with scan_string_length[OF a(1)] token_length[OF a(2)] once[OF a(3)] token_length[OF a(4)]
      skip_space_length[of ds] Cons show ?thesis by simp
  qed (use m in simp)
  have 3: "length r < length s" if m: "scan_elements (Suc k) s = Inr (v, r)" for s v r
  proof -
    from m obtain v1 r1 c cs where a: "scan_once k s = Inr (v1, r1)" "token r1 = Inr (c, cs)"
      and b: "r = cs \<or> (\<exists>vs. scan_elements k (skip_space cs) = Inr (vs, r))"
      by (auto split: if_splits)
    have "length r \<le> length cs" using b elements[of "skip_space cs"] skip_space_length[of cs] by fastforce
    with once[OF a(1)] token_length[OF a(2)] show ?thesis by simp
  qed
  from 1 2 3 show ?case by blast
qed simp

lemma scan_once_length: "scan_once k s = Inr (v, r) \<Longrightarrow> length r < length s"
  using scan_length_all[of k] by blast

lemma no_fuel_leaf [simp]:
  "scan_string s \<noteq> Inl OutOfFuel" "scan_atom s \<noteq> Inl OutOfFuel" "unique_json_object kvs \<noteq> Inl OutOfFuel"
  "token s \<noteq> Inl OutOfFuel"
proof -
  have "escape d ds \<noteq> Inl OutOfFuel" for d ds
    by (simp add: escape_def unicode_escape_def split: option.splits)
  then show "scan_string s \<noteq> Inl OutOfFuel"
    by (induction s rule: scan_string.induct) (auto simp: ebind_Inl_iff split: list.split)
  show "scan_atom s \<noteq> Inl OutOfFuel"
    by (auto simp: scan_atom_def scan_number_def Let_def split: if_splits option.splits prod.splits)
  show "token s \<noteq> Inl OutOfFuel" by (simp add: token_def split: list.split)
qed (simp add: unique_json_object_def)

text \<open>Fuel of twice the length is enough.\<close>

lemma scan_fuel_all:
  "(\<forall>s. 2 * length s < k \<longrightarrow> scan_once k s \<noteq> Inl OutOfFuel) \<and>
   (\<forall>s. 2 * length s < k \<longrightarrow> scan_members k s \<noteq> Inl OutOfFuel) \<and>
   (\<forall>s. Suc (2 * length s) < k \<longrightarrow> scan_elements k s \<noteq> Inl OutOfFuel)"
proof (induction k)
  case (Suc k)
  have once: "scan_once k s \<noteq> Inl OutOfFuel" if "2 * length s < k" for s using Suc that by blast
  have members: "scan_members k s \<noteq> Inl OutOfFuel" if "2 * length s < k" for s using Suc that by blast
  have elements: "scan_elements k s \<noteq> Inl OutOfFuel" if "Suc (2 * length s) < k" for s using Suc that by blast
  have 1: "scan_once (Suc k) s \<noteq> Inl OutOfFuel" if l: "2 * length s < Suc k" for s
  proof
    assume o: "scan_once (Suc k) s = Inl OutOfFuel"
    then obtain c cs where s: "s = c # cs" by (cases s) auto
    from o s obtain d ds where "token cs = Inr (d, ds)"
      "scan_members k (d # ds) = Inl OutOfFuel \<or> scan_elements k (d # ds) = Inl OutOfFuel"
      by (auto simp: ebind_Inl_iff split: if_splits)
    moreover from this(1) have "Suc (2 * length (d # ds)) < k" using l s by (auto dest: token_length)
    ultimately show False using members[of "d # ds"] elements[of "d # ds"] by auto
  qed
  have 2: "scan_members (Suc k) s \<noteq> Inl OutOfFuel" if l: "2 * length s < Suc k" for s
  proof
    assume m: "scan_members (Suc k) s = Inl OutOfFuel"
    then obtain c cs where s: "s = c # cs" by (cases s) auto
    from m s obtain key r1 d ds where a: "scan_string cs = Inr (key, r1)" "token r1 = Inr (d, ds)"
      and b: "scan_once k (skip_space ds) = Inl OutOfFuel \<or>
        (\<exists>v1 r2 e es. scan_once k (skip_space ds) = Inr (v1, r2) \<and> token r2 = Inr (e, es) \<and>
          scan_members k (skip_space es) = Inl OutOfFuel)"
      by (auto simp: ebind_Inl_iff split: if_splits)
    have "2 * length (skip_space ds) < k"
      using l s scan_string_length[OF a(1)] token_length[OF a(2)] skip_space_length[of ds] by simp
    moreover have "2 * length (skip_space es) < k"
      if "scan_once k (skip_space ds) = Inr (v1, r2)" "token r2 = Inr (e, es)" for v1 r2 e es
      using scan_once_length[OF that(1)] token_length[OF that(2)] skip_space_length[of es] calculation by simp
    ultimately show False using b once members by blast
  qed
  have 3: "scan_elements (Suc k) s \<noteq> Inl OutOfFuel" if l: "Suc (2 * length s) < Suc k" for s
  proof
    assume m: "scan_elements (Suc k) s = Inl OutOfFuel"
    then have b: "scan_once k s = Inl OutOfFuel \<or> (\<exists>v r c cs. scan_once k s = Inr (v, r) \<and> token r = Inr (c, cs) \<and>
          scan_elements k (skip_space cs) = Inl OutOfFuel)"
      by (auto simp: ebind_Inl_iff split: if_splits)
    have "Suc (2 * length (skip_space cs)) < k" if "scan_once k s = Inr (v, r)" "token r = Inr (c, cs)" for v r c cs
      using scan_once_length[OF that(1)] token_length[OF that(2)] skip_space_length[of cs] l by simp
    with b once[of s] l elements show False by auto
  qed
  from 1 2 3 show ?case by blast
qed simp

lemma json_loads_total: "json_loads s \<noteq> Inl OutOfFuel"
proof
  assume "json_loads s = Inl OutOfFuel"
  then have "scan_once (2 * length s + 2) (skip_space s) = Inl OutOfFuel"
    by (auto simp: json_loads_def ebind_Inl_iff split: if_splits)
  moreover have "2 * length (skip_space s) < 2 * length s + 2" using skip_space_length[of s] by simp
  ultimately show False using scan_fuel_all by blast
qed

subsection \<open>Reading what was written\<close>

fun canonical_value :: "json \<Rightarrow> json_value" where
  "canonical_value JNull = VNull"
| "canonical_value (JBool b) = VBool b"
| "canonical_value (JInt i) = VInt i"
| "canonical_value (JStr s) = VStr s"
| "canonical_value (JList xs) = VList (map canonical_value xs)"
| "canonical_value (JObj kvs) = VObj (sort_key fst (map (\<lambda>(k, v). (k, canonical_value v)) kvs))"

text \<open>What \<open>json.dumps\<close> accepts: dictionaries, and integers within the conversion limit.\<close>

fun json_ok :: "json \<Rightarrow> bool" where
  "json_ok (JInt i) \<longleftrightarrow> length (nat_digits \<bar>i\<bar>) \<le> MAX_INT_DIGITS"
| "json_ok (JList xs) \<longleftrightarrow> list_all json_ok xs"
| "json_ok (JObj kvs) \<longleftrightarrow> distinct (map fst kvs) \<and> list_all (\<lambda>(k, v). json_ok v) kvs"
| "json_ok _ \<longleftrightarrow> True"

lemma hex_char_digit: "n < 16 \<Longrightarrow> hex_char (hex_digit n) = Some n"
  by (drule less_16_cases) (auto simp: hex_char_def hex_digit_def is_digit_def)

lemma hex_value_digits: "hex_value a (hex_digits k n) = Some (a * 16 ^ k + n mod 16 ^ k)"
proof (induction k arbitrary: a)
  case 0
  then show ?case by (simp add: hex_digits_def)
next
  case (Suc k)
  have "n mod 16 ^ Suc k = 16 ^ k * (n div 16 ^ k mod 16) + n mod 16 ^ k"
    by (metis mod_mult2_eq mult.commute power_Suc)
  with Suc show ?case by (simp add: hex_digits_Suc hex_char_digit algebra_simps)
qed

lemma unicode_escape_hex:
  assumes "n < 256"
  shows "unicode_escape (hex_digits 4 n @ t) = Inr (char_of n)"
proof -
  have l: "length (hex_digits 4 n) = 4" by (simp add: hex_digits_def)
  have "hex_value 0 (hex_digits 4 n) = Some n" using assms by (simp add: hex_value_digits)
  with assms l show ?thesis by (simp add: unicode_escape_def)
qed

lemma scan_string_char:
  "scan_string (json_char True c @ t) = ebind (scan_string t) (\<lambda>(s, r). Inr (c # s, r))"
proof -
  let ?n = "code_point c :: nat"
  have c: "char_of ?n = c" by simp
  have n: "?n < 256" by simp
  note hex = unicode_escape_hex[OF n, of t, unfolded c]
  have l: "length (hex_digits 4 ?n) = 4" by (simp add: hex_digits_def)
  have u: "scan_string (CHR 0x5C # CHR ''u'' # hex_digits 4 ?n @ t) = ebind (scan_string t) (\<lambda>(s, r). Inr (c # s, r))"
    using hex l by (simp add: escape_def escape_length_def)
  have pick: "?n = 8 \<Longrightarrow> c = CHR 0x08" "?n = 9 \<Longrightarrow> c = CHR 0x09" "?n = 10 \<Longrightarrow> c = CHR 0x0A"
    "?n = 12 \<Longrightarrow> c = CHR 0x0C" "?n = 13 \<Longrightarrow> c = CHR 0x0D"
    using of_char_eq_iff[of c "CHR 0x08", where 'a = nat] of_char_eq_iff[of c "CHR 0x09", where 'a = nat]
      of_char_eq_iff[of c "CHR 0x0A", where 'a = nat] of_char_eq_iff[of c "CHR 0x0C", where 'a = nat]
      of_char_eq_iff[of c "CHR 0x0D", where 'a = nat] by simp_all
  show ?thesis
    using u pick
    by (auto simp: json_char_def Let_def escape_def escape_length_def simple_escape_def)
qed

lemma scan_string_dumps: "scan_string (concat (map (json_char True) s) @ CHR 0x22 # t) = Inr (s, t)"
  by (induction s) (simp_all add: scan_string_char)

text \<open>What may follow a value: nothing, or the punctuation of its container.\<close>

definition follows_value :: "string \<Rightarrow> bool" where
  "follows_value r \<longleftrightarrow> (case r of [] \<Rightarrow> True | c # _ \<Rightarrow> c \<in> {CHR '','', CHR '']'', CHR ''}''})"

lemma nat_digits_shape:
  assumes "0 \<le> n"
  shows "nat_digits n \<noteq> [] \<and> list_all is_digit (nat_digits n) \<and> (hd (nat_digits n) = CHR ''0'' \<longrightarrow> length (nat_digits n) = 1)"
  using assms
proof (induction n rule: nat_digits.induct)
  case (1 n)
  show ?case
  proof (cases "n < 10")
    case True
    with 1(2) show ?thesis by (subst (1 2 3 4) nat_digits.simps) (simp add: digit_char_is_digit)
  next
    case False
    have "hd (nat_digits (n div 10)) \<noteq> CHR ''0''"
    proof (cases "n div 10 < 10")
      case True
      have "1 \<le> n div 10" using False by simp
      then have "n div 10 \<in> {1, 2, 3, 4, 5, 6, 7, 8, 9}" using True less_10_cases[of "n div 10"] by auto
      then show ?thesis by (subst nat_digits.simps) (auto simp: digit_char_def)
    next
      case F: False
      then have "length (nat_digits (n div 10)) \<noteq> 1"
      proof -
        have "nat_digits (n div 10 div 10) \<noteq> []" by (subst nat_digits.simps) simp
        with F show ?thesis by (subst nat_digits.simps) simp
      qed
      with 1 False show ?thesis by auto
    qed
    with 1 False show ?thesis by (subst (1 2 3 4) nat_digits.simps) (auto simp: digit_char_is_digit)
  qed
qed

lemma integer_part_digits:
  assumes "0 \<le> n" "r = [] \<or> \<not> is_digit (hd r)"
  shows "integer_part (nat_digits n @ r) = nat_digits n"
proof -
  note d = nat_digits_shape[OF assms(1)]
  obtain c cs where c: "nat_digits n = c # cs" using d by (cases "nat_digits n") auto
  have t: "takeWhile is_digit (nat_digits n @ r) = nat_digits n"
    using d assms(2) by (cases r) (auto simp: list_all_iff takeWhile_append2)
  show ?thesis
  proof (cases "c = CHR ''0''")
    case True
    with c d show ?thesis by (simp add: integer_part_def)
  next
    case False
    with c t show ?thesis by (simp add: integer_part_def)
  qed
qed

lemma scan_number_int:
  assumes "follows_value r" "length (nat_digits \<bar>i\<bar>) \<le> MAX_INT_DIGITS"
  shows "scan_number (int_str i @ r) = Some (Inr (VInt i, r))"
proof -
  have nd: "r = [] \<or> \<not> is_digit (hd r)"
    using assms(1) by (cases r) (auto simp: follows_value_def is_digit_def)
  have r: "number_fraction r = []" "number_exponent r = []"
    using assms(1) by (auto simp: follows_value_def number_fraction_def number_exponent_def split: list.splits)
  note d = nat_digits_shape[of "\<bar>i\<bar>", simplified]
  obtain c cs where c: "nat_digits \<bar>i\<bar> = c # cs" using d by (cases "nat_digits \<bar>i\<bar>") auto
  have "is_digit c" using d c by simp
  then have "c \<noteq> CHR ''-''" by (auto simp: is_digit_def)
  moreover have "digits_val (c # cs) = \<bar>i\<bar>" using digits_val_nat_digits[of "\<bar>i\<bar>"] c by simp
  moreover note ip = integer_part_digits[of "\<bar>i\<bar>", OF _ nd, simplified]
  ultimately show ?thesis
    using r assms(2) d c
    by (cases "i < 0") (auto simp: scan_number_def int_str_def Let_def)
qed

lemma scan_atom_int:
  assumes "follows_value r" "length (nat_digits \<bar>i\<bar>) \<le> MAX_INT_DIGITS"
  shows "scan_atom (int_str i @ r) = Inr (VInt i, r)"
    "\<exists>c cs. int_str i @ r = c # cs \<and> c \<noteq> CHR 0x22 \<and> c \<noteq> CHR ''{'' \<and> c \<noteq> CHR ''['' \<and> c \<noteq> CHR '']'' \<and> \<not> json_space c"
proof -
  note d = nat_digits_shape[of "\<bar>i\<bar>", simplified]
  obtain c cs where c: "nat_digits \<bar>i\<bar> = c # cs" "is_digit c" using d by (cases "nat_digits \<bar>i\<bar>") auto
  have "int_str i = c # cs \<or> int_str i = CHR ''-'' # c # cs" using c by (auto simp: int_str_def abs_if split: if_splits)
  moreover have n: "c \<notin> {CHR ''n'', CHR ''t'', CHR ''f'', CHR 0x22, CHR ''{'', CHR ''['', CHR '']''}" "\<not> json_space c"
    using c(2) by (auto simp: is_digit_def json_space_def)
  ultimately show "scan_atom (int_str i @ r) = Inr (VInt i, r)"
    using scan_number_int[OF assms] by (auto simp: scan_atom_def starts_def)
  show "\<exists>c cs. int_str i @ r = c # cs \<and> c \<noteq> CHR 0x22 \<and> c \<noteq> CHR ''{'' \<and> c \<noteq> CHR ''['' \<and> c \<noteq> CHR '']'' \<and> \<not> json_space c"
    using \<open>int_str i = c # cs \<or> int_str i = CHR ''-'' # c # cs\<close> n by (auto simp: json_space_def)
qed

lemma insort_key_map: "insort_key f (g x) (map g xs) = map g (insort_key (\<lambda>y. f (g y)) x xs)"
  by (induction xs) auto

lemma sort_key_map: "sort_key f (map g xs) = map g (sort_key (\<lambda>x. f (g x)) xs)"
  by (induction xs) (auto simp: insort_key_map)

abbreviation dump_member :: "string \<times> json \<Rightarrow> string" where
  "dump_member \<equiv> \<lambda>(k, v). json_string True k @ '':'' @ json_dumps True v"

lemma dumps_object: "json_dumps True (JObj kvs) = ''{'' @ py_join '','' (map dump_member (sort_key fst kvs)) @ ''}''"
proof -
  have "sort_key fst (map (\<lambda>(k, v). (k, json_string True k @ '':'' @ json_dumps True v)) kvs) =
      map (\<lambda>kv. (fst kv, dump_member kv)) (sort_key fst kvs)"
    using sort_key_map[of fst "\<lambda>kv. (fst kv, dump_member kv)" kvs] by (simp add: case_prod_unfold)
  then show ?thesis by (simp add: comp_def)
qed

lemma canonical_object:
  "canonical_value (JObj kvs) = VObj (map (\<lambda>(k, v). (k, canonical_value v)) (sort_key fst kvs))"
  using sort_key_map[of fst "\<lambda>(k, v). (k, canonical_value v)" kvs] by (simp add: case_prod_beta)

text \<open>The first character of a value is not white space and does not close a container.\<close>

lemma dumps_head:
  assumes "json_ok j"
  obtains c cs where "json_dumps True j = c # cs" "\<not> json_space c" "c \<noteq> CHR '']''"
proof (cases j)
  case (JInt i)
  with scan_atom_int(2)[of "[]" i] assms that show thesis by (auto simp: follows_value_def)
next
  case (JBool b)
  with that show thesis by (cases b) (auto simp: json_space_def)
qed (use that in \<open>auto simp: json_space_def json_string_def dumps_object simp del: json_dumps.simps(6)\<close>)

lemma skip_space_head: "\<not> json_space c \<Longrightarrow> skip_space (c # cs) = c # cs"
  by simp

lemma token_simps [simp]:
  "token (CHR '','' # r) = Inr (CHR '','', r)" "token (CHR ''}'' # r) = Inr (CHR ''}'', r)"
  "token (CHR '']'' # r) = Inr (CHR '']'', r)" "token (CHR '':'' # r) = Inr (CHR '':'', r)"
  by (simp_all add: token_def json_space_def)

definition reads :: "json \<Rightarrow> bool" where
  "reads j \<longleftrightarrow> (\<forall>k r. 2 * length (json_dumps True j) < k \<longrightarrow> follows_value r \<longrightarrow>
     scan_once k (json_dumps True j @ r) = Inr (canonical_value j, r))"

lemma scan_elements_dumps:
  assumes "xs \<noteq> []" "list_all json_ok xs" "list_all reads xs"
    "Suc (2 * length (py_join '','' (map (json_dumps True) xs))) < k"
  shows "scan_elements k (py_join '','' (map (json_dumps True) xs) @ '']'' @ r) = Inr (map canonical_value xs, r)"
  using assms
proof (induction xs arbitrary: k)
  case (Cons x xs)
  obtain k' where k: "k = Suc k'" using Cons.prems(4) by (cases k) auto
  have x: "reads x" using Cons.prems by simp
  show ?case
  proof (cases "xs = []")
    case True
    have "scan_once k' (json_dumps True x @ '']'' @ r) = Inr (canonical_value x, '']'' @ r)"
      using x Cons.prems(4) True k unfolding reads_def by (intro x[unfolded reads_def, rule_format]) (auto simp: follows_value_def)
    with True k show ?thesis by simp
  next
    case False
    let ?t = "py_join '','' (map (json_dumps True) xs)"
    have j: "py_join '','' (map (json_dumps True) (x # xs)) = json_dumps True x @ '','' @ ?t"
      using False by (simp add: py_join_Cons)
    obtain y ys where xs: "xs = y # ys" using False by (cases xs) auto
    obtain c cs where "json_dumps True y = c # cs" "\<not> json_space c"
      by (rule dumps_head[of y]) (use Cons.prems(2) xs in auto)
    then have skip: "skip_space (?t @ '']'' @ r) = ?t @ '']'' @ r" using xs by (simp add: py_join_Cons)
    have "scan_once k' (json_dumps True x @ '','' @ ?t @ '']'' @ r) = Inr (canonical_value x, '','' @ ?t @ '']'' @ r)"
      using Cons.prems(4) j k by (intro x[unfolded reads_def, rule_format]) (auto simp: follows_value_def)
    moreover have "scan_elements k' (?t @ '']'' @ r) = Inr (map canonical_value xs, r)"
      using Cons.prems j k False by (intro Cons.IH) auto
    ultimately show ?thesis using skip unfolding j k by simp
  qed
qed simp

lemma scan_members_dumps:
  assumes "kvs \<noteq> []" "list_all (\<lambda>(k, v). json_ok v) kvs" "list_all (\<lambda>(k, v). reads v) kvs"
    "2 * length (py_join '','' (map dump_member kvs)) < n"
  shows "scan_members n (py_join '','' (map dump_member kvs) @ ''}'' @ r) =
    Inr (map (\<lambda>(k, v). (k, canonical_value v)) kvs, r)"
  using assms
proof (induction kvs arbitrary: n)
  case (Cons kv kvs)
  obtain k v where kv: "kv = (k, v)" by fastforce
  obtain n' where n: "n = Suc n'" using Cons.prems(4) by (cases n) auto
  have v: "reads v" "json_ok v" using Cons.prems kv by simp_all
  let ?t = "py_join '','' (map dump_member kvs)"
  let ?rest = "if kvs = [] then ''}'' @ r else '','' @ ?t @ ''}'' @ r"
  have j: "py_join '','' (map dump_member (kv # kvs)) @ ''}'' @ r =
      CHR 0x22 # concat (map (json_char True) k) @ CHR 0x22 # '':'' @ json_dumps True v @ ?rest"
    by (simp add: py_join_Cons kv json_string_def)
  have len: "2 * length (json_dumps True v) + 2 * (if kvs = [] then 0 else length ?t) < n'"
    using Cons.prems(4) n by (auto simp: py_join_Cons kv json_string_def split: if_splits)
  obtain c cs where "json_dumps True v = c # cs" "\<not> json_space c" using dumps_head[OF v(2)] by blast
  then have skip: "skip_space (json_dumps True v @ x) = json_dumps True v @ x" for x by simp
  have val: "scan_once n' (json_dumps True v @ ?rest) = Inr (canonical_value v, ?rest)"
    using len by (intro v(1)[unfolded reads_def, rule_format]) (auto simp: follows_value_def)
  show ?case
  proof (cases "kvs = []")
    case True
    with val show ?thesis unfolding j n by (simp add: scan_string_dumps skip kv)
  next
    case False
    then have "skip_space (?t @ ''}'' @ r) = ?t @ ''}'' @ r"
      by (cases kvs) (auto simp: py_join_Cons json_string_def json_space_def)
    moreover have "scan_members n' (?t @ ''}'' @ r) = Inr (map (\<lambda>(k, v). (k, canonical_value v)) kvs, r)"
      using Cons.prems len False by (intro Cons.IH) auto
    ultimately show ?thesis using val False unfolding j n by (simp add: scan_string_dumps skip kv)
  qed
qed simp

lemma dumps_reads: "json_ok j \<Longrightarrow> reads j"
proof (induction j)
  case (JInt i)
  show ?case unfolding reads_def
  proof (intro allI impI)
    fix k :: nat and r assume k: "2 * length (json_dumps True (JInt i)) < k" and r: "follows_value r"
    have ok: "length (nat_digits \<bar>i\<bar>) \<le> MAX_INT_DIGITS" using JInt by simp
    obtain c cs where "int_str i @ r = c # cs" "c \<noteq> CHR 0x22" "c \<noteq> CHR ''{''" "c \<noteq> CHR ''[''"
      using scan_atom_int(2)[OF r ok] by blast
    with scan_atom_int(1)[OF r ok] k show "scan_once k (json_dumps True (JInt i) @ r) = Inr (canonical_value (JInt i), r)"
      by (cases k) simp_all
  qed
next
  case (JBool b)
  show ?case unfolding reads_def
    by (intro allI impI, case_tac k) (simp_all add: scan_atom_def starts_def)
next
  case JNull
  show ?case unfolding reads_def
    by (intro allI impI, case_tac k) (simp_all add: scan_atom_def starts_def)
next
  case (JStr s)
  show ?case unfolding reads_def
    by (intro allI impI, case_tac k) (simp_all add: json_string_def scan_string_dumps)
next
  case (JList xs)
  then have xs: "list_all json_ok xs" "list_all reads xs" by (auto simp: list_all_iff)
  show ?case unfolding reads_def
  proof (intro allI impI)
    fix k :: nat and r assume k: "2 * length (json_dumps True (JList xs)) < k"
    then obtain k' where k': "k = Suc k'" by (cases k) auto
    show "scan_once k (json_dumps True (JList xs) @ r) = Inr (canonical_value (JList xs), r)"
    proof (cases xs)
      case (Cons y ys)
      let ?t = "py_join '','' (map (json_dumps True) xs)"
      obtain c cs where c: "json_dumps True y = c # cs" "\<not> json_space c" "c \<noteq> CHR '']''"
        by (rule dumps_head[of y]) (use xs Cons in auto)
      then obtain ds where t: "?t @ '']'' @ r = c # ds" using Cons by (simp add: py_join_Cons)
      have "scan_elements k' (?t @ '']'' @ r) = Inr (map canonical_value xs, r)"
        using xs k k' Cons by (intro scan_elements_dumps) auto
      with t c k' show ?thesis by (simp add: token_def)
    qed (use k' in simp)
  qed
next
  case (JObj kvs)
  let ?kvs = "sort_key fst kvs"
  have all: "list_all (\<lambda>(k, v). json_ok v) ?kvs" "list_all (\<lambda>(k, v). reads v) ?kvs"
    using JObj by (auto simp: list_all_iff)
  have "distinct (map fst ?kvs)" using JObj.prems by (simp add: distinct_map)
  then have unique: "unique_json_object (map (\<lambda>(k, v). (k, canonical_value v)) ?kvs) = Inr (canonical_value (JObj kvs))"
    unfolding canonical_object unique_json_object_def by (simp add: comp_def case_prod_unfold)
  show ?case unfolding reads_def
  proof (intro allI impI)
    fix k :: nat and r assume k: "2 * length (json_dumps True (JObj kvs)) < k"
    then obtain k' where k': "k = Suc k'" by (cases k) auto
    show "scan_once k (json_dumps True (JObj kvs) @ r) = Inr (canonical_value (JObj kvs), r)"
    proof (cases ?kvs)
      case (Cons y ys)
      let ?t = "py_join '','' (map dump_member ?kvs)"
      obtain ds where t: "?t @ ''}'' @ r = CHR 0x22 # ds"
        using Cons by (cases y) (simp add: py_join_Cons json_string_def)
      have "scan_members k' (?t @ ''}'' @ r) = Inr (map (\<lambda>(k, v). (k, canonical_value v)) ?kvs, r)"
        using all k k' Cons unfolding dumps_object by (intro scan_members_dumps) auto
      with t unique k' show ?thesis
        unfolding dumps_object by (simp add: token_def json_space_def del: canonical_value.simps json_dumps.simps)
    next
      case Nil
      with unique k' show ?thesis
        unfolding dumps_object by (simp add: token_def json_space_def del: canonical_value.simps json_dumps.simps)
    qed
  qed
qed

lemma json_loads_dumps:
  assumes "json_ok j"
  shows "json_loads (json_dumps True j) = Inr (canonical_value j)"
proof -
  obtain c cs where c: "json_dumps True j = c # cs" "\<not> json_space c" by (rule dumps_head[OF assms])
  have "scan_once (2 * length (json_dumps True j) + 2) (json_dumps True j @ []) = Inr (canonical_value j, [])"
    by (rule dumps_reads[OF assms, unfolded reads_def, rule_format]) (simp_all add: follows_value_def)
  with c show ?thesis by (simp add: json_loads_def)
qed

text \<open>The text is printable ASCII: it survives any framing by lines.\<close>

definition printable :: "char \<Rightarrow> bool" where
  "printable c \<longleftrightarrow> 32 \<le> code_point c \<and> code_point c \<le> 126"

lemma json_char_printable: "list_all printable (json_char True c)"
proof -
  have "printable (hex_digit n)" if "n < 16" for n
    using less_16_cases[OF that] by (auto simp: hex_digit_def printable_def)
  then have "list_all printable (hex_digits k n)" for k n by (auto simp: hex_digits_def list_all_iff)
  then show ?thesis by (auto simp: json_char_def Let_def printable_def)
qed

lemma json_dumps_printable: "list_all printable (json_dumps True j)"
proof (induction j)
  case (JInt i)
  have "printable c" if "is_digit c" for c using that by (auto simp: is_digit_def printable_def)
  then have "list_all printable (nat_digits n)" if "0 \<le> n" for n
    using nat_digits_shape[OF that] by (auto simp: list_all_iff)
  moreover have "printable (CHR ''-'')" by (simp add: printable_def)
  ultimately show ?case by (simp add: int_str_def)
next
  case (JStr s)
  show ?case using json_char_printable by (auto simp: json_string_def printable_def list_all_iff)
next
  case (JList xs)
  have "list_all printable (py_join '','' ws)" if "list_all (list_all printable) ws" for ws
    using that by (induction ws) (auto simp: py_join_Cons printable_def)
  from this[of "map (json_dumps True) xs"] JList show ?case by (auto simp: printable_def list_all_iff)
next
  case (JObj kvs)
  have join: "list_all printable (py_join '','' ws)" if "list_all (list_all printable) ws" for ws
    using that by (induction ws) (auto simp: py_join_Cons printable_def)
  have "list_all printable (json_string True k)" for k
    using json_char_printable by (auto simp: json_string_def printable_def list_all_iff)
  then have "list_all (list_all printable) (map dump_member (sort_key fst kvs))"
    using JObj by (fastforce simp: list_all_iff printable_def)
  moreover have "printable (CHR ''{'')" "printable (CHR ''}'')" by (simp_all add: printable_def)
  ultimately show ?case unfolding dumps_object using join by simp
qed (auto simp: printable_def)

end
