(* ===== verification/Event_Wire.thy ===== *)
theory Event_Wire
  imports Json_Text Governance Contracts Http_Sse
begin

text \<open>
  The event stream between gateway and client: the payload and the frame the server writes
  (\<open>_event_payload\<close>, \<open>_routing_payload\<close>, \<open>_encode_sse\<close> of \<open>stream_generate.py\<close>), the client's
  bounded framing, its strict JSON and its decoders (\<open>_codec.py\<close>), and the aggregation of a stream
  into one response (\<open>client.py\<close>).
\<close>

subsection \<open>Vocabularies\<close>

fun event_type_value :: "StreamEventType \<Rightarrow> string" where
  "event_type_value RESPONSE_STARTED = ''response.started''"
| "event_type_value CONTENT_DELTA = ''content.delta''"
| "event_type_value TOOL_CALL_STARTED = ''tool_call.started''"
| "event_type_value TOOL_CALL_ARGUMENTS_DELTA = ''tool_call.arguments.delta''"
| "event_type_value TOOL_CALL_COMPLETED = ''tool_call.completed''"
| "event_type_value USAGE_COMPLETED = ''usage.completed''"
| "event_type_value RESPONSE_COMPLETED = ''response.completed''"
| "event_type_value RESPONSE_FAILED = ''response.failed''"

definition all_event_types :: "StreamEventType list" where
  "all_event_types = [RESPONSE_STARTED, CONTENT_DELTA, TOOL_CALL_STARTED, TOOL_CALL_ARGUMENTS_DELTA,
     TOOL_CALL_COMPLETED, USAGE_COMPLETED, RESPONSE_COMPLETED, RESPONSE_FAILED]"

fun status_value :: "ExecutionStatus \<Rightarrow> string" where
  "status_value SUCCEEDED = ''succeeded''"
| "status_value FAILED = ''failed''"
| "status_value REJECTED = ''rejected''"

definition all_statuses :: "ExecutionStatus list" where
  "all_statuses = [SUCCEEDED, FAILED, REJECTED]"

definition all_rejections :: "RejectionReason list" where
  "all_rejections = [WRONG_MODEL_GROUP, DEPLOYMENT_DISABLED, MISSING_CAPABILITY, CONTEXT_TOO_SMALL,
     PROVIDER_NOT_AUTHORIZED, PRICING_UNAVAILABLE, RANKING_SCORE_UNAVAILABLE, DEPLOYMENT_UNHEALTHY,
     CIRCUIT_BREAKER_OPEN, COST_LIMIT_EXCEEDED, LATENCY_LIMIT_EXCEEDED]"

subsection \<open>What the server writes\<close>

definition opt_field :: "string \<Rightarrow> ('a \<Rightarrow> json) \<Rightarrow> 'a option \<Rightarrow> (string \<times> json) list" where
  "opt_field k f x = (case x of None \<Rightarrow> [] | Some v \<Rightarrow> [(k, f v)])"

definition rejection_payload :: "CandidateRejection \<Rightarrow> json" where
  "rejection_payload c = JObj ([(''deployment'', JStr (cr_deployment c)),
     (''reason'', JStr (rejection_value (cr_reason c)))] @ opt_field ''detail'' JStr (cr_detail c))"

definition policy_payload :: "PolicyProvenance \<Rightarrow> json" where
  "policy_payload p = JObj [(''decision_id'', JStr (pp_decision_id p)), (''policy_id'', JStr (pp_policy_id p)),
     (''policy_version'', JStr (pp_policy_version p)), (''policy_digest'', JStr (pp_policy_digest p))]"

definition routing_payload :: "RoutingProvenance \<Rightarrow> json" where
  "routing_payload r = JObj (
     [(''routing_decision_id'', JStr (rp_routing_decision_id r)), (''policy'', policy_payload (rp_policy r)),
      (''authorized_model_group'', JStr (rp_authorized_model_group r)),
      (''model_registry_digest'', JStr (rp_model_registry_digest r)),
      (''ranking_policy_version'', JStr (rp_ranking_policy_version r)),
      (''fallback_sequence'', JList (map JStr (rp_fallback_sequence r)))] @
     opt_field ''ranking_policy_digest'' JStr (rp_ranking_policy_digest r) @
     opt_field ''score_snapshot_id'' JStr (rp_score_snapshot_id r) @
     opt_field ''benchmark_snapshot_id'' JStr (rp_benchmark_snapshot_id r) @
     opt_field ''score_provenance_mode'' JStr (rp_score_provenance_mode r) @
     opt_field ''manual_override_id'' JStr (rp_manual_override_id r) @
     opt_field ''provider'' JStr (rp_provider r) @
     opt_field ''model'' JStr (rp_model r) @
     opt_field ''deployment'' JStr (rp_deployment r) @
     (if rp_rejected_candidates r = [] then []
      else [(''rejected_candidates'', JList (map rejection_payload (rp_rejected_candidates r)))]))"

text \<open>\<open>_canonical_decimal\<close> raises outside the decimal context: then there is no payload.\<close>

definition usage_payload :: "Usage \<Rightarrow> json option" where
  "usage_payload u = (case (case ug_total_cost_usd u of None \<Rightarrow> Some []
        | Some c \<Rightarrow> map_option (\<lambda>t. [(''total_cost_usd'', JStr t)]) (canonical_decimal c)) of
      None \<Rightarrow> None
    | Some cost \<Rightarrow> Some (JObj ([(''input_tokens'', JInt (ug_input_tokens u)),
        (''output_tokens'', JInt (ug_output_tokens u))] @
        opt_field ''total_tokens'' JInt (ug_total_tokens u) @
        opt_field ''cache_read_input_tokens'' JInt (ug_cache_read_input_tokens u) @
        opt_field ''cache_write_input_tokens'' JInt (ug_cache_write_input_tokens u) @ cost)))"

definition opt_payload :: "('a \<Rightarrow> json option) \<Rightarrow> 'a option \<Rightarrow> json option option" where
  "opt_payload f x = (case x of None \<Rightarrow> Some None | Some v \<Rightarrow> map_option Some (f v))"

definition execution_payload :: "ProviderExecution \<Rightarrow> json option" where
  "execution_payload x = (case opt_payload usage_payload (px_usage x) of
      None \<Rightarrow> None
    | Some usage \<Rightarrow> Some (JObj (
        [(''provider'', JStr (px_provider x)), (''model'', JStr (px_model x)),
         (''deployment'', JStr (px_deployment x)), (''status'', JStr (status_value (px_status x))),
         (''latency_ms'', JInt (px_latency_ms x)), (''attempt_number'', JInt (px_attempt_number x)),
         (''fallback_index'', JInt (px_fallback_index x))] @
        opt_field ''api_family'' JStr (px_api_family x) @
        opt_field ''max_output_tokens'' JInt (px_max_output_tokens x) @
        opt_field ''provider_request_id'' JStr (px_provider_request_id x) @
        opt_field ''finish_reason'' JStr (px_finish_reason x) @
        opt_field ''trace_id'' JStr (px_trace_id x) @
        (if px_cached x then [(''cached'', JBool True)] else []) @
        opt_field ''usage'' (\<lambda>j. j) usage)))"

definition tool_call_payload :: "ToolCall \<Rightarrow> json" where
  "tool_call_payload c = JObj [(''call_id'', JStr (tc_call_id c)), (''name'', JStr (tc_name c)),
     (''arguments'', JObj (tc_arguments c))]"

definition error_payload :: "GatewayError \<Rightarrow> json" where
  "error_payload e = JObj [(''code'', JStr (ge_code e)), (''message'', JStr (ge_message e)),
     (''retryable'', JBool (ge_retryable e))]"

definition event_payload :: "GatewayStreamEvent \<Rightarrow> json option" where
  "event_payload e =
     (case (opt_payload usage_payload (ev_usage e), opt_payload execution_payload (ev_execution e)) of
        (Some usage, Some execution) \<Rightarrow> Some (JObj (
          [(''event_type'', JStr (event_type_value (ev_event_type e))),
           (''request_id'', JStr (uuid_str (ev_request_id e))),
           (''sequence_number'', JInt (ev_sequence_number e))] @
          opt_field ''routing'' routing_payload (ev_routing e) @
          opt_field ''delta'' JStr (ev_delta e) @
          opt_field ''tool_call_id'' JStr (ev_tool_call_id e) @
          opt_field ''tool_name'' JStr (ev_tool_name e) @
          opt_field ''tool_call'' tool_call_payload (ev_tool_call e) @
          opt_field ''usage'' (\<lambda>j. j) usage @
          opt_field ''execution'' (\<lambda>j. j) execution @
          opt_field ''finish_reason'' JStr (ev_finish_reason e) @
          opt_field ''error'' error_payload (ev_error e) @
          (if ev_partial e then [(''partial'', JBool True)] else [])))
      | _ \<Rightarrow> None)"

definition encode_sse :: "GatewayStreamEvent \<Rightarrow> bytes option" where
  "encode_sse e = map_option (\<lambda>p.
     ''event: '' @ event_type_value (ev_event_type e) @ [CHR 0x0A] @
     ''id: '' @ int_str (ev_sequence_number e) @ [CHR 0x0A] @
     ''data: '' @ json_dumps True p @ [CHR 0x0A, CHR 0x0A]) (event_payload e)"

subsection \<open>Python helpers of the client\<close>

text \<open>\<open>str.splitlines\<close>.\<close>

definition line_break :: "char \<Rightarrow> bool" where
  "line_break c \<longleftrightarrow> (let n = code_point c in n \<in> {10, 11, 12, 13, 28, 29, 30, 133})"

fun splitlines :: "string \<Rightarrow> string list" where
  "splitlines [] = []"
| "splitlines (c # cs) =
     (if line_break c then
        (case cs of
           d # ds \<Rightarrow> if c = CHR 0x0D \<and> d = CHR 0x0A then [] # splitlines ds else [] # splitlines cs
         | [] \<Rightarrow> [[]])
      else (case splitlines cs of [] \<Rightarrow> [[c]] | l # ls \<Rightarrow> (c # l) # ls))"

text \<open>\<open>int(text)\<close> and \<open>int(text, 16)\<close>: white space, a sign, digits with single underscores.\<close>

definition int_sign :: "string \<Rightarrow> bool \<times> string" where
  "int_sign s = (case s of c # cs \<Rightarrow> if c = CHR ''-'' then (True, cs) else if c = CHR ''+'' then (False, cs)
     else (False, s) | [] \<Rightarrow> (False, []))"

definition digit_runs :: "(char \<Rightarrow> bool) \<Rightarrow> string \<Rightarrow> string option" where
  "digit_runs ok s = (let parts = py_split CHR ''_'' s in
     if list_all (\<lambda>p. p \<noteq> [] \<and> list_all ok p) parts then Some (concat parts) else None)"

definition py_int :: "string \<Rightarrow> int option" where
  "py_int text = (case int_sign (py_strip text) of (neg, body) \<Rightarrow>
     (case digit_runs is_digit body of
        None \<Rightarrow> None
      | Some ds \<Rightarrow> if MAX_INT_DIGITS < length ds then None
          else Some (if neg then - digits_val ds else digits_val ds)))"

definition py_int16 :: "string \<Rightarrow> int option" where
  "py_int16 text = (case int_sign (py_strip text) of (neg, body) \<Rightarrow>
     (let digits = (if starts ''0x'' body \<or> starts ''0X'' body then
            (let b = drop 2 body in if starts ''_'' b then drop 1 b else b) else body)
      in case digit_runs (\<lambda>c. hex_char c \<noteq> None) digits of
           None \<Rightarrow> None
         | Some ds \<Rightarrow> map_option (\<lambda>n. if neg then - int n else int n) (hex_value 0 ds)))"

text \<open>\<open>UUID(text)\<close>.\<close>

fun remove_word :: "string \<Rightarrow> string \<Rightarrow> string" where
  "remove_word w [] = []"
| "remove_word w (c # cs) = (if starts w (c # cs) then remove_word w (drop (length w - 1) cs)
     else c # remove_word w cs)"

definition parse_uuid :: "string \<Rightarrow> uuid option" where
  "parse_uuid text =
     (let h = remove_word ''uuid:'' (remove_word ''urn:'' text);
          brace = (\<lambda>c. c = CHR ''{'' \<or> c = CHR ''}'');
          hex = filter (\<lambda>c. c \<noteq> CHR ''-'') (rev (dropWhile brace (rev (dropWhile brace h))))
      in if length hex \<noteq> 32 then None
         else case py_int16 hex of
           None \<Rightarrow> None
         | Some n \<Rightarrow> if 0 \<le> n \<and> n < 2 ^ 128 then Some (of_int n) else None)"

text \<open>UTF-8 text of Latin-1 characters; other text is outside the model.\<close>

fun latin1_text :: "bytes \<Rightarrow> string option" where
  "latin1_text [] = Some []"
| "latin1_text (b # bs) =
     (if code_point b < (128 :: nat) then map_option (\<lambda>t. b # t) (latin1_text bs)
      else (case bs of
          c # cs \<Rightarrow> if code_point b = (194 :: nat) then map_option (\<lambda>t. c # t) (latin1_text cs)
            else if code_point b = (195 :: nat) then map_option (\<lambda>t. char_of (code_point c + 64 :: nat) # t) (latin1_text cs)
            else None
        | [] \<Rightarrow> None))"

subsection \<open>The client's decoders\<close>

text \<open>
  \<open>IntDigitsEscape\<close> is the plain \<open>ValueError\<close> of an integer literal with too many digits, which
  \<open>_load_json_object\<close> does not catch; \<open>OutsideModel\<close> is no statement about the code.
\<close>

datatype client_error = GatewayProtocolError | GatewayTransportError | GatewayHTTPError int | IntDigitsEscape | OutsideModel

type_synonym fields = "(string \<times> json_value) list"

definition is_null :: "json_value option \<Rightarrow> bool" where
  "is_null v \<longleftrightarrow> v = None \<or> v = Some VNull"

definition check_fields :: "string list \<Rightarrow> fields \<Rightarrow> client_error + unit" where
  "check_fields allowed kvs = (if list_all (\<lambda>k. k \<in> set allowed) (map fst kvs) then Inr () else Inl GatewayProtocolError)"

definition as_object :: "json_value option \<Rightarrow> client_error + fields" where
  "as_object v = (case v of Some (VObj kvs) \<Rightarrow> Inr kvs | _ \<Rightarrow> Inl GatewayProtocolError)"

definition as_list :: "json_value \<Rightarrow> client_error + json_value list" where
  "as_list v = (case v of VList xs \<Rightarrow> Inr xs | _ \<Rightarrow> Inl GatewayProtocolError)"

definition string_value :: "json_value option \<Rightarrow> client_error + string" where
  "string_value v = (case v of Some (VStr (c # cs)) \<Rightarrow> Inr (c # cs) | _ \<Rightarrow> Inl GatewayProtocolError)"

definition required_str :: "fields \<Rightarrow> string \<Rightarrow> client_error + string" where
  "required_str kvs k = string_value (map_of kvs k)"

definition optional :: "(json_value option \<Rightarrow> client_error + 'a) \<Rightarrow> fields \<Rightarrow> string \<Rightarrow> client_error + 'a option" where
  "optional f kvs k = (let v = map_of kvs k in if is_null v then Inr None else ebind (f v) (\<lambda>x. Inr (Some x)))"

definition optional_str :: "fields \<Rightarrow> string \<Rightarrow> client_error + string option" where
  "optional_str = optional string_value"

definition int_value :: "json_value option \<Rightarrow> client_error + int" where
  "int_value v = (case v of Some (VInt i) \<Rightarrow> Inr i | _ \<Rightarrow> Inl GatewayProtocolError)"

definition required_int :: "fields \<Rightarrow> string \<Rightarrow> client_error + int" where
  "required_int kvs k = int_value (map_of kvs k)"

definition optional_int :: "fields \<Rightarrow> string \<Rightarrow> client_error + int option" where
  "optional_int = optional int_value"

definition bool_value :: "json_value option \<Rightarrow> client_error + bool" where
  "bool_value v = (case v of Some (VBool b) \<Rightarrow> Inr b | _ \<Rightarrow> Inl GatewayProtocolError)"

definition optional_bool :: "fields \<Rightarrow> string \<Rightarrow> bool \<Rightarrow> client_error + bool" where
  "optional_bool kvs k dflt = bool_value (case map_of kvs k of None \<Rightarrow> Some (VBool dflt) | v \<Rightarrow> v)"

text \<open>A constructor that raises, and an enumeration looked up by value.\<close>

definition constructed :: "('a \<Rightarrow> bool) \<Rightarrow> 'a \<Rightarrow> client_error + 'a" where
  "constructed ok x = (if ok x then Inr x else Inl GatewayProtocolError)"

definition protocol :: "'a option \<Rightarrow> client_error + 'a" where
  "protocol x = (case x of None \<Rightarrow> Inl GatewayProtocolError | Some v \<Rightarrow> Inr v)"

definition decode_error :: "fields \<Rightarrow> client_error + GatewayError" where
  "decode_error kvs =
     ebind (check_fields [''code'', ''message'', ''retryable''] kvs) (\<lambda>_.
     ebind (bool_value (map_of kvs ''retryable'')) (\<lambda>retryable.
     ebind (required_str kvs ''code'') (\<lambda>code.
     ebind (required_str kvs ''message'') (\<lambda>message.
     Inr \<lparr>ge_code = code, ge_message = message, ge_retryable = retryable\<rparr>))))"

text \<open>Tool arguments as contract values; a float among them is outside the contract model.\<close>

fun json_of_value :: "json_value \<Rightarrow> client_error + json" where
  "json_of_value VNull = Inr JNull"
| "json_of_value (VBool b) = Inr (JBool b)"
| "json_of_value (VInt i) = Inr (JInt i)"
| "json_of_value (VFloat _) = Inl OutsideModel"
| "json_of_value (VStr s) = Inr (JStr s)"
| "json_of_value (VList xs) = ebind (emap id (map json_of_value xs)) (\<lambda>js. Inr (JList js))"
| "json_of_value (VObj kvs) = ebind (emap id (map (\<lambda>(k, v). ebind (json_of_value v) (\<lambda>j. Inr (k, j))) kvs)) (\<lambda>js.
     Inr (JObj js))"

definition decode_tool_call :: "fields \<Rightarrow> client_error + ToolCall" where
  "decode_tool_call kvs =
     ebind (check_fields [''call_id'', ''name'', ''arguments''] kvs) (\<lambda>_.
     ebind (required_str kvs ''call_id'') (\<lambda>call_id.
     ebind (required_str kvs ''name'') (\<lambda>name.
     ebind (as_object (map_of kvs ''arguments'')) (\<lambda>args.
     ebind (emap (\<lambda>(k, v). ebind (json_of_value v) (\<lambda>j. Inr (k, j))) args) (\<lambda>arguments.
     constructed ToolCall_ok \<lparr>tc_call_id = call_id, tc_name = name, tc_arguments = arguments\<rparr>)))))"

text \<open>A cost is a decimal string; \<open>Usage\<close> only compares it with zero, so infinity passes and is outside the model.\<close>

definition decode_cost :: "json_value option \<Rightarrow> client_error + rat" where
  "decode_cost v = (case v of
      Some (VStr t) \<Rightarrow> (case parse_decimal t of
          Some (DFinite x) \<Rightarrow> Inr x
        | Some _ \<Rightarrow> Inl OutsideModel
        | None \<Rightarrow> Inl GatewayProtocolError)
    | _ \<Rightarrow> Inl GatewayProtocolError)"

definition usage_fields :: "string list" where
  "usage_fields = [''input_tokens'', ''output_tokens'', ''total_tokens'', ''cache_read_input_tokens'',
     ''cache_write_input_tokens'', ''total_cost_usd'']"

definition decode_usage :: "fields \<Rightarrow> client_error + Usage" where
  "decode_usage kvs =
     ebind (check_fields usage_fields kvs) (\<lambda>_.
     ebind (optional decode_cost kvs ''total_cost_usd'') (\<lambda>cost.
     ebind (required_int kvs ''input_tokens'') (\<lambda>input.
     ebind (required_int kvs ''output_tokens'') (\<lambda>output.
     ebind (optional_int kvs ''total_tokens'') (\<lambda>total.
     ebind (optional_int kvs ''cache_read_input_tokens'') (\<lambda>cache_read.
     ebind (optional_int kvs ''cache_write_input_tokens'') (\<lambda>cache_write.
     constructed Usage_ok \<lparr>ug_input_tokens = input, ug_output_tokens = output, ug_total_tokens = total,
       ug_cache_read_input_tokens = cache_read, ug_cache_write_input_tokens = cache_write,
       ug_total_cost_usd = cost\<rparr>)))))))"

definition execution_fields :: "string list" where
  "execution_fields = [''provider'', ''model'', ''deployment'', ''status'', ''latency_ms'', ''usage'',
     ''provider_request_id'', ''finish_reason'', ''attempt_number'', ''fallback_index'', ''api_family'',
     ''max_output_tokens'', ''trace_id'', ''cached'']"

text \<open>\<open>bool(value)\<close>.\<close>

definition truthy :: "json_value option \<Rightarrow> client_error + bool" where
  "truthy v = (case v of
      None \<Rightarrow> Inr False | Some VNull \<Rightarrow> Inr False | Some (VBool b) \<Rightarrow> Inr b | Some (VInt i) \<Rightarrow> Inr (i \<noteq> 0)
    | Some (VFloat t) \<Rightarrow> Inl OutsideModel
    | Some (VStr s) \<Rightarrow> Inr (s \<noteq> []) | Some (VList xs) \<Rightarrow> Inr (xs \<noteq> []) | Some (VObj kvs) \<Rightarrow> Inr (kvs \<noteq> []))"

definition decode_execution :: "fields \<Rightarrow> client_error + ProviderExecution" where
  "decode_execution kvs =
     ebind (check_fields execution_fields kvs) (\<lambda>_.
     ebind (optional_int kvs ''attempt_number'') (\<lambda>attempt.
     ebind (optional_int kvs ''fallback_index'') (\<lambda>fallback.
     ebind (required_str kvs ''provider'') (\<lambda>provider.
     ebind (required_str kvs ''model'') (\<lambda>model.
     ebind (required_str kvs ''deployment'') (\<lambda>deployment.
     ebind (required_str kvs ''status'') (\<lambda>status_text.
     ebind (protocol (enum_of status_value all_statuses status_text)) (\<lambda>status.
     ebind (required_int kvs ''latency_ms'') (\<lambda>latency.
     ebind (optional (\<lambda>v. ebind (as_object v) decode_usage) kvs ''usage'') (\<lambda>usage.
     ebind (optional_str kvs ''provider_request_id'') (\<lambda>request_id.
     ebind (optional_str kvs ''finish_reason'') (\<lambda>finish.
     ebind (optional_str kvs ''api_family'') (\<lambda>api_family.
     ebind (optional_int kvs ''max_output_tokens'') (\<lambda>max_output.
     ebind (optional_str kvs ''trace_id'') (\<lambda>trace.
     ebind (truthy (map_of kvs ''cached'')) (\<lambda>cached.
     constructed ProviderExecution_ok \<lparr>px_provider = provider, px_model = model, px_deployment = deployment,
       px_status = status, px_latency_ms = latency, px_usage = usage, px_provider_request_id = request_id,
       px_finish_reason = finish, px_attempt_number = (case attempt of None \<Rightarrow> 1 | Some n \<Rightarrow> n),
       px_fallback_index = (case fallback of None \<Rightarrow> 0 | Some n \<Rightarrow> n), px_api_family = api_family,
       px_max_output_tokens = max_output, px_trace_id = trace,
       px_cached = cached\<rparr>))))))))))))))))"

definition decode_rejection :: "fields \<Rightarrow> client_error + CandidateRejection" where
  "decode_rejection kvs =
     ebind (check_fields [''deployment'', ''reason'', ''detail''] kvs) (\<lambda>_.
     ebind (required_str kvs ''deployment'') (\<lambda>deployment.
     ebind (required_str kvs ''reason'') (\<lambda>reason_text.
     ebind (protocol (enum_of rejection_value all_rejections reason_text)) (\<lambda>reason.
     ebind (optional_str kvs ''detail'') (\<lambda>detail.
     Inr \<lparr>cr_deployment = deployment, cr_reason = reason, cr_detail = detail\<rparr>)))))"

definition decode_policy :: "fields \<Rightarrow> client_error + PolicyProvenance" where
  "decode_policy kvs =
     ebind (required_str kvs ''decision_id'') (\<lambda>decision_id.
     ebind (required_str kvs ''policy_id'') (\<lambda>policy_id.
     ebind (required_str kvs ''policy_version'') (\<lambda>policy_version.
     ebind (required_str kvs ''policy_digest'') (\<lambda>policy_digest.
     Inr \<lparr>pp_decision_id = decision_id, pp_policy_id = policy_id, pp_policy_version = policy_version,
       pp_policy_digest = policy_digest\<rparr>))))"

definition routing_fields :: "string list" where
  "routing_fields = [''routing_decision_id'', ''policy'', ''authorized_model_group'', ''model_registry_digest'',
     ''ranking_policy_version'', ''ranking_policy_digest'', ''score_snapshot_id'', ''benchmark_snapshot_id'',
     ''score_provenance_mode'', ''manual_override_id'', ''provider'', ''model'', ''deployment'',
     ''rejected_candidates'', ''fallback_sequence'']"

definition list_field :: "fields \<Rightarrow> string \<Rightarrow> json_value" where
  "list_field kvs k = (case map_of kvs k of None \<Rightarrow> VList [] | Some v \<Rightarrow> v)"

definition decode_routing :: "fields \<Rightarrow> client_error + RoutingProvenance" where
  "decode_routing kvs =
     ebind (check_fields routing_fields kvs) (\<lambda>_.
     ebind (as_object (map_of kvs ''policy'')) (\<lambda>policy.
     ebind (check_fields [''decision_id'', ''policy_id'', ''policy_version'', ''policy_digest''] policy) (\<lambda>_.
     ebind (as_list (list_field kvs ''rejected_candidates'')) (\<lambda>rejected_items.
     ebind (as_list (list_field kvs ''fallback_sequence'')) (\<lambda>fallback_items.
     ebind (required_str kvs ''routing_decision_id'') (\<lambda>decision_id.
     ebind (decode_policy policy) (\<lambda>provenance.
     ebind (required_str kvs ''authorized_model_group'') (\<lambda>model_group.
     ebind (required_str kvs ''model_registry_digest'') (\<lambda>registry.
     ebind (required_str kvs ''ranking_policy_version'') (\<lambda>version.
     ebind (optional_str kvs ''ranking_policy_digest'') (\<lambda>digest.
     ebind (optional_str kvs ''score_snapshot_id'') (\<lambda>snapshot.
     ebind (optional_str kvs ''benchmark_snapshot_id'') (\<lambda>benchmark.
     ebind (optional_str kvs ''score_provenance_mode'') (\<lambda>mode.
     ebind (optional_str kvs ''manual_override_id'') (\<lambda>override.
     ebind (optional_str kvs ''provider'') (\<lambda>provider.
     ebind (optional_str kvs ''model'') (\<lambda>model.
     ebind (optional_str kvs ''deployment'') (\<lambda>deployment.
     ebind (emap (\<lambda>v. ebind (as_object (Some v)) decode_rejection) rejected_items) (\<lambda>rejected.
     ebind (emap (\<lambda>v. string_value (Some v)) fallback_items) (\<lambda>fallbacks.
     Inr \<lparr>rp_routing_decision_id = decision_id, rp_policy = provenance, rp_authorized_model_group = model_group,
       rp_model_registry_digest = registry, rp_ranking_policy_version = version,
       rp_ranking_policy_digest = digest, rp_score_snapshot_id = snapshot, rp_benchmark_snapshot_id = benchmark,
       rp_score_provenance_mode = mode, rp_manual_override_id = override, rp_provider = provider,
       rp_model = model, rp_deployment = deployment, rp_rejected_candidates = rejected,
       rp_fallback_sequence = fallbacks\<rparr>))))))))))))))))))))"

definition event_fields :: "string list" where
  "event_fields = [''event_type'', ''request_id'', ''sequence_number'', ''routing'', ''delta'', ''tool_call_id'',
     ''tool_name'', ''tool_call'', ''usage'', ''execution'', ''finish_reason'', ''error'', ''partial'']"

definition decode_event :: "fields \<Rightarrow> client_error + GatewayStreamEvent" where
  "decode_event kvs =
     ebind (check_fields event_fields kvs) (\<lambda>_.
     ebind (required_str kvs ''event_type'') (\<lambda>type_text.
     ebind (protocol (enum_of event_type_value all_event_types type_text)) (\<lambda>event_type.
     ebind (required_str kvs ''request_id'') (\<lambda>id_text.
     ebind (protocol (parse_uuid id_text)) (\<lambda>request_id.
     ebind (required_int kvs ''sequence_number'') (\<lambda>sequence.
     ebind (optional (\<lambda>v. ebind (as_object v) decode_routing) kvs ''routing'') (\<lambda>routing.
     ebind (optional_str kvs ''delta'') (\<lambda>delta.
     ebind (optional_str kvs ''tool_call_id'') (\<lambda>tool_call_id.
     ebind (optional_str kvs ''tool_name'') (\<lambda>tool_name.
     ebind (optional (\<lambda>v. ebind (as_object v) decode_tool_call) kvs ''tool_call'') (\<lambda>tool_call.
     ebind (optional (\<lambda>v. ebind (as_object v) decode_usage) kvs ''usage'') (\<lambda>usage.
     ebind (optional (\<lambda>v. ebind (as_object v) decode_execution) kvs ''execution'') (\<lambda>execution.
     ebind (optional_str kvs ''finish_reason'') (\<lambda>finish.
     ebind (optional (\<lambda>v. ebind (as_object v) decode_error) kvs ''error'') (\<lambda>error.
     ebind (optional_bool kvs ''partial'' False) (\<lambda>partial.
     constructed GatewayStreamEvent_ok \<lparr>ev_event_type = event_type, ev_request_id = request_id,
       ev_sequence_number = sequence, ev_routing = routing, ev_delta = delta, ev_tool_call_id = tool_call_id,
       ev_tool_name = tool_name, ev_tool_call = tool_call, ev_usage = usage, ev_execution = execution,
       ev_finish_reason = finish, ev_error = error, ev_partial = partial\<rparr>))))))))))))))))"

subsection \<open>Frames\<close>

fun find_sub :: "string \<Rightarrow> string \<Rightarrow> nat option" where
  "find_sub w [] = (if w = [] then Some 0 else None)"
| "find_sub w (c # cs) = (if starts w (c # cs) then Some 0 else map_option Suc (find_sub w cs))"

definition delimiters :: "bytes list" where
  "delimiters = [[CHR 0x0D, CHR 0x0A, CHR 0x0D, CHR 0x0A], [CHR 0x0A, CHR 0x0A], [CHR 0x0D, CHR 0x0D]]"

text \<open>\<open>min(matches, key=...)\<close>: the first match with the least index.\<close>

fun first_match :: "bytes \<Rightarrow> bytes list \<Rightarrow> (nat \<times> bytes) option" where
  "first_match buf [] = None"
| "first_match buf (d # ds) = (case (find_sub d buf, first_match buf ds) of
      (Some i, Some (j, e)) \<Rightarrow> if j < i then Some (j, e) else Some (i, d)
    | (Some i, None) \<Rightarrow> Some (i, d)
    | (None, m) \<Rightarrow> m)"

definition extract_frame :: "bytes \<Rightarrow> (bytes \<times> bytes) option" where
  "extract_frame buf = map_option (\<lambda>(i, d). (take i buf, drop (i + length d) buf)) (first_match buf delimiters)"

lemma first_match_delimiter: "first_match buf ds = Some (i, d) \<Longrightarrow> d \<in> set ds \<and> find_sub d buf = Some i"
  by (induction ds) (auto split: option.splits if_splits)

lemma find_sub_nonempty: "find_sub d buf = Some i \<Longrightarrow> d \<noteq> [] \<Longrightarrow> buf \<noteq> []"
  by (cases buf) auto

lemma extract_frame_shrinks: "extract_frame buf = Some (frame, rest) \<Longrightarrow> length rest < length buf"
  using first_match_delimiter[of buf delimiters] find_sub_nonempty[of _ buf]
  by (cases buf) (auto simp: extract_frame_def delimiters_def)

definition bytes_space :: "char \<Rightarrow> bool" where
  "bytes_space c \<longleftrightarrow> (let n = code_point c in n = 32 \<or> 9 \<le> n \<and> n \<le> 13)"

function drain_frames :: "int \<Rightarrow> bytes \<Rightarrow> bytes list \<times> client_error option \<times> bytes" where
  "drain_frames max_event buf = (case extract_frame buf of
      None \<Rightarrow> ([], None, buf)
    | Some (frame, rest) \<Rightarrow>
        if max_event < int (length frame) then ([], Some GatewayProtocolError, rest)
        else (case drain_frames max_event rest of (fs, e, b) \<Rightarrow>
          (if list_all bytes_space frame then fs else frame # fs, e, b)))"
  by pat_completeness auto
termination
  by (relation "measure (\<lambda>(_, buf). length buf)") (auto dest: extract_frame_shrinks)

declare drain_frames.simps [simp del]

text \<open>\<open>_iter_sse_frames\<close> on the chunks of the response; \<open>broken\<close> says the transport fails after them.\<close>

fun frame_loop :: "int \<Rightarrow> int \<Rightarrow> bool \<Rightarrow> bytes \<Rightarrow> int \<Rightarrow> bytes list \<Rightarrow> bytes list \<times> client_error option" where
  "frame_loop max_event max_stream broken buf received [] =
     ([], if broken then Some GatewayTransportError
       else if list_all (\<lambda>c. c \<in> {CHR 0x0D, CHR 0x0A, CHR 0x09, CHR '' ''}) buf then None
       else Some GatewayProtocolError)"
| "frame_loop max_event max_stream broken buf received (part # parts) =
     (let total' = received + int (length part) in
      if max_stream < total' then ([], Some GatewayProtocolError)
      else (case drain_frames max_event (buf @ part) of
          (fs, Some e, _) \<Rightarrow> (fs, Some e)
        | (fs, None, b) \<Rightarrow>
            if max_event < int (length b) then (fs, Some GatewayProtocolError)
            else (case frame_loop max_event max_stream broken b total' parts of (gs, e) \<Rightarrow> (fs @ gs, e))))"

definition iter_sse_frames :: "int \<Rightarrow> int \<Rightarrow> bool \<Rightarrow> bytes list \<Rightarrow> bytes list \<times> client_error option" where
  "iter_sse_frames max_event max_stream broken parts =
     (if max_event \<le> 0 then ([], Some GatewayProtocolError)
      else if max_stream < max_event then ([], Some GatewayProtocolError)
      else frame_loop max_event max_stream broken [] 0 parts)"

subsection \<open>Events of the frames\<close>

definition decode_text :: "bytes \<Rightarrow> client_error + string" where
  "decode_text bs = (if \<not> utf8_valid bs then Inl GatewayProtocolError
     else case latin1_text bs of None \<Rightarrow> Inl OutsideModel | Some t \<Rightarrow> Inr t)"

record frame_fields =
  fr_event :: "string option"
  fr_id :: "string option"
  fr_data :: "string list"

text \<open>\<open>line.partition(":")\<close>: a value only after a colon, without one leading space.\<close>

definition frame_line :: "string \<Rightarrow> frame_fields \<Rightarrow> client_error + frame_fields" where
  "frame_line line st =
     (if line = [] \<or> starts '':'' line then Inr st
      else (case field_value line of (field, value) \<Rightarrow>
        if field = ''event'' then
          (if fr_event st \<noteq> None then Inl GatewayProtocolError else Inr (st\<lparr>fr_event := Some value\<rparr>))
        else if field = ''id'' then
          (if fr_id st \<noteq> None then Inl GatewayProtocolError else Inr (st\<lparr>fr_id := Some value\<rparr>))
        else if field = ''data'' then Inr (st\<lparr>fr_data := fr_data st @ [value]\<rparr>)
        else Inl GatewayProtocolError))"

fun frame_lines :: "string list \<Rightarrow> frame_fields \<Rightarrow> client_error + frame_fields" where
  "frame_lines [] st = Inr st"
| "frame_lines (l # ls) st = ebind (frame_line l st) (frame_lines ls)"

definition load_json_object :: "string \<Rightarrow> client_error + fields" where
  "load_json_object text = (case json_loads text of
      Inl IntDigitsError \<Rightarrow> Inl IntDigitsEscape
    | Inl OutsideLatin1 \<Rightarrow> Inl OutsideModel
    | Inl _ \<Rightarrow> Inl GatewayProtocolError
    | Inr v \<Rightarrow> as_object (Some v))"

definition parse_sse_frame :: "bytes \<Rightarrow> client_error + string \<times> int \<times> fields" where
  "parse_sse_frame frame =
     ebind (decode_text frame) (\<lambda>text.
     ebind (frame_lines (splitlines text) \<lparr>fr_event = None, fr_id = None, fr_data = []\<rparr>) (\<lambda>fr.
     case (fr_event fr, fr_id fr) of
       (Some (e # es), Some (i # is)) \<Rightarrow>
         if fr_data fr = [] then Inl GatewayProtocolError
         else (case py_int (i # is) of
             None \<Rightarrow> Inl GatewayProtocolError
           | Some n \<Rightarrow> if n \<le> 0 then Inl GatewayProtocolError
               else ebind (load_json_object (py_join [CHR 0x0A] (fr_data fr))) (\<lambda>payload. Inr (e # es, n, payload)))
     | _ \<Rightarrow> Inl GatewayProtocolError))"

definition checked_event :: "uuid \<Rightarrow> int \<Rightarrow> bytes \<Rightarrow> client_error + GatewayStreamEvent" where
  "checked_event expected_request_id expected_sequence frame =
     ebind (parse_sse_frame frame) (\<lambda>(event_name, event_id, payload).
     ebind (decode_event payload) (\<lambda>e.
     if ev_request_id e \<noteq> expected_request_id \<or> event_type_value (ev_event_type e) \<noteq> event_name \<or>
        ev_sequence_number e \<noteq> event_id \<or> ev_sequence_number e \<noteq> expected_sequence
     then Inl GatewayProtocolError else Inr e))"

definition client_terminal :: "GatewayStreamEvent \<Rightarrow> bool" where
  "client_terminal e \<longleftrightarrow> ev_event_type e = RESPONSE_COMPLETED \<or> ev_event_type e = RESPONSE_FAILED"

fun frame_events ::
  "uuid \<Rightarrow> int \<Rightarrow> bool \<Rightarrow> bytes list \<Rightarrow> client_error option \<Rightarrow> GatewayStreamEvent list \<times> client_error option" where
  "frame_events rid expected terminal [] fault =
     ([], case fault of Some e \<Rightarrow> Some e | None \<Rightarrow> if terminal then None else Some GatewayProtocolError)"
| "frame_events rid expected terminal (f # fs) fault =
     (if terminal then ([], Some GatewayProtocolError)
      else case checked_event rid expected f of
        Inl e \<Rightarrow> ([], Some e)
      | Inr ev \<Rightarrow> (case frame_events rid (expected + 1) (client_terminal ev) fs fault of (es, e) \<Rightarrow> (ev # es, e)))"

text \<open>\<open>_iter_sse_events\<close>: the events delivered and the error that ended the iteration, if any.\<close>

definition iter_sse_events ::
  "int \<Rightarrow> int \<Rightarrow> uuid \<Rightarrow> bool \<Rightarrow> bytes list \<Rightarrow> GatewayStreamEvent list \<times> client_error option" where
  "iter_sse_events max_event max_stream rid broken parts =
     (case iter_sse_frames max_event max_stream broken parts of (fs, e) \<Rightarrow> frame_events rid 1 False fs e)"

subsection \<open>Aggregation\<close>

record generate_state =
  gn_content :: "string list"
  gn_tool_calls :: "ToolCall list"
  gn_usage :: "Usage option"
  gn_terminal :: "GatewayStreamEvent option"

definition generate_event :: "GatewayStreamEvent \<Rightarrow> generate_state \<Rightarrow> client_error + generate_state" where
  "generate_event e st =
     ebind
       (if ev_event_type e = CONTENT_DELTA \<and> ev_delta e \<noteq> None
        then Inr (st\<lparr>gn_content := gn_content st @ [the (ev_delta e)]\<rparr>)
        else if ev_event_type e = TOOL_CALL_COMPLETED then
          (case ev_tool_call e of None \<Rightarrow> Inl GatewayProtocolError
           | Some c \<Rightarrow> Inr (st\<lparr>gn_tool_calls := gn_tool_calls st @ [c]\<rparr>))
        else if ev_event_type e = USAGE_COMPLETED then
          (case ev_usage e of None \<Rightarrow> Inl GatewayProtocolError
           | Some u \<Rightarrow> if gn_usage st \<noteq> None then Inl GatewayProtocolError else Inr (st\<lparr>gn_usage := Some u\<rparr>))
        else Inr st)
       (\<lambda>st. Inr (if client_terminal e then st\<lparr>gn_terminal := Some e\<rparr> else st))"

fun generate_events :: "GatewayStreamEvent list \<Rightarrow> generate_state \<Rightarrow> client_error + generate_state" where
  "generate_events [] st = Inr st"
| "generate_events (e # es) st = ebind (generate_event e st) (generate_events es)"

definition mk_response ::
  "GatewayStreamEvent \<Rightarrow> ExecutionStatus \<Rightarrow> RoutingProvenance \<Rightarrow> GatewayError option \<Rightarrow> generate_state \<Rightarrow> GatewayResponse" where
  "mk_response t status routing error st = \<lparr>gs_request_id = ev_request_id t, gs_status = status,
     gs_content = (if concat (gn_content st) = [] then None else Some (concat (gn_content st))),
     gs_routing = routing, gs_execution = ev_execution t, gs_error = error, gs_structured_output = None,
     gs_tool_calls = gn_tool_calls st\<rparr>"

text \<open>\<open>generate\<close> after the stream ended without an error.\<close>

definition generate_result :: "generate_state \<Rightarrow> client_error + GatewayResponse" where
  "generate_result st = (case gn_terminal st of
      None \<Rightarrow> Inl GatewayProtocolError
    | Some t \<Rightarrow> (case ev_routing t of
        None \<Rightarrow> Inl GatewayProtocolError
      | Some routing \<Rightarrow>
          if ev_event_type t = RESPONSE_COMPLETED then
            (case ev_execution t of
               None \<Rightarrow> Inl GatewayProtocolError
             | Some x \<Rightarrow> if gn_usage st = None \<or> px_usage x \<noteq> gn_usage st then Inl GatewayProtocolError
                 else Inr (mk_response t SUCCEEDED routing None st))
          else if ev_error t = None then Inl GatewayProtocolError
          else (case ev_execution t of
              Some x \<Rightarrow> if px_usage x \<noteq> None \<and> px_usage x \<noteq> gn_usage st then Inl GatewayProtocolError
                else Inr (mk_response t FAILED routing (ev_error t) st)
            | None \<Rightarrow> Inr (mk_response t FAILED routing (ev_error t) st))))"

subsection \<open>The HTTP response\<close>

text \<open>
  Status, headers by lower-case name, the chunks of the body, and whether the transport fails
  after them. The error code that \<open>_extract_http_error_code\<close> reads from an error body is left out.
\<close>

record http_response =
  hr_status_code :: int
  hr_headers :: "string \<Rightarrow> string option"
  hr_body :: "bytes list"
  hr_broken :: bool

text \<open>\<open>str.lower\<close> on Latin-1.\<close>

definition py_lower :: "string \<Rightarrow> string" where
  "py_lower = map (\<lambda>c. let n = code_point c in
     if 65 \<le> n \<and> n \<le> 90 \<or> 192 \<le> n \<and> n \<le> 222 \<and> n \<noteq> 215 then char_of (n + 32) else c)"

definition header_text :: "http_response \<Rightarrow> string \<Rightarrow> string" where
  "header_text r name = (case hr_headers r name of None \<Rightarrow> [] | Some v \<Rightarrow> v)"

definition identity_encoding :: "http_response \<Rightarrow> bool" where
  "identity_encoding r \<longleftrightarrow> py_lower (py_strip (header_text r ''content-encoding'')) \<in> {[], ''identity''}"

definition validate_identity_response :: "http_response \<Rightarrow> client_error + unit" where
  "validate_identity_response r = (if identity_encoding r then Inr () else Inl GatewayProtocolError)"

definition validate_success_content_length :: "int \<Rightarrow> http_response \<Rightarrow> client_error + unit" where
  "validate_success_content_length max_stream r = (case hr_headers r ''content-length'' of
      None \<Rightarrow> Inr ()
    | Some v \<Rightarrow> (case py_int v of
        None \<Rightarrow> Inl GatewayProtocolError
      | Some n \<Rightarrow> if n < 0 \<or> max_stream < n then Inl GatewayProtocolError else Inr ()))"

definition MAX_ERROR_BODY_BYTES :: int where
  "MAX_ERROR_BODY_BYTES = 64 * 1024"

fun read_error_chunks :: "bool \<Rightarrow> bytes \<Rightarrow> bytes list \<Rightarrow> client_error + bytes" where
  "read_error_chunks broken body [] = (if broken then Inl GatewayTransportError else Inr body)"
| "read_error_chunks broken body (part # parts) =
     (if MAX_ERROR_BODY_BYTES < int (length body) + int (length part) then Inr []
      else read_error_chunks broken (body @ part) parts)"

definition read_bounded_error_body :: "http_response \<Rightarrow> client_error + bytes" where
  "read_bounded_error_body r =
     (if \<not> identity_encoding r then Inr []
      else (case hr_headers r ''content-length'' of
          None \<Rightarrow> read_error_chunks (hr_broken r) [] (hr_body r)
        | Some v \<Rightarrow> (case py_int v of
            None \<Rightarrow> Inr []
          | Some n \<Rightarrow> if n < 0 \<or> MAX_ERROR_BODY_BYTES < n then Inr []
              else read_error_chunks (hr_broken r) [] (hr_body r))))"

definition http_error :: "http_response \<Rightarrow> client_error" where
  "http_error r = (case read_bounded_error_body r of Inl e \<Rightarrow> e | Inr _ \<Rightarrow> GatewayHTTPError (hr_status_code r))"

definition media_type :: "http_response \<Rightarrow> string" where
  "media_type r = py_lower (py_strip (takeWhile (\<lambda>c. c \<noteq> CHR '';'') (header_text r ''content-type'')))"

text \<open>\<open>stream\<close> once the response has begun: the events yielded and the error that ended it.\<close>

definition client_stream ::
  "int \<Rightarrow> int \<Rightarrow> uuid \<Rightarrow> http_response \<Rightarrow> GatewayStreamEvent list \<times> client_error option" where
  "client_stream max_event max_stream rid r =
     (if hr_status_code r < 200 \<or> 300 \<le> hr_status_code r then ([], Some (http_error r))
      else case ebind (validate_identity_response r) (\<lambda>_. validate_success_content_length max_stream r) of
        Inl e \<Rightarrow> ([], Some e)
      | Inr _ \<Rightarrow> if media_type r \<noteq> ''text/event-stream'' then ([], Some GatewayProtocolError)
          else iter_sse_events max_event max_stream rid (hr_broken r) (hr_body r))"

definition generate :: "int \<Rightarrow> int \<Rightarrow> uuid \<Rightarrow> http_response \<Rightarrow> client_error + GatewayResponse" where
  "generate max_event max_stream rid r =
     (case client_stream max_event max_stream rid r of (es, fault) \<Rightarrow>
        ebind (generate_events es \<lparr>gn_content = [], gn_tool_calls = [], gn_usage = None, gn_terminal = None\<rparr>) (\<lambda>st.
        case fault of Some e \<Rightarrow> Inl e | None \<Rightarrow> generate_result st))"

end
