(* ===== verification/Event_Wire_Laws.thy ===== *)
theory Event_Wire_Laws
  imports Event_Wire "HOL-Library.Sublist"
begin

text \<open>
  The client's decoders invert the server's payloads: per value, then per event. A dictionary
  arrives with its keys sorted, so tool arguments arrive in canonical order.
\<close>

subsection \<open>Fields of a written object\<close>

definition read_fields :: "(string \<times> json) list \<Rightarrow> fields" where
  "read_fields kvs = sort_key fst (map (\<lambda>(k, v). (k, canonical_value v)) kvs)"

lemma canonical_read [simp]: "canonical_value (JObj kvs) = VObj (read_fields kvs)"
  by (simp add: read_fields_def)

declare canonical_value.simps(6) [simp del]

lemma map_of_sort_key: "distinct (map fst xs) \<Longrightarrow> map_of (sort_key fst xs) = map_of xs"
  by (rule map_of_eqI) (auto simp: distinct_map map_of_eq_Some_iff)

lemma read_fields_get:
  assumes "distinct (map fst kvs)"
  shows "map_of (read_fields kvs) k = map_option canonical_value (map_of kvs k)"
proof -
  have "map fst (map (\<lambda>(k, v). (k, canonical_value v)) kvs) = map fst kvs" by (simp add: comp_def case_prod_unfold)
  then have "map_of (read_fields kvs) = map_of (map (\<lambda>(k, v). (k, canonical_value v)) kvs)"
    unfolding read_fields_def using assms by (intro map_of_sort_key) (simp only:)
  then show ?thesis by (simp add: map_of_map)
qed

lemma read_fields_keys: "set (map fst (read_fields kvs)) = set (map fst kvs)"
  by (force simp: read_fields_def)

text \<open>Looking a key up in a payload written field by field.\<close>

declare map_of_append [simp del]

lemma opt_field_get [simp]: "map_of (opt_field k f x) k' = (if k' = k then map_option f x else None)"
  by (auto simp: opt_field_def split: option.splits)

lemma opt_field_skip [simp]: "k' \<noteq> k \<Longrightarrow> map_of (opt_field k f x @ kvs) k' = map_of kvs k'"
  by (simp add: opt_field_def split: option.splits)

lemma opt_field_hit [simp]: "map_of kvs k = None \<Longrightarrow> map_of (opt_field k f x @ kvs) k = map_option f x"
  by (simp add: opt_field_def split: option.splits)

lemma subseq_subset: "subseq xs ys \<Longrightarrow> set xs \<subseteq> set ys"
  by (induction rule: list_emb.induct) auto

lemma subseq_distinct: "subseq xs ys \<Longrightarrow> distinct ys \<Longrightarrow> distinct xs"
  by (induction rule: list_emb.induct) (auto dest: list_emb_set)

text \<open>The keys of a payload are some of the names its reader knows, each once.\<close>

definition keyed :: "string list \<Rightarrow> (string \<times> json) list \<Rightarrow> bool" where
  "keyed names kvs \<longleftrightarrow> subseq (map fst kvs) names \<and> distinct names"

lemma keyed_check:
  assumes "keyed names kvs" "set names \<subseteq> set allowed"
  shows "check_fields allowed (read_fields kvs) = Inr ()"
proof -
  have "set (map fst (read_fields kvs)) \<subseteq> set allowed"
    unfolding read_fields_keys using assms subseq_subset[of "map fst kvs" names] unfolding keyed_def by simp
  then show ?thesis unfolding check_fields_def by (auto simp: list_all_iff)
qed

lemma keyed_get: "keyed names kvs \<Longrightarrow> map_of (read_fields kvs) k = map_option canonical_value (map_of kvs k)"
  unfolding keyed_def by (blast intro: read_fields_get subseq_distinct)

lemma subseq_opt_field: "subseq (map fst (opt_field k f x)) [k]"
  by (simp add: opt_field_def split: option.splits)

lemma subseq_step: "subseq xs [k] \<Longrightarrow> subseq ys ks \<Longrightarrow> subseq (xs @ ys) (k # ks)"
  using list_emb_append_mono[of "(=)" xs "[k]" ys ks] by simp

lemma subseq_if: "subseq (map fst (if b then [] else [(k, v)])) [k]" "subseq (map fst (if b then [(k, v)] else [])) [k]"
  by simp_all

lemmas keyed_intros = subseq_step[OF subseq_opt_field] subseq_opt_field subseq_if subseq_step[OF subseq_if(1)]
  subseq_step[OF subseq_if(2)]

subsection \<open>Values\<close>

lemma event_type_round_trip [simp]:
  "enum_of event_type_value all_event_types (event_type_value t) = Some t" "event_type_value t \<noteq> []"
  by (cases t; simp add: enum_of_def all_event_types_def)+

lemma status_round_trip [simp]:
  "enum_of status_value all_statuses (status_value t) = Some t" "status_value t \<noteq> []"
  by (cases t; simp add: enum_of_def all_statuses_def)+

lemma rejection_round_trip [simp]:
  "enum_of rejection_value all_rejections (rejection_value t) = Some t" "rejection_value t \<noteq> []"
  by (cases t; simp add: enum_of_def all_rejections_def)+

lemma read_values [simp]:
  "s \<noteq> [] \<Longrightarrow> string_value (Some (VStr s)) = Inr s"
  "int_value (Some (VInt i)) = Inr i" "bool_value (Some (VBool b)) = Inr b"
  "as_object (Some (VObj kvs)) = Inr kvs" "as_list (VList vs) = Inr vs" "protocol (Some x) = Inr x"
  "ok y \<Longrightarrow> constructed ok y = Inr y"
  by (simp_all add: string_value_def int_value_def bool_value_def as_object_def as_list_def protocol_def constructed_def
      split: list.splits)

lemma canonical_not_null: "canonical_value j \<noteq> VNull \<longleftrightarrow> j \<noteq> JNull"
  by (cases j) auto

lemma optional_get:
  assumes "map_of kvs k = map_option canonical_value (map_option g x)"
    "\<And>v. x = Some v \<Longrightarrow> g v \<noteq> JNull \<and> f (Some (canonical_value (g v))) = Inr (h v)"
  shows "optional f kvs k = Inr (map_option h x)"
  using assms canonical_not_null by (cases x) (auto simp: optional_def is_null_def Let_def)

lemma optional_str_get:
  "map_of kvs k = map_option canonical_value (map_option JStr x) \<Longrightarrow> opt_all (\<lambda>s. s \<noteq> []) x \<Longrightarrow> optional_str kvs k = Inr x"
  using optional_get[where g = JStr and f = string_value and h = "\<lambda>s. s", of kvs k x]
  by (auto simp: optional_str_def opt_all_def split: option.splits)

lemma optional_int_get:
  "map_of kvs k = map_option canonical_value (map_option JInt x) \<Longrightarrow> optional_int kvs k = Inr x"
  using optional_get[where g = JInt and f = int_value and h = "\<lambda>s. s", of kvs k x]
  by (auto simp: optional_int_def option.map_ident)

lemma required_get:
  "map_of kvs k = Some (VStr s) \<Longrightarrow> s \<noteq> [] \<Longrightarrow> required_str kvs k = Inr s"
  "map_of kvs k = Some (VInt i) \<Longrightarrow> required_int kvs k = Inr i"
  by (simp_all add: required_str_def required_int_def)

text \<open>A payload that its reader turns into a given value.\<close>

definition wired :: "(fields \<Rightarrow> client_error + 'a) \<Rightarrow> json \<Rightarrow> 'a \<Rightarrow> bool" where
  "wired dec j x \<longleftrightarrow> (case j of JObj kvs \<Rightarrow> json_ok j \<and> dec (read_fields kvs) = Inr x | _ \<Rightarrow> False)"

lemma wired_object [simp]: "wired dec (JObj kvs) x \<longleftrightarrow> json_ok (JObj kvs) \<and> dec (read_fields kvs) = Inr x"
  by (simp add: wired_def)

lemma wired_ok: "wired dec j x \<Longrightarrow> json_ok j"
  by (cases j) (simp_all add: wired_def)

lemma wired_not_null: "wired dec j x \<Longrightarrow> j \<noteq> JNull"
  by (cases j) (simp_all add: wired_def)

lemma wired_value: "wired dec j x \<Longrightarrow> ebind (as_object (Some (canonical_value j))) dec = Inr x"
  by (cases j) (simp_all add: wired_def)

lemma optional_wired:
  assumes "map_of kvs k = map_option canonical_value (map_option g x)" "opt_all (\<lambda>v. wired dec (g v) (h v)) x"
  shows "optional (\<lambda>v. ebind (as_object v) dec) kvs k = Inr (map_option h x)"
proof (rule optional_get[OF assms(1)])
  fix v assume "x = Some v"
  with assms(2) have w: "wired dec (g v) (h v)" by (simp add: opt_all_def)
  show "g v \<noteq> JNull \<and> ebind (as_object (Some (canonical_value (g v)))) dec = Inr (h v)"
    by (rule conjI[OF wired_not_null[OF w] wired_value[OF w]])
qed

lemma keyed_ok: "keyed names kvs \<Longrightarrow> list_all (\<lambda>(k, v). json_ok v) kvs \<Longrightarrow> json_ok (JObj kvs)"
  unfolding keyed_def by (auto dest: subseq_distinct)

lemma opt_field_ok [simp]: "list_all (\<lambda>(k, v). json_ok v) (opt_field k f x) \<longleftrightarrow> opt_all (\<lambda>v. json_ok (f v)) x"
  by (simp add: opt_field_def opt_all_def split: option.splits)

lemma opt_all_True [simp]: "opt_all (\<lambda>_. True) x"
  by (simp add: opt_all_def split: option.splits)

subsection \<open>Small payloads\<close>

abbreviation wire_int :: "int \<Rightarrow> bool" where
  "wire_int i \<equiv> length (nat_digits \<bar>i\<bar>) \<le> MAX_INT_DIGITS"

definition rejection_wire :: "CandidateRejection \<Rightarrow> bool" where
  "rejection_wire c \<longleftrightarrow> cr_deployment c \<noteq> [] \<and> opt_all (\<lambda>s. s \<noteq> []) (cr_detail c)"

lemma rejection_reads:
  assumes "rejection_wire c"
  shows "wired decode_rejection (rejection_payload c) c"
proof -
  define kvs where "kvs = [(''deployment'', JStr (cr_deployment c)), (''reason'', JStr (rejection_value (cr_reason c)))] @
     opt_field ''detail'' JStr (cr_detail c)"
  have k: "keyed [''deployment'', ''reason'', ''detail''] kvs"
    unfolding keyed_def kvs_def by (simp add: subseq_opt_field)
  have ok: "json_ok (JObj kvs)" by (rule keyed_ok[OF k]) (simp add: kvs_def)
  note get = keyed_get[OF k] arg_cong[OF kvs_def, of map_of]
  have "optional_str (read_fields kvs) ''detail'' = Inr (cr_detail c)"
    by (rule optional_str_get) (use assms in \<open>simp_all add: get rejection_wire_def\<close>)
  then have "decode_rejection (read_fields kvs) = Inr c"
    using assms unfolding decode_rejection_def
    by (simp add: keyed_check[OF k] required_str_def get rejection_wire_def)
  with ok have "wired decode_rejection (JObj kvs) c" by (simp only: wired_object)
  then show ?thesis by (simp add: rejection_payload_def kvs_def)
qed

definition error_wire :: "GatewayError \<Rightarrow> bool" where
  "error_wire e \<longleftrightarrow> ge_code e \<noteq> [] \<and> ge_message e \<noteq> []"

lemma error_reads:
  assumes "error_wire e"
  shows "wired decode_error (error_payload e) e"
proof -
  define kvs where "kvs = [(''code'', JStr (ge_code e)), (''message'', JStr (ge_message e)), (''retryable'', JBool (ge_retryable e))]"
  have k: "keyed [''code'', ''message'', ''retryable''] kvs" unfolding keyed_def kvs_def by simp
  have ok: "json_ok (JObj kvs)" by (rule keyed_ok[OF k]) (simp add: kvs_def)
  note get = keyed_get[OF k] arg_cong[OF kvs_def, of map_of]
  have "decode_error (read_fields kvs) = Inr e"
    using assms unfolding decode_error_def
    by (simp add: keyed_check[OF k] required_str_def get error_wire_def)
  with ok have "wired decode_error (JObj kvs) e" by (simp only: wired_object)
  then show ?thesis by (simp add: error_payload_def kvs_def)
qed

definition policy_wire :: "PolicyProvenance \<Rightarrow> bool" where
  "policy_wire p \<longleftrightarrow> pp_decision_id p \<noteq> [] \<and> pp_policy_id p \<noteq> [] \<and> pp_policy_version p \<noteq> [] \<and> pp_policy_digest p \<noteq> []"

definition policy_fields :: "string list" where
  "policy_fields = [''decision_id'', ''policy_id'', ''policy_version'', ''policy_digest'']"

lemma policy_reads:
  assumes "policy_wire p"
  shows "wired (\<lambda>kvs. ebind (check_fields policy_fields kvs) (\<lambda>_. decode_policy kvs)) (policy_payload p) p"
proof -
  define kvs where "kvs = [(''decision_id'', JStr (pp_decision_id p)), (''policy_id'', JStr (pp_policy_id p)),
     (''policy_version'', JStr (pp_policy_version p)), (''policy_digest'', JStr (pp_policy_digest p))]"
  have k: "keyed policy_fields kvs" unfolding keyed_def kvs_def policy_fields_def by simp
  have ok: "json_ok (JObj kvs)" by (rule keyed_ok[OF k]) (simp add: kvs_def)
  note get = keyed_get[OF k] arg_cong[OF kvs_def, of map_of]
  have "decode_policy (read_fields kvs) = Inr p"
    using assms unfolding decode_policy_def by (simp add: required_str_def get policy_wire_def)
  with ok have "wired (\<lambda>kvs. ebind (check_fields policy_fields kvs) (\<lambda>_. decode_policy kvs)) (JObj kvs) p"
    by (simp add: keyed_check[OF k] del: json_ok.simps)
  then show ?thesis by (simp add: policy_payload_def kvs_def)
qed

subsection \<open>Usage\<close>

definition usage_wire :: "Usage \<Rightarrow> bool" where
  "usage_wire u \<longleftrightarrow> Usage_ok u \<and> list_all wire_int [ug_input_tokens u, ug_output_tokens u] \<and>
     list_all (opt_all wire_int) [ug_total_tokens u, ug_cache_read_input_tokens u, ug_cache_write_input_tokens u] \<and>
     opt_all (\<lambda>c. d_fix c = Some c) (ug_total_cost_usd u)"

definition cost_text :: "rat \<Rightarrow> string" where
  "cost_text c = (case canonical_decimal c of None \<Rightarrow> [] | Some t \<Rightarrow> t)"

lemma cost_reads:
  assumes "0 \<le> c" "d_fix c = Some c"
  shows "canonical_decimal c = Some (cost_text c)" "decode_cost (Some (VStr (cost_text c))) = Inr c"
proof -
  show t: "canonical_decimal c = Some (cost_text c)" using assms(2) by (simp add: cost_text_def canonical_decimal_def)
  show "decode_cost (Some (VStr (cost_text c))) = Inr c"
    using parse_canonical_decimal[OF assms t] by (simp add: decode_cost_def)
qed

lemma Usage_eta: "\<lparr>ug_input_tokens = ug_input_tokens u, ug_output_tokens = ug_output_tokens u,
    ug_total_tokens = ug_total_tokens u, ug_cache_read_input_tokens = ug_cache_read_input_tokens u,
    ug_cache_write_input_tokens = ug_cache_write_input_tokens u, ug_total_cost_usd = ug_total_cost_usd u\<rparr> = u"
  by (cases u) simp

lemma usage_reads:
  assumes "usage_wire u"
  shows "\<exists>j. usage_payload u = Some j \<and> wired decode_usage j u"
proof -
  define kvs where "kvs = [(''input_tokens'', JInt (ug_input_tokens u)), (''output_tokens'', JInt (ug_output_tokens u))] @
     opt_field ''total_tokens'' JInt (ug_total_tokens u) @
     opt_field ''cache_read_input_tokens'' JInt (ug_cache_read_input_tokens u) @
     opt_field ''cache_write_input_tokens'' JInt (ug_cache_write_input_tokens u) @
     opt_field ''total_cost_usd'' (\<lambda>c. JStr (cost_text c)) (ug_total_cost_usd u)"
  have cost: "opt_all (\<lambda>c. 0 \<le> c \<and> d_fix c = Some c) (ug_total_cost_usd u)"
    using assms by (simp add: usage_wire_def Usage_ok_def opt_all_def split: option.splits)
  have payload: "usage_payload u = Some (JObj kvs)"
    using cost cost_reads(1) unfolding usage_payload_def kvs_def
    by (auto simp: opt_field_def opt_all_def split: option.splits)
  have k: "keyed usage_fields kvs"
    unfolding keyed_def kvs_def usage_fields_def by (simp add: keyed_intros)
  have ok: "json_ok (JObj kvs)" by (rule keyed_ok[OF k]) (use assms in \<open>simp add: kvs_def usage_wire_def\<close>)
  note get = keyed_get[OF k] arg_cong[OF kvs_def, of map_of]
  have ints: "optional_int (read_fields kvs) ''total_tokens'' = Inr (ug_total_tokens u)"
    "optional_int (read_fields kvs) ''cache_read_input_tokens'' = Inr (ug_cache_read_input_tokens u)"
    "optional_int (read_fields kvs) ''cache_write_input_tokens'' = Inr (ug_cache_write_input_tokens u)"
    by (rule optional_int_get; simp add: get)+
  have "optional decode_cost (read_fields kvs) ''total_cost_usd'' = Inr (map_option (\<lambda>c. c) (ug_total_cost_usd u))"
    by (rule optional_get[where g = "\<lambda>c. JStr (cost_text c)"])
      (use cost cost_reads(2) in \<open>simp_all add: get opt_all_def\<close>)
  then have "decode_usage (read_fields kvs) = Inr u"
    using assms unfolding decode_usage_def
    by (simp add: keyed_check[OF k] required_int_def get usage_wire_def ints option.map_ident Usage_eta)
  with ok have "wired decode_usage (JObj kvs) u" by (simp only: wired_object)
  with payload show ?thesis by blast
qed

subsection \<open>Executions\<close>

definition execution_wire :: "ProviderExecution \<Rightarrow> bool" where
  "execution_wire x \<longleftrightarrow> ProviderExecution_ok x \<and>
     list_all wire_int [px_latency_ms x, px_attempt_number x, px_fallback_index x] \<and>
     opt_all wire_int (px_max_output_tokens x) \<and> opt_all usage_wire (px_usage x)"

lemma execution_texts:
  assumes "ProviderExecution_ok x"
  shows "px_provider x \<noteq> []" "px_model x \<noteq> []" "px_deployment x \<noteq> []"
    "opt_all (\<lambda>s. s \<noteq> []) (px_provider_request_id x)" "opt_all (\<lambda>s. s \<noteq> []) (px_finish_reason x)"
    "opt_all (\<lambda>s. s \<noteq> []) (px_api_family x)" "opt_all (\<lambda>s. s \<noteq> []) (px_trace_id x)"
  using assms by (auto simp: ProviderExecution_ok_def opt_all_def normalized_def trace_id_ok_def py_strip_def split: option.splits)

lemma ProviderExecution_eta: "\<lparr>px_provider = px_provider x, px_model = px_model x, px_deployment = px_deployment x,
    px_status = px_status x, px_latency_ms = px_latency_ms x, px_usage = px_usage x,
    px_provider_request_id = px_provider_request_id x, px_finish_reason = px_finish_reason x,
    px_attempt_number = px_attempt_number x, px_fallback_index = px_fallback_index x, px_api_family = px_api_family x,
    px_max_output_tokens = px_max_output_tokens x, px_trace_id = px_trace_id x, px_cached = px_cached x\<rparr> = x"
  by (cases x) simp

text \<open>The payload of an optional part, when every value has one.\<close>

lemma opt_payload_wired:
  assumes "\<And>v. P v \<Longrightarrow> \<exists>j. f v = Some j \<and> wired dec j (h v)" "opt_all P x"
  shows "\<exists>g. opt_payload f x = Some (map_option g x) \<and> opt_all (\<lambda>v. wired dec (g v) (h v)) x"
proof (cases x)
  case (Some v)
  then obtain j where "f v = Some j" "wired dec j (h v)" using assms by (auto simp: opt_all_def)
  with Some show ?thesis by (intro exI[of _ "\<lambda>_. j"]) (simp add: opt_payload_def opt_all_def)
qed (simp add: opt_payload_def opt_all_def)

lemma opt_field_map: "opt_field k (\<lambda>j. j) (map_option g x) = opt_field k g x"
  by (simp add: opt_field_def split: option.splits)

lemma if_field: "(if b then [(k, v)] else []) = opt_field k (\<lambda>_. v) (if b then Some () else None)"
  "(if b then [] else [(k, v)]) = opt_field k (\<lambda>_. v) (if b then None else Some ())"
  by (simp_all add: opt_field_def)

lemma opt_all_ok: "opt_all (\<lambda>v. wired dec (g v) (h v)) x \<Longrightarrow> opt_all (\<lambda>v. json_ok (g v)) x"
  by (auto simp: opt_all_def wired_ok split: option.splits)

lemma execution_reads:
  assumes "execution_wire x"
  shows "\<exists>j. execution_payload x = Some j \<and> wired decode_execution j x"
proof -
  have w: "ProviderExecution_ok x" "opt_all usage_wire (px_usage x)" using assms by (simp_all add: execution_wire_def)
  obtain g where g: "opt_payload usage_payload (px_usage x) = Some (map_option g (px_usage x))"
    "opt_all (\<lambda>u. wired decode_usage (g u) ((\<lambda>u. u) u)) (px_usage x)"
    using opt_payload_wired[where h = "\<lambda>u. u", OF usage_reads w(2)] by blast
  define kvs where "kvs = [(''provider'', JStr (px_provider x)), (''model'', JStr (px_model x)),
       (''deployment'', JStr (px_deployment x)), (''status'', JStr (status_value (px_status x))),
       (''latency_ms'', JInt (px_latency_ms x)), (''attempt_number'', JInt (px_attempt_number x)),
       (''fallback_index'', JInt (px_fallback_index x))] @
     opt_field ''api_family'' JStr (px_api_family x) @
     opt_field ''max_output_tokens'' JInt (px_max_output_tokens x) @
     opt_field ''provider_request_id'' JStr (px_provider_request_id x) @
     opt_field ''finish_reason'' JStr (px_finish_reason x) @
     opt_field ''trace_id'' JStr (px_trace_id x) @
     opt_field ''cached'' (\<lambda>_. JBool True) (if px_cached x then Some () else None) @
     opt_field ''usage'' g (px_usage x)"
  have payload: "execution_payload x = Some (JObj kvs)"
    unfolding execution_payload_def kvs_def g(1) option.case opt_field_map if_field ..
  have k: "keyed [''provider'', ''model'', ''deployment'', ''status'', ''latency_ms'', ''attempt_number'',
      ''fallback_index'', ''api_family'', ''max_output_tokens'', ''provider_request_id'', ''finish_reason'',
      ''trace_id'', ''cached'', ''usage''] kvs"
    unfolding keyed_def kvs_def by (simp add: keyed_intros)
  have ok: "json_ok (JObj kvs)"
    by (rule keyed_ok[OF k]) (use assms opt_all_ok[OF g(2)] in \<open>simp add: kvs_def execution_wire_def\<close>)
  note get = keyed_get[OF k] arg_cong[OF kvs_def, of map_of]
  have texts: "optional_str (read_fields kvs) ''provider_request_id'' = Inr (px_provider_request_id x)"
    "optional_str (read_fields kvs) ''finish_reason'' = Inr (px_finish_reason x)"
    "optional_str (read_fields kvs) ''api_family'' = Inr (px_api_family x)"
    "optional_str (read_fields kvs) ''trace_id'' = Inr (px_trace_id x)"
    by (rule optional_str_get; simp add: get execution_texts[OF w(1)])+
  have ints: "optional_int (read_fields kvs) ''max_output_tokens'' = Inr (px_max_output_tokens x)"
    "optional_int (read_fields kvs) ''attempt_number'' = Inr (Some (px_attempt_number x))"
    "optional_int (read_fields kvs) ''fallback_index'' = Inr (Some (px_fallback_index x))"
    by (rule optional_int_get; simp add: get)+
  have "optional (\<lambda>v. ebind (as_object v) decode_usage) (read_fields kvs) ''usage'' = Inr (map_option (\<lambda>u. u) (px_usage x))"
    by (rule optional_wired[OF _ g(2)]) (simp add: get)
  moreover have "truthy (map_of (read_fields kvs) ''cached'') = Inr (px_cached x)" by (simp add: get truthy_def)
  ultimately have "decode_execution (read_fields kvs) = Inr x"
    using w(1) unfolding decode_execution_def
    by (simp add: keyed_check[OF k] execution_fields_def required_int_def required_str_def get execution_texts[OF w(1)]
        texts ints option.map_ident ProviderExecution_eta)
  with ok have "wired decode_execution (JObj kvs) x" by (simp only: wired_object)
  with payload show ?thesis by blast
qed

subsection \<open>Tool calls\<close>

fun canonical_json :: "json \<Rightarrow> json" where
  "canonical_json (JList xs) = JList (map canonical_json xs)"
| "canonical_json (JObj kvs) = JObj (sort_key fst (map (\<lambda>(k, v). (k, canonical_json v)) kvs))"
| "canonical_json j = j"

definition canonical_args :: "(string \<times> json) list \<Rightarrow> (string \<times> json) list" where
  "canonical_args kvs = sort_key fst (map (\<lambda>(k, v). (k, canonical_json v)) kvs)"

definition canonical_call :: "ToolCall \<Rightarrow> ToolCall" where
  "canonical_call c = c\<lparr>tc_arguments := canonical_args (tc_arguments c)\<rparr>"

lemma emap_of_map: "emap f (map g xs) = emap (\<lambda>x. f (g x)) xs"
  by (induction xs) simp_all

lemma emap_fields:
  assumes "\<And>k v. (k, v) \<in> set kvs \<Longrightarrow> json_of_value (canonical_value v) = Inr (canonical_json v)"
  shows "emap (\<lambda>(k, v). ebind (json_of_value v) (\<lambda>j. Inr (k, j))) (read_fields kvs) = Inr (canonical_args kvs)"
proof -
  have r: "read_fields kvs = map (\<lambda>(k, v). (k, canonical_value v)) (sort_key fst kvs)"
    using sort_key_map[of fst "\<lambda>(k, v). (k, canonical_value v)" kvs] by (simp add: read_fields_def case_prod_beta)
  have c: "canonical_args kvs = map (\<lambda>(k, v). (k, canonical_json v)) (sort_key fst kvs)"
    using sort_key_map[of fst "\<lambda>(k, v). (k, canonical_json v)" kvs] by (simp add: canonical_args_def case_prod_beta)
  show ?thesis unfolding r c emap_of_map using assms by (intro emap_total) auto
qed

lemma json_of_canonical: "json_of_value (canonical_value j) = Inr (canonical_json j)"
proof (induction j)
  case (JList xs)
  then have "emap (\<lambda>x. json_of_value (canonical_value x)) xs = Inr (map canonical_json xs)" by (intro emap_total)
  then show ?case by (simp add: emap_of_map comp_def)
next
  case (JObj kvs)
  have "emap (\<lambda>(k, v). ebind (json_of_value v) (\<lambda>j. Inr (k, j))) (read_fields kvs) = Inr (canonical_args kvs)"
    by (rule emap_fields) (use JObj in auto)
  then show ?case by (simp add: emap_of_map canonical_args_def)
qed simp_all

definition tool_call_wire :: "ToolCall \<Rightarrow> bool" where
  "tool_call_wire c \<longleftrightarrow> ToolCall_ok c \<and> json_ok (JObj (tc_arguments c))"

lemma tool_call_reads:
  assumes "tool_call_wire c"
  shows "wired decode_tool_call (tool_call_payload c) (canonical_call c)"
proof -
  define kvs where "kvs = [(''call_id'', JStr (tc_call_id c)), (''name'', JStr (tc_name c)), (''arguments'', JObj (tc_arguments c))]"
  have k: "keyed [''call_id'', ''name'', ''arguments''] kvs" unfolding keyed_def kvs_def by simp
  have ok: "json_ok (JObj kvs)" by (rule keyed_ok[OF k]) (use assms in \<open>simp add: kvs_def tool_call_wire_def\<close>)
  note get = keyed_get[OF k] arg_cong[OF kvs_def, of map_of]
  have n: "tc_call_id c \<noteq> []" "tc_name c \<noteq> []" "ToolCall_ok (canonical_call c)"
    using assms by (auto simp: tool_call_wire_def ToolCall_ok_def normalized_def tool_name_ok_def name_pattern_def canonical_call_def)
  have "canonical_call c = \<lparr>tc_call_id = tc_call_id c, tc_name = tc_name c, tc_arguments = canonical_args (tc_arguments c)\<rparr>"
    by (cases c) (simp add: canonical_call_def)
  then have "decode_tool_call (read_fields kvs) = Inr (canonical_call c)"
    using n emap_fields[of "tc_arguments c", OF json_of_canonical] unfolding decode_tool_call_def
    by (simp add: keyed_check[OF k] required_str_def get)
  with ok have "wired decode_tool_call (JObj kvs) (canonical_call c)" by (simp only: wired_object)
  then show ?thesis by (simp add: tool_call_payload_def kvs_def)
qed

subsection \<open>Routing provenance\<close>

definition routing_wire :: "RoutingProvenance \<Rightarrow> bool" where
  "routing_wire r \<longleftrightarrow> policy_wire (rp_policy r) \<and>
     list_all (\<lambda>s. s \<noteq> []) [rp_routing_decision_id r, rp_authorized_model_group r, rp_model_registry_digest r,
       rp_ranking_policy_version r] \<and>
     list_all (opt_all (\<lambda>s. s \<noteq> [])) [rp_ranking_policy_digest r, rp_score_snapshot_id r, rp_benchmark_snapshot_id r,
       rp_score_provenance_mode r, rp_manual_override_id r, rp_provider r, rp_model r, rp_deployment r] \<and>
     list_all rejection_wire (rp_rejected_candidates r) \<and> list_all (\<lambda>s. s \<noteq> []) (rp_fallback_sequence r)"

lemma RoutingProvenance_eta: "\<lparr>rp_routing_decision_id = rp_routing_decision_id r, rp_policy = rp_policy r,
    rp_authorized_model_group = rp_authorized_model_group r, rp_model_registry_digest = rp_model_registry_digest r,
    rp_ranking_policy_version = rp_ranking_policy_version r, rp_ranking_policy_digest = rp_ranking_policy_digest r,
    rp_score_snapshot_id = rp_score_snapshot_id r, rp_benchmark_snapshot_id = rp_benchmark_snapshot_id r,
    rp_score_provenance_mode = rp_score_provenance_mode r, rp_manual_override_id = rp_manual_override_id r,
    rp_provider = rp_provider r, rp_model = rp_model r, rp_deployment = rp_deployment r,
    rp_rejected_candidates = rp_rejected_candidates r, rp_fallback_sequence = rp_fallback_sequence r\<rparr> = r"
  by (cases r) simp

lemma routing_reads:
  assumes "routing_wire r"
  shows "wired decode_routing (routing_payload r) r"
proof -
  define kvs where "kvs = [(''routing_decision_id'', JStr (rp_routing_decision_id r)), (''policy'', policy_payload (rp_policy r)),
      (''authorized_model_group'', JStr (rp_authorized_model_group r)),
      (''model_registry_digest'', JStr (rp_model_registry_digest r)),
      (''ranking_policy_version'', JStr (rp_ranking_policy_version r)),
      (''fallback_sequence'', JList (map JStr (rp_fallback_sequence r)))] @
     opt_field ''ranking_policy_digest'' JStr (rp_ranking_policy_digest r) @
     opt_field ''score_snapshot_id'' JStr (rp_score_snapshot_id r) @
     opt_field ''benchmark_snapshot_id'' JStr (rp_benchmark_snapshot_id r) @
     opt_field ''score_provenance_mode'' JStr (rp_score_provenance_mode r) @
     opt_field ''manual_override_id'' JStr (rp_manual_override_id r) @
     opt_field ''provider'' JStr (rp_provider r) @ opt_field ''model'' JStr (rp_model r) @
     opt_field ''deployment'' JStr (rp_deployment r) @
     opt_field ''rejected_candidates'' (\<lambda>_. JList (map rejection_payload (rp_rejected_candidates r)))
       (if rp_rejected_candidates r = [] then None else Some ())"
  have payload: "routing_payload r = JObj kvs" unfolding routing_payload_def kvs_def if_field ..
  have k: "keyed [''routing_decision_id'', ''policy'', ''authorized_model_group'', ''model_registry_digest'',
      ''ranking_policy_version'', ''fallback_sequence'', ''ranking_policy_digest'', ''score_snapshot_id'',
      ''benchmark_snapshot_id'', ''score_provenance_mode'', ''manual_override_id'', ''provider'', ''model'',
      ''deployment'', ''rejected_candidates''] kvs"
    unfolding keyed_def kvs_def by (simp add: keyed_intros)
  have w: "policy_wire (rp_policy r)" "\<And>c. c \<in> set (rp_rejected_candidates r) \<Longrightarrow> rejection_wire c"
    "\<And>s. s \<in> set (rp_fallback_sequence r) \<Longrightarrow> s \<noteq> []"
    using assms by (auto simp: routing_wire_def list_all_iff)
  have lists: "json_ok (JList (map rejection_payload (rp_rejected_candidates r)))"
    "json_ok (JList (map JStr (rp_fallback_sequence r)))"
    using wired_ok[OF rejection_reads[OF w(2)]] by (auto simp: list_all_iff)
  have ok: "json_ok (JObj kvs)"
    by (rule keyed_ok[OF k]) (simp add: kvs_def lists[unfolded json_ok.simps] wired_ok[OF policy_reads[OF w(1)]])
  note get = keyed_get[OF k] arg_cong[OF kvs_def, of map_of]
  have texts: "optional_str (read_fields kvs) ''ranking_policy_digest'' = Inr (rp_ranking_policy_digest r)"
    "optional_str (read_fields kvs) ''score_snapshot_id'' = Inr (rp_score_snapshot_id r)"
    "optional_str (read_fields kvs) ''benchmark_snapshot_id'' = Inr (rp_benchmark_snapshot_id r)"
    "optional_str (read_fields kvs) ''score_provenance_mode'' = Inr (rp_score_provenance_mode r)"
    "optional_str (read_fields kvs) ''manual_override_id'' = Inr (rp_manual_override_id r)"
    "optional_str (read_fields kvs) ''provider'' = Inr (rp_provider r)"
    "optional_str (read_fields kvs) ''model'' = Inr (rp_model r)"
    "optional_str (read_fields kvs) ''deployment'' = Inr (rp_deployment r)"
    by (rule optional_str_get; use assms in \<open>simp add: get routing_wire_def\<close>)+
  obtain pk where pk: "policy_payload (rp_policy r) = JObj pk" by (simp add: policy_payload_def)
  have policy: "check_fields policy_fields (read_fields pk) = Inr ()" "decode_policy (read_fields pk) = Inr (rp_policy r)"
    using policy_reads[OF w(1)] unfolding pk by auto
  have "list_field (read_fields kvs) ''rejected_candidates'' = VList (map (\<lambda>c. canonical_value (rejection_payload c)) (rp_rejected_candidates r))"
    by (simp add: list_field_def get comp_def)
  moreover have "emap (\<lambda>c. ebind (as_object (Some (canonical_value (rejection_payload c)))) decode_rejection)
      (rp_rejected_candidates r) = Inr (map (\<lambda>c. c) (rp_rejected_candidates r))"
    by (rule emap_total) (rule wired_value[OF rejection_reads[OF w(2)]])
  moreover have "list_field (read_fields kvs) ''fallback_sequence'' = VList (map VStr (rp_fallback_sequence r))"
    by (simp add: list_field_def get comp_def)
  moreover have "emap (\<lambda>s. string_value (Some (VStr s))) (rp_fallback_sequence r) = Inr (map (\<lambda>s. s) (rp_fallback_sequence r))"
    by (rule emap_total) (simp add: w(3))
  ultimately have "decode_routing (read_fields kvs) = Inr r"
    using assms policy texts unfolding decode_routing_def
    by (simp add: keyed_check[OF k] routing_fields_def policy_fields_def required_str_def get pk routing_wire_def emap_of_map
        RoutingProvenance_eta del: ebind_Inr_iff)
  with ok have "wired decode_routing (JObj kvs) r" by (simp only: wired_object)
  with payload show ?thesis by simp
qed

subsection \<open>Request identifiers\<close>

lemma remove_word_absent: "w \<noteq> [] \<Longrightarrow> hd w \<notin> set s \<Longrightarrow> remove_word w s = s"
  by (induction s) (auto simp: starts_def neq_Nil_conv)

lemma starts_subset: "starts w s \<Longrightarrow> set w \<subseteq> set s"
  unfolding starts_def by (metis set_take_subset)

lemma py_split_absent: "sep \<notin> set s \<Longrightarrow> py_split sep s = [s]"
  by (induction s) auto

lemma hex_not: "is_hex c \<Longrightarrow> c \<noteq> CHR ''u'' \<and> c \<noteq> CHR ''{'' \<and> c \<noteq> CHR ''}'' \<and> c \<noteq> CHR ''-'' \<and> c \<noteq> CHR ''+'' \<and>
    c \<noteq> CHR ''_'' \<and> c \<noteq> CHR ''x'' \<and> c \<noteq> CHR ''X'' \<and> hex_char c \<noteq> None"
  by (auto simp: is_hex_def is_digit_def hex_char_def Let_def)

lemma py_int16_hex:
  assumes "s \<noteq> []" "\<And>c. c \<in> set s \<Longrightarrow> is_hex c" "hex_value 0 s = Some n"
  shows "py_int16 s = Some (int n)"
proof -
  have space: "\<not> py_space c" if "c \<in> set s" for c
    using assms(2)[OF that] by (intro alnum_not_space) (auto simp: is_hex_def is_alnum_def is_lower_def)
  then have strip: "py_strip s = s" using assms(1) by (intro py_strip_ends) auto
  have sign: "int_sign s = (False, s)"
    using assms(1) hex_not[OF assms(2)] by (cases s) (auto simp: int_sign_def)
  have pre: "\<not> starts ''0x'' s" "\<not> starts ''0X'' s"
    using starts_subset[of "''0x''" s] starts_subset[of "''0X''" s] assms(2) hex_not by auto
  have "CHR ''_'' \<notin> set s" "list_all (\<lambda>c. hex_char c \<noteq> None) s"
    using assms(2) hex_not by (auto simp: list_all_iff)
  then have "digit_runs (\<lambda>c. hex_char c \<noteq> None) s = Some s"
    using assms(1) by (simp add: digit_runs_def py_split_absent)
  with pre assms(3) show ?thesis by (simp add: py_int16_def strip sign)
qed

lemma uuid_hex_props: "length (uuid_hex u) = 32" "c \<in> set (uuid_hex u) \<Longrightarrow> is_hex c"
  by (auto simp: uuid_hex_def hex_digits_def hex_digit_is_hex)

lemma uuid_chars: "c \<in> set (uuid_str u) \<Longrightarrow> is_hex c \<or> c = CHR ''-''"
  using uuid_hex_props(2)[of _ u] by (auto simp: uuid_str_def Let_def dest!: in_set_takeD in_set_dropD)

lemma uuid_hyphens: "filter (\<lambda>c. c \<noteq> CHR ''-'') (uuid_str u) = uuid_hex u"
proof -
  have keep: "filter (\<lambda>c. c \<noteq> CHR ''-'') xs = xs" if "set xs \<subseteq> set (uuid_hex u)" for xs
    using that uuid_hex_props(2)[of _ u] hex_not by (intro filter_True) blast
  have cut: "take 4 (drop m h) @ drop (m + 4) h = drop m h" for m and h :: string
    using append_take_drop_id[of 4 "drop m h"] by (simp add: add.commute)
  have "uuid_hex u = take 8 (uuid_hex u) @ take 4 (drop 8 (uuid_hex u)) @ take 4 (drop 12 (uuid_hex u)) @
      take 4 (drop 16 (uuid_hex u)) @ drop 20 (uuid_hex u)"
    using cut[of 8 "uuid_hex u"] cut[of 12 "uuid_hex u"] cut[of 16 "uuid_hex u"] by simp
  then show ?thesis
    by (simp add: uuid_str_def Let_def keep set_take_subset set_drop_subset subset_trans[OF set_take_subset set_drop_subset])
qed

lemma parse_uuid_str: "parse_uuid (uuid_str u) = Some u"
proof -
  let ?s = "uuid_str u"
  have no: "c \<noteq> CHR ''u'' \<and> c \<noteq> CHR ''{'' \<and> c \<noteq> CHR ''}''" if "c \<in> set ?s" for c
    using uuid_chars[OF that] hex_not by auto
  have words: "remove_word ''uuid:'' (remove_word ''urn:'' ?s) = ?s"
    using no by (subst remove_word_absent; (subst remove_word_absent)?) auto
  have brace: "dropWhile (\<lambda>c. c = CHR ''{'' \<or> c = CHR ''}'') s = s" if "set s \<subseteq> set ?s" for s
    using that no by (cases s) auto
  have n: "hex_value 0 (uuid_hex u) = Some (unat u)"
    using unsigned_less[of u, where 'a = nat] by (simp add: uuid_hex_def hex_value_digits)
  have "py_int16 (uuid_hex u) = Some (int (unat u))"
    by (rule py_int16_hex) (use uuid_hex_props(1)[of u] uuid_hex_props(2)[of _ u] n in auto)
  moreover have "int (unat u) < 2 ^ 128" using unsigned_less[of u, where 'a = int] by simp
  ultimately show ?thesis
    using uuid_hex_props(1)[of u] by (simp add: parse_uuid_def words brace uuid_hyphens Let_def)
qed

subsection \<open>Events\<close>

definition event_wire :: "GatewayStreamEvent \<Rightarrow> bool" where
  "event_wire e \<longleftrightarrow> GatewayStreamEvent_ok e \<and> wire_int (ev_sequence_number e) \<and>
     opt_all routing_wire (ev_routing e) \<and>
     list_all (opt_all (\<lambda>s. s \<noteq> [])) [ev_delta e, ev_tool_call_id e, ev_tool_name e, ev_finish_reason e] \<and>
     opt_all tool_call_wire (ev_tool_call e) \<and> opt_all usage_wire (ev_usage e) \<and>
     opt_all execution_wire (ev_execution e) \<and> opt_all error_wire (ev_error e)"

definition canonical_event :: "GatewayStreamEvent \<Rightarrow> GatewayStreamEvent" where
  "canonical_event e = e\<lparr>ev_tool_call := map_option canonical_call (ev_tool_call e)\<rparr>"

lemma canonical_event_ok: "GatewayStreamEvent_ok (canonical_event e) \<longleftrightarrow> GatewayStreamEvent_ok e"
  by (cases "ev_event_type e"; cases "ev_execution e")
    (simp_all add: GatewayStreamEvent_ok_def event_payload_ok_def event_require_def validate_execution_def canonical_event_def)

lemma canonical_event_eta: "canonical_event e = \<lparr>ev_event_type = ev_event_type e, ev_request_id = ev_request_id e,
    ev_sequence_number = ev_sequence_number e, ev_routing = ev_routing e, ev_delta = ev_delta e,
    ev_tool_call_id = ev_tool_call_id e, ev_tool_name = ev_tool_name e,
    ev_tool_call = map_option canonical_call (ev_tool_call e), ev_usage = ev_usage e, ev_execution = ev_execution e,
    ev_finish_reason = ev_finish_reason e, ev_error = ev_error e, ev_partial = ev_partial e\<rparr>"
  by (cases e) (simp add: canonical_event_def)

lemma opt_all_wired:
  assumes "\<And>v. P v \<Longrightarrow> wired dec (g v) (h v)" "opt_all P x"
  shows "opt_all (\<lambda>v. wired dec (g v) (h v)) x"
  using assms by (auto simp: opt_all_def split: option.splits)

lemma event_reads:
  assumes "event_wire e"
  shows "\<exists>j. event_payload e = Some j \<and> wired decode_event j (canonical_event e)"
proof -
  have w: "GatewayStreamEvent_ok e" "opt_all routing_wire (ev_routing e)" "opt_all tool_call_wire (ev_tool_call e)"
      "opt_all usage_wire (ev_usage e)" "opt_all execution_wire (ev_execution e)" "opt_all error_wire (ev_error e)"
    using assms by (simp_all add: event_wire_def)
  obtain g where g: "opt_payload usage_payload (ev_usage e) = Some (map_option g (ev_usage e))"
    "opt_all (\<lambda>u. wired decode_usage (g u) ((\<lambda>u. u) u)) (ev_usage e)"
    using opt_payload_wired[where h = "\<lambda>u. u", OF usage_reads w(4)] by blast
  obtain h where h: "opt_payload execution_payload (ev_execution e) = Some (map_option h (ev_execution e))"
    "opt_all (\<lambda>x. wired decode_execution (h x) ((\<lambda>x. x) x)) (ev_execution e)"
    using opt_payload_wired[where h = "\<lambda>u. u", OF execution_reads w(5)] by blast
  define kvs where "kvs = [(''event_type'', JStr (event_type_value (ev_event_type e))),
       (''request_id'', JStr (uuid_str (ev_request_id e))), (''sequence_number'', JInt (ev_sequence_number e))] @
     opt_field ''routing'' routing_payload (ev_routing e) @ opt_field ''delta'' JStr (ev_delta e) @
     opt_field ''tool_call_id'' JStr (ev_tool_call_id e) @ opt_field ''tool_name'' JStr (ev_tool_name e) @
     opt_field ''tool_call'' tool_call_payload (ev_tool_call e) @ opt_field ''usage'' g (ev_usage e) @
     opt_field ''execution'' h (ev_execution e) @ opt_field ''finish_reason'' JStr (ev_finish_reason e) @
     opt_field ''error'' error_payload (ev_error e) @
     opt_field ''partial'' (\<lambda>_. JBool True) (if ev_partial e then Some () else None)"
  have payload: "event_payload e = Some (JObj kvs)"
    unfolding event_payload_def kvs_def g(1) h(1) prod.case option.case opt_field_map if_field ..
  have k: "keyed event_fields kvs" unfolding keyed_def kvs_def event_fields_def by (simp add: keyed_intros)
  have parts: "opt_all (\<lambda>v. wired decode_routing (routing_payload v) ((\<lambda>v. v) v)) (ev_routing e)"
    "opt_all (\<lambda>v. wired decode_tool_call (tool_call_payload v) (canonical_call v)) (ev_tool_call e)"
    "opt_all (\<lambda>v. wired decode_error (error_payload v) ((\<lambda>v. v) v)) (ev_error e)"
    using opt_all_wired[OF routing_reads w(2)] opt_all_wired[OF tool_call_reads w(3)] opt_all_wired[OF error_reads w(6)]
    by simp_all
  have ok: "json_ok (JObj kvs)"
    by (rule keyed_ok[OF k]) (use assms parts[THEN opt_all_ok] opt_all_ok[OF g(2)] opt_all_ok[OF h(2)]
        in \<open>simp add: kvs_def event_wire_def\<close>)
  note get = keyed_get[OF k] arg_cong[OF kvs_def, of map_of]
  have texts: "optional_str (read_fields kvs) ''delta'' = Inr (ev_delta e)"
    "optional_str (read_fields kvs) ''tool_call_id'' = Inr (ev_tool_call_id e)"
    "optional_str (read_fields kvs) ''tool_name'' = Inr (ev_tool_name e)"
    "optional_str (read_fields kvs) ''finish_reason'' = Inr (ev_finish_reason e)"
    by (rule optional_str_get; use assms in \<open>simp add: get event_wire_def\<close>)+
  have objects:
    "optional (\<lambda>v. ebind (as_object v) decode_routing) (read_fields kvs) ''routing'' = Inr (map_option (\<lambda>v. v) (ev_routing e))"
    "optional (\<lambda>v. ebind (as_object v) decode_tool_call) (read_fields kvs) ''tool_call'' = Inr (map_option canonical_call (ev_tool_call e))"
    "optional (\<lambda>v. ebind (as_object v) decode_usage) (read_fields kvs) ''usage'' = Inr (map_option (\<lambda>v. v) (ev_usage e))"
    "optional (\<lambda>v. ebind (as_object v) decode_execution) (read_fields kvs) ''execution'' = Inr (map_option (\<lambda>v. v) (ev_execution e))"
    "optional (\<lambda>v. ebind (as_object v) decode_error) (read_fields kvs) ''error'' = Inr (map_option (\<lambda>v. v) (ev_error e))"
    by (rule optional_wired[OF _ parts(1)] optional_wired[OF _ parts(2)] optional_wired[OF _ g(2)] optional_wired[OF _ h(2)]
        optional_wired[OF _ parts(3)]; simp add: get)+
  have "optional_bool (read_fields kvs) ''partial'' False = Inr (ev_partial e)" by (simp add: optional_bool_def get)
  moreover have "uuid_str (ev_request_id e) \<noteq> []" by (simp add: uuid_str_def Let_def)
  ultimately have "decode_event (read_fields kvs) = Inr (canonical_event e)"
    using canonical_event_ok[of e] w(1) texts objects unfolding decode_event_def canonical_event_eta
    by (simp add: keyed_check[OF k] required_str_def required_int_def get parse_uuid_str option.map_ident)
  with ok have "wired decode_event (JObj kvs) (canonical_event e)" by (simp only: wired_object)
  with payload show ?thesis by blast
qed

end
