(* ===== verification/Event_Frames.thy ===== *)
theory Event_Frames
  imports Event_Wire_Laws
begin

text \<open>
  Framing: the client cuts the frames the server wrote out of any chunking of the bytes, and reads
  each frame back as its event.
\<close>

subsection \<open>Cutting frames\<close>

abbreviation LF :: char where
  "LF \<equiv> CHR 0x0A"

abbreviation CR :: char where
  "CR \<equiv> CHR 0x0D"

text \<open>No blank line inside and no line feed at the end.\<close>

fun calm :: "bytes \<Rightarrow> bool" where
  "calm [] \<longleftrightarrow> True"
| "calm [c] \<longleftrightarrow> c \<noteq> LF"
| "calm (c # d # cs) \<longleftrightarrow> \<not> (c = LF \<and> d = LF) \<and> calm (d # cs)"

definition frame_body :: "bytes \<Rightarrow> bool" where
  "frame_body b \<longleftrightarrow> calm b \<and> CR \<notin> set b \<and> \<not> list_all bytes_space b"

definition wire :: "bytes list \<Rightarrow> bytes" where
  "wire bodies = concat (map (\<lambda>b. b @ [LF, LF]) bodies)"

lemma wire_simps [simp]: "wire [] = []" "wire (b # bs) = b @ [LF, LF] @ wire bs"
  by (simp_all add: wire_def)

lemma find_sub_absent: "w \<noteq> [] \<Longrightarrow> hd w \<notin> set s \<Longrightarrow> find_sub w s = None"
  by (induction s) (auto simp: starts_def neq_Nil_conv)

lemma starts_append: "starts w p \<Longrightarrow> starts w (p @ q)"
  unfolding starts_def using length_take[of "length w" p] by auto

lemma find_sub_prefix: "w \<noteq> [] \<Longrightarrow> find_sub w (p @ q) = None \<Longrightarrow> find_sub w p = None"
proof (induction p)
  case (Cons c p)
  then show ?case using starts_append[of w "c # p" q] by (auto split: if_splits)
qed simp

lemma extract_frame_lf:
  assumes "CR \<notin> set buf"
  shows "extract_frame buf = map_option (\<lambda>i. (take i buf, drop (i + 2) buf)) (find_sub [LF, LF] buf)"
  using assms find_sub_absent[of "[CR, LF, CR, LF]" buf] find_sub_absent[of "[CR, CR]" buf]
  by (auto simp: extract_frame_def delimiters_def split: option.splits)

lemma calm_found: "calm b \<Longrightarrow> b \<noteq> [] \<Longrightarrow> find_sub [LF, LF] (b @ LF # LF # rest) = Some (length b)"
  by (induction b rule: calm.induct) (auto simp: starts_def)

lemma calm_not_found: "calm b \<Longrightarrow> find_sub [LF, LF] (b @ [LF]) = None"
  by (induction b rule: calm.induct) (auto simp: starts_def)

lemma frame_body_Nil: "frame_body b \<Longrightarrow> b \<noteq> []"
  by (auto simp: frame_body_def)

lemma wire_no_CR: "list_all frame_body bodies \<Longrightarrow> CR \<notin> set (wire bodies)"
  by (induction bodies) (auto simp: frame_body_def)

lemma wire_blank: "list_all frame_body bodies \<Longrightarrow> find_sub [LF, LF] (wire bodies) = None \<Longrightarrow> bodies = []"
  using calm_found[of "hd bodies" "wire (tl bodies)"] frame_body_Nil[of "hd bodies"]
  by (cases bodies) (auto simp: frame_body_def)

lemma drain_wire:
  assumes "list_all frame_body bodies" "list_all (\<lambda>b. int (length b) < me) bodies" "p @ q = wire bodies" "0 \<le> me"
  shows "\<exists>k b. drain_frames me p = (take k bodies, None, b) \<and> b @ q = wire (drop k bodies) \<and>
    int (length b) \<le> me \<and> find_sub [LF, LF] b = None"
  using assms
proof (induction bodies arbitrary: p)
  case Nil
  then show ?case by (simp add: drain_frames.simps[of me "[]"] extract_frame_lf)
next
  case (Cons body bodies)
  have body: "frame_body body" "calm body" "body \<noteq> []" using Cons.prems(1) frame_body_Nil by (auto simp: frame_body_def)
  have cr: "CR \<notin> set p"
    using wire_no_CR[OF Cons.prems(1)] Cons.prems(3) by (metis Un_iff set_append)
  obtain us where us: "p = (body @ [LF, LF]) @ us \<and> us @ q = wire bodies \<or> p @ us = body @ [LF, LF] \<and> q = us @ wire bodies"
    using Cons.prems(3) append_eq_append_conv2[of p q "body @ [LF, LF]" "wire bodies"] by auto
  consider (whole) p' where "p = body @ LF # LF # p'" "p' @ q = wire bodies"
    | (piece) r where "body @ [LF] = p @ r"
  proof (cases "us = []")
    case True
    with us whole[of "[]"] whole[of us] show thesis by auto
  next
    case False
    have "body @ [LF] = p @ butlast us" if "p @ us = body @ [LF, LF]"
      using arg_cong[OF that, of butlast] False by (simp add: butlast_append)
    with us whole[of us] piece[of "butlast us"] show thesis by auto
  qed
  then show ?case
  proof cases
    case p: whole
    obtain k b where kb: "drain_frames me p' = (take k bodies, None, b)" "b @ q = wire (drop k bodies)"
      "int (length b) \<le> me" "find_sub [LF, LF] b = None"
      using Cons.IH[OF _ _ p(2)] Cons.prems by auto
    have "extract_frame p = Some (body, p')"
      using extract_frame_lf[OF cr] calm_found[OF body(2,3), of p'] p(1) by simp
    then have "drain_frames me p = (take (Suc k) (body # bodies), None, b)"
      using kb(1) Cons.prems(2) body(1) by (simp add: drain_frames.simps[of me p] frame_body_def)
    with kb show ?thesis by (intro exI[of _ "Suc k"] exI[of _ b]) simp
  next
    case piece
    have none: "find_sub [LF, LF] p = None" using calm_not_found[OF body(2)] find_sub_prefix[of "[LF, LF]" p r] piece by simp
    then have "drain_frames me p = ([], None, p)" by (simp add: drain_frames.simps[of me p] extract_frame_lf[OF cr])
    moreover have "length p \<le> length body + 1" using arg_cong[OF piece, of length] by simp
    then have "int (length p) \<le> me" using Cons.prems(2) by simp
    ultimately show ?thesis using none Cons.prems(3) by (intro exI[of _ 0] exI[of _ p]) simp
  qed
qed

lemma frame_loop_wire:
  assumes "list_all frame_body bodies" "list_all (\<lambda>b. int (length b) < me) bodies"
    "buf @ concat parts = wire bodies" "find_sub [LF, LF] buf = None" "0 \<le> me" "got + int (length (concat parts)) \<le> ms"
  shows "frame_loop me ms False buf got parts = (bodies, None)"
  using assms
proof (induction parts arbitrary: bodies buf got)
  case Nil
  then show ?case using wire_blank[of bodies] by simp
next
  case (Cons part parts)
  obtain k b where kb: "drain_frames me (buf @ part) = (take k bodies, None, b)" "b @ concat parts = wire (drop k bodies)"
      "int (length b) \<le> me" "find_sub [LF, LF] b = None"
    using drain_wire[OF Cons.prems(1,2) _ Cons.prems(5), of "buf @ part" "concat parts"] Cons.prems(3) by auto
  have "frame_loop me ms False b (got + int (length part)) parts = (drop k bodies, None)"
    using Cons.prems kb by (intro Cons.IH) (auto dest: in_set_dropD simp: list_all_iff)
  with kb Cons.prems(6) show ?case by simp
qed

subsection \<open>Reading a frame\<close>

lemma ascii_text: "list_all (\<lambda>c. code_point c < (128 :: nat)) bs \<Longrightarrow> decode_text bs = Inr bs"
proof -
  assume "list_all (\<lambda>c. code_point c < (128 :: nat)) bs"
  then have "utf8_valid bs \<and> latin1_text bs = Some bs" by (induction bs) (simp_all add: Let_def)
  then show ?thesis by (simp add: decode_text_def)
qed

lemma printable_facts:
  assumes "printable c"
  shows "\<not> line_break c" "c \<noteq> LF" "c \<noteq> CR" "code_point c < (128 :: nat)"
  using assms by (auto simp: printable_def line_break_def Let_def)

lemma splitlines_char:
  "\<not> line_break c \<Longrightarrow> splitlines (c # cs) = (case splitlines cs of [] \<Rightarrow> [[c]] | l # ls \<Rightarrow> (c # l) # ls)"
  "splitlines (LF # cs) = [] # splitlines cs"
  by (simp, cases cs) (simp_all add: line_break_def)

lemma splitlines_line:
  assumes "l \<noteq> []" "list_all printable l"
  shows "splitlines l = [l]" "splitlines (l @ LF # rest) = l # splitlines rest"
proof -
  have "splitlines (l @ LF # rest) = l # splitlines rest" if "list_all printable l" for l
    using that by (induction l) (simp_all add: printable_facts splitlines_char del: splitlines.simps(2))
  then show "splitlines (l @ LF # rest) = l # splitlines rest" using assms(2) .
  have "splitlines l = (if l = [] then [] else [l])" if "list_all printable l" for l
    using that by (induction l) (simp_all add: printable_facts splitlines_char del: splitlines.simps(2))
  then show "splitlines l = [l]" using assms by simp
qed

lemma calm_line:
  assumes "l \<noteq> []" "list_all printable l"
  shows "calm l" "rest \<noteq> [] \<Longrightarrow> hd rest \<noteq> LF \<Longrightarrow> calm rest \<Longrightarrow> calm (l @ LF # rest)"
  using assms by (induction l rule: calm.induct) (auto simp: printable_facts neq_Nil_conv)

lemma nat_digits_val: "0 \<le> n \<Longrightarrow> int_str n = nat_digits n"
  by (simp add: int_str_def)

lemma py_int_str:
  assumes "0 < n" "wire_int n"
  shows "py_int (int_str n) = Some n"
proof -
  let ?d = "nat_digits n"
  note d = nat_digits_shape[of n]
  have dig: "\<And>c. c \<in> set ?d \<Longrightarrow> is_digit c" "?d \<noteq> []" using d assms(1) by (auto simp: list_all_iff)
  have "\<not> py_space c" if "c \<in> set ?d" for c
    using dig(1)[OF that] by (intro alnum_not_space) (simp add: is_alnum_def)
  then have strip: "py_strip ?d = ?d" using dig(2) by (intro py_strip_ends) auto
  have no: "c \<noteq> CHR ''-'' \<and> c \<noteq> CHR ''+'' \<and> c \<noteq> CHR ''_''" if "is_digit c" for c
    using that by (auto simp: is_digit_def)
  have "int_sign ?d = (False, ?d)" using no[OF dig(1)] dig(2) by (cases ?d) (auto simp: int_sign_def)
  moreover have "py_split CHR ''_'' ?d = [?d]" using no[OF dig(1)] by (intro py_split_absent) auto
  moreover have "digits_val ?d = n" using digits_val_nat_digits[of n] assms(1) by simp
  ultimately show ?thesis
    using dig assms by (auto simp: py_int_def nat_digits_val strip digit_runs_def list_all_iff)
qed

definition event_body :: "GatewayStreamEvent \<Rightarrow> json \<Rightarrow> bytes" where
  "event_body e j = (''event: '' @ event_type_value (ev_event_type e)) @ LF # (''id: '' @ int_str (ev_sequence_number e)) @ LF #
     (''data: '' @ json_dumps True j)"

lemma event_lines:
  assumes "0 < ev_sequence_number e"
  shows "list_all printable (''event: '' @ event_type_value (ev_event_type e))"
    "list_all printable (''id: '' @ int_str (ev_sequence_number e))" "list_all printable (''data: '' @ json_dumps True j)"
proof -
  have p: "list_all printable ''event: ''" "list_all printable ''id: ''" "list_all printable ''data: ''"
    by (simp_all add: printable_def)
  have "list_all printable (event_type_value t)" for t by (cases t) (simp_all add: printable_def)
  with p show "list_all printable (''event: '' @ event_type_value (ev_event_type e))" by simp
  show "list_all printable (''id: '' @ int_str (ev_sequence_number e))" using p json_dumps_printable[of "JInt (ev_sequence_number e)"] by simp
  show "list_all printable (''data: '' @ json_dumps True j)" using p json_dumps_printable by simp
qed

lemma body_frame:
  assumes "0 < ev_sequence_number e"
  shows "frame_body (event_body e j)"
proof -
  note l = event_lines(1,2)[OF assms] event_lines(3)[OF assms, of j]
  have chars: "printable c \<or> c = LF" if "c \<in> set (event_body e j)" for c
    using that l unfolding event_body_def by (auto simp: list_all_iff)
  have "calm (event_body e j)"
    unfolding event_body_def by (intro calm_line(2) calm_line(1) l) simp_all
  moreover have "CR \<notin> set (event_body e j)" using chars[of CR] by (auto simp: printable_def)
  moreover have "\<not> list_all bytes_space (event_body e j)" by (simp add: event_body_def bytes_space_def)
  ultimately show ?thesis by (simp add: frame_body_def)
qed

lemma frame_lines_body:
  "frame_lines [''event: '' @ t, ''id: '' @ i, ''data: '' @ d] \<lparr>fr_event = None, fr_id = None, fr_data = []\<rparr> =
   Inr \<lparr>fr_event = Some t, fr_id = Some i, fr_data = [d]\<rparr>"
  by (simp add: frame_line_def field_value_def starts_def)

lemma body_reads:
  assumes "0 < ev_sequence_number e" "wire_int (ev_sequence_number e)" "json_ok (JObj kvs)"
  shows "parse_sse_frame (event_body e (JObj kvs)) =
    Inr (event_type_value (ev_event_type e), ev_sequence_number e, read_fields kvs)"
proof -
  note l = event_lines(1,2)[OF assms(1)] event_lines(3)[OF assms(1), of "JObj kvs"]
  have "list_all (\<lambda>c. code_point c < (128 :: nat)) (event_body e (JObj kvs))"
    using l printable_facts(4) unfolding event_body_def by (auto simp: list_all_iff)
  then have t: "decode_text (event_body e (JObj kvs)) = Inr (event_body e (JObj kvs))" by (rule ascii_text)
  have s: "splitlines (event_body e (JObj kvs)) = [''event: '' @ event_type_value (ev_event_type e),
      ''id: '' @ int_str (ev_sequence_number e), ''data: '' @ json_dumps True (JObj kvs)]"
    unfolding event_body_def using splitlines_line(2)[OF _ l(1)] splitlines_line(2)[OF _ l(2)] splitlines_line(1)[OF _ l(3)] by simp
  have j: "load_json_object (json_dumps True (JObj kvs)) = Inr (read_fields kvs)"
    using json_loads_dumps[OF assms(3)] by (simp add: load_json_object_def del: json_dumps.simps)
  obtain c cs where c: "event_type_value (ev_event_type e) = c # cs" by (cases "event_type_value (ev_event_type e)") auto
  have "py_int (int_str (ev_sequence_number e)) = Some (ev_sequence_number e)" by (rule py_int_str[OF assms(1,2)])
  moreover have "int_str (ev_sequence_number e) \<noteq> []"
    using nat_digits_shape[of "ev_sequence_number e"] assms(1) by (simp add: nat_digits_val)
  then obtain d ds where "int_str (ev_sequence_number e) = d # ds" by (cases "int_str (ev_sequence_number e)") auto
  ultimately show ?thesis
    using assms(1) c j unfolding parse_sse_frame_def t s ebind_simps frame_lines_body by (simp del: json_dumps.simps)
qed

lemma event_checked:
  assumes "event_wire e"
  obtains b where "encode_sse e = Some (b @ [LF, LF])" "frame_body b"
    "checked_event (ev_request_id e) (ev_sequence_number e) b = Inr (canonical_event e)"
proof -
  have n: "0 < ev_sequence_number e" "wire_int (ev_sequence_number e)"
    using assms by (auto simp: event_wire_def GatewayStreamEvent_ok_def)
  obtain j where j: "event_payload e = Some j" "wired decode_event j (canonical_event e)" using event_reads[OF assms] by blast
  then obtain kvs where kvs: "j = JObj kvs" by (cases j) (auto simp: wired_def)
  then have ok: "json_ok (JObj kvs)" "decode_event (read_fields kvs) = Inr (canonical_event e)"
    using j(2) by (simp_all only: wired_object)
  have "encode_sse e = Some (event_body e j @ [LF, LF])" using j(1) by (simp add: encode_sse_def event_body_def)
  moreover have "checked_event (ev_request_id e) (ev_sequence_number e) (event_body e j) = Inr (canonical_event e)"
    unfolding checked_event_def kvs using body_reads[OF n ok(1)] ok(2) by (simp add: canonical_event_eta)
  ultimately show thesis using body_frame[OF n(1)] that by blast
qed

end
