(* ===== verification/Event_Wire_Properties.thy ===== *)
theory Event_Wire_Properties
  imports Event_Frames
begin

text \<open>
  The event stream end to end: what the server encodes, cut into chunks in any way, the client
  reads back event by event.
\<close>

subsection \<open>Events of the frames\<close>

lemma frame_events_wire:
  assumes "list_all2 (\<lambda>e b. checked_event rid (ev_sequence_number e) b = Inr (canonical_event e)) es bodies"
    "map ev_sequence_number es = map (\<lambda>i. int i + n) [0..<length es]"
    "list_all (\<lambda>e. \<not> client_terminal e) (butlast es)" "es \<noteq> [] \<Longrightarrow> client_terminal (last es)" "terminal \<longleftrightarrow> es = []"
  shows "frame_events rid n terminal bodies None = (map canonical_event es, None)"
  using assms
proof (induction es bodies arbitrary: n terminal rule: list_all2_induct)
  case (Cons e es b bs)
  have seq: "ev_sequence_number e = n" "map ev_sequence_number es = map (\<lambda>i. int i + (n + 1)) [0..<length es]"
    using Cons.prems(1) by (simp_all add: map_upt_Suc add.commute add.left_commute del: upt_Suc)
  have ends: "client_terminal (canonical_event e) \<longleftrightarrow> es = []"
    using Cons.prems(2,3) by (cases "es = []") (auto simp: client_terminal_def canonical_event_def)
  have "frame_events rid (n + 1) (client_terminal (canonical_event e)) bs None = (map canonical_event es, None)"
    using Cons.prems(2,3) seq(2) ends by (intro Cons.IH) (auto split: if_splits)
  with Cons.hyps Cons.prems(4) seq(1) show ?case by simp
qed simp

lemma encoded_bodies:
  assumes "list_all event_wire es" "those (map encode_sse es) = Some frames"
  obtains bodies where "frames = map (\<lambda>b. b @ [LF, LF]) bodies" "list_all frame_body bodies"
    "list_all2 (\<lambda>e b. checked_event (ev_request_id e) (ev_sequence_number e) b = Inr (canonical_event e)) es bodies"
  using assms
proof (induction es arbitrary: frames thesis)
  case Nil
  then show ?case by simp
next
  case (Cons e es)
  obtain fs where fs: "those (map encode_sse es) = Some fs" "frames = the (encode_sse e) # fs" "encode_sse e \<noteq> None"
    using Cons.prems(3) by (auto split: option.splits)
  obtain b where b: "encode_sse e = Some (b @ [LF, LF])" "frame_body b"
    "checked_event (ev_request_id e) (ev_sequence_number e) b = Inr (canonical_event e)"
    using Cons.prems(2) by (auto elim: event_checked)
  obtain bs where "fs = map (\<lambda>b. b @ [LF, LF]) bs" "list_all frame_body bs"
    "list_all2 (\<lambda>e b. checked_event (ev_request_id e) (ev_sequence_number e) b = Inr (canonical_event e)) es bs"
    using Cons.IH[OF _ _ fs(1)] Cons.prems(2) by auto
  with b fs show ?case by (intro Cons.prems(1)[of "b # bs"]) simp_all
qed

lemma client_reads:
  assumes "map ev_sequence_number es = map int [1..<Suc (length es)]" "es \<noteq> []"
    "list_all (\<lambda>e. \<not> client_terminal e) (butlast es)" "client_terminal (last es)"
    "list_all (\<lambda>e. event_wire e \<and> ev_request_id e = rid) es"
    "those (map encode_sse es) = Some frames" "concat parts = concat frames"
    "list_all (\<lambda>f. int (length f) \<le> max_event + 1) frames"
    "0 < max_event" "max_event \<le> max_stream" "int (length (concat frames)) \<le> max_stream"
  shows "iter_sse_events max_event max_stream rid False parts = (map canonical_event es, None)"
proof -
  obtain bodies where b: "frames = map (\<lambda>b. b @ [LF, LF]) bodies" "list_all frame_body bodies"
    "list_all2 (\<lambda>e b. checked_event (ev_request_id e) (ev_sequence_number e) b = Inr (canonical_event e)) es bodies"
    by (rule encoded_bodies[OF _ assms(6)]) (use assms(5) in \<open>auto simp: list_all_iff\<close>)
  have w: "concat parts = wire bodies" using assms(7) b(1) by (simp add: wire_def)
  have "frame_loop max_event max_stream False [] 0 parts = (bodies, None)"
    by (rule frame_loop_wire[OF b(2)]) (use assms(7,8,9,11) b(1) w in \<open>auto simp: list_all_iff\<close>)
  then have frames: "iter_sse_frames max_event max_stream False parts = (bodies, None)"
    using assms(9,10) by (simp add: iter_sse_frames_def)
  have "list_all2 (\<lambda>e b. checked_event rid (ev_sequence_number e) b = Inr (canonical_event e)) es bodies"
    using b(3) assms(5) by (auto simp: list_all2_conv_all_nth list_all_length)
  moreover have "map ev_sequence_number es = map (\<lambda>i. int i + 1) [0..<length es]"
    using assms(1) by (simp add: map_add_upt[symmetric] map_Suc_upt[symmetric] comp_def del: upt_Suc)
  ultimately have "frame_events rid 1 False bodies None = (map canonical_event es, None)"
    using assms(2,3,4) by (intro frame_events_wire) auto
  with frames show ?thesis by (simp add: iter_sse_events_def)
qed

text \<open>
  C7. What the server writes, the client reads. Take events numbered from 1 for one request, the
  last and only the last terminal, each within the wire contract. Encode each as an SSE frame and
  split the bytes into chunks in any way. As long as every frame is within the client's event
  limit and the stream within its total limit, the client delivers exactly these events, in
  order, and ends without an error: nothing is lost, duplicated, reordered or altered, except that
  the keys of tool arguments arrive sorted.
\<close>

theorem client_reads_server_stream:
  assumes "map ev_sequence_number es = map int [1..<Suc (length es)]" "es \<noteq> []"
    "list_all (\<lambda>e. \<not> client_terminal e) (butlast es)" "client_terminal (last es)"
    "list_all (\<lambda>e. event_wire e \<and> ev_request_id e = rid) es"
    "those (map encode_sse es) = Some frames" "concat parts = concat frames"
    "list_all (\<lambda>f. int (length f) \<le> max_event + 1) frames"
    "0 < max_event" "max_event \<le> max_stream" "int (length (concat frames)) \<le> max_stream"
  shows "iter_sse_events max_event max_stream rid False parts = (map canonical_event es, None)"
  using client_reads[OF assms] .

text \<open>Two events for one request, read back from single bytes.\<close>

definition sample_routing :: RoutingProvenance where
  "sample_routing = \<lparr>rp_routing_decision_id = ''d'', rp_policy = \<lparr>pp_decision_id = ''p'', pp_policy_id = ''i'', pp_policy_version = ''1'',
       pp_policy_digest = ''x''\<rparr>, rp_authorized_model_group = ''g'', rp_model_registry_digest = ''r'', rp_ranking_policy_version = ''1'',
     rp_ranking_policy_digest = None, rp_score_snapshot_id = None, rp_benchmark_snapshot_id = None, rp_score_provenance_mode = None,
     rp_manual_override_id = None, rp_provider = None, rp_model = None, rp_deployment = None,
     rp_rejected_candidates = [\<lparr>cr_deployment = ''b'', cr_reason = DEPLOYMENT_UNHEALTHY, cr_detail = None\<rparr>], rp_fallback_sequence = [''a'']\<rparr>"

definition sample_event :: "StreamEventType \<Rightarrow> int \<Rightarrow> GatewayStreamEvent" where
  "sample_event t n = \<lparr>ev_event_type = t, ev_request_id = 7, ev_sequence_number = n, ev_routing = Some sample_routing,
     ev_delta = None, ev_tool_call_id = None, ev_tool_name = None, ev_tool_call = None, ev_usage = None, ev_execution = None,
     ev_finish_reason = None, ev_error = (if t = RESPONSE_FAILED then Some \<lparr>ge_code = ''unavailable'', ge_message = ''no'',
       ge_retryable = False\<rparr> else None), ev_partial = False\<rparr>"

abbreviation sample_stream :: "GatewayStreamEvent list" where
  "sample_stream \<equiv> [sample_event RESPONSE_STARTED 1, sample_event RESPONSE_FAILED 2]"

definition sample_frames :: "bytes list" where
  "sample_frames = (case those (map encode_sse sample_stream) of None \<Rightarrow> [] | Some fs \<Rightarrow> fs)"

lemma sample_encodes:
  "case those (map encode_sse sample_stream) of
     None \<Rightarrow> False
   | Some fs \<Rightarrow> list_all (\<lambda>f. int (length f) \<le> 2049) fs \<and> int (length (concat fs)) \<le> 2048"
  by code_simp

theorem client_reads_server_stream_witness:
  "iter_sse_events 2048 2048 7 False (map (\<lambda>c. [c]) (concat sample_frames)) = (sample_stream, None)"
proof -
  have enc: "those (map encode_sse sample_stream) = Some sample_frames" "list_all (\<lambda>f. int (length f) \<le> 2048 + 1) sample_frames"
    "int (length (concat sample_frames)) \<le> 2048"
    using sample_encodes unfolding sample_frames_def by (auto split: option.splits)
  have w: "list_all (\<lambda>e. event_wire e \<and> ev_request_id e = 7) sample_stream" by code_simp
  have c: "map canonical_event sample_stream = sample_stream" by (simp add: canonical_event_def sample_event_def)
  have "concat (map (\<lambda>c. [c]) (concat sample_frames)) = concat sample_frames" by (induction "concat sample_frames") simp_all
  from client_reads_server_stream[of sample_stream 7, OF _ _ _ _ w enc(1) this enc(2) _ _ enc(3)] c show ?thesis
    by (simp add: sample_event_def client_terminal_def numeral_2_eq_2 upt_rec)
qed

end
