(* ===== verification/Streaming_Usage.thy ===== *)
theory Streaming_Usage
  imports Streaming_Laws
begin

text \<open>
  The evidence in a stream: every published event is well formed and belongs to the request, at
  most one usage is published, and a terminal event's execution reports that same usage.
\<close>

subsection \<open>Published usage\<close>

definition usages :: "GatewayStreamEvent list \<Rightarrow> Usage list" where
  "usages es = concat (map (\<lambda>e. if ev_event_type e = USAGE_COMPLETED then
     (case ev_usage e of None \<Rightarrow> [] | Some u \<Rightarrow> [u]) else []) es)"

lemma usages_simps [simp]:
  "usages [] = []" "usages (es @ es') = usages es @ usages es'"
  "ev_event_type e \<noteq> USAGE_COMPLETED \<Longrightarrow> usages [e] = []"
  "ev_event_type e = USAGE_COMPLETED \<Longrightarrow> ev_usage e = Some u \<Longrightarrow> usages [e] = [u]"
  by (simp_all add: usages_def)

definition option_list :: "'a option \<Rightarrow> 'a list" where
  "option_list x = (case x of None \<Rightarrow> [] | Some v \<Rightarrow> [v])"

lemma option_list_simps [simp]: "option_list None = []" "option_list (Some v) = [v]"
  by (simp_all add: option_list_def)

definition fits :: "GatewayStreamEvent list \<Rightarrow> GatewayStreamEvent \<Rightarrow> bool" where
  "fits es e \<longleftrightarrow> (case ev_execution e of
      None \<Rightarrow> ev_event_type e = RESPONSE_FAILED
    | Some x \<Rightarrow> usages es = option_list (px_usage x) \<and> px_usage x \<noteq> None \<or>
        ev_event_type e = RESPONSE_FAILED \<and> px_usage x = None)"

definition sound :: "'s stream_args \<Rightarrow> 's stream_state \<Rightarrow> bool" where
  "sound g st \<longleftrightarrow>
     list_all (\<lambda>e. ev_request_id e = gr_request_id (pl_request (sg_plan g)) \<and> GatewayStreamEvent_ok e) (ss_public st) \<and>
     length (usages (ss_public st)) \<le> 1 \<and>
     (ss_public st \<noteq> [] \<longrightarrow> terminal_event (last (ss_public st)) \<longrightarrow> fits (butlast (ss_public st)) (last (ss_public st)))"

text \<open>While an attempt runs, the usage it recorded is the usage published.\<close>

definition tuned :: "'s stream_args \<Rightarrow> 's stream_state \<Rightarrow> bool" where
  "tuned g st \<longleftrightarrow> sound g st \<and> (ss_final_usage st \<noteq> None \<longrightarrow> ss_usage_seen st \<and> ss_semantic_output st) \<and>
     (ss_public st \<noteq> [] \<longrightarrow> ss_semantic_output st) \<and> usages (ss_public st) = option_list (ss_final_usage st)"

definition unwound :: "'s stream_args \<Rightarrow> exec_failure \<Rightarrow> 's stream_state \<Rightarrow> bool" where
  "unwound g e t \<longleftrightarrow> sound g t \<and> ((\<exists>p. e = ProviderRaised p) \<longrightarrow> tuned g t)"

lemma sound_fields [simp]:
  "sound g (st\<lparr>ss_health := h\<rparr>) = sound g st" "sound g (st\<lparr>ss_sequence := n\<rparr>) = sound g st"
  "sound g (st\<lparr>ss_public_started := b\<rparr>) = sound g st" "sound g (note_semantic ev st) = sound g st"
  "sound g (st\<lparr>ss_last_error := x\<rparr>) = sound g st" "sound g (st\<lparr>ss_last_execution := y\<rparr>) = sound g st"
  "sound g (st\<lparr>ss_sleeps := sl\<rparr>) = sound g st" "sound g (st\<lparr>ss_cached_content := cc\<rparr>) = sound g st"
  "sound g (st\<lparr>ss_trace := tr\<rparr>) = sound g st" "sound g (st\<lparr>ss_usage_seen := b\<rparr>) = sound g st"
  "sound g (st\<lparr>ss_final_usage := fu\<rparr>) = sound g st" "sound g (st\<lparr>ss_verdict := v\<rparr>) = sound g st"
  "sound g (st\<lparr>ss_provider_started := b\<rparr>) = sound g st" "sound g (st\<lparr>ss_response_id := i\<rparr>) = sound g st"
  "sound g (st\<lparr>ss_fallback_sequence := ids\<rparr>) = sound g st" "sound g (st\<lparr>ss_routing := rt\<rparr>) = sound g st"
  "sound g (st\<lparr>ss_stored := cs\<rparr>) = sound g st" "sound g (reset_attempt st) = sound g st" "sound g (enter_attempt g c k st) = sound g st"
  "sound g (snd (store_best_effort rw r ex st)) = sound g st"
  by (simp_all add: sound_def note_semantic_def reset_attempt_def enter_attempt_def store_best_effort_def update_def Let_def
      split: option.splits)

lemma tuned_fields [simp]:
  "tuned g (st\<lparr>ss_health := h\<rparr>) = tuned g st" "tuned g (st\<lparr>ss_sequence := n\<rparr>) = tuned g st"
  "tuned g (st\<lparr>ss_public_started := b\<rparr>) = tuned g st" "tuned g (st\<lparr>ss_last_error := x\<rparr>) = tuned g st"
  "tuned g (st\<lparr>ss_last_execution := y\<rparr>) = tuned g st" "tuned g (st\<lparr>ss_sleeps := sl\<rparr>) = tuned g st"
  "tuned g (st\<lparr>ss_cached_content := cc\<rparr>) = tuned g st" "tuned g (st\<lparr>ss_trace := tr\<rparr>) = tuned g st"
  "tuned g (st\<lparr>ss_provider_started := b\<rparr>) = tuned g st" "tuned g (st\<lparr>ss_response_id := i\<rparr>) = tuned g st"
  "tuned g (enter_attempt g c k st) = tuned g st" "tuned g (snd (store_best_effort rw r ex st)) = tuned g st"
  by (simp_all add: tuned_def enter_attempt_def store_best_effort_def update_def Let_def split: option.splits)

lemma tuned_semantic: "tuned g st \<Longrightarrow> tuned g (note_semantic ev st)"
  by (simp add: tuned_def) (simp add: note_semantic_def)

lemma tuned_sound: "tuned g st \<Longrightarrow> sound g st"
  by (simp add: tuned_def)

lemma unwound_now: "tuned g st \<Longrightarrow> unwound g e st"
  by (simp add: unwound_def tuned_def)

lemma unwound_sound: "sound g st \<Longrightarrow> (\<And>p. e \<noteq> ProviderRaised p) \<Longrightarrow> unwound g e st"
  by (simp add: unwound_def)

lemma unwound_health [simp]: "unwound g e (st\<lparr>ss_health := h\<rparr>) = unwound g e st"
  by (simp add: unwound_def)

subsection \<open>Emitting\<close>

abbreviation appended :: "'s stream_state \<Rightarrow> GatewayStreamEvent \<Rightarrow> 's stream_state" where
  "appended st e \<equiv> st\<lparr>ss_trace := ss_trace st @ [Yielded e], ss_public := ss_public st @ [e],
     ss_public_sequence := ev_sequence_number e, ss_partial := ss_partial st \<or> partial_event e\<rparr>"

lemma usages_one: "length (usages [e]) \<le> 1"
  by (simp add: usages_def split: option.splits)

lemma sound_appended:
  assumes "sound g st" "ev_request_id e = gr_request_id (pl_request (sg_plan g))" "GatewayStreamEvent_ok e"
    "ev_event_type e = USAGE_COMPLETED \<Longrightarrow> usages (ss_public st) = []" "terminal_event e \<Longrightarrow> fits (ss_public st) e"
  shows "sound g (appended st e)"
proof -
  have "length (usages (ss_public st @ [e])) \<le> 1"
  proof (cases "ev_event_type e = USAGE_COMPLETED")
    case True
    then show ?thesis using assms(4) usages_one[of e] by simp
  next
    case False
    then show ?thesis using assms(1) by (simp add: sound_def)
  qed
  moreover have "list_all (\<lambda>e. ev_request_id e = gr_request_id (pl_request (sg_plan g)) \<and> GatewayStreamEvent_ok e) (ss_public st @ [e])"
    using assms(1,2,3) by (simp add: sound_def)
  moreover have "terminal_event (last (ss_public st @ [e])) \<longrightarrow> fits (butlast (ss_public st @ [e])) (last (ss_public st @ [e]))"
    using assms(5) by simp
  ultimately show ?thesis unfolding sound_def by simp
qed

lemma emit_sound_wp:
  assumes "sound g st" "ev_request_id e = gr_request_id (pl_request (sg_plan g))"
    "ev_event_type e = USAGE_COMPLETED \<Longrightarrow> usages (ss_public st) = []" "terminal_event e \<Longrightarrow> fits (ss_public st) e"
    "sound g (appended st e) \<Longrightarrow> Q () (appended st e)" "E UnexpectedError st" "\<And>t. sound g t \<Longrightarrow> E GeneratorExit t"
  shows "wp (emit g e) Q E st"
proof (cases "GatewayStreamEvent_ok e")
  case True
  note s = sound_appended[OF assms(1,2) True assms(3,4)]
  have v: "sound g (appended st e\<lparr>ss_verdict := v\<rparr>)" for v using s by simp
  have "sound g (st\<lparr>ss_trace := ss_trace st @ [Yielded e], ss_verdict := Some Expired\<rparr>)" using assms(1) by simp
  with True s v show ?thesis
    unfolding wp_def emit_def Let_def by (auto intro!: assms(5) assms(7))
qed (use assms(6) in \<open>simp add: wp_def emit_def\<close>)

lemma tuned_appended:
  "tuned g st \<Longrightarrow> sound g (appended st e) \<Longrightarrow> ev_event_type e \<noteq> USAGE_COMPLETED \<Longrightarrow> ss_semantic_output st \<Longrightarrow> tuned g (appended st e)"
  by (simp add: tuned_def)

lemma emit_semantic_wp:
  assumes "tuned g st" "ev_request_id e = gr_request_id (pl_request (sg_plan g))"
    "ev_event_type e \<noteq> USAGE_COMPLETED" "terminal_event e \<Longrightarrow> fits (ss_public st) e" "ss_semantic_output st"
  shows "wp (emit g e) (\<lambda>_ t. tuned g t \<and> ss_semantic_output t) (unwound g) st"
proof (rule emit_sound_wp)
  show "tuned g (appended st e) \<and> ss_semantic_output (appended st e)" if "sound g (appended st e)"
    using tuned_appended[OF assms(1) that assms(3,5)] assms(5) by simp
qed (use assms in \<open>auto simp: unwound_now unwound_sound tuned_sound\<close>)

lemma emit_tuned_wp:
  assumes "tuned g st" "ev_request_id e = gr_request_id (pl_request (sg_plan g))"
    "ev_event_type e \<noteq> USAGE_COMPLETED" "terminal_event e \<Longrightarrow> fits (ss_public st) e" "ss_semantic_output st"
  shows "wp (emit g e) (\<lambda>_. tuned g) (unwound g) st"
  by (rule wp_mono[OF emit_semantic_wp]) (use assms in auto)

lemma failed_event_fields [simp]:
  "ev_event_type (failed_event r n routing code message retryable partial x) = RESPONSE_FAILED"
  "ev_request_id (failed_event r n routing code message retryable partial x) = gr_request_id r"
  "ev_execution (failed_event r n routing code message retryable partial x) = x"
  by (simp_all add: failed_event_def blank_event_def)

lemma emit_failed_wp:
  assumes "sound g st" "opt_all (\<lambda>x. px_usage x = None \<or> usages (ss_public st) = option_list (px_usage x)) x"
  shows "wp (emit g (failed_event (pl_request (sg_plan g)) n routing code message retryable partial x))
    (\<lambda>_. sound g) (\<lambda>_. sound g) st"
  by (rule emit_sound_wp) (use assms in \<open>auto simp: fits_def opt_all_def split: option.splits\<close>)

subsection \<open>One attempt\<close>

lemma tuned_guards_wp:
  assumes "tuned g st" "\<And>h. Q () (st\<lparr>ss_health := h\<rparr>)"
  shows "wp (probe_guard g env adm c) Q (unwound g) st" "wp (lifetime_guard w rw adm c) Q (unwound g) st"
proof -
  have "Q () st" using assms(2)[of "ss_health st"] by simp
  then show "wp (lifetime_guard w rw adm c) Q (unwound g) st"
    by (auto simp: lifetime_guard_def wp_simps unwound_now[OF assms(1)] split: option.splits)
  from \<open>Q () st\<close> show "wp (probe_guard g env adm c) Q (unwound g) st"
    unfolding probe_guard_def wp_if wp_seq wp_ret
    by (auto intro!: wp_any_health simp: wp_ret wp_raise assms(2) unwound_now[OF assms(1)])
qed

lemma tuned_started_wp: "tuned g st \<Longrightarrow> wp (handle_started c rid) (\<lambda>_. tuned g) (unwound g) st"
  unfolding handle_started_def wp_seq wp_get_state wp_if wp_update invalid_event_def wp_raise
  by (auto simp: unwound_now)

lemma semantic_event_fields:
  "semantic ev \<Longrightarrow> ev_event_type (semantic_gateway_event r n ev) \<noteq> USAGE_COMPLETED \<and>
     \<not> terminal_event (semantic_gateway_event r n ev) \<and> ev_request_id (semantic_gateway_event r n ev) = gr_request_id r"
  by (cases ev) (simp_all add: blank_event_def terminal_event_def)

lemma tuned_semantic_wp:
  assumes "tuned g st" "semantic ev"
  shows "wp (handle_semantic g rw adm c ev) (\<lambda>_. tuned g) (unwound g) st"
proof -
  let ?st = "note_semantic ev st"
  have st: "tuned g ?st" "ss_semantic_output ?st"
    using tuned_semantic[OF assms(1)] by (simp_all add: note_semantic_def)
  have rest: "wp (seq (probe_guard g (rw_probe rw) adm c) (\<lambda>_.
      seq next_sequence (\<lambda>n. emit g (semantic_gateway_event (pl_request (sg_plan g)) n ev)))) (\<lambda>_. tuned g) (unwound g) t"
    if t: "tuned g t" "ss_semantic_output t" for t
    unfolding wp_seq wp_next_sequence
    by (rule tuned_guards_wp(1)[OF t(1)], rule emit_tuned_wp) (use t semantic_event_fields[OF assms(2)] in auto)
  have start: "wp (seq next_sequence (\<lambda>n. seq (update (\<lambda>st. st\<lparr>ss_public_started := True\<rparr>)) (\<lambda>_.
      emit g ((blank_event RESPONSE_STARTED (pl_request (sg_plan g)) n)\<lparr>ev_routing := Some (ss_routing ?st)\<rparr>))))
      (\<lambda>_ t. tuned g t \<and> ss_semantic_output t) (unwound g) ?st"
    unfolding wp_seq wp_next_sequence wp_update
    by (rule emit_semantic_wp) (use st in \<open>auto simp: blank_event_def terminal_event_def\<close>)
  show ?thesis
  proof (cases "ss_public_started ?st")
    case True
    with rest[OF st] show ?thesis
      unfolding handle_semantic_def by (simp add: wp_seq wp_update wp_get_state wp_ret)
  next
    case False
    have "wp (handle_semantic g rw adm c ev) (\<lambda>_. tuned g) (unwound g) st \<longleftrightarrow>
        wp (seq next_sequence (\<lambda>n. seq (update (\<lambda>st. st\<lparr>ss_public_started := True\<rparr>)) (\<lambda>_.
          emit g ((blank_event RESPONSE_STARTED (pl_request (sg_plan g)) n)\<lparr>ev_routing := Some (ss_routing ?st)\<rparr>))))
          (\<lambda>_. wp (seq (probe_guard g (rw_probe rw) adm c) (\<lambda>_.
            seq next_sequence (\<lambda>n. emit g (semantic_gateway_event (pl_request (sg_plan g)) n ev)))) (\<lambda>_. tuned g) (unwound g))
          (unwound g) ?st"
      using False unfolding handle_semantic_def by (simp add: wp_seq wp_update wp_get_state)
    with wp_mono[OF start] rest show ?thesis by auto
  qed
qed

lemma tuned_usage_wp:
  assumes "tuned g st"
  shows "wp (handle_usage g c u) (\<lambda>_. tuned g) (unwound g) st"
proof -
  let ?u = "usage_of u"
  define e where "e = (blank_event USAGE_COMPLETED (pl_request (sg_plan g)) (ss_sequence st + 1))\<lparr>ev_usage := Some ?u\<rparr>"
  have e: "ev_event_type e = USAGE_COMPLETED" "ev_usage e = Some ?u" "ev_request_id e = gr_request_id (pl_request (sg_plan g))"
    by (simp_all add: e_def blank_event_def)
  let ?st = "st\<lparr>ss_usage_seen := True, ss_final_usage := Some ?u, ss_sequence := ss_sequence st + 1\<rparr>"
  have emitted: "wp (emit g e) (\<lambda>_. tuned g) (unwound g) ?st" if "\<not> ss_usage_seen st" "ss_semantic_output st"
  proof (rule emit_sound_wp)
    have none: "usages (ss_public st) = []" using assms that by (auto simp: tuned_def)
    then show "usages (ss_public ?st) = []" by simp
    show "tuned g (appended ?st e)" if "sound g (appended ?st e)"
      using that \<open>ss_semantic_output st\<close> none e by (simp add: tuned_def)
  qed (use assms e in \<open>auto simp: terminal_event_def tuned_sound unwound_sound\<close>)
  show ?thesis
    unfolding handle_usage_def wp_seq wp_get_state wp_if wp_update wp_next_sequence invalid_event_def wp_raise
    using emitted[unfolded e_def] unwound_now[OF assms] tuned_sound[OF assms] by (auto simp: unwound_sound)
qed

lemma fits_execution:
  assumes "tuned g st" "px_usage x = ss_final_usage st" "ss_final_usage st \<noteq> None" "ev_execution e = Some x"
  shows "fits (ss_public st) e"
  using assms by (auto simp: fits_def tuned_def)

lemma tuned_completed_wp:
  assumes "tuned g st"
  shows "wp (handle_completed g w rw adm c n rid finish) (\<lambda>_. tuned g) (unwound g) st"
proof -
  have emitted: "wp (seq next_sequence (\<lambda>k. emit g ((blank_event RESPONSE_COMPLETED (pl_request (sg_plan g)) k)\<lparr>ev_routing := Some r,
      ev_execution := Some (execution_of c SUCCEEDED ms n i finish st), ev_finish_reason := finish\<rparr>))) (\<lambda>_. tuned g) (unwound g) t"
    if "tuned g t" "ss_semantic_output t" "ss_final_usage t = ss_final_usage st" "ss_final_usage st \<noteq> None" for t r ms i
    unfolding wp_seq wp_next_sequence
    by (rule emit_tuned_wp)
       (use that in \<open>auto simp: blank_event_def execution_of_def Let_def intro!: fits_execution[of g t]\<close>)
  have store: "ss_final_usage (snd (store_best_effort rw r x t)) = ss_final_usage t"
    "ss_semantic_output (snd (store_best_effort rw r x t)) = ss_semantic_output t" for r x and t :: "'a stream_state"
    by (simp_all add: store_best_effort_def update_def Let_def split: option.splits)
  show ?thesis
    unfolding handle_completed_def wp_seq[of get_state] wp_seq[of "lift_result _"] wp_seq[of "stream_health _"]
      wp_get_state wp_if wp_lift invalid_event_def wp_raise Let_def wp_seq[of "store_best_effort _ _ _"] store_fields(1)
    by (intro conjI allI impI wp_any_health)
       (use assms in \<open>auto intro!: emitted simp: unwound_now wp_raise store\<close>)
qed

lemma tuned_event_wp:
  assumes "tuned g st"
  shows "wp (handle_event g w rw adm c n ev) (\<lambda>_. tuned g) (unwound g) st"
  using unwound_now[OF assms] tuned_started_wp[OF assms] tuned_semantic_wp[OF assms] tuned_usage_wp[OF assms] tuned_completed_wp[OF assms]
  by (cases ev) (auto simp: handle_event_def wp_seq wp_get_state wp_ret_fun wp_raise invalid_event_def)

lemma tuned_loop_wp:
  assumes "tuned g st"
  shows "wp (read_loop g w adm c n k evs) (\<lambda>_. tuned g) (unwound g) st"
  using assms
proof (induction evs arbitrary: k st)
  case Nil
  then show ?case
    unfolding read_loop.simps wp_seq wp_raise by (intro tuned_guards_wp) (auto intro: unwound_now)
next
  case (Cons ev evs)
  have "wp (handle_event g w (tw_read w k) adm c n ev)
      (\<lambda>r. wp (if r then ret () else read_loop g w adm c n (Suc k) evs) (\<lambda>_. tuned g) (unwound g)) (unwound g) t"
    if "tuned g t" for t
    by (rule wp_mono[OF tuned_event_wp[OF that]]) (auto simp: wp_ret intro: Cons.IH)
  with Cons.prems show ?case
    unfolding read_loop.simps wp_seq wp_lift
    by (intro tuned_guards_wp conjI allI impI) (auto intro: unwound_now)
qed

subsection \<open>Attempts and candidates\<close>

text \<open>Between attempts nothing is published and no usage was reported.\<close>

definition quiet :: "'s stream_args \<Rightarrow> 's stream_state \<Rightarrow> bool" where
  "quiet g st \<longleftrightarrow> sound g st \<and> ss_public st = [] \<and> opt_all (\<lambda>x. px_usage x = None) (ss_last_execution st)"

definition step_quiet :: "'s stream_args \<Rightarrow> stream_step \<Rightarrow> 's stream_state \<Rightarrow> bool" where
  "step_quiet g r t \<longleftrightarrow> sound g t \<and> (r \<noteq> StreamReturned \<longrightarrow> quiet g t)"

lemma quiet_health [simp]: "quiet g (st\<lparr>ss_health := h\<rparr>) = quiet g st"
  by (simp add: quiet_def)

lemma step_quiet_health [simp]: "step_quiet g r (st\<lparr>ss_health := h\<rparr>) = step_quiet g r st"
  by (simp add: step_quiet_def)

lemma step_quietI: "quiet g st \<Longrightarrow> step_quiet g r st"
  by (simp add: step_quiet_def quiet_def)

lemma quiet_sound: "quiet g st \<Longrightarrow> sound g st"
  by (simp add: quiet_def)

lemma quiet_recover_wp:
  assumes "quiet g st"
  shows "wp (stream_recover g w c n e) (step_quiet g) (\<lambda>_. sound g) st"
proof -
  have stop: "wp (emit g (failed_event (pl_request (sg_plan g)) 1 routing code msg b b' (ss_last_execution st)))
      (\<lambda>_. step_quiet g StreamReturned) (\<lambda>_. sound g) (st\<lparr>ss_health := h\<rparr>)" for routing code msg b b' h
    by (rule wp_mono[OF emit_failed_wp]) (use assms in \<open>auto simp: quiet_def step_quiet_def opt_all_def split: option.splits\<close>)
  note stop = stop stop[of _ _ _ _ _ "ss_health st", simplified]
  show ?thesis
    unfolding stream_recover_def stream_can_retry_def wp_seq wp_if wp_ret wp_ret_fun wp_get_state wp_lift
    by (intro conjI impI wp_any_health) (use assms in \<open>auto simp: wp_ret intro: stop step_quietI quiet_sound\<close>)
qed

lemma tuned_error_wp:
  assumes "tuned g st"
  shows "wp (stream_error g w adm c n e) (step_quiet g) (\<lambda>_. sound g) st"
proof -
  let ?st = "\<lambda>h. st\<lparr>ss_health := h, ss_last_error := Some e\<rparr>"
  have usage: "px_usage (execution_of c FAILED ms n (ss_response_id st) None (?st h)) = ss_final_usage st" for ms h
    by (simp add: execution_of_def Let_def)
  have failed: "wp (emit g (failed_event (pl_request (sg_plan g)) (ss_sequence st + 1) routing code msg b b'
        (Some (execution_of c FAILED ms n (ss_response_id st) None (?st h))))) (\<lambda>_. step_quiet g StreamReturned) (\<lambda>_. sound g)
      (?st h\<lparr>ss_last_execution := y, ss_sequence := ss_sequence st + 1\<rparr>)" for routing code msg b b' ms h y
    by (rule wp_mono[OF emit_failed_wp])
       (use assms usage in \<open>auto simp: tuned_def step_quiet_def opt_all_def\<close>)
  have recover: "wp (stream_recover g w c n e) (step_quiet g) (\<lambda>_. sound g)
      (?st h\<lparr>ss_last_execution := Some (execution_of c FAILED ms n (ss_response_id st) None (?st h))\<rparr>)"
    if "\<not> ss_semantic_output st" for h ms
    by (rule quiet_recover_wp) (use assms that usage in \<open>auto simp: tuned_def quiet_def opt_all_def\<close>)
  show ?thesis
    unfolding stream_error_def wp_seq wp_lift wp_if wp_update wp_get_state wp_raise Let_def wp_next_sequence wp_ret_fun
    by (intro conjI allI impI wp_any_health) (use tuned_sound[OF assms] in \<open>auto intro!: failed recover\<close>)
qed

lemma quiet_tuned: "quiet g st \<Longrightarrow> tuned g (reset_attempt st)"
  by (simp add: quiet_def tuned_def) (simp add: reset_attempt_def)

lemma quiet_attempt_wp:
  assumes "quiet g st"
  shows "wp (stream_attempt g i c n) (step_quiet g) (\<lambda>_. sound g) st"
proof -
  have body: "wp (catch_provider (open_stream g w adm c n) (stream_error g w adm c n)) (step_quiet g) (\<lambda>_. sound g)
      (enter_attempt g c n (reset_attempt st\<lparr>ss_health := h\<rparr>))" for w adm h
  proof -
    have t: "tuned g (enter_attempt g c n (reset_attempt st\<lparr>ss_health := h\<rparr>))" using quiet_tuned[OF assms] by simp
    have "wp (open_stream g w adm c n) (step_quiet g) (unwound g) (enter_attempt g c n (reset_attempt st\<lparr>ss_health := h\<rparr>))"
      unfolding open_stream_def wp_seq wp_lift wp_update wp_ret
      by (intro conjI allI impI wp_mono[OF tuned_loop_wp])
         (use t in \<open>auto simp: step_quiet_def tuned_sound unwound_now\<close>)
    then show ?thesis
      unfolding wp_catch by (rule wp_mono) (auto simp: unwound_def intro: tuned_error_wp)
  qed
  have scoped: "wp (admission_scope (stream_health m) (catch_provider (open_stream g w adm c n) (stream_error g w adm c n)))
      (step_quiet g) (\<lambda>_. sound g) (enter_attempt g c n (reset_attempt st\<lparr>ss_health := h\<rparr>))" for m w adm h
    by (rule scope_wp[OF body]) (auto simp: step_quiet_def)
  have "quiet g (reset_attempt st)" using assms by (simp add: quiet_def) (simp add: reset_attempt_def)
  then show ?thesis
    unfolding stream_attempt_def Let_def wp_seq wp_lift wp_option wp_ret wp_update
    by (intro conjI allI impI wp_any_health) (use assms in \<open>auto intro: scoped step_quietI quiet_sound\<close>)
qed

definition loop_quiet :: "'s stream_args \<Rightarrow> bool \<Rightarrow> 's stream_state \<Rightarrow> bool" where
  "loop_quiet g r t \<longleftrightarrow> sound g t \<and> (\<not> r \<longrightarrow> quiet g t)"

lemma quiet_attempts_wp:
  assumes "quiet g st"
  shows "wp (stream_attempts g i c k n) (loop_quiet g) (\<lambda>_. sound g) st"
  using assms
proof (induction k arbitrary: n st)
  case 0
  then show ?case unfolding stream_attempts.simps stream_candidates.simps wp_ret by (simp add: loop_quiet_def quiet_def)
next
  case (Suc k)
  have "quiet g (t\<lparr>ss_sleeps := sl\<rparr>)" if "quiet g t" for t sl using that by (simp add: quiet_def)
  then show ?case
    unfolding stream_attempts.simps wp_seq[of "stream_attempt g i c n"]
    by (intro wp_mono[OF quiet_attempt_wp[OF Suc.prems]])
       (auto simp: wp_seq wp_lift wp_update wp_ret step_quiet_def loop_quiet_def intro: Suc.IH[unfolded loop_quiet_def] Suc.IH
          split: stream_step.splits)
qed

lemma quiet_candidates_wp:
  assumes "quiet g st"
  shows "wp (stream_candidates g i cs) (loop_quiet g) (\<lambda>_. sound g) st"
  using assms
proof (induction cs arbitrary: i st)
  case Nil
  then show ?case unfolding stream_attempts.simps stream_candidates.simps wp_ret by (simp add: loop_quiet_def quiet_def)
next
  case (Cons c cs)
  show ?case
    unfolding stream_candidates.simps wp_seq
    by (rule wp_mono[OF quiet_attempts_wp[OF Cons.prems]])
       (auto simp: wp_ret loop_quiet_def intro: Cons.IH)
qed

lemma quiet_init: "quiet g (stream_init g h)"
  by (simp add: quiet_def sound_def stream_init_def opt_all_def)

lemma quiet_live_wp:
  assumes "quiet g st"
  shows "wp (stream_live g) (\<lambda>_. sound g) (\<lambda>_. sound g) st"
proof -
  have last: "wp (stream_exhausted g) (\<lambda>_. sound g) (\<lambda>_. sound g) t" if "quiet g t" for t
    unfolding stream_exhausted_def wp_seq wp_get_state
    by (rule emit_failed_wp) (use that in \<open>auto simp: quiet_def opt_all_def split: option.splits\<close>)
  have "quiet g (st\<lparr>ss_cached_content := cc\<rparr>)" for cc using assms by (simp add: quiet_def)
  then show ?thesis
    unfolding stream_live_def wp_seq wp_update
    by (intro wp_mono[OF quiet_candidates_wp]) (auto simp: wp_ret loop_quiet_def last)
qed

subsection \<open>Cached answers and the wrapper\<close>

fun chain :: "GatewayStreamEvent list \<Rightarrow> GatewayStreamEvent list \<Rightarrow> bool" where
  "chain es [] \<longleftrightarrow> True"
| "chain es (e # rest) \<longleftrightarrow> (ev_event_type e = USAGE_COMPLETED \<longrightarrow> usages es = []) \<and> (terminal_event e \<longrightarrow> fits es e) \<and>
     chain (es @ [e]) rest"

lemma emit_all_sound_wp:
  assumes "sound g st" "chain (ss_public st) es" "list_all (\<lambda>e. ev_request_id e = gr_request_id (pl_request (sg_plan g))) es"
  shows "wp (emit_all g es) (\<lambda>_. sound g) (\<lambda>_. sound g) st"
  using assms
proof (induction es arbitrary: st)
  case Nil
  then show ?case unfolding emit_all.simps wp_ret by simp
next
  case (Cons e es)
  show ?case unfolding emit_all.simps wp_seq
  proof (rule emit_sound_wp[OF Cons.prems(1)])
    show "wp (emit_all g es) (\<lambda>_. sound g) (\<lambda>_. sound g) (appended st e)" if "sound g (appended st e)"
      using Cons.prems by (intro Cons.IH that) auto
  qed (use Cons.prems in auto)
qed

lemma cached_chain:
  "chain [] (cached_events r dec hit)" "list_all (\<lambda>e. ev_request_id e = gr_request_id r) (cached_events r dec hit)"
  by (simp_all add: cached_events_def Let_def blank_event_def terminal_event_def fits_def usages_def)

lemma body_sound_wp:
  assumes "quiet g st"
  shows "wp (stream_body g) (\<lambda>_. sound g) (\<lambda>_. sound g) st"
proof -
  have cached: "wp (emit_all g (cached_events (pl_request (sg_plan g)) (pl_decision (sg_plan g)) hit)) (\<lambda>_. sound g) (\<lambda>_. sound g) st" for hit
    by (rule emit_all_sound_wp) (use assms cached_chain in \<open>auto simp: quiet_def\<close>)
  show ?thesis
    unfolding stream_body_def using quiet_live_wp[OF assms] cached quiet_sound[OF assms]
    by (auto simp: wp_raise split: list.splits option.splits cache_answer.splits)
qed

text \<open>Whatever happens, the events published are evidence of this request and agree on its usage.\<close>

lemma stream_sound:
  assumes "stream g before fired after (stream_init g h) = (x, st)"
  shows "sound g st"
proof -
  obtain r t where b: "stream_body g (stream_init g h) = (r, t)" by fastforce
  have "sound g t" using wp_result[OF body_sound_wp[OF quiet_init] b] by (cases r) auto
  have expired: "sound g (u\<lparr>ss_public := ss_public u @ [deadline_failed g u]\<rparr>)"
    if "sound g u" "0 \<le> ss_public_sequence u" for u
  proof -
    have "GatewayStreamEvent_ok (deadline_failed g u)" using that(2)
      by (simp add: deadline_failed_def failed_event_def blank_event_def GatewayStreamEvent_ok_def event_payload_ok_def
          event_require_def validate_execution_def)
    then have "sound g (appended u (deadline_failed g u))"
      by (intro sound_appended that(1)) (simp_all add: deadline_failed_def fits_def)
    then show ?thesis by (simp add: sound_def)
  qed
  obtain e os where "r = Inl e" "ended g os e t"
    using wp_result[OF stream_body_wp b] by (cases r) (auto simp: ended_after_def)
  then have "0 \<le> ss_public_sequence t" by (auto simp: ended_def flow_def settled_def split: if_splits)
  note last = expired[OF \<open>sound g t\<close> this]
    expired[of "stream_init g h", OF quiet_sound[OF quiet_init]]
  have "0 \<le> ss_public_sequence (stream_init g h)" by (simp add: stream_init_def)
  then show ?thesis
    using assms b last \<open>sound g t\<close> by (auto simp: stream_def Let_def split: if_splits option.splits verdict.splits)
qed

end
