(* ===== verification/End_To_End.thy ===== *)
theory End_To_End
  imports Event_Wire_Properties Streaming_Properties Streaming_Usage
begin

text \<open>
  The whole path of a response: the streaming executor publishes events, the HTTP application
  writes them as server-sent events, the network cuts the bytes at will, and the client decodes
  and aggregates them.
\<close>

subsection \<open>Aggregating well-formed events\<close>

definition texts :: "GatewayStreamEvent list \<Rightarrow> string list" where
  "texts es = concat (map (\<lambda>e. if ev_event_type e = CONTENT_DELTA then option_list (ev_delta e) else []) es)"

definition completed_calls :: "GatewayStreamEvent list \<Rightarrow> ToolCall list" where
  "completed_calls es = concat (map (\<lambda>e. if ev_event_type e = TOOL_CALL_COMPLETED then option_list (ev_tool_call e) else []) es)"

lemma collect_simps [simp]:
  "texts [] = []" "completed_calls [] = []"
  "texts (e # es) = (if ev_event_type e = CONTENT_DELTA then option_list (ev_delta e) else []) @ texts es"
  "completed_calls (e # es) = (if ev_event_type e = TOOL_CALL_COMPLETED then option_list (ev_tool_call e) else []) @ completed_calls es"
  "texts (es @ es') = texts es @ texts es'" "completed_calls (es @ es') = completed_calls es @ completed_calls es'"
  by (simp_all add: texts_def completed_calls_def)

lemma usages_Cons: "usages (e # es) = usages [e] @ usages es"
  by (simp add: usages_def)

lemma event_ok_parts:
  assumes "GatewayStreamEvent_ok e"
  shows "ev_event_type e = CONTENT_DELTA \<Longrightarrow> ev_delta e \<noteq> None" "ev_event_type e = TOOL_CALL_COMPLETED \<Longrightarrow> ev_tool_call e \<noteq> None"
    "ev_event_type e = USAGE_COMPLETED \<Longrightarrow> ev_usage e \<noteq> None" "client_terminal e \<Longrightarrow> ev_routing e \<noteq> None"
    "ev_event_type e = RESPONSE_FAILED \<Longrightarrow> ev_error e \<noteq> None" "ev_event_type e = RESPONSE_COMPLETED \<Longrightarrow> ev_error e = None"
  using assms by (auto simp: GatewayStreamEvent_ok_def event_payload_ok_def has_text_def event_require_def client_terminal_def split: option.splits)

definition absorbed :: "GatewayStreamEvent list \<Rightarrow> generate_state \<Rightarrow> generate_state" where
  "absorbed es st = st\<lparr>gn_content := gn_content st @ texts es, gn_tool_calls := gn_tool_calls st @ completed_calls es,
     gn_usage := (case usages es of [] \<Rightarrow> gn_usage st | u # _ \<Rightarrow> Some u)\<rparr>"

lemma generate_event_ok:
  assumes "GatewayStreamEvent_ok e" "ev_event_type e = USAGE_COMPLETED \<Longrightarrow> gn_usage st = None"
  shows "generate_event e st = Inr (if client_terminal e then absorbed [e] st\<lparr>gn_terminal := Some e\<rparr> else absorbed [e] st)"
  using event_ok_parts[OF assms(1)] assms(2)
  by (cases "ev_event_type e")
     (auto simp: generate_event_def absorbed_def client_terminal_def usages_def)

lemma generate_events_ok:
  assumes "list_all GatewayStreamEvent_ok es" "list_all (\<lambda>e. \<not> client_terminal e) es"
    "length (option_list (gn_usage st) @ usages es) \<le> 1"
  shows "generate_events es st = Inr (absorbed es st)"
  using assms
proof (induction es arbitrary: st)
  case Nil
  then show ?case by (simp add: absorbed_def)
next
  case (Cons e es)
  have one: "ev_event_type e = USAGE_COMPLETED \<Longrightarrow> gn_usage st = None"
    using Cons.prems event_ok_parts(3)[of e] by (auto simp: usages_def option_list_def split: option.splits)
  have "length (usages [e]) + length (usages es) \<le> 1" using Cons.prems(3) by (simp add: usages_Cons[of e es])
  then have excl: "usages [e] = [] \<or> usages es = []" by (cases "usages [e]") auto
  have "generate_event e st = Inr (absorbed [e] st)" using generate_event_ok[OF _ one] Cons.prems by simp
  moreover have "generate_events es (absorbed [e] st) = Inr (absorbed es (absorbed [e] st))"
    using Cons.prems usages_one[of e] usages_Cons[of e es]
    by (intro Cons.IH) (auto simp: absorbed_def option_list_def split: list.splits option.splits)
  moreover have "absorbed es (absorbed [e] st) = absorbed (e # es) st"
    using excl by (auto simp: absorbed_def usages_Cons[of e es] split: list.splits)
  ultimately show ?case by simp
qed

lemma generate_events_append: "generate_events (es @ es') st = ebind (generate_events es st) (generate_events es')"
  by (induction es arbitrary: st) (auto simp: ebind_def split: sum.splits)

lemma generate_result_ok:
  assumes "GatewayStreamEvent_ok e" "client_terminal e" "fits es e" "list_all GatewayStreamEvent_ok es"
    "list_all (\<lambda>e. \<not> client_terminal e) es" "length (usages es) \<le> 1"
  shows "ebind (generate_events (es @ [e]) \<lparr>gn_content = [], gn_tool_calls = [], gn_usage = None, gn_terminal = None\<rparr>) generate_result =
    Inr \<lparr>gs_request_id = ev_request_id e, gs_status = (if ev_event_type e = RESPONSE_COMPLETED then SUCCEEDED else FAILED),
      gs_content = (if concat (texts es) = [] then None else Some (concat (texts es))), gs_routing = the (ev_routing e),
      gs_execution = ev_execution e, gs_error = ev_error e, gs_structured_output = None, gs_tool_calls = completed_calls es\<rparr>"
proof -
  let ?st = "\<lparr>gn_content = [], gn_tool_calls = [], gn_usage = None, gn_terminal = None\<rparr>"
  have last: "ev_event_type e = RESPONSE_COMPLETED \<or> ev_event_type e = RESPONSE_FAILED" using assms(2) by (simp add: client_terminal_def)
  have e: "absorbed [e] st = st" for st using last by (auto simp: absorbed_def)
  have "generate_events es ?st = Inr (absorbed es ?st)" using assms(4-6) by (intro generate_events_ok) simp_all
  moreover have "generate_event e (absorbed es ?st) = Inr (absorbed es ?st\<lparr>gn_terminal := Some e\<rparr>)"
    using generate_event_ok[OF assms(1)] last assms(2) by (auto simp: e)
  ultimately have g: "generate_events (es @ [e]) ?st = Inr (absorbed es ?st\<lparr>gn_terminal := Some e\<rparr>)"
    by (simp add: generate_events_append)
  have u: "gn_usage (absorbed es ?st) = (case usages es of [] \<Rightarrow> None | u # _ \<Rightarrow> Some u)"
    "gn_content (absorbed es ?st) = texts es" "gn_tool_calls (absorbed es ?st) = completed_calls es"
    by (simp_all add: absorbed_def split: list.splits)
  obtain r where r: "ev_routing e = Some r" using event_ok_parts(4)[OF assms(1,2)] by auto
  have ms: "mk_response e s r er (absorbed es ?st\<lparr>gn_terminal := Some e\<rparr>) = \<lparr>gs_request_id = ev_request_id e, gs_status = s,
      gs_content = (if concat (texts es) = [] then None else Some (concat (texts es))), gs_routing = r,
      gs_execution = ev_execution e, gs_error = er, gs_structured_output = None, gs_tool_calls = completed_calls es\<rparr>" for s er
    by (simp add: mk_response_def u)
  show ?thesis
    using assms(3) last event_ok_parts(5,6)[OF assms(1)] r
    by (auto simp: g generate_result_def ms u fits_def option_list_def simp del: ebind_Inr_iff split: option.splits)
qed

subsection \<open>From the executor to the caller\<close>

text \<open>An untroubled event-stream response.\<close>

definition event_stream_response :: "http_response \<Rightarrow> bool" where
  "event_stream_response r \<longleftrightarrow> 200 \<le> hr_status_code r \<and> hr_status_code r < 300 \<and> identity_encoding r \<and>
     hr_headers r ''content-length'' = None \<and> media_type r = ''text/event-stream'' \<and> \<not> hr_broken r"

lemma client_stream_open:
  "event_stream_response r \<Longrightarrow> client_stream max_event max_stream rid r = iter_sse_events max_event max_stream rid False (hr_body r)"
  by (simp add: client_stream_def event_stream_response_def validate_identity_response_def validate_success_content_length_def)

lemma canonical_fields [simp]:
  "ev_event_type (canonical_event e) = ev_event_type e" "ev_request_id (canonical_event e) = ev_request_id e"
  "ev_routing (canonical_event e) = ev_routing e" "ev_execution (canonical_event e) = ev_execution e"
  "ev_error (canonical_event e) = ev_error e" "ev_usage (canonical_event e) = ev_usage e" "ev_delta (canonical_event e) = ev_delta e"
  "ev_tool_call (canonical_event e) = map_option canonical_call (ev_tool_call e)"
  "client_terminal (canonical_event e) = client_terminal e"
  by (simp_all add: canonical_event_def client_terminal_def)

lemma canonical_lists [simp]:
  "usages (map canonical_event es) = usages es" "texts (map canonical_event es) = texts es"
  "completed_calls (map canonical_event es) = map canonical_call (completed_calls es)"
  by (induction es) (auto simp: usages_def texts_def completed_calls_def option_list_def split: option.splits)

lemma terminal_same: "client_terminal e \<longleftrightarrow> terminal_event e"
  by (simp add: client_terminal_def terminal_event_def)

lemma client_understands:
  assumes "stream g before fired after (stream_init g h) = (Inr (), st)" "\<forall>k. ew_resumed (sg_emit g k)"
    "list_all event_wire (ss_public st)" "those (map encode_sse (ss_public st)) = Some frames" "event_stream_response resp" "concat (hr_body resp) = concat frames"
    "list_all (\<lambda>f. int (length f) \<le> max_event + 1) frames"
    "0 < max_event" "max_event \<le> max_stream" "int (length (concat frames)) \<le> max_stream"
  shows "\<exists>es e. ss_public st = es @ [e] \<and>
    generate max_event max_stream (gr_request_id (pl_request (sg_plan g))) resp =
      Inr \<lparr>gs_request_id = gr_request_id (pl_request (sg_plan g)),
        gs_status = (if ev_event_type e = RESPONSE_COMPLETED then SUCCEEDED else FAILED),
        gs_content = (if concat (texts es) = [] then None else Some (concat (texts es))),
        gs_routing = the (ev_routing e), gs_execution = ev_execution e, gs_error = ev_error e,
        gs_structured_output = None, gs_tool_calls = map canonical_call (completed_calls es)\<rparr>"
proof -
  let ?rid = "gr_request_id (pl_request (sg_plan g))"
  obtain es e where es: "ss_public st = es @ [e]" "terminal_event e" using stream_last[OF assms(1,2)] by blast
  note pub = published[OF assms(1)]
  have sound: "list_all (\<lambda>e. ev_request_id e = ?rid \<and> GatewayStreamEvent_ok e) (es @ [e])" "length (usages es) \<le> 1" "fits es e"
    using stream_sound[OF assms(1)] es by (auto simp: sound_def)
  have fit: "fits (map canonical_event es) (canonical_event e)" using sound(3) by (simp add: fits_def split: option.splits)
  have quiet: "list_all (\<lambda>e. \<not> client_terminal e) es" using pub es by (simp add: terminal_same)
  have c: "GatewayStreamEvent_ok (canonical_event e)" "client_terminal (canonical_event e)"
    "fits (map canonical_event es) (canonical_event e)" "list_all GatewayStreamEvent_ok (map canonical_event es)"
    "list_all (\<lambda>e. \<not> client_terminal e) (map canonical_event es)" "length (usages (map canonical_event es)) \<le> 1"
    using fit sound quiet es(2) by (simp_all add: canonical_event_ok list_all_iff flip: terminal_same)
  have "client_stream max_event max_stream ?rid resp = (map canonical_event (ss_public st), None)"
    unfolding client_stream_open[OF assms(5)]
  proof (rule client_reads[OF _ _ _ _ _ assms(4,6-10)])
    show "map ev_sequence_number (ss_public st) = map int [1..<Suc (length (ss_public st))]" using pub by (simp add: numbered_def)
    show "list_all (\<lambda>e. event_wire e \<and> ev_request_id e = ?rid) (ss_public st)"
      using assms(3) sound(1) es(1) by (auto simp: list_all_iff)
  qed (use es quiet in \<open>simp_all add: terminal_same\<close>)
  moreover have "ebind (generate_events (map canonical_event es @ [canonical_event e])
      \<lparr>gn_content = [], gn_tool_calls = [], gn_usage = None, gn_terminal = None\<rparr>) generate_result =
    Inr \<lparr>gs_request_id = ?rid, gs_status = (if ev_event_type e = RESPONSE_COMPLETED then SUCCEEDED else FAILED),
      gs_content = (if concat (texts es) = [] then None else Some (concat (texts es))), gs_routing = the (ev_routing e),
      gs_execution = ev_execution e, gs_error = ev_error e, gs_structured_output = None,
      gs_tool_calls = map canonical_call (completed_calls es)\<rparr>"
    using generate_result_ok[OF c, unfolded canonical_fields canonical_lists] sound(1) by simp
  ultimately show ?thesis using es(1) by (auto simp: generate_def simp del: ebind_Inr_iff)
qed

text \<open>
  C3. The gateway and its client agree. Run the streaming executor on any prepared plan, with any
  providers, clock and health state, for a consumer that keeps reading. If the run ends without
  an unexpected error and its events are within the wire contract, the client that receives
  their encoding in an event-stream response, cut into chunks in any way within its limits, never
  reports a protocol error:
  it returns one response for this request, succeeded exactly when the executor published a
  completion, holding the concatenated text, the completed tool calls, and the routing,
  execution evidence and error of the executor's last event.
\<close>

theorem client_understands_gateway:
  assumes "stream g before fired after (stream_init g h) = (Inr (), st)" "\<forall>k. ew_resumed (sg_emit g k)"
    "list_all event_wire (ss_public st)" "those (map encode_sse (ss_public st)) = Some frames" "event_stream_response resp" "concat (hr_body resp) = concat frames"
    "list_all (\<lambda>f. int (length f) \<le> max_event + 1) frames"
    "0 < max_event" "max_event \<le> max_stream" "int (length (concat frames)) \<le> max_stream"
  shows "\<exists>es e. ss_public st = es @ [e] \<and>
    generate max_event max_stream (gr_request_id (pl_request (sg_plan g))) resp =
      Inr \<lparr>gs_request_id = gr_request_id (pl_request (sg_plan g)),
        gs_status = (if ev_event_type e = RESPONSE_COMPLETED then SUCCEEDED else FAILED),
        gs_content = (if concat (texts es) = [] then None else Some (concat (texts es))),
        gs_routing = the (ev_routing e), gs_execution = ev_execution e, gs_error = ev_error e,
        gs_structured_output = None, gs_tool_calls = map canonical_call (completed_calls es)\<rparr>"
  using client_understands[OF assms] .

text \<open>The stream of the demo plan, cut in the middle of a frame.\<close>

definition demo_frames :: "bytes list" where
  "demo_frames = (case those (map encode_sse demo_public) of None \<Rightarrow> [] | Some fs \<Rightarrow> fs)"

definition demo_http :: http_response where
  "demo_http = \<lparr>hr_status_code = 200, hr_headers = [''content-type'' \<mapsto> ''Text/Event-Stream; charset=utf-8''],
     hr_body = [take 100 (concat demo_frames), drop 100 (concat demo_frames)], hr_broken = False\<rparr>"

definition demo_limit :: int where
  "demo_limit = int (length (concat demo_frames)) + 1"

lemma encodes: "list_all event_wire es \<Longrightarrow> \<exists>frames. those (map encode_sse es) = Some frames"
  by (induction es) (auto elim: event_checked)

lemma demo_published: "list_all event_wire demo_public"
  by code_simp

lemma demo_types: "map (\<lambda>e. (ev_event_type e, ev_delta e)) demo_public =
     [(RESPONSE_STARTED, None), (CONTENT_DELTA, Some ''ok''), (USAGE_COMPLETED, None), (RESPONSE_COMPLETED, None)]"
  by (simp add: demo_public_def blank_event_def Let_def)

lemma demo_response: "event_stream_response demo_http"
proof -
  have "py_lower (py_strip (takeWhile (\<lambda>c. c \<noteq> CHR '';'') ''Text/Event-Stream; charset=utf-8'')) = ''text/event-stream''"
    by code_simp
  then show ?thesis
    unfolding event_stream_response_def media_type_def identity_encoding_def header_text_def demo_http_def
    by (simp add: py_lower_def py_strip_def)
qed

lemma demo_premises:
  obtains st where
    "stream (demo_stream_args demo_events) (Fin 4) False (Fin 6)
       (stream_init (demo_stream_args demo_events) (tracker_init sample_policy)) = (Inr (), st)"
    "\<forall>k. ew_resumed (sg_emit (demo_stream_args demo_events) k)"
    "pl_request (sg_plan (demo_stream_args demo_events)) = demo_stream_request"
    "list_all event_wire (ss_public st)"
    "those (map encode_sse (ss_public st)) = Some demo_frames" "event_stream_response demo_http" "concat (hr_body demo_http) = concat demo_frames"
    "list_all (\<lambda>f. int (length f) \<le> demo_limit + 1) demo_frames" "0 < demo_limit"
    "int (length (concat demo_frames)) \<le> demo_limit"
    "map (\<lambda>e. (ev_event_type e, ev_delta e)) (ss_public st) =
       [(RESPONSE_STARTED, None), (CONTENT_DELTA, Some ''ok''), (USAGE_COMPLETED, None), (RESPONSE_COMPLETED, None)]"
proof -
  let ?g = "demo_stream_args demo_events"
  obtain st where s: "stream ?g (Fin 4) False (Fin 6) (stream_init ?g (tracker_init sample_policy)) = (Inr (), st)"
    "ss_public st = demo_public" by (rule demo_stream_result)
  have demo: "list_all event_wire (ss_public st)" "map (\<lambda>e. (ev_event_type e, ev_delta e)) (ss_public st) =
       [(RESPONSE_STARTED, None), (CONTENT_DELTA, Some ''ok''), (USAGE_COMPLETED, None), (RESPONSE_COMPLETED, None)]"
    using demo_published demo_types unfolding s(2) by simp_all
  obtain fs where fs: "those (map encode_sse (ss_public st)) = Some fs" using encodes[OF demo(1)] by blast
  then have frames: "demo_frames = fs" unfolding demo_frames_def s(2)[symmetric] by simp
  have len: "int (length f) \<le> demo_limit + 1" if "f \<in> set demo_frames" for f
  proof -
    have "length f \<le> length (concat demo_frames)" using that by (auto simp: length_concat intro: member_le_sum_list)
    then show ?thesis unfolding demo_limit_def by simp
  qed
  show thesis
    by (rule that[OF s(1) _ _ demo(1)])
       (use fs frames len demo(2) in \<open>simp_all add: demo_stream_args_def demo_plan_def demo_limit_def list_all_iff demo_response, simp add: demo_http_def\<close>)
qed

theorem client_understands_gateway_witness:
  "\<exists>r. generate demo_limit demo_limit (gr_request_id demo_stream_request) demo_http = Inr r \<and>
     gs_status r = SUCCEEDED \<and> gs_content r = Some ''ok''"
proof -
  obtain st where s: "stream (demo_stream_args demo_events) (Fin 4) False (Fin 6)
       (stream_init (demo_stream_args demo_events) (tracker_init sample_policy)) = (Inr (), st)"
    "\<forall>k. ew_resumed (sg_emit (demo_stream_args demo_events) k)"
    "pl_request (sg_plan (demo_stream_args demo_events)) = demo_stream_request" "list_all event_wire (ss_public st)"
    "those (map encode_sse (ss_public st)) = Some demo_frames" "event_stream_response demo_http" "concat (hr_body demo_http) = concat demo_frames"
    "list_all (\<lambda>f. int (length f) \<le> demo_limit + 1) demo_frames" "0 < demo_limit" "int (length (concat demo_frames)) \<le> demo_limit"
    "map (\<lambda>e. (ev_event_type e, ev_delta e)) (ss_public st) =
       [(RESPONSE_STARTED, None), (CONTENT_DELTA, Some ''ok''), (USAGE_COMPLETED, None), (RESPONSE_COMPLETED, None)]"
    by (rule demo_premises)
  obtain es e where es: "ss_public st = es @ [e]"
    "generate demo_limit demo_limit (gr_request_id demo_stream_request) demo_http =
      Inr \<lparr>gs_request_id = gr_request_id demo_stream_request,
        gs_status = (if ev_event_type e = RESPONSE_COMPLETED then SUCCEEDED else FAILED),
        gs_content = (if concat (texts es) = [] then None else Some (concat (texts es))),
        gs_routing = the (ev_routing e), gs_execution = ev_execution e, gs_error = ev_error e,
        gs_structured_output = None, gs_tool_calls = map canonical_call (completed_calls es)\<rparr>"
    using client_understands_gateway[OF s(1,2,4-9) order_refl s(10)] s(3) by auto
  have "map (\<lambda>e. (ev_event_type e, ev_delta e)) es = [(RESPONSE_STARTED, None), (CONTENT_DELTA, Some ''ok''), (USAGE_COMPLETED, None)]"
    "ev_event_type e = RESPONSE_COMPLETED"
    using s(11) es(1) by auto
  then have "texts es = [''ok'']" "ev_event_type e = RESPONSE_COMPLETED" by (auto simp: map_eq_Cons_conv)
  with es(2) show ?thesis by simp
qed

lemma demo_generates:
  obtains r where "generate demo_limit demo_limit (gr_request_id demo_stream_request) demo_http = Inr r"
proof (rule demo_premises)
  fix st assume s: "stream (demo_stream_args demo_events) (Fin 4) False (Fin 6)
       (stream_init (demo_stream_args demo_events) (tracker_init sample_policy)) = (Inr (), st)"
    "\<forall>k. ew_resumed (sg_emit (demo_stream_args demo_events) k)"
    "pl_request (sg_plan (demo_stream_args demo_events)) = demo_stream_request" "list_all event_wire (ss_public st)"
    "those (map encode_sse (ss_public st)) = Some demo_frames" "event_stream_response demo_http" "concat (hr_body demo_http) = concat demo_frames"
    "list_all (\<lambda>f. int (length f) \<le> demo_limit + 1) demo_frames" "0 < demo_limit" "int (length (concat demo_frames)) \<le> demo_limit"
  show thesis using client_understands[OF s(1,2,4-9) order_refl s(10)] s(3) by (auto intro: that)
qed

subsection \<open>Streams from anywhere\<close>

lemma checked_event_Inr:
  assumes "checked_event rid n f = Inr e"
  shows "ev_request_id e = rid" "ev_sequence_number e = n" "GatewayStreamEvent_ok e"
  using assms
  by (auto simp: checked_event_def decode_event_def constructed_def split: if_splits prod.splits)

lemma frame_events_accepts:
  assumes "frame_events rid n terminal fs fault = (es, None)"
  shows "fault = None \<and> map ev_sequence_number es = map (\<lambda>i. int i + n) [0..<length es] \<and>
    list_all (\<lambda>e. ev_request_id e = rid \<and> GatewayStreamEvent_ok e) es \<and>
    (if terminal then es = [] else es \<noteq> [] \<and> client_terminal (last es) \<and> list_all (\<lambda>e. \<not> client_terminal e) (butlast es))"
  using assms
proof (induction fs arbitrary: n terminal es)
  case Nil
  then show ?case by (auto split: option.splits if_splits)
next
  case (Cons f fs)
  then obtain e es' where e: "checked_event rid n f = Inr e" "\<not> terminal" "es = e # es'"
    "frame_events rid (n + 1) (client_terminal e) fs fault = (es', None)"
    by (auto split: if_splits sum.splits prod.splits)
  from Cons.IH[OF e(4)] checked_event_Inr[OF e(1)] e(2,3) show ?case
    by (auto simp: map_upt_Suc add.commute add.left_commute simp del: upt_Suc split: if_splits)
qed

lemma iter_sse_events_accepts:
  assumes "iter_sse_events me ms rid lost parts = (es, None)"
  obtains fs where "iter_sse_frames me ms lost parts = (fs, None)" "frame_events rid 1 False fs None = (es, None)"
proof -
  obtain fs fault where f: "iter_sse_frames me ms lost parts = (fs, fault)" by fastforce
  with assms have "frame_events rid 1 False fs fault = (es, None)" by (simp add: iter_sse_events_def)
  with frame_events_accepts[OF this] f show thesis by (intro that) auto
qed

lemma frame_loop_whole:
  "frame_loop me ms lost buf got parts = (fs, None) \<Longrightarrow> \<not> lost \<and> (parts \<noteq> [] \<longrightarrow> got + int (length (concat parts)) \<le> ms)"
proof (induction parts arbitrary: buf got fs)
  case (Cons part parts)
  then obtain gs b got' where "frame_loop me ms lost b (got + int (length part)) parts = (gs, None)" "got + int (length part) \<le> ms"
    by (auto simp: Let_def split: if_splits prod.splits option.splits)
  with Cons.IH[OF this(1)] show ?case by (cases parts) auto
qed (auto split: if_splits)

lemma generate_event_Inr:
  assumes "generate_event e st = Inr st'" "GatewayStreamEvent_ok e"
  shows "st' = (if client_terminal e then absorbed [e] st\<lparr>gn_terminal := Some e\<rparr> else absorbed [e] st) \<and>
    (ev_event_type e = USAGE_COMPLETED \<longrightarrow> gn_usage st = None)"
proof -
  have one: "ev_event_type e = USAGE_COMPLETED \<Longrightarrow> gn_usage st = None"
    using assms event_ok_parts(3)[OF assms(2)] by (auto simp: generate_event_def split: if_splits option.splits)
  then show ?thesis using generate_event_ok[OF assms(2) one] assms(1) by simp
qed

lemma generate_events_Inr:
  assumes "generate_events es st = Inr st'" "list_all GatewayStreamEvent_ok es" "list_all (\<lambda>e. \<not> client_terminal e) es"
  shows "st' = absorbed es st \<and> length (option_list (gn_usage st)) + length (usages es) \<le> 1"
  using assms
proof (induction es arbitrary: st)
  case Nil
  then show ?case by (simp add: absorbed_def option_list_def split: option.splits)
next
  case (Cons e es)
  then obtain t where t: "generate_event e st = Inr t" "generate_events es t = Inr st'" by auto
  have e: "t = absorbed [e] st" "ev_event_type e = USAGE_COMPLETED \<longrightarrow> gn_usage st = None"
    using generate_event_Inr[OF t(1)] Cons.prems by auto
  have "length (option_list (gn_usage st) @ usages (e # es)) \<le> 1"
    using Cons.IH[OF t(2)] Cons.prems e usages_one[of e] usages_Cons[of e es]
    by (cases "ev_event_type e = USAGE_COMPLETED") (auto simp: absorbed_def option_list_def split: list.splits option.splits)
  moreover from generate_events_ok[OF Cons.prems(2,3) this] Cons.prems(1) have "st' = absorbed (e # es) st"
    by (simp only: sum.inject)
  ultimately show ?case by simp
qed

lemma aggregated:
  assumes "ebind (generate_events (es @ [e]) \<lparr>gn_content = [], gn_tool_calls = [], gn_usage = None, gn_terminal = None\<rparr>) generate_result = Inr r"
    "list_all GatewayStreamEvent_ok es" "GatewayStreamEvent_ok e" "client_terminal e" "list_all (\<lambda>e. \<not> client_terminal e) es"
  shows "gs_status r = (if ev_event_type e = RESPONSE_COMPLETED then SUCCEEDED else FAILED) \<and>
      gs_content r = (if concat (texts es) = [] then None else Some (concat (texts es))) \<and>
      gs_tool_calls r = completed_calls es \<and> gs_execution r = ev_execution e \<and> gs_request_id r = ev_request_id e \<and>
      (gs_status r = SUCCEEDED \<longrightarrow> (\<exists>u x. usages es = [u] \<and> gs_execution r = Some x \<and> px_usage x = Some u))"
proof -
  let ?st = "\<lparr>gn_content = [], gn_tool_calls = [], gn_usage = None, gn_terminal = None\<rparr>"
  obtain t t' where t: "generate_events es ?st = Inr t" "generate_event e t = Inr t'" "generate_result t' = Inr r"
    using assms(1) by (auto simp: generate_events_append)
  note a = generate_events_Inr[OF t(1) assms(2,5)]
  have last: "ev_event_type e = RESPONSE_COMPLETED \<or> ev_event_type e = RESPONSE_FAILED" using assms(4) by (simp add: client_terminal_def)
  then have "absorbed [e] t = t" by (auto simp: absorbed_def)
  then have t': "t' = (absorbed es ?st)\<lparr>gn_terminal := Some e\<rparr>" using generate_event_Inr[OF t(2) assms(3)] assms(4) a by simp
  have u: "gn_usage (absorbed es ?st) = (case usages es of [] \<Rightarrow> None | u # _ \<Rightarrow> Some u)"
    "gn_content (absorbed es ?st) = texts es" "gn_tool_calls (absorbed es ?st) = completed_calls es"
    by (simp_all add: absorbed_def split: list.splits)
  have single: "usages es = [] \<or> (\<exists>u. usages es = [u])" using a by (cases "usages es") auto
  show ?thesis
    using t(3) last single unfolding t'
    by (auto simp: generate_result_def mk_response_def u split: option.splits if_splits)
qed

text \<open>
  C4. The client accepts only a complete stream, whatever the bytes are and wherever they come
  from. When \<open>generate\<close> returns a response, the status is a success with an event-stream body, the
  transport did not fail, the bytes are within the total limit, and the stream decoded into
  well-formed events for this very request, numbered 1, 2, 3, ... without a gap, of which the last and only the last is terminal. The response
  reports a success exactly when that event is a completion, its text is the concatenation of
  the deltas, and a success carries exactly one published usage, equal to the usage of its
  execution evidence.
\<close>

theorem client_accepts_only_complete_streams:
  assumes "generate max_event max_stream rid resp = Inr r"
  shows "200 \<le> hr_status_code resp \<and> hr_status_code resp < 300 \<and> media_type resp = ''text/event-stream'' \<and>
    \<not> hr_broken resp \<and> int (length (concat (hr_body resp))) \<le> max_stream \<and>
    (\<exists>es e. client_stream max_event max_stream rid resp = (es @ [e], None) \<and>
      map ev_sequence_number (es @ [e]) = map int [1..<Suc (length (es @ [e]))] \<and>
      list_all (\<lambda>e. ev_request_id e = rid \<and> GatewayStreamEvent_ok e) (es @ [e]) \<and>
      client_terminal e \<and> list_all (\<lambda>e. \<not> client_terminal e) es \<and> gs_request_id r = rid \<and>
      gs_status r = (if ev_event_type e = RESPONSE_COMPLETED then SUCCEEDED else FAILED) \<and>
      gs_content r = (if concat (texts es) = [] then None else Some (concat (texts es))) \<and>
      gs_tool_calls r = completed_calls es \<and> gs_execution r = ev_execution e \<and>
      (gs_status r = SUCCEEDED \<longrightarrow> (\<exists>u x. usages es = [u] \<and> gs_execution r = Some x \<and> px_usage x = Some u)))"
proof -
  let ?st = "\<lparr>gn_content = [], gn_tool_calls = [], gn_usage = None, gn_terminal = None\<rparr>"
  obtain evs where evs: "client_stream max_event max_stream rid resp = (evs, None)"
      "ebind (generate_events evs ?st) generate_result = Inr r"
    using assms by (auto simp: generate_def split: prod.splits option.splits)
  then have http: "200 \<le> hr_status_code resp" "hr_status_code resp < 300" "media_type resp = ''text/event-stream''"
      "iter_sse_events max_event max_stream rid (hr_broken resp) (hr_body resp) = (evs, None)"
    by (auto simp: client_stream_def split: if_splits sum.splits)
  obtain fs where fs: "iter_sse_frames max_event max_stream (hr_broken resp) (hr_body resp) = (fs, None)"
      "frame_events rid 1 False fs None = (evs, None)"
    by (rule iter_sse_events_accepts[OF http(4)])
  note f = frame_events_accepts[OF fs(2)]
  from f obtain es e where es: "evs = es @ [e]" by (metis append_butlast_last_id)
  have whole: "\<not> hr_broken resp" "int (length (concat (hr_body resp))) \<le> max_stream"
    using fs(1) frame_loop_whole[of max_event max_stream "hr_broken resp" "[]" 0 "hr_body resp" fs]
    by (cases "hr_body resp = []"; auto simp: iter_sse_frames_def split: if_splits)+
  have e: "list_all GatewayStreamEvent_ok es" "GatewayStreamEvent_ok e" "client_terminal e" "list_all (\<lambda>e. \<not> client_terminal e) es"
    using f es by (auto simp: list_all_iff)
  note res = aggregated[OF evs(2)[unfolded es] e]
  have "map (\<lambda>i. int i + 1) [0..<length evs] = map int [1..<Suc (length evs)]"
    by (simp add: map_add_upt[symmetric] map_Suc_upt[symmetric] comp_def del: upt_Suc)
  then have seq: "map ev_sequence_number (es @ [e]) = map int [1..<Suc (length (es @ [e]))]" using f unfolding es by metis
  have ids: "list_all (\<lambda>e. ev_request_id e = rid \<and> GatewayStreamEvent_ok e) (es @ [e])" using f es by blast
  then have "gs_request_id r = rid" using res by simp
  then show ?thesis using http(1-3) whole evs(1)[unfolded es] seq ids e(3,4) res by blast
qed

theorem client_accepts_only_complete_streams_witness:
  "\<exists>es e. client_stream demo_limit demo_limit (gr_request_id demo_stream_request) demo_http = (es @ [e], None) \<and>
     client_terminal e \<and> list_all (\<lambda>e. \<not> client_terminal e) es"
proof -
  obtain r where "generate demo_limit demo_limit (gr_request_id demo_stream_request) demo_http = Inr r"
    by (rule demo_generates)
  from client_accepts_only_complete_streams[OF this] show ?thesis by blast
qed

end
