(* ===== verification/Spec2Isabelle.thy ===== *)
theory Spec2Isabelle
  imports Spend_Properties Credential_Properties Health_Properties Routing_Properties Boundary_Properties
    Execution_Properties Streaming_Properties Http_Sse_Properties End_To_End
begin

text \<open>
  A verification of the governed LLM gateway.

  \<^bold>\<open>The program.\<close> The gateway takes a request for a model completion, projects it to the metadata of
  a policy router, lets the router authorize logical model groups, narrows the authorized
  deployments of a catalogue by signed governance, ranks the eligible ones under a declared policy,
  and executes the ranking with bounded retries and fallbacks under a circuit breaker and an
  execution deadline. Beside it stand two stores with an audited in-memory implementation: the
  spend-admission ledger, which reserves, dispatches, settles and closes the cost of executions
  against budgets, and the credential-availability store, which serializes the validation of
  credential generations and quarantines rejected material. The sources are under
  \<open>src/packages/gateway-core/src/governed_llm_gateway_core\<close> (\<open>domain\<close>, \<open>application\<close>, \<open>adapters\<close>) and
  \<open>src/packages/gateway-contracts\<close>.

  \<^bold>\<open>How code becomes HOL.\<close> Dataclasses are records and enumerations datatypes with the source's
  names; the validation of \<open>__post_init__\<close> is a predicate \<open>X_ok\<close>, or a function \<open>X_check\<close> where the
  error matters. Functions that raise return a sum whose left side is the error. Methods of
  stateful objects are state transformers \<open>'s \<Rightarrow> ('e + 'a) \<times> 's\<close> (\<open>pymethod\<close> in \<open>Prelude\<close>), so what
  a raising call has already changed is visible. Clock readings, UUIDs, the policy router, the
  provider adapters and the regular-expression and JSON-schema libraries are arguments.
  Floats are exact multiples of \<open>2 ^ -1074\<close> with the IEEE rounding written out (\<open>PyFloat\<close>);
  decimals are rationals under the 28-digit context (\<open>PyDecimal\<close>); strings are lists of Latin-1
  characters, and digests are SHA-256 over their ASCII JSON (\<open>PyData\<close>).

  \<^bold>\<open>Theories.\<close>
  \<^item> \<open>Prelude\<close>, \<open>PyFloat\<close>, \<open>PyDecimal\<close>, \<open>PyData\<close>, \<open>Method_Logic\<close>: the shared library: error and state
    monads and their rules, keyed lists, the locales of machines with an invariant, numbers, JSON,
    dates, digests, and weakest preconditions.
  \<^item> \<open>Spend_Contract\<close> and \<open>Spend_Memory\<close> model \<open>domain/spend_admission.py\<close> and
    \<open>adapters/spend_admission_memory.py\<close>; \<open>Spend_Audit\<close>, \<open>Spend_Invariant\<close>, \<open>Spend_Steps\<close>,
    \<open>Spend_Methods\<close>, \<open>Spend_Theorems\<close> and \<open>Spend_Receipts\<close> carry the invariant of the ledger through
    every method; \<open>Spend_Properties\<close> (C1, C2, C8 to C13) shows that the self-audit never fails, budgets
    are respected and conserved, receipts are durable, failures publish nothing and latch, fences
    are unique and overruns suspend; that history only grows is a lemma.
  \<^item> \<open>Credential_Memory\<close>, \<open>Credential_Steps\<close>, \<open>Credential_Properties\<close> (C14 to C17) do the same for
    \<open>domain/credential_availability.py\<close> and its in-memory adapter.
  \<^item> \<open>Provider\<close>, \<open>Health\<close>, \<open>Health_Properties\<close> (C18 to C22): provider errors and usage
    (\<open>application/provider.py\<close>), the health values (\<open>domain/resilience.py\<close>) and the tracker
    (\<open>InMemoryHealthTracker\<close> of \<open>application/resilience.py\<close>), with a refinement of an abstract
    circuit breaker, the exact moment it opens under correlated and stale reports, recovery, and the
    fencing of a probe by its generation over any later sequence of calls.
  \<^item> \<open>Contracts\<close>, \<open>Structured\<close>, \<open>Provider_Request\<close>: the request contract, schema safety and the
    request sent to a provider. \<open>Registry\<close>, \<open>Registry_Laws\<close>: the catalogue and its canonical form.
    \<open>Governance\<close>, \<open>Policy\<close>: signed authorizations, projection and enforcement. \<open>Ranking_Policy\<close>,
    \<open>Ranking\<close>, \<open>Ranking_Laws\<close>: declared scores, eligibility, scoring and decisions. \<open>Contract_Laws\<close>
    and \<open>Demo\<close> hold declarative readings and a concrete catalogue. \<open>Routing_Properties\<close> (C23 to C28) and \<open>Boundary_Properties\<close> (C29 to C34) show that the registry is well formed and round
    trips up to the rounding of prices to 28 digits, ranking selects exactly the eligible candidates
    in a stable order with scores that approximate the weighted mean, transcripts and schemas are
    accepted exactly when safe (against a declarative reading of the schema keywords), projection and
    explanation never widen authority, enforcement sends the provider exactly one request for an
    authorized deployment and nothing otherwise (the provider calls are part of the state), and
    governance binds the signed facts up to the rounding of the cost. Where rounding makes a
    documented equality fail, a lemma exhibits the input.
  \<^item> \<open>Execution\<close> models \<open>ResilientExecutionService\<close>, \<open>application/execution_deadline.py\<close> and
    \<open>bounded_probe_call\<close>; \<open>Execution_Laws\<close> gives the postcondition of an attempt and of the loops;
    \<open>Execution_Health\<close> states the health port as a locale, proves the service's side of it once, and
    interprets it on the tracker; \<open>Execution_Properties\<close> (C5, C35 to C37) bounds calls and waits,
    accounts for results and errors, and shows that no recovery probe leaks.
  \<^item> \<open>Streaming\<close> models \<open>StreamingExecutionService\<close> of \<open>application/streaming.py\<close>,
    \<open>bounded_probe_events\<close> and the cached response. The generator's yields are points where the
    wrapper and the consumer, both inputs, may stop it. \<open>Streaming_Laws\<close> carries the invariant of the
    events and of the provider streams opened through the generator; \<open>Streaming_Health\<close> extends the
    health port by the admission check; \<open>Streaming_Properties\<close> (C6, C38, C39) shows the protocol of the
    published events, that nothing is replayed after output, that a stream ends with one terminal
    event, and that no recovery probe leaks; \<open>Streaming_Usage\<close> shows that the published events are
    well formed, belong to the request and agree on the usage.
  \<^item> \<open>Http_Sse\<close> models the reader of provider event streams (\<open>_HttpxSseStream\<close> of
    \<open>adapters/http_sse.py\<close>) on the chunks of a response; \<open>Http_Sse_Properties\<close> (C40) shows
    it equal to a reading of the whole byte stream, so chunk boundaries do not matter.
  \<^item> \<open>Json_Text\<close> models \<open>json.loads\<close> and proves that it inverts \<open>json.dumps\<close>. \<open>Event_Wire\<close> models what
    the HTTP application writes (\<open>_event_payload\<close>, \<open>_routing_payload\<close>, \<open>_encode_sse\<close> of
    \<open>gateway-api/stream_generate.py\<close>) and the client library (\<open>gateway-client\<close>): the framing and the strict
    decoders of \<open>_codec.py\<close>, the response checks, \<open>stream\<close> and \<open>generate\<close> of \<open>client.py\<close>.
    \<open>Event_Wire_Laws\<close> proves the payloads and decoders inverse value by value, \<open>Event_Frames\<close> the framing;
    \<open>Event_Wire_Properties\<close> (C7) is the round trip of a stream.
  \<^item> \<open>End_To_End\<close> (C3, C4) composes executor, encoder and client: the client understands every
    stream the executor completes, and accepts nothing but complete streams from anyone.

  \<^bold>\<open>Interfaces.\<close> The locales of \<open>Prelude\<close> (a machine with an invariant, and one whose states only
  extend) are interpreted on the ledger, the credential store and the tracker; \<open>health_port\<close> and its
  extension \<open>streaming_port\<close> are interpreted on the tracker. Properties rest on the facts of these interpretations.

  \<^bold>\<open>Bounds and fuel.\<close> Only the JSON scanner uses fuel, twice the length of its text, which
  \<open>json_loads_total\<close> proves enough. The retry loop counts down from
  \<open>max_attempts_per_deployment\<close> and the candidate loop runs over the truncated ranking, as in the
  code; a provider stream is a finite list of events with its ending; the schema walk is bounded by its own depth limit of 32.

  \<^bold>\<open>Not modelled.\<close> Telemetry and the best-effort operational recorder (no effect on results);
  asynchronous scheduling inside one method (each method body runs under its lock in the code);
  the type checks of dynamically typed arguments that a HOL type already excludes; URL validation;
  spend guard, cache identity, complexity routing and operational evidence;
  the adapters that translate vendor wire formats, the request side and the error mapping of the
  HTTP application, the construction of requests by the client library, benchmarks and scripts.
  Text beyond Latin-1 and floating-point numbers inside tool arguments are outside the wire model
  and reported as such by it, as are costs that are NaN or infinite (\<open>decode_cost\<close>). Cancellation is
  modelled at the provider call and at the points where a generator yields, not inside the retry
  sleep of \<open>execute\<close> and \<open>stream\<close> nor inside the cache read of \<open>stream\<close>. The recursion limit of
  \<open>json.loads\<close> (\<open>json_loads\<close> accepts any nesting) and the limit of 4300 digits of \<open>str\<close> on an integer
  (\<open>decimal_of\<close>) are not modelled.
\<close>

end
